(* ===== verification/Prelude.thy ===== *)
theory Prelude
  imports Main "HOL-Library.AList" "HOL-Library.Char_ord" "HOL-Library.List_Lexorder"
begin

text \<open>
  Shared vocabulary of the development: computations that can raise (a sum type with the
  error on the left), loops over a list that stop at the first error, Python dictionaries
  as association lists in insertion order, and the string helpers the modules use.
\<close>

named_theorems err_simps
named_theorems dict_simps
named_theorems log_simps

section \<open>Errors\<close>

text \<open>The exception classes the modelled code raises, one constructor each.\<close>

datatype err =
    ValueError | TypeError | KeyError | IndexError | RuntimeError | AssertionError | RecursionError
  | RetroactiveCorrectionError
  | ForkOutsideDosync | ForkChooseError | FoldIntoOutsideDosync | FoldIntoChooseError | OverflowError
  | NestedDosyncNotSupported | TxnDeadlineExceeded | TxnRetryExhausted
  | RefBranchMismatch | RefValueNotImmutable | SpecError | AuditStackMissing
  | AtomInDosyncProhibited | AtomCASExhausted | EffectInIoBlock
  | ParseError | PlanSpecError | UnimplementedNodeKind | StepIdNotFound | PlanEditOutsideDosync
  | PlanDepthExceeded | PlanCycleDetected | SkillNotRegistered | ExpanderContractError
  | MetricNotRegistered | OptimizerNotAvailable | GateFailure
  | UnknownCapability | UnknownStoreScheme | BackendNotInstalled
  | PromptHashMismatch | ReplayCacheMiss | RefusedInReplay
  | Unhandled | PolicyError | PolicyDenied | ApprovalRequired | TransientError
  | AttributeError | OpError int string | UserError string

definition ebind :: "'e + 'a \<Rightarrow> ('a \<Rightarrow> 'e + 'b) \<Rightarrow> 'e + 'b" where
  "ebind m f = (case m of Inl e \<Rightarrow> Inl e | Inr x \<Rightarrow> f x)"

lemma ebind_simps [simp, err_simps]:
  "ebind (Inl e) f = Inl e"
  "ebind (Inr x) f = f x"
  by (simp_all add: ebind_def)

lemma ebind_Inr_iff [err_simps]:
  "ebind m f = Inr y \<longleftrightarrow> (\<exists>x. m = Inr x \<and> f x = Inr y)"
  by (cases m) auto

lemma ebind_Inl_iff [err_simps]:
  "ebind m f = Inl e \<longleftrightarrow> m = Inl e \<or> (\<exists>x. m = Inr x \<and> f x = Inl e)"
  by (cases m) auto

lemma ebind_cong:
  assumes "m = m'" and "\<And>x. m' = Inr x \<Longrightarrow> f x = g x"
  shows "ebind m f = ebind m' g"
  using assms by (cases m') auto

text \<open>A \<open>for\<close> loop whose body may raise: the state is threaded, the first error stops it.\<close>

fun efold :: "('a \<Rightarrow> 's \<Rightarrow> 'e + 's) \<Rightarrow> 'a list \<Rightarrow> 's \<Rightarrow> 'e + 's" where
  "efold f [] s = Inr s"
| "efold f (x # xs) s = ebind (f x s) (efold f xs)"

lemma efold_append [simp]:
  "efold f (xs @ ys) s = ebind (efold f xs s) (efold f ys)"
  by (induction xs arbitrary: s) (auto simp: ebind_def split: sum.splits)

text \<open>An invariant of the body is an invariant of the loop.\<close>

lemma efold_invariant:
  assumes "efold f xs s = Inr s'" and "I s"
    and "\<And>x t t'. x \<in> set xs \<Longrightarrow> I t \<Longrightarrow> f x t = Inr t' \<Longrightarrow> I t'"
  shows "I s'"
  using assms
proof (induction xs arbitrary: s)
  case Nil
  then show ?case by simp
next
  case (Cons x xs)
  then obtain t where "f x s = Inr t" "efold f xs t = Inr s'"
    by (auto simp: ebind_Inr_iff)
  with Cons show ?case by (metis list.set_intros(1,2))
qed

text \<open>A simulation between two loop bodies lifts to the loops, errors included.\<close>

lemma efold_simulation:
  assumes "R s t"
    and "\<And>x s t. x \<in> set xs \<Longrightarrow> R s t \<Longrightarrow>
      (\<exists>e. f x s = Inl e \<and> g x t = Inl e) \<or>
      (\<exists>s' t'. f x s = Inr s' \<and> g x t = Inr t' \<and> R s' t')"
  shows "(\<exists>e. efold f xs s = Inl e \<and> efold g xs t = Inl e) \<or>
      (\<exists>s' t'. efold f xs s = Inr s' \<and> efold g xs t = Inr t' \<and> R s' t')"
  using assms
proof (induction xs arbitrary: s t)
  case Nil
  then show ?case by simp
next
  case (Cons x xs)
  from Cons.prems(2)[of x s t] Cons.prems(1)
  consider e where "f x s = Inl e" "g x t = Inl e"
    | s' t' where "f x s = Inr s'" "g x t = Inr t'" "R s' t'"
    by auto
  then show ?case
  proof cases
    case 1
    then show ?thesis by simp
  next
    case 2
    then show ?thesis using Cons.IH[of s' t'] Cons.prems(2) by simp
  qed
qed

text \<open>A comprehension whose body may raise.\<close>

fun emap :: "('a \<Rightarrow> 'e + 'b) \<Rightarrow> 'a list \<Rightarrow> 'e + 'b list" where
  "emap f [] = Inr []"
| "emap f (x # xs) = ebind (f x) (\<lambda>y. ebind (emap f xs) (\<lambda>ys. Inr (y # ys)))"

lemma emap_cong [fundef_cong]:
  assumes "xs = ys" and "\<And>x. x \<in> set ys \<Longrightarrow> f x = g x"
  shows "emap f xs = emap g ys"
  using assms by (induction xs arbitrary: ys) auto

lemma emap_Inr:
  assumes "\<And>x. x \<in> set xs \<Longrightarrow> f x = Inr (g x)"
  shows "emap f xs = Inr (map g xs)"
  using assms by (induction xs) auto

lemma emap_Inr_iff: "emap f xs = Inr ys \<longleftrightarrow> list_all2 (\<lambda>x y. f x = Inr y) xs ys"
proof (induction xs arbitrary: ys)
  case Nil
  then show ?case by auto
next
  case (Cons x xs)
  then show ?case by (cases ys) (auto simp: ebind_Inr_iff)
qed

text \<open>A search for the first element with a result, by a test that may raise.\<close>

fun efirst :: "('a \<Rightarrow> err + 'b option) \<Rightarrow> 'a list \<Rightarrow> err + 'b option" where
  "efirst f [] = Inr None"
| "efirst f (x # xs) = ebind (f x) (\<lambda>r. if r = None then efirst f xs else Inr r)"

lemma efirst_cong [fundef_cong]:
  assumes "xs = ys" and "\<And>x. x \<in> set ys \<Longrightarrow> f x = g x"
  shows "efirst f xs = efirst g ys"
  using assms by (induction xs arbitrary: ys) (auto intro!: ebind_cong)

lemma efirst_None_iff: "efirst f xs = Inr None \<longleftrightarrow> (\<forall>x \<in> set xs. f x = Inr None)"
  by (induction xs) (auto simp: ebind_Inr_iff)

section \<open>Dictionaries\<close>

type_synonym 'v dict = "(string \<times> 'v) list"

abbreviation dget :: "'v dict \<Rightarrow> string \<Rightarrow> 'v option" where
  "dget d k \<equiv> map_of d k"

abbreviation dset :: "string \<Rightarrow> 'v \<Rightarrow> 'v dict \<Rightarrow> 'v dict" where
  "dset \<equiv> AList.update"

text \<open>\<open>{**d, **e}\<close> and \<open>d.update(e)\<close>: later keys win, old keys keep their place.\<close>

definition dmerge :: "'v dict \<Rightarrow> 'v dict \<Rightarrow> 'v dict" where
  "dmerge d e = fold (\<lambda>(k, v). dset k v) e d"

lemma dget_dset [simp, dict_simps]: "dget (dset k v d) = (dget d)(k \<mapsto> v)"
  by (rule update_conv')

lemma dset_Nil [simp]: "dset k v [] = [(k, v)]"
  by simp

lemma dset_same [dict_simps]: "dget d k = Some v \<Longrightarrow> dset k v d = d"
  by (induction d) auto

lemma dset_notin [dict_simps]: "dget d k = None \<Longrightarrow> dset k v d = d @ [(k, v)]"
  by (induction d) auto

lemma dget_map_val [dict_simps]:
  "dget (map (\<lambda>(k, v). (k, f v)) d) k = map_option f (dget d k)"
  by (induction d) auto

section \<open>Strings\<close>

definition lstrip_colon :: "string \<Rightarrow> string" where
  "lstrip_colon s = dropWhile (\<lambda>c. c = CHR '':'') s"

definition startswith :: "string \<Rightarrow> string \<Rightarrow> bool" where
  "startswith p s \<longleftrightarrow> take (length p) s = p"

lemma lstrip_colon_idem [simp]: "lstrip_colon (lstrip_colon s) = lstrip_colon s"
  by (simp add: lstrip_colon_def dropWhile_idem)

lemma lstrip_colon_Cons [simp]: "lstrip_colon (CHR '':'' # s) = lstrip_colon s"
  by (simp add: lstrip_colon_def)

lemma startswith_append [simp]: "startswith p (p @ s)"
  by (simp add: startswith_def)

lemma startswith_iff: "startswith p s \<longleftrightarrow> (\<exists>t. s = p @ t)"
  unfolding startswith_def by (metis append_eq_conv_conj append_take_drop_id)

fun join :: "string \<Rightarrow> string list \<Rightarrow> string" where
  "join sep [] = []"
| "join sep [x] = x"
| "join sep (x # y # xs) = x @ sep @ join sep (y # xs)"

section \<open>Lists\<close>

text \<open>The stable \<open>sorted(..., key=f)\<close> of Python is \<open>sort_key f\<close>.\<close>

lemma find_rev_append:
  "find P (rev (xs @ ys)) = (case find P (rev ys) of Some x \<Rightarrow> Some x | None \<Rightarrow> find P (rev xs))"
proof -
  have *: "find P (as @ bs) = (case find P as of Some x \<Rightarrow> Some x | None \<Rightarrow> find P bs)" for as bs
    by (induction as) auto
  show ?thesis by (simp add: *)
qed

lemma find_append:
  "find P (xs @ ys) = (case find P xs of Some x \<Rightarrow> Some x | None \<Rightarrow> find P ys)"
  by (induction xs) auto

lemma find_SomeD: "find P xs = Some x \<Longrightarrow> x \<in> set xs \<and> P x"
  by (induction xs) (auto split: if_splits)

lemma filter_map_comm:
  assumes "\<And>x. P (f x) = P x"
  shows "filter P (map f xs) = map f (filter P xs)"
  using assms by (induction xs) auto

lemma foldl_invariant:
  assumes "I s" and "\<And>x t. I t \<Longrightarrow> x \<in> set xs \<Longrightarrow> I (f t x)"
  shows "I (foldl f s xs)"
  using assms by (induction xs arbitrary: s) auto

end
