(* ===== verification/Values.thy ===== *)
theory Values
  imports Prelude
begin

text \<open>
  The values a fact can carry (\<open>Datom.v\<close>, provenance values, effect arguments): the
  EDN/JSON-serialisable Python values, with Python's equality, hashability and the
  canonical JSON text used by \<open>_freeze\<close> and the codecs. Floats are left out (a float
  leaf behaves like any other hashable scalar); dictionary keys are strings.
\<close>

datatype val =
    VNone
  | VBool bool
  | VInt int
  | VStr string
  | VTuple "val list"
  | VList "val list"
  | VDict "(string \<times> val) list"

section \<open>Python equality\<close>

text \<open>
  Two values are equal in Python iff their normal forms are: \<open>True == 1\<close>, and
  dictionaries compare without regard to insertion order.
\<close>

fun pnorm :: "val \<Rightarrow> val" where
  "pnorm VNone = VNone"
| "pnorm (VBool b) = VInt (if b then 1 else 0)"
| "pnorm (VInt i) = VInt i"
| "pnorm (VStr s) = VStr s"
| "pnorm (VTuple xs) = VTuple (map pnorm xs)"
| "pnorm (VList xs) = VList (map pnorm xs)"
| "pnorm (VDict kvs) = VDict (sort_key fst (map (\<lambda>(k, v). (k, pnorm v)) kvs))"

definition py_eq :: "val \<Rightarrow> val \<Rightarrow> bool" where
  "py_eq v w \<longleftrightarrow> pnorm v = pnorm w"

lemma py_eq_refl [simp]: "py_eq v v"
  by (simp add: py_eq_def)

lemma py_eq_sym: "py_eq v w \<Longrightarrow> py_eq w v"
  by (simp add: py_eq_def)

lemma py_eq_trans [trans]: "py_eq u v \<Longrightarrow> py_eq v w \<Longrightarrow> py_eq u w"
  by (simp add: py_eq_def)

fun truthy :: "val \<Rightarrow> bool" where
  "truthy VNone = False"
| "truthy (VBool b) = b"
| "truthy (VInt i) = (i \<noteq> 0)"
| "truthy (VStr s) = (s \<noteq> [])"
| "truthy (VTuple xs) = (xs \<noteq> [])"
| "truthy (VList xs) = (xs \<noteq> [])"
| "truthy (VDict kvs) = (kvs \<noteq> [])"

text \<open>\<open>hash(v)\<close> raises on lists and dictionaries, and on tuples that hold one.\<close>

fun hashable :: "val \<Rightarrow> bool" where
  "hashable (VList _) = False"
| "hashable (VDict _) = False"
| "hashable (VTuple xs) = list_all hashable xs"
| "hashable _ = True"

section \<open>Canonical JSON\<close>

text \<open>\<open>json.dumps(value, sort_keys=True)\<close> with Python's default separators and
  \<open>ensure_ascii=True\<close>.\<close>

definition hex_digit :: "nat \<Rightarrow> char" where
  "hex_digit n = ''0123456789abcdef'' ! (n mod 16)"

definition json_char :: "char \<Rightarrow> string" where
  "json_char c =
     (if c = CHR 0x22 then [CHR 0x5C, CHR 0x22]
      else if c = CHR 0x5C then [CHR 0x5C, CHR 0x5C]
      else if c = CHR 0x0A then [CHR 0x5C, CHR ''n'']
      else if c = CHR 0x0D then [CHR 0x5C, CHR ''r'']
      else if c = CHR 0x09 then [CHR 0x5C, CHR ''t'']
      else if c = CHR 0x08 then [CHR 0x5C, CHR ''b'']
      else if c = CHR 0x0C then [CHR 0x5C, CHR ''f'']
      else let n = (of_char c :: nat) in
        if 32 \<le> n \<and> n \<le> 126 then [c]
        else [CHR 0x5C, CHR ''u'', CHR ''0'', CHR ''0'', hex_digit (n div 16), hex_digit n])"

definition json_string :: "string \<Rightarrow> string" where
  "json_string s = [CHR 0x22] @ concat (map json_char s) @ [CHR 0x22]"

fun nat_str :: "nat \<Rightarrow> string" where
  "nat_str n = (if n < 10 then [hex_digit n] else nat_str (n div 10) @ [hex_digit (n mod 10)])"

declare nat_str.simps [simp del]

definition int_str :: "int \<Rightarrow> string" where
  "int_str i = (if i < 0 then CHR ''-'' # nat_str (nat (- i)) else nat_str (nat i))"

fun canonical_json :: "val \<Rightarrow> string" where
  "canonical_json VNone = ''null''"
| "canonical_json (VBool b) = (if b then ''true'' else ''false'')"
| "canonical_json (VInt i) = int_str i"
| "canonical_json (VStr s) = json_string s"
| "canonical_json (VTuple xs) = ''['' @ join '', '' (map canonical_json xs) @ '']''"
| "canonical_json (VList xs) = ''['' @ join '', '' (map canonical_json xs) @ '']''"
| "canonical_json (VDict kvs) =
     CHR 0x7B # join '', ''
       (map (\<lambda>(k, s). json_string k @ '': '' @ s)
          (sort_key fst (map (\<lambda>(k, v). (k, canonical_json v)) kvs)))
     @ [CHR 0x7D]"

text \<open>\<open>_freeze\<close>: hashable values pass through, the others become their JSON text.\<close>

definition freeze :: "val \<Rightarrow> val" where
  "freeze v = (if hashable v then v else VStr (canonical_json v))"

lemma freeze_scalar [simp]:
  "freeze (VInt i) = VInt i" "freeze (VStr s) = VStr s" "freeze VNone = VNone"
  "freeze (VBool b) = VBool b"
  by (simp_all add: freeze_def)

end
