(* ===== verification/Datoms.thy ===== *)
theory Datoms
  imports Values
begin

text \<open>
  \<open>persistence.fact.datom\<close>: the eight-tuple datom with provenance and invalidation
  pointer, and the validation and normalisation its constructor runs.
\<close>

section \<open>Timestamps\<close>

text \<open>
  A timezone-aware datetime is the instant it denotes, in microseconds since the epoch
  (Python compares aware datetimes by instant); a naive one is kept apart, because the
  code refuses it.
\<close>

datatype pydt = Aware int | Naive int

datatype dop = Assert | Retract

type_synonym prov = "val dict"

record datom =
  d_e :: string
  d_a :: string
  d_v :: val
  d_tx :: int
  d_tx_time :: int
  d_valid_from :: int
  d_valid_to :: "int option"
  d_op :: dop
  d_provenance :: prov
  d_invalidated_by :: "int option"

section \<open>The constructor\<close>

text \<open>\<open>__post_init__\<close>: the attribute and the provenance source lose their leading
  colons; a source that is not a string is left alone.\<close>

definition canon_source :: "prov \<Rightarrow> prov" where
  "canon_source p =
     (case dget p ''source'' of
        Some (VStr s) \<Rightarrow>
          if lstrip_colon s \<noteq> s then dset ''source'' (VStr (lstrip_colon s)) p else p
      | _ \<Rightarrow> p)"

definition post_init :: "datom \<Rightarrow> datom" where
  "post_init d =
     d\<lparr>d_a := lstrip_colon (d_a d), d_provenance := canon_source (d_provenance d)\<rparr>"

fun dop_of :: "string \<Rightarrow> err + dop" where
  "dop_of s = (if s = ''assert'' then Inr Assert
     else if s = ''retract'' then Inr Retract else Inl ValueError)"

fun aware :: "pydt \<Rightarrow> err + int" where
  "aware (Aware t) = Inr t"
| "aware (Naive t) = Inl ValueError"

fun aware_opt :: "pydt option \<Rightarrow> err + int option" where
  "aware_opt None = Inr None"
| "aware_opt (Some t) = ebind (aware t) (\<lambda>i. Inr (Some i))"

text \<open>\<open>Datom(...)\<close>: the checks in the order of \<open>__post_init__\<close>, then the
  normalisation.\<close>

definition mk_datom ::
  "string \<Rightarrow> string \<Rightarrow> val \<Rightarrow> int \<Rightarrow> pydt \<Rightarrow> pydt \<Rightarrow> pydt option \<Rightarrow> string \<Rightarrow> prov \<Rightarrow>
   int option \<Rightarrow> err + datom" where
  "mk_datom e a v tx tx_time valid_from valid_to opn provenance invalidated_by =
     ebind (dop_of opn) (\<lambda>w.
     ebind (aware tx_time) (\<lambda>tt.
     ebind (aware valid_from) (\<lambda>vf.
     ebind (aware_opt valid_to) (\<lambda>vt.
       Inr (post_init \<lparr>d_e = e, d_a = a, d_v = v, d_tx = tx, d_tx_time = tt,
         d_valid_from = vf, d_valid_to = vt, d_op = w, d_provenance = provenance,
         d_invalidated_by = invalidated_by\<rparr>)))))"

lemma post_init_sel [simp]:
  "d_e (post_init d) = d_e d" "d_a (post_init d) = lstrip_colon (d_a d)"
  "d_v (post_init d) = d_v d" "d_tx (post_init d) = d_tx d"
  "d_tx_time (post_init d) = d_tx_time d" "d_valid_from (post_init d) = d_valid_from d"
  "d_valid_to (post_init d) = d_valid_to d" "d_op (post_init d) = d_op d"
  "d_provenance (post_init d) = canon_source (d_provenance d)"
  "d_invalidated_by (post_init d) = d_invalidated_by d"
  by (simp_all add: post_init_def)

lemma canon_source_idem [simp]: "canon_source (canon_source p) = canon_source p"
  by (auto simp: canon_source_def split: option.splits val.splits)

lemma post_init_idem [simp]: "post_init (post_init d) = post_init d"
  by (simp add: post_init_def)

text \<open>A datom the constructor can return is a fixed point of its normalisation.\<close>

definition wf_datom :: "datom \<Rightarrow> bool" where
  "wf_datom d \<longleftrightarrow> post_init d = d"

lemma wf_post_init [simp]: "wf_datom (post_init d)"
  by (simp add: wf_datom_def)

lemma wf_datom_iff:
  "wf_datom d \<longleftrightarrow> lstrip_colon (d_a d) = d_a d \<and> canon_source (d_provenance d) = d_provenance d"
  by (cases d) (auto simp: wf_datom_def post_init_def)

lemma mk_datom_Inr:
  "mk_datom e a v tx tt vf vt opn p i = Inr d \<Longrightarrow>
     wf_datom d \<and> d_e d = e \<and> d_a d = lstrip_colon a \<and> d_v d = v \<and> d_tx d = tx \<and>
     Aware (d_tx_time d) = tt \<and> Aware (d_valid_from d) = vf \<and>
     map_option Aware (d_valid_to d) = vt \<and> dop_of opn = Inr (d_op d) \<and>
     d_provenance d = canon_source p \<and> d_invalidated_by d = i"
  by (cases tt; cases vf; cases vt) (auto simp: mk_datom_def ebind_Inr_iff split: if_splits elim!: aware.elims)

section \<open>Typed provenance\<close>

text \<open>\<open>provenance_from_dict\<close>: known keys stay at top level, the rest moves under
  \<open>extra\<close>, after the keys \<open>extra\<close> already had.\<close>

definition provenance_known_keys :: "string list" where
  "provenance_known_keys =
     [''source'', ''tx_time'', ''handler_id'', ''canonical_call'',
      ''parent_provenance_hash'', ''superseded_by_tx'']"

definition raw_extra :: "prov \<Rightarrow> prov" where
  "raw_extra raw = (case dget raw ''extra'' of Some (VDict x) \<Rightarrow> x | _ \<Rightarrow> [])"

fun lift_keys :: "prov \<Rightarrow> prov \<times> prov \<Rightarrow> prov \<times> prov" where
  "lift_keys [] acc = acc"
| "lift_keys ((k, v) # kvs) (out, extra) =
     (if k = ''extra'' then lift_keys kvs (out, extra)
      else if k \<in> set provenance_known_keys then lift_keys kvs (dset k v out, extra)
      else lift_keys kvs (out, dset k v extra))"

definition provenance_from_dict :: "prov \<Rightarrow> prov" where
  "provenance_from_dict raw =
     (if raw = [] then []
      else case lift_keys raw ([], raw_extra raw) of
        (out, extra) \<Rightarrow> if extra \<noteq> [] then dset ''extra'' (VDict extra) out else out)"

end
