(* ===== verification/Store.thy ===== *)
theory Store
  imports Datoms
begin

text \<open>
  \<open>persistence.fact.store\<close> and \<open>persistence.store._codec\<close>: the in-memory append
  log. A store is its list of datoms in insertion order; every method runs under the
  store's reentrant lock, so each is one atomic step of the model.
\<close>

type_synonym log = "datom list"

definition TX_PLACEHOLDER :: int where
  "TX_PLACEHOLDER = -1"

section \<open>Copying datoms\<close>

text \<open>\<open>with_tx\<close> rewrites the transaction id and every top-level provenance value that
  equals the placeholder, and goes through the constructor again.\<close>

definition is_placeholder :: "val \<Rightarrow> bool" where
  "is_placeholder v \<longleftrightarrow> py_eq v (VInt TX_PLACEHOLDER)"

definition patch_prov :: "int \<Rightarrow> prov \<Rightarrow> prov" where
  "patch_prov tx p =
     (if p \<noteq> [] \<and> list_ex (\<lambda>(k, v). is_placeholder v) p
      then map (\<lambda>(k, v). (k, if is_placeholder v then VInt tx else v)) p else p)"

definition with_tx :: "int \<Rightarrow> datom \<Rightarrow> datom" where
  "with_tx tx d = post_init (d\<lparr>d_tx := tx, d_provenance := patch_prov tx (d_provenance d)\<rparr>)"

definition replace_tx_time :: "int \<Rightarrow> datom \<Rightarrow> datom" where
  "replace_tx_time t d = post_init (d\<lparr>d_tx_time := t\<rparr>)"

section \<open>InMemoryStore\<close>

definition append_datoms :: "log \<Rightarrow> datom list \<Rightarrow> log" where
  "append_datoms l ds = l @ ds"

definition next_tx :: "log \<Rightarrow> int" where
  "next_tx l = (case map d_tx l of [] \<Rightarrow> 1 | x # xs \<Rightarrow> fold max xs x + 1)"

definition allocate_and_append :: "log \<Rightarrow> datom list \<Rightarrow> log \<times> datom list" where
  "allocate_and_append l ds =
     (if ds = [] then (l, [])
      else let tx = next_tx l; out = map (with_tx tx) ds in (l @ out, out))"

definition since :: "log \<Rightarrow> int \<Rightarrow> datom list" where
  "since l t = filter (\<lambda>d. t < d_tx_time d) l"

definition mark_one :: "int \<Rightarrow> int \<Rightarrow> datom \<Rightarrow> datom" where
  "mark_one tx by d =
     (if d_tx d = tx \<and> d_invalidated_by d = None \<and> d_op d = Assert
      then post_init (d\<lparr>d_invalidated_by := Some by\<rparr>) else d)"

definition mark_invalidated :: "log \<Rightarrow> int \<Rightarrow> int \<Rightarrow> log" where
  "mark_invalidated l tx by = map (mark_one tx by) l"

definition transact_serializable :: "log \<Rightarrow> datom list \<Rightarrow> int option \<Rightarrow> log \<times> int" where
  "transact_serializable l ds tx_time =
     (if ds = [] then (l, 0)
      else let ds' = (case tx_time of None \<Rightarrow> ds | Some t \<Rightarrow> map (replace_tx_time t) ds)
        in case allocate_and_append l ds' of (l', out) \<Rightarrow> (l', d_tx (hd out)))"

section \<open>Facts about the store\<close>

lemma fold_max_ge_start: "x \<le> fold max xs (x :: int)"
  by (induction xs arbitrary: x) (auto, metis max.bounded_iff)

lemma fold_max_ge: "y \<in> set xs \<Longrightarrow> y \<le> fold max xs (x :: int)"
  by (induction xs arbitrary: x) (auto, metis fold_max_ge_start max.bounded_iff)

lemma next_tx_greater: "d \<in> set l \<Longrightarrow> d_tx d < next_tx l"
proof -
  assume "d \<in> set l"
  then have "d_tx d \<in> set (map d_tx l)" by simp
  then show ?thesis
    unfolding next_tx_def by (cases "map d_tx l") (auto simp: zle_add1_eq_le fold_max_ge_start fold_max_ge)
qed

lemma with_tx_sel [simp]:
  "d_e (with_tx tx d) = d_e d" "d_a (with_tx tx d) = lstrip_colon (d_a d)"
  "d_v (with_tx tx d) = d_v d" "d_tx (with_tx tx d) = tx"
  "d_tx_time (with_tx tx d) = d_tx_time d" "d_valid_from (with_tx tx d) = d_valid_from d"
  "d_valid_to (with_tx tx d) = d_valid_to d" "d_op (with_tx tx d) = d_op d"
  "d_invalidated_by (with_tx tx d) = d_invalidated_by d"
  by (simp_all add: with_tx_def)

lemma wf_with_tx [simp]: "wf_datom (with_tx tx d)"
  by (simp add: with_tx_def)

text \<open>What survives every store operation: a datom with its pointer and its placement
  in the log removed from view.\<close>

definition erase :: "datom \<Rightarrow> datom" where
  "erase d = d\<lparr>d_invalidated_by := None\<rparr>"

lemma erase_sel [simp]:
  "d_e (erase d) = d_e d" "d_a (erase d) = d_a d" "d_v (erase d) = d_v d"
  "d_tx (erase d) = d_tx d" "d_tx_time (erase d) = d_tx_time d"
  "d_valid_from (erase d) = d_valid_from d" "d_valid_to (erase d) = d_valid_to d"
  "d_op (erase d) = d_op d" "d_provenance (erase d) = d_provenance d"
  "d_invalidated_by (erase d) = None"
  by (simp_all add: erase_def)

lemma mark_one_sel [simp]:
  "wf_datom d \<Longrightarrow> erase (mark_one tx by d) = erase d"
  "d_e (mark_one tx by d) = d_e d" "d_v (mark_one tx by d) = d_v d"
  "d_tx (mark_one tx by d) = d_tx d" "d_tx_time (mark_one tx by d) = d_tx_time d"
  "d_valid_from (mark_one tx by d) = d_valid_from d"
  "d_valid_to (mark_one tx by d) = d_valid_to d" "d_op (mark_one tx by d) = d_op d"
  "wf_datom d \<Longrightarrow> d_a (mark_one tx by d) = d_a d"
  by (cases d, auto simp: mark_one_def erase_def post_init_def wf_datom_iff)+

lemma wf_mark_one [simp]: "wf_datom d \<Longrightarrow> wf_datom (mark_one tx by d)"
  by (simp add: mark_one_def)

lemma mark_one_pointer_once:
  "d_invalidated_by d = Some x \<Longrightarrow> mark_one tx by d = d"
  by (simp add: mark_one_def)

end
