(* ===== verification/Db.thy ===== *)
theory Db
  imports Store
begin

text \<open>
  \<open>persistence.fact.db\<close>: the transactor with cardinality-one auto-retraction
  (\<open>transact\<close>, \<open>transact_batch\<close>), the bitemporal reads (\<open>as_of\<close>,
  \<open>as_of_valid\<close>, \<open>since\<close>, \<open>history\<close>), \<open>branch\<close>, and the entity projection
  of a view. A \<open>DB\<close> over an in-memory store is the store's log; each call takes the
  environment it reads (the clock and the digest of a fact) as an argument.
\<close>

section \<open>Facts and the environment\<close>

text \<open>The value under \<open>valid_from\<close>/\<open>valid_to\<close> of a fact dictionary: a datetime, an
  ISO string, or anything else that is truthy.\<close>

datatype dtarg = DtVal pydt | DtIso string | DtOther

record fact =
  f_e :: string
  f_a :: string
  f_v :: val
  f_valid_from :: "dtarg option"
  f_valid_to :: "dtarg option"
  f_op :: "string option"

text \<open>\<open>env_now\<close> is what \<open>self._clock()\<close> returns, \<open>env_digest\<close> stands for
  \<open>_hash_fact\<close> (a prefix of a SHA-256 digest) and \<open>env_iso\<close> for
  \<open>datetime.fromisoformat\<close>, \<open>None\<close> when that raises.\<close>

record env =
  env_now :: int
  env_digest :: "fact \<Rightarrow> string"
  env_iso :: "string \<Rightarrow> pydt option"

fun coerce_dt :: "env \<Rightarrow> dtarg \<Rightarrow> err + pydt" where
  "coerce_dt env (DtVal (Naive t)) = Inl ValueError"
| "coerce_dt env (DtVal (Aware t)) = Inr (Aware t)"
| "coerce_dt env (DtIso s) =
     (case env_iso env s of None \<Rightarrow> Inl ValueError | Some t \<Rightarrow> Inr t)"
| "coerce_dt env DtOther = Inl TypeError"

definition fact_op :: "fact \<Rightarrow> string" where
  "fact_op f = (case f_op f of None \<Rightarrow> ''assert'' | Some s \<Rightarrow> s)"

definition fact_vf :: "env \<Rightarrow> fact \<Rightarrow> err + pydt" where
  "fact_vf env f =
     (case f_valid_from f of None \<Rightarrow> coerce_dt env (DtVal (Aware (env_now env)))
      | Some x \<Rightarrow> coerce_dt env x)"

definition fact_vt :: "env \<Rightarrow> fact \<Rightarrow> err + pydt option" where
  "fact_vt env f =
     (case f_valid_to f of None \<Rightarrow> Inr None
      | Some (DtIso []) \<Rightarrow> Inr None
      | Some x \<Rightarrow> ebind (coerce_dt env x) (\<lambda>t. Inr (Some t)))"

section \<open>Auto-retraction\<close>

definition is_open :: "datom \<Rightarrow> bool" where
  "is_open d \<longleftrightarrow> d_op d = Assert \<and> d_invalidated_by d = None \<and> d_valid_to d = None"

definition find_prior_assert :: "datom list \<Rightarrow> string \<Rightarrow> string \<Rightarrow> datom option" where
  "find_prior_assert ds e a =
     find (\<lambda>d. d_e d = e \<and> d_a d = a \<and> is_open d) (rev ds)"

text \<open>The companion retract of a superseded assert, with the placeholder transaction id.\<close>

definition companion :: "env \<Rightarrow> datom \<Rightarrow> int \<Rightarrow> int \<Rightarrow> datom" where
  "companion env prior from to =
     post_init \<lparr>d_e = d_e prior, d_a = d_a prior, d_v = d_v prior, d_tx = TX_PLACEHOLDER,
       d_tx_time = env_now env, d_valid_from = from, d_valid_to = Some to, d_op = Retract,
       d_provenance = dset ''superseded_by_tx'' (VInt TX_PLACEHOLDER) (d_provenance prior),
       d_invalidated_by = None\<rparr>"

text \<open>Shaped datoms and the transaction ids to stamp as superseded.\<close>

type_synonym shaped = "datom list \<times> int list"

definition supersede ::
  "env \<Rightarrow> bool \<Rightarrow> pydt \<Rightarrow> datom \<Rightarrow> shaped \<Rightarrow> err + shaped" where
  "supersede env force vf prior s =
     (case vf of
        Naive _ \<Rightarrow> Inl TypeError
      | Aware t \<Rightarrow>
          if t < d_valid_from prior then
            if \<not> force then Inl RetroactiveCorrectionError
            else Inr (fst s @ [companion env prior t (d_valid_from prior)], snd s @ [d_tx prior])
          else Inr (fst s @ [companion env prior (d_valid_from prior) t], snd s @ [d_tx prior]))"

definition fact_datom :: "env \<Rightarrow> prov \<Rightarrow> fact \<Rightarrow> pydt \<Rightarrow> pydt option \<Rightarrow> err + datom" where
  "fact_datom env prov_base f vf vt =
     mk_datom (f_e f) (f_a f) (f_v f) TX_PLACEHOLDER (Aware (env_now env)) vf vt (fact_op f)
       (dset ''prompt_hash'' (VStr (env_digest env f)) prov_base) None"

section \<open>transact\<close>

definition transact_step ::
  "env \<Rightarrow> prov \<Rightarrow> bool \<Rightarrow> log \<Rightarrow> fact \<Rightarrow> shaped \<Rightarrow> err + shaped" where
  "transact_step env prov_base force current_log f s =
     ebind (fact_vf env f) (\<lambda>vf.
     ebind (fact_vt env f) (\<lambda>vt.
     ebind (if fact_op f = ''assert''
            then (case find_prior_assert (current_log @ fst s) (f_e f) (f_a f) of
                    None \<Rightarrow> Inr s | Some prior \<Rightarrow> supersede env force vf prior s)
            else Inr s) (\<lambda>s'.
     ebind (fact_datom env prov_base f vf vt) (\<lambda>d.
       Inr (fst s' @ [d], snd s')))))"

text \<open>The atomic append, then one \<open>mark_invalidated\<close> per superseded transaction.\<close>

definition commit_shaped :: "log \<Rightarrow> shaped \<Rightarrow> log" where
  "commit_shaped l s =
     (case allocate_and_append l (fst s) of (l', stored) \<Rightarrow>
        if stored = [] then l'
        else foldl (\<lambda>m old_tx. mark_invalidated m old_tx (d_tx (hd stored))) l' (snd s))"

definition transact :: "env \<Rightarrow> log \<Rightarrow> fact list \<Rightarrow> prov \<Rightarrow> bool \<Rightarrow> err + log" where
  "transact env l facts provenance force =
     (if facts = [] then Inr l
      else ebind (efold (transact_step env provenance force l) facts ([], []))
             (\<lambda>s. Inr (commit_shaped l s)))"

section \<open>transact_batch\<close>

type_synonym open_index = "string \<times> string \<Rightarrow> datom option"

definition index_step :: "datom \<Rightarrow> open_index \<Rightarrow> open_index" where
  "index_step d ix =
     (if \<not> is_open d then ix
      else if ix (d_e d, d_a d) = None then ix((d_e d, d_a d) \<mapsto> d) else ix)"

definition prior_index :: "log \<Rightarrow> open_index" where
  "prior_index l = fold index_step (rev l) Map.empty"

text \<open>Newest first: the loop state is the shaped datoms and \<open>in_batch_open\<close>.\<close>

definition batch_step ::
  "env \<Rightarrow> prov \<Rightarrow> bool \<Rightarrow> open_index \<Rightarrow> fact \<Rightarrow> shaped \<times> open_index \<Rightarrow>
   err + shaped \<times> open_index" where
  "batch_step env prov_base force prior_ix f st =
     (let s = fst st; in_batch_open = snd st; key = (f_e f, f_a f) in
     ebind (fact_vf env f) (\<lambda>vf.
     ebind (fact_vt env f) (\<lambda>vt.
     ebind (if fact_op f = ''assert''
            then (case (case in_batch_open key of Some d \<Rightarrow> Some d | None \<Rightarrow> prior_ix key) of
                    None \<Rightarrow> Inr (s, in_batch_open)
                  | Some prior \<Rightarrow> ebind (supersede env force vf prior s)
                      (\<lambda>s'. Inr (s', in_batch_open(key := None))))
            else Inr (s, in_batch_open)) (\<lambda>(s', ibo).
     ebind (fact_datom env prov_base f vf vt) (\<lambda>d.
       Inr ((fst s' @ [d], snd s'),
            if fact_op f = ''assert'' \<and> vt = None then ibo(key \<mapsto> d) else ibo))))))"

definition transact_batch :: "env \<Rightarrow> log \<Rightarrow> fact list \<Rightarrow> prov \<Rightarrow> bool \<Rightarrow> err + log" where
  "transact_batch env l facts provenance force =
     (if facts = [] then Inr l
      else ebind (efold (batch_step env provenance force (prior_index l)) facts
                    (([], []), Map.empty))
             (\<lambda>st. Inr (commit_shaped l (fst st))))"

section \<open>Reads\<close>

definition as_of :: "log \<Rightarrow> int \<Rightarrow> datom list" where
  "as_of l t = filter (\<lambda>d. d_tx_time d \<le> t) l"

definition as_of_valid :: "log \<Rightarrow> int \<Rightarrow> datom list" where
  "as_of_valid l vt =
     filter (\<lambda>d. d_op d = Assert \<and> d_valid_from d \<le> vt \<and>
       (case d_valid_to d of None \<Rightarrow> True | Some u \<Rightarrow> \<not> u \<le> vt)) l"

definition history :: "log \<Rightarrow> string \<Rightarrow> datom list" where
  "history l e = sort_key d_tx (filter (\<lambda>d. d_e d = e) l)"

section \<open>DBView.entity\<close>

text \<open>The key under which a retract closes an assert; keys compare with Python equality.\<close>

type_synonym rkey = "string \<times> val \<times> int"

definition rkey :: "datom \<Rightarrow> rkey" where
  "rkey d = (d_a d, pnorm (freeze (d_v d)), d_valid_from d)"

definition retracts_of :: "string \<Rightarrow> datom list \<Rightarrow> rkey list" where
  "retracts_of e ds = map rkey (filter (\<lambda>d. d_e d = e \<and> d_op d = Retract) ds)"

definition candidates_of :: "string \<Rightarrow> datom list \<Rightarrow> datom list" where
  "candidates_of e ds = filter (\<lambda>d. d_e d = e \<and> d_op d = Assert) ds"

definition newer :: "datom \<Rightarrow> datom \<Rightarrow> bool" where
  "newer d c \<longleftrightarrow> d_valid_from c < d_valid_from d \<or>
     d_valid_from c = d_valid_from d \<and> d_tx c < d_tx d"

definition latest_step :: "rkey list \<Rightarrow> datom \<Rightarrow> (string \<Rightarrow> datom option) \<Rightarrow> string \<Rightarrow> datom option" where
  "latest_step retracts d latest =
     (if rkey d \<in> set retracts then latest
      else case latest (d_a d) of
          None \<Rightarrow> latest(d_a d \<mapsto> d)
        | Some cur \<Rightarrow> if newer d cur then latest(d_a d \<mapsto> d) else latest)"

definition latest_of :: "string \<Rightarrow> datom list \<Rightarrow> string \<Rightarrow> datom option" where
  "latest_of e ds = fold (latest_step (retracts_of e ds)) (candidates_of e ds) Map.empty"

definition entity :: "datom list \<Rightarrow> string \<Rightarrow> string \<Rightarrow> val option" where
  "entity ds e = map_option d_v \<circ> latest_of e ds"

section \<open>branch\<close>

text \<open>\<open>deepcopy\<close> of the provenance is the identity on values; the copy goes through the
  constructor.\<close>

definition branch :: "env \<Rightarrow> (int \<Rightarrow> string) \<Rightarrow> log \<Rightarrow> int \<Rightarrow> fact list \<Rightarrow> err + log" where
  "branch env isoformat l t assertions =
     (let store = append_datoms [] (map post_init (as_of l t)) in
      if assertions = [] then Inr store
      else transact env store assertions
        [(''source'', VStr ''branch''), (''base_tx_time'', VStr (isoformat t))] False)"

section \<open>causal_history\<close>

definition datom_canonical_id :: "datom \<Rightarrow> string" where
  "datom_canonical_id d = d_e d @ ''|'' @ d_a d @ ''|'' @ int_str (d_tx d)"

definition parent_hash :: "datom \<Rightarrow> val option" where
  "parent_hash d =
     (case dget (d_provenance d) ''parent_provenance_hash'' of
        Some v \<Rightarrow> if truthy v then Some v else dget (d_provenance d) '':prev-hash''
      | None \<Rightarrow> dget (d_provenance d) '':prev-hash'')"

definition parents_step :: "datom \<Rightarrow> val list dict \<Rightarrow> val list dict" where
  "parents_step d ps =
     (case parent_hash d of
        Some h \<Rightarrow> if truthy h then
            dset (datom_canonical_id d)
              ((case dget ps (datom_canonical_id d) of None \<Rightarrow> [] | Some xs \<Rightarrow> xs) @ [h]) ps
          else ps
      | None \<Rightarrow> ps)"

definition causal_history :: "log \<Rightarrow> string \<Rightarrow> int \<Rightarrow> datom list \<times> val list dict" where
  "causal_history l e max_depth =
     (let seeds = history l e in
      if max_depth < 1 then (seeds, []) else (seeds, fold parents_step seeds []))"

end
