(* ===== verification/LogLaws.thy ===== *)
theory LogLaws
  imports Db
begin

text \<open>
  The contract of the append-only log, as a locale: every write extends the log, changes
  nothing of the datoms already there but an unset invalidation pointer, and stamps what it
  adds with one fresh transaction id and the time of the write. Its consequences for whole
  histories of writes are proved once, inside the locale; \<open>transact\<close> and
  \<open>transact_batch\<close> are interpretations of it.
\<close>

section \<open>Growth of a log\<close>

definition pointer_le :: "datom \<Rightarrow> datom \<Rightarrow> bool" where
  "pointer_le d d' \<longleftrightarrow>
     erase d' = erase d \<and> (d_invalidated_by d = None \<or> d_invalidated_by d' = d_invalidated_by d)"

definition grows :: "log \<Rightarrow> log \<Rightarrow> bool" where
  "grows l l' \<longleftrightarrow> length l \<le> length l' \<and> (\<forall>i < length l. pointer_le (l ! i) (l' ! i))"

lemma pointer_le_refl [simp]: "pointer_le d d"
  by (simp add: pointer_le_def)

lemma pointer_le_time: "pointer_le d d' \<Longrightarrow> d_tx_time d' = d_tx_time d"
  unfolding pointer_le_def by (metis erase_sel(5))

lemma pointer_le_trans: "pointer_le c d \<Longrightarrow> pointer_le d e \<Longrightarrow> pointer_le c e"
  by (auto simp: pointer_le_def)

lemma pointers_le_trans:
  "list_all2 pointer_le ls ds \<Longrightarrow> list_all2 pointer_le ds es \<Longrightarrow> list_all2 pointer_le ls es"
proof (induction ls ds arbitrary: es rule: list_all2_induct)
  case (Cons c cs d ds)
  then show ?case by (auto simp: list_all2_Cons1 intro: pointer_le_trans)
qed simp

lemma grows_refl [simp]: "grows l l"
  by (simp add: grows_def)

lemma grows_trans: "grows l m \<Longrightarrow> grows m n \<Longrightarrow> grows l n"
  unfolding grows_def by (meson le_trans less_le_trans pointer_le_trans)

lemma grows_append [simp]: "grows l (l @ ds)"
  by (simp add: grows_def nth_append)

lemma grows_map: "(\<And>d. d \<in> set l \<Longrightarrow> pointer_le d (f d)) \<Longrightarrow> grows l (map f l)"
  by (simp add: grows_def)

lemma grows_erase: "grows l l' \<Longrightarrow> map erase (take (length l) l') = map erase l"
  by (auto simp: grows_def pointer_le_def intro: nth_equalityI)

lemma grows_split:
  assumes "grows l l'"
  shows "map erase l' = map erase l @ map erase (drop (length l) l')"
  using grows_erase[OF assms] by (metis append_take_drop_id map_append)

definition wf_log :: "log \<Rightarrow> bool" where
  "wf_log l \<longleftrightarrow> (\<forall>d \<in> set l. wf_datom d \<and> 1 \<le> d_tx d) \<and> sorted (map d_tx l)"

lemma wf_log_Nil [simp]: "wf_log []"
  by (simp add: wf_log_def)

lemma next_tx_pos: "wf_log l \<Longrightarrow> 1 \<le> next_tx l"
proof (cases l)
  case (Cons d ds)
  moreover assume "wf_log l"
  ultimately have "1 \<le> d_tx d" "d_tx d < next_tx l"
    by (auto simp: wf_log_def intro: next_tx_greater)
  then show ?thesis by simp
qed (simp add: next_tx_def)

lemma filter_erase:
  assumes "\<And>d. P (erase d) = P d"
  shows "map erase (filter P l) = filter P (map erase l)"
  using assms by (induction l) auto

section \<open>The interface\<close>

locale append_only_log =
  fixes put :: "'c \<Rightarrow> log \<Rightarrow> err + log"
    and stamp :: "'c \<Rightarrow> int"
  assumes put_wf: "wf_log l \<Longrightarrow> put c l = Inr l' \<Longrightarrow> wf_log l'"
    and put_grows: "wf_log l \<Longrightarrow> put c l = Inr l' \<Longrightarrow> grows l l'"
    and put_stamps: "wf_log l \<Longrightarrow> put c l = Inr l' \<Longrightarrow> d \<in> set (drop (length l) l') \<Longrightarrow>
      d_tx_time d = stamp c \<and> d_tx d = next_tx l"
begin

lemma run_wf: "wf_log l \<Longrightarrow> efold put cs l = Inr l' \<Longrightarrow> wf_log l'"
  by (rule efold_invariant[where I = wf_log]) (auto intro: put_wf)

lemma run_grows: "wf_log l \<Longrightarrow> efold put cs l = Inr l' \<Longrightarrow> grows l l'"
proof (induction cs arbitrary: l)
  case (Cons c cs)
  then obtain m where m: "put c l = Inr m" "efold put cs m = Inr l'"
    by (auto simp: ebind_Inr_iff)
  with Cons have "grows m l'" using put_wf by blast
  with m(1) Cons.prems(1) show ?case using put_grows grows_trans by blast
qed simp

text \<open>Reading as of \<open>t\<close> after any number of later writes gives what it gave before.\<close>

lemma put_as_of:
  assumes "wf_log l" "put c l = Inr l'" "t < stamp c"
  shows "map erase (as_of l' t) = map erase (as_of l t)"
proof -
  have "filter (\<lambda>d. d_tx_time d \<le> t) (map erase (drop (length l) l')) = []"
    using put_stamps[OF assms(1,2)] assms(3) by (auto simp: filter_empty_conv)
  then show ?thesis
    using grows_split[OF put_grows[OF assms(1,2)]]
    by (simp add: as_of_def filter_erase)
qed

lemma grows_as_of:
  assumes "grows l l'" "\<And>d. d \<in> set (drop (length l) l') \<Longrightarrow> t < d_tx_time d"
  shows "list_all2 pointer_le (as_of l t) (as_of l' t)"
proof -
  have "as_of (drop (length l) l') t = []"
    using assms(2) by (fastforce simp: as_of_def filter_empty_conv)
  moreover have "as_of l' t = as_of (take (length l) l') t @ as_of (drop (length l) l') t"
    by (metis as_of_def append_take_drop_id filter_append)
  moreover have "list_all2 pointer_le l (take (length l) l')"
    using assms(1) by (auto simp: grows_def list_all2_conv_all_nth)
  then have "list_all2 pointer_le (as_of l t) (as_of (take (length l) l') t)"
    unfolding as_of_def by (induction rule: list_all2_induct) (auto simp: pointer_le_time)
  ultimately show ?thesis by simp
qed

lemma run_as_of_le:
  "wf_log l \<Longrightarrow> efold put cs l = Inr l' \<Longrightarrow> (\<And>c. c \<in> set cs \<Longrightarrow> t < stamp c) \<Longrightarrow>
     list_all2 pointer_le (as_of l t) (as_of l' t)"
proof (induction cs arbitrary: l)
  case (Cons c cs)
  then obtain m where m: "put c l = Inr m" "efold put cs m = Inr l'"
    by (auto simp: ebind_Inr_iff)
  with Cons have "list_all2 pointer_le (as_of m t) (as_of l' t)"
    using put_wf by auto
  moreover have "list_all2 pointer_le (as_of l t) (as_of m t)"
    using put_stamps[OF Cons.prems(1) m(1)] Cons.prems(3)
    by (intro grows_as_of put_grows[OF Cons.prems(1) m(1)]) simp
  ultimately show ?case
    by (simp add: pointers_le_trans[of "as_of l t" "as_of m t"])
qed (simp add: list_all2_same)

lemma run_as_of:
  "wf_log l \<Longrightarrow> efold put cs l = Inr l' \<Longrightarrow> (\<And>c. c \<in> set cs \<Longrightarrow> t < stamp c) \<Longrightarrow>
     map erase (as_of l' t) = map erase (as_of l t)"
proof (induction cs arbitrary: l)
  case (Cons c cs)
  then obtain m where m: "put c l = Inr m" "efold put cs m = Inr l'"
    by (auto simp: ebind_Inr_iff)
  with Cons have "map erase (as_of l' t) = map erase (as_of m t)"
    using put_wf by auto
  with m(1) Cons.prems show ?case using put_as_of by auto
qed simp

text \<open>A write never reuses a transaction id.\<close>

lemma put_fresh_tx:
  assumes "wf_log l" "put c l = Inr l'"
    and "d \<in> set l" "d' \<in> set (drop (length l) l')"
  shows "d_tx d < d_tx d'"
  using put_stamps[OF assms(1,2,4)] next_tx_greater[OF assms(3)] by simp

text \<open>What was learned strictly after \<open>t\<close> is the writes stamped after \<open>t\<close>: the
  replication delta and the snapshot partition the log.\<close>

lemma put_since:
  assumes "wf_log l" "put c l = Inr l'" "\<forall>d \<in> set l. d_tx_time d \<le> t" "t < stamp c"
  shows "map erase (since l' t) = map erase (drop (length l) l')"
proof -
  have "filter (\<lambda>d. t < d_tx_time d) (map erase l) = []"
    using assms(3) by (auto simp: filter_empty_conv)
  moreover have "filter (\<lambda>d. t < d_tx_time d) (map erase (drop (length l) l')) =
      map erase (drop (length l) l')"
    using put_stamps[OF assms(1,2)] assms(4) by (auto simp: filter_id_conv)
  ultimately show ?thesis
    using grows_split[OF put_grows[OF assms(1,2)]]
    by (simp add: since_def filter_erase)
qed

end

end
