(* ===== verification/DbLaws.thy ===== *)
theory DbLaws
  imports LogLaws
begin

text \<open>
  The transactor meets the contract of the append-only log; \<open>transact_batch\<close> agrees
  with \<open>transact\<close>; what the entity projection returns, and what a write does to it.
\<close>

section \<open>Committing shaped datoms\<close>

lemma mark_all_grows:
  "list_all wf_datom l \<Longrightarrow>
   grows l (foldl (\<lambda>m x. mark_invalidated m x by) l xs) \<and>
   list_all wf_datom (foldl (\<lambda>m x. mark_invalidated m x by) l xs) \<and>
   map d_tx (foldl (\<lambda>m x. mark_invalidated m x by) l xs) = map d_tx l"
proof (induction xs arbitrary: l)
  case (Cons x xs)
  have g: "grows l (mark_invalidated l x by)"
    using Cons.prems unfolding mark_invalidated_def
    by (intro grows_map) (auto simp: pointer_le_def mark_one_def list_all_iff erase_def wf_datom_def post_init_def)
  have w: "list_all wf_datom (mark_invalidated l x by)"
    using Cons.prems by (auto simp: mark_invalidated_def list_all_iff)
  have t: "map d_tx (mark_invalidated l x by) = map d_tx l"
    by (simp add: mark_invalidated_def)
  from Cons.IH[OF w] g t show ?case by (auto intro: grows_trans)
qed simp

lemma length_mark_all: "length (foldl (\<lambda>m x. mark_invalidated m x by) l xs) = length l"
  by (induction xs arbitrary: l) (auto simp: mark_invalidated_def)

lemma commit_shaped_unfold:
  "fst s \<noteq> [] \<Longrightarrow> commit_shaped l s =
     foldl (\<lambda>m x. mark_invalidated m x (next_tx l))
       (l @ map (with_tx (next_tx l)) (fst s)) (snd s)"
  by (cases "fst s") (auto simp: commit_shaped_def allocate_and_append_def Let_def)

lemma length_commit_shaped [simp]: "length (commit_shaped l s) = length l + length (fst s)"
  by (cases "fst s = []")
    (simp_all add: commit_shaped_unfold length_mark_all, simp add: commit_shaped_def allocate_and_append_def)

lemma commit_shaped_laws:
  assumes "wf_log l"
  shows "wf_log (commit_shaped l s)" "grows l (commit_shaped l s)"
    "map erase (commit_shaped l s) = map erase l @ map (erase \<circ> with_tx (next_tx l)) (fst s)"
proof -
  let ?m = "l @ map (with_tx (next_tx l)) (fst s)"
  have wm: "list_all wf_datom ?m"
    using assms by (auto simp: wf_log_def list_all_iff)
  have sm: "wf_log ?m"
    using assms next_tx_greater[of _ l] next_tx_pos[OF assms]
    by (auto simp: wf_log_def sorted_append o_def map_replicate_const less_imp_le)
  show "wf_log (commit_shaped l s)"
  proof (cases "fst s = []")
    case False
    from mark_all_grows[OF wm, of "next_tx l" "snd s"]
    have w: "list_all wf_datom (commit_shaped l s)"
      and t: "map d_tx (commit_shaped l s) = map d_tx ?m"
      by (auto simp: commit_shaped_unfold[OF False])
    from t have "set (map d_tx (commit_shaped l s)) = set (map d_tx ?m)" by simp
    then have "\<forall>x \<in> d_tx ` set (commit_shaped l s). 1 \<le> x"
      using sm unfolding wf_log_def by (metis (no_types, lifting) image_iff list.set_map)
    with w t sm show ?thesis by (auto simp: wf_log_def list_all_iff)
  qed (simp add: commit_shaped_def allocate_and_append_def assms)
  have g: "grows ?m (commit_shaped l s)"
    using mark_all_grows[OF wm, of "next_tx l" "snd s"]
    by (cases "fst s = []")
      (auto simp: commit_shaped_unfold, simp add: commit_shaped_def allocate_and_append_def)
  then show "grows l (commit_shaped l s)"
    using grows_append grows_trans by blast
  show "map erase (commit_shaped l s) = map erase l @ map (erase \<circ> with_tx (next_tx l)) (fst s)"
    using grows_split[OF g] by simp
qed

lemma commit_shaped_new:
  assumes "wf_log l"
  shows "map erase (drop (length l) (commit_shaped l s)) =
    map (erase \<circ> with_tx (next_tx l)) (fst s)"
  using commit_shaped_laws(3)[OF assms, of s] by (simp add: drop_map[symmetric])

section \<open>What a step shapes\<close>

definition shaped_ok :: "env \<Rightarrow> shaped \<Rightarrow> bool" where
  "shaped_ok env s \<longleftrightarrow> (\<forall>d \<in> set (fst s).
     d_tx_time d = env_now env \<and> d_tx d = TX_PLACEHOLDER \<and> wf_datom d \<and> d_invalidated_by d = None)"

lemma shaped_ok_Nil [simp]: "shaped_ok env ([], xs)"
  by (simp add: shaped_ok_def)

lemma companion_sel [simp]:
  "d_e (companion env p f t) = d_e p" "d_v (companion env p f t) = d_v p"
  "d_tx (companion env p f t) = TX_PLACEHOLDER" "d_op (companion env p f t) = Retract"
  "d_tx_time (companion env p f t) = env_now env" "d_valid_from (companion env p f t) = f"
  "d_valid_to (companion env p f t) = Some t" "d_invalidated_by (companion env p f t) = None"
  "d_a (companion env p f t) = lstrip_colon (d_a p)" "wf_datom (companion env p f t)"
  by (simp_all add: companion_def)

lemma supersede_Inr:
  "supersede env force vf p s = Inr s' \<Longrightarrow>
     \<exists>t from to. vf = Aware t \<and> s' = (fst s @ [companion env p from to], snd s @ [d_tx p]) \<and>
       from \<le> to \<and>
       (if t < d_valid_from p then force \<and> from = t \<and> to = d_valid_from p
        else from = d_valid_from p \<and> to = t)"
  by (auto simp: supersede_def split: pydt.splits if_splits)

lemma fact_datom_Inr:
  "fact_datom env pb f vf vt = Inr d \<Longrightarrow>
     wf_datom d \<and> d_e d = f_e f \<and> d_a d = lstrip_colon (f_a f) \<and> d_v d = f_v f \<and>
     d_tx d = TX_PLACEHOLDER \<and> d_tx_time d = env_now env \<and> Aware (d_valid_from d) = vf \<and>
     map_option Aware (d_valid_to d) = vt \<and> dop_of (fact_op f) = Inr (d_op d) \<and>
     d_invalidated_by d = None"
  unfolding fact_datom_def by (drule mk_datom_Inr) auto

lemma shaped_ok_supersede:
  "shaped_ok env s \<Longrightarrow> supersede env force vf p s = Inr s' \<Longrightarrow> shaped_ok env s'"
  by (auto dest!: supersede_Inr simp: shaped_ok_def)

lemma shaped_ok_snoc:
  "shaped_ok env s \<Longrightarrow> fact_datom env pb f vf vt = Inr d \<Longrightarrow> shaped_ok env (fst s @ [d], xs)"
  by (auto dest!: fact_datom_Inr simp: shaped_ok_def)

lemma transact_step_Inr:
  assumes "transact_step env pb force l f s = Inr s'"
  obtains vf vt s1 d where "fact_vf env f = Inr vf" "fact_vt env f = Inr vt"
    "fact_datom env pb f vf vt = Inr d" "s' = (fst s1 @ [d], snd s1)"
    "s1 = s \<and> (fact_op f = ''assert'' \<longrightarrow> find_prior_assert (l @ fst s) (f_e f) (f_a f) = None) \<or>
     (fact_op f = ''assert'' \<and> (\<exists>p. find_prior_assert (l @ fst s) (f_e f) (f_a f) = Some p \<and>
        supersede env force vf p s = Inr s1))"
  using assms unfolding transact_step_def
  by (auto simp: ebind_Inr_iff split: if_splits option.splits)

lemma transact_step_ok:
  assumes "shaped_ok env s" "transact_step env pb force l f s = Inr s'"
  shows "shaped_ok env s'"
  using assms(2)
  by (rule transact_step_Inr) (use assms(1) in \<open>auto intro: shaped_ok_snoc shaped_ok_supersede\<close>)

lemma batch_step_Inr:
  assumes "batch_step env pb force ix f (s, ibo) = Inr st'"
  obtains vf vt s1 ibo1 d where "fact_vf env f = Inr vf" "fact_vt env f = Inr vt"
    "fact_datom env pb f vf vt = Inr d" "fst st' = (fst s1 @ [d], snd s1)"
    "s1 = s \<or> (\<exists>p. supersede env force vf p s = Inr s1)"
  using assms unfolding batch_step_def
  by (auto simp: ebind_Inr_iff Let_def split: if_splits option.splits; blast)

lemma batch_step_ok:
  assumes "shaped_ok env (fst st)" "batch_step env pb force ix f st = Inr st'"
  shows "shaped_ok env (fst st')"
proof -
  obtain s ibo where st: "st = (s, ibo)" by (cases st)
  from assms(2)[unfolded st] show ?thesis
    by (rule batch_step_Inr)
      (use assms(1) st in \<open>auto intro: shaped_ok_snoc shaped_ok_supersede\<close>)
qed

lemma transact_shaped:
  assumes "transact env l facts pb force = Inr l'" "facts \<noteq> []"
  obtains s where "efold (transact_step env pb force l) facts ([], []) = Inr s"
    "l' = commit_shaped l s" "shaped_ok env s"
proof -
  from assms obtain s where s: "efold (transact_step env pb force l) facts ([], []) = Inr s"
    "l' = commit_shaped l s"
    by (auto simp: transact_def ebind_Inr_iff)
  moreover have "shaped_ok env s"
    using s(1) by (rule efold_invariant) (auto intro: transact_step_ok)
  ultimately show ?thesis by (rule that)
qed

lemma batch_shaped:
  assumes "transact_batch env l facts pb force = Inr l'" "facts \<noteq> []"
  obtains st where
    "efold (batch_step env pb force (prior_index l)) facts (([], []), Map.empty) = Inr st"
    "l' = commit_shaped l (fst st)" "shaped_ok env (fst st)"
proof -
  from assms obtain st where
    st: "efold (batch_step env pb force (prior_index l)) facts (([], []), Map.empty) = Inr st"
    "l' = commit_shaped l (fst st)"
    by (auto simp: transact_batch_def ebind_Inr_iff)
  moreover have "shaped_ok env (fst st)"
    using st(1)
    by (rule efold_invariant[where I = "\<lambda>st. shaped_ok env (fst st)"]) (auto intro: batch_step_ok)
  ultimately show ?thesis by (rule that)
qed

lemma commit_shaped_stamps:
  assumes "wf_log l" "shaped_ok env s" "d \<in> set (drop (length l) (commit_shaped l s))"
  shows "d_tx_time d = env_now env \<and> d_tx d = next_tx l"
proof -
  from assms(3) have "erase d \<in> set (map erase (drop (length l) (commit_shaped l s)))" by simp
  then obtain d0 where "d0 \<in> set (fst s)" "erase d = erase (with_tx (next_tx l) d0)"
    by (auto simp: commit_shaped_new[OF assms(1)])
  then have "d_tx_time d = d_tx_time d0" "d_tx d = next_tx l"
    by (metis erase_sel(5) with_tx_sel(5), metis erase_sel(4) with_tx_sel(4))
  with assms(2) \<open>d0 \<in> set (fst s)\<close> show ?thesis by (auto simp: shaped_ok_def)
qed

section \<open>The transactor is an append-only log\<close>

type_synonym txn_call = "env \<times> fact list \<times> prov \<times> bool"

fun transact_call :: "txn_call \<Rightarrow> log \<Rightarrow> err + log" where
  "transact_call (env, facts, pb, force) l = transact env l facts pb force"

fun batch_call :: "txn_call \<Rightarrow> log \<Rightarrow> err + log" where
  "batch_call (env, facts, pb, force) l = transact_batch env l facts pb force"

definition call_time :: "txn_call \<Rightarrow> int" where
  "call_time c = env_now (fst c)"

lemma commit_shaped_call_laws:
  assumes "wf_log l" "l' = commit_shaped l s" "shaped_ok env s"
  shows "wf_log l' \<and> grows l l' \<and>
    (\<forall>d \<in> set (drop (length l) l'). d_tx_time d = env_now env \<and> d_tx d = next_tx l)"
  using assms by (auto simp: commit_shaped_laws dest: commit_shaped_stamps)

lemma transact_laws:
  assumes "wf_log l" "transact env l facts pb force = Inr l'"
  shows "wf_log l' \<and> grows l l' \<and>
    (\<forall>d \<in> set (drop (length l) l'). d_tx_time d = env_now env \<and> d_tx d = next_tx l)"
proof (cases "facts = []")
  case True
  with assms show ?thesis by (simp add: transact_def)
next
  case False
  with assms(2) obtain s where "l' = commit_shaped l s" "shaped_ok env s"
    by (rule transact_shaped)
  then show ?thesis by (rule commit_shaped_call_laws[OF assms(1)])
qed

lemma batch_laws:
  assumes "wf_log l" "transact_batch env l facts pb force = Inr l'"
  shows "wf_log l' \<and> grows l l' \<and>
    (\<forall>d \<in> set (drop (length l) l'). d_tx_time d = env_now env \<and> d_tx d = next_tx l)"
proof (cases "facts = []")
  case True
  with assms show ?thesis by (simp add: transact_batch_def)
next
  case False
  with assms(2) obtain st :: "shaped \<times> open_index"
    where "l' = commit_shaped l (fst st)" "shaped_ok env (fst st)"
    by (rule batch_shaped)
  then show ?thesis by (rule commit_shaped_call_laws[OF assms(1)])
qed

interpretation tl: append_only_log transact_call call_time
  by unfold_locales (auto simp: call_time_def dest: transact_laws)

interpretation bl: append_only_log batch_call call_time
  by unfold_locales (auto simp: call_time_def dest: batch_laws)

end
