(* ===== verification/BatchEquiv.thy ===== *)
theory BatchEquiv
  imports DbLaws
begin

text \<open>
  \<open>transact_batch\<close> replaces the scan of the log per fact by an index over the log and
  an index of the asserts opened by the batch itself. The two indexes together answer as
  the scan does, so the two transactors agree, as long as no fact asserts a bounded
  interval and attributes come without a leading colon.
\<close>

lemma find_prior_append:
  "find_prior_assert (xs @ ys) e a =
     (case find_prior_assert ys e a of Some d \<Rightarrow> Some d | None \<Rightarrow> find_prior_assert xs e a)"
  unfolding find_prior_assert_def by (rule find_rev_append)

lemma find_prior_single [simp]:
  "find_prior_assert [d] e a = (if d_e d = e \<and> d_a d = a \<and> is_open d then Some d else None)"
  by (simp add: find_prior_assert_def)

lemma find_prior_Nil [simp]: "find_prior_assert [] e a = None"
  by (simp add: find_prior_assert_def)

lemma fold_index_step:
  "fold index_step ds ix (e, a) =
     (case ix (e, a) of Some d \<Rightarrow> Some d
      | None \<Rightarrow> find (\<lambda>d. d_e d = e \<and> d_a d = a \<and> is_open d) ds)"
  by (induction ds arbitrary: ix) (auto simp: index_step_def split: option.splits)

lemma prior_index_correct: "prior_index l (e, a) = find_prior_assert l e a"
  by (simp add: prior_index_def fold_index_step find_prior_assert_def)

text \<open>Facts for which the batch index is exact.\<close>

definition bare_fact :: "fact \<Rightarrow> bool" where
  "bare_fact f \<longleftrightarrow> lstrip_colon (f_a f) = f_a f"

definition open_ended :: "fact \<Rightarrow> bool" where
  "open_ended f \<longleftrightarrow> (fact_op f = ''assert'' \<longrightarrow> f_valid_to f = None)"

definition index_matches :: "shaped \<Rightarrow> shaped \<times> open_index \<Rightarrow> bool" where
  "index_matches s st \<longleftrightarrow> fst st = s \<and>
     (\<forall>e a. lstrip_colon a = a \<longrightarrow> snd st (e, a) = find_prior_assert (fst s) e a)"

lemma not_open_companion [simp]: "\<not> is_open (companion env p f t)"
  by (simp add: is_open_def)

lemma fact_datom_open:
  assumes "fact_datom env pb f vf vt = Inr d"
  shows "is_open d \<longleftrightarrow> fact_op f = ''assert'' \<and> vt = None"
proof -
  have "is_open d \<longleftrightarrow> dop_of (fact_op f) = Inr Assert \<and> vt = None"
    using fact_datom_Inr[OF assms] by (auto simp: is_open_def)
  then show ?thesis by (auto split: if_splits)
qed

text \<open>Both steps are the same shaping, with the prior assert looked up differently.\<close>

definition shape_with ::
  "env \<Rightarrow> prov \<Rightarrow> bool \<Rightarrow> fact \<Rightarrow> datom option \<Rightarrow> shaped \<Rightarrow> err + shaped" where
  "shape_with env pb force f prior s =
     ebind (fact_vf env f) (\<lambda>vf.
     ebind (fact_vt env f) (\<lambda>vt.
     ebind (if fact_op f = ''assert''
            then (case prior of None \<Rightarrow> Inr s | Some p \<Rightarrow> supersede env force vf p s)
            else Inr s) (\<lambda>s'.
     ebind (fact_datom env pb f vf vt) (\<lambda>d. Inr (fst s' @ [d], snd s')))))"

lemma transact_step_shape:
  "transact_step env pb force l f s =
     shape_with env pb force f (find_prior_assert (l @ fst s) (f_e f) (f_a f)) s"
  by (simp add: transact_step_def shape_with_def)

definition index_after :: "fact \<Rightarrow> shaped \<Rightarrow> open_index \<Rightarrow> open_index" where
  "index_after f s' ibo =
     (if fact_op f = ''assert'' then ibo((f_e f, f_a f) \<mapsto> last (fst s')) else ibo)"

lemma batch_step_shape:
  assumes "open_ended f"
  shows "batch_step env pb force ix f (s, ibo) =
    ebind (shape_with env pb force f
        (case ibo (f_e f, f_a f) of Some d \<Rightarrow> Some d | None \<Rightarrow> ix (f_e f, f_a f)) s)
      (\<lambda>s'. Inr (s', index_after f s' ibo))"
proof -
  have "fact_op f = ''assert'' \<Longrightarrow> fact_vt env f = Inr None"
    using assms by (simp add: open_ended_def fact_vt_def)
  then show ?thesis
    by (auto simp: batch_step_def shape_with_def index_after_def Let_def ebind_def
        split: sum.split option.split)
qed

lemma shape_with_Inr:
  assumes "shape_with env pb force f prior s = Inr s'"
  obtains vf vt cs d where "fst s' = fst s @ cs @ [d]" "\<forall>c \<in> set cs. \<not> is_open c"
    "fact_datom env pb f vf vt = Inr d" "fact_vt env f = Inr vt"
proof -
  from assms obtain vf vt s1 d where
    "fact_vt env f = Inr vt" "fact_datom env pb f vf vt = Inr d" "fst s' = fst s1 @ [d]"
    "s1 = s \<or> (\<exists>p. supersede env force vf p s = Inr s1)"
    unfolding shape_with_def by (auto simp: ebind_Inr_iff split: if_splits option.splits; blast)
  moreover from this(4) obtain cs where "fst s1 = fst s @ cs" "\<forall>c \<in> set cs. \<not> is_open c"
    by (auto dest!: supersede_Inr)
  ultimately show ?thesis using that by simp
qed

lemma shape_index_matches:
  assumes m: "\<forall>e a. lstrip_colon a = a \<longrightarrow> ibo (e, a) = find_prior_assert (fst s) e a"
    and r: "shape_with env pb force f prior s = Inr s'"
    and f: "bare_fact f" "open_ended f"
  shows "index_matches s' (s', index_after f s' ibo)"
proof -
  from r obtain vf vt cs d where d: "fst s' = fst s @ cs @ [d]" "\<forall>c \<in> set cs. \<not> is_open c"
    "fact_datom env pb f vf vt = Inr d" "fact_vt env f = Inr vt"
    by (rule shape_with_Inr)
  have cs: "find_prior_assert cs e a = None" for e a
    using d(2) by (auto simp: find_prior_assert_def find_None_iff)
  have o: "is_open d \<longleftrightarrow> fact_op f = ''assert''"
    using fact_datom_open[OF d(3)] d(4) f(2) by (auto simp: open_ended_def fact_vt_def)
  show ?thesis
    using m cs o d(1) fact_datom_Inr[OF d(3)] f(1)
    by (auto simp: index_matches_def index_after_def find_prior_append bare_fact_def)
qed

lemma step_simulation:
  assumes "bare_fact f" "open_ended f" "index_matches s st"
  shows "(\<exists>e. transact_step env pb force l f s = Inl e \<and>
      batch_step env pb force (prior_index l) f st = Inl e) \<or>
    (\<exists>s' st'. transact_step env pb force l f s = Inr s' \<and>
      batch_step env pb force (prior_index l) f st = Inr st' \<and> index_matches s' st')"
proof -
  obtain ibo where st: "st = (s, ibo)"
    and m: "\<forall>e a. lstrip_colon a = a \<longrightarrow> ibo (e, a) = find_prior_assert (fst s) e a"
    using assms(3) by (cases st) (auto simp: index_matches_def)
  let ?p = "find_prior_assert (l @ fst s) (f_e f) (f_a f)"
  have lk: "(case ibo (f_e f, f_a f) of Some d \<Rightarrow> Some d
      | None \<Rightarrow> prior_index l (f_e f, f_a f)) = ?p"
    using m assms(1) by (auto simp: prior_index_correct find_prior_append bare_fact_def split: option.split)
  have b: "batch_step env pb force (prior_index l) f st =
      ebind (transact_step env pb force l f s) (\<lambda>s'. Inr (s', index_after f s' ibo))"
    unfolding st batch_step_shape[OF assms(2)] lk transact_step_shape ..
  show ?thesis
  proof (cases "transact_step env pb force l f s")
    case (Inl e)
    with b show ?thesis by simp
  next
    case (Inr s')
    then show ?thesis
      using shape_index_matches[OF m _ assms(1,2)] b by (simp add: transact_step_shape)
  qed
qed

lemma batch_eq_transact:
  assumes "\<forall>f \<in> set facts. bare_fact f \<and> open_ended f"
  shows "transact_batch env l facts pb force = transact env l facts pb force"
proof -
  let ?t = "efold (transact_step env pb force l) facts ([], [])"
  let ?b = "efold (batch_step env pb force (prior_index l)) facts (([], []), Map.empty)"
  have "(\<exists>e. ?t = Inl e \<and> ?b = Inl e) \<or>
      (\<exists>s st. ?t = Inr s \<and> ?b = Inr st \<and> index_matches s st)"
  proof (rule efold_simulation)
    show "index_matches ([], []) (([], []), Map.empty)"
      by (simp add: index_matches_def)
  qed (use assms step_simulation in blast)
  then show ?thesis
    by (auto simp: transact_def transact_batch_def index_matches_def)
qed

end
