(* ===== verification/EntityLaws.thy ===== *)
theory EntityLaws
  imports BatchEquiv
begin

text \<open>
  What \<open>DBView.entity\<close> returns (the newest assert no retract closes, per attribute), that
  the invalidation pointer plays no part in it, and what one write does to it.
\<close>

section \<open>The projection rule\<close>

definition live :: "string \<Rightarrow> datom list \<Rightarrow> datom \<Rightarrow> bool" where
  "live e ds d \<longleftrightarrow> d \<in> set ds \<and> d_e d = e \<and> d_op d = Assert \<and> rkey d \<notin> set (retracts_of e ds)"

lemma newer_trans: "newer a b \<Longrightarrow> newer b c \<Longrightarrow> newer a c"
  by (auto simp: newer_def)

lemma newer_total: "\<not> newer c cur \<Longrightarrow> newer d cur \<Longrightarrow> \<not> newer c d"
  by (auto simp: newer_def)

definition best :: "rkey list \<Rightarrow> datom list \<Rightarrow> string \<Rightarrow> datom \<Rightarrow> bool" where
  "best R cs a d \<longleftrightarrow> d \<in> set cs \<and> d_a d = a \<and> rkey d \<notin> set R \<and>
     (\<forall>c \<in> set cs. d_a c = a \<longrightarrow> rkey c \<notin> set R \<longrightarrow> \<not> newer c d)"

lemma best_snoc_same: "best R cs a d \<Longrightarrow> d_a x \<noteq> a \<or> rkey x \<in> set R \<or> \<not> newer x d \<Longrightarrow> best R (cs @ [x]) a d"
  by (auto simp: best_def)

lemma best_snoc_new:
  assumes "best R cs a d" "newer x d" "d_a x = a" "rkey x \<notin> set R"
  shows "best R (cs @ [x]) a x"
proof -
  have "\<not> newer x x" by (simp add: newer_def)
  moreover have "\<not> newer c x" if "c \<in> set cs" "d_a c = a" "rkey c \<notin> set R" for c
    using assms(1,2) that newer_total unfolding best_def by blast
  ultimately show ?thesis using assms(3,4) by (auto simp: best_def)
qed

lemma latest_step_at:
  "latest_step R x m a =
     (if d_a x = a \<and> rkey x \<notin> set R
      then (case m a of None \<Rightarrow> Some x | Some cur \<Rightarrow> if newer x cur then Some x else m a)
      else m a)"
  by (auto simp: latest_step_def split: option.splits)

lemma fold_latest:
  "case fold (latest_step R) cs Map.empty a of
     None \<Rightarrow> \<forall>d \<in> set cs. d_a d = a \<longrightarrow> rkey d \<in> set R
   | Some d \<Rightarrow> best R cs a d"
proof (induction cs rule: rev_induct)
  case Nil
  then show ?case by simp
next
  case (snoc x cs)
  have "\<not> newer x x" by (simp add: newer_def)
  then have b: "fold (latest_step R) cs Map.empty a = None \<Longrightarrow> d_a x = a \<Longrightarrow> rkey x \<notin> set R
      \<Longrightarrow> best R (cs @ [x]) a x"
    using snoc by (auto simp: best_def)
  show ?case
    using snoc b
    by (cases "fold (latest_step R) cs Map.empty a")
      (auto simp: latest_step_at[of R x] best_snoc_same best_snoc_new)
qed

lemma latest_of_cases:
  "case latest_of e ds a of
     None \<Rightarrow> \<forall>d. live e ds d \<longrightarrow> d_a d \<noteq> a
   | Some d \<Rightarrow> live e ds d \<and> d_a d = a \<and> (\<forall>c. live e ds c \<longrightarrow> d_a c = a \<longrightarrow> \<not> newer c d)"
  using fold_latest[where R = "retracts_of e ds" and cs = "candidates_of e ds" and a = a]
  unfolding latest_of_def live_def best_def candidates_of_def
  by (simp split: option.splits) blast

lemma latest_of_None: "latest_of e ds a = None \<longleftrightarrow> (\<forall>d. live e ds d \<longrightarrow> d_a d \<noteq> a)"
  using latest_of_cases[of e ds a] by (auto split: option.splits)

lemma latest_of_Some:
  assumes "latest_of e ds a = Some d"
  shows "live e ds d" "d_a d = a" "live e ds c \<Longrightarrow> d_a c = a \<Longrightarrow> \<not> newer c d"
  using assms latest_of_cases[of e ds a] by auto

lemma latest_of_unique:
  assumes "live e ds d" and "\<And>c. live e ds c \<Longrightarrow> d_a c = d_a d \<Longrightarrow> c = d \<or> newer d c"
  shows "latest_of e ds (d_a d) = Some d"
proof (cases "latest_of e ds (d_a d)")
  case None
  with assms(1) show ?thesis by (auto simp: latest_of_None)
next
  case (Some c)
  from latest_of_Some(1,2)[OF Some] latest_of_Some(3)[OF Some assms(1)] assms(2)[of c]
  show ?thesis using Some by auto
qed

section \<open>The pointer plays no part\<close>

lemma rkey_erase [simp]: "rkey (erase d) = rkey d"
  by (simp add: rkey_def)

lemma newer_erase [simp]: "newer (erase d) c = newer d c" "newer c (erase d) = newer c d"
  by (simp_all add: newer_def)

lemma retracts_of_erase [simp]: "retracts_of e (map erase ds) = retracts_of e ds"
  by (induction ds) (auto simp: retracts_of_def)

lemma fold_latest_erase:
  "fold (latest_step R) (map erase cs) (\<lambda>a. map_option erase (m a)) a =
     map_option erase (fold (latest_step R) cs m a)"
proof (induction cs arbitrary: m)
  case (Cons c cs)
  have "latest_step R (erase c) (\<lambda>a. map_option erase (m a)) =
      (\<lambda>a. map_option erase (latest_step R c m a))"
    by (auto simp: latest_step_at[of R c] latest_step_at[of R "erase c"] fun_eq_iff split: option.splits)
  with Cons show ?case by simp
qed simp

lemma latest_of_erase: "latest_of e (map erase ds) a = map_option erase (latest_of e ds a)"
proof -
  have "candidates_of e (map erase ds) = map erase (candidates_of e ds)"
    by (induction ds) (auto simp: candidates_of_def)
  then show ?thesis
    using fold_latest_erase[of "retracts_of e ds" "candidates_of e ds" Map.empty a]
    by (simp add: latest_of_def)
qed

lemma entity_erase [log_simps]: "entity (map erase ds) e = entity ds e"
  by (rule ext) (simp add: entity_def latest_of_erase option.map_comp o_def)

lemma entity_cong_erase: "map erase ds = map erase ds' \<Longrightarrow> entity ds e = entity ds' e"
  by (metis entity_erase)

section \<open>Only the datoms of the entity and attribute matter\<close>

lemma retracts_of_iff:
  "k \<in> set (retracts_of e ds) \<longleftrightarrow> (\<exists>r \<in> set ds. d_e r = e \<and> d_op r = Retract \<and> rkey r = k)"
  by (auto simp: retracts_of_def)

lemma retracts_of_mono:
  "set ds \<subseteq> set ds' \<Longrightarrow> set (retracts_of e ds) \<subseteq> set (retracts_of e ds')"
  by (auto simp: retracts_of_def)

lemma rkey_attr: "rkey r = rkey d \<Longrightarrow> d_a r = d_a d"
  by (simp add: rkey_def)

lemma fold_latest_attr:
  assumes "\<And>d. d \<in> set cs \<Longrightarrow> d_a d = a \<Longrightarrow> rkey d \<in> set R \<longleftrightarrow> rkey d \<in> set R'" "m a = m' a"
  shows "fold (latest_step R) cs m a = fold (latest_step R') (filter (\<lambda>d. d_a d = a) cs) m' a"
  using assms
proof (induction cs arbitrary: m m')
  case (Cons c cs)
  show ?case
  proof (cases "d_a c = a")
    case True
    with Cons.prems have "latest_step R c m a = latest_step R' c m' a"
      by (auto simp: latest_step_def split: option.splits)
    with True Cons show ?thesis by simp
  next
    case False
    then have "latest_step R c m a = m' a"
      using Cons.prems(2) by (auto simp: latest_step_def split: option.splits)
    with False Cons show ?thesis by simp
  qed
qed simp

lemma latest_of_local:
  "latest_of e ds a = latest_of e (filter (\<lambda>d. d_e d = e \<and> d_a d = a) ds) a"
proof -
  let ?fs = "filter (\<lambda>d. d_e d = e \<and> d_a d = a) ds"
  have c: "filter (\<lambda>d. d_a d = a) (candidates_of e ds) = candidates_of e ?fs"
    by (simp add: candidates_of_def) (metis (no_types, lifting))
  have r: "rkey d \<in> set (retracts_of e ds) \<longleftrightarrow> rkey d \<in> set (retracts_of e ?fs)"
    if "d_a d = a" for d
    using that by (auto simp: retracts_of_iff dest: rkey_attr)
  show ?thesis
    unfolding latest_of_def c[symmetric] by (rule fold_latest_attr) (use r in auto)
qed

lemma entity_local:
  "entity ds e a = entity (filter (\<lambda>d. d_e d = e \<and> d_a d = a) ds) e a"
  by (simp add: entity_def latest_of_local[of e ds a])

end
