(* ===== verification/Projection.thy ===== *)
theory Projection
  imports EntityLaws
begin

text \<open>
  \<open>persistence.fact.projection\<close>: the in-process projection adapter and the rebuild that
  streams the log through it, compared with the entity projection of a view.
\<close>

section \<open>DictProjection\<close>

text \<open>\<open>_entities\<close>, \<open>_retracts\<close> and \<open>_winning\<close>.\<close>

record projection =
  p_entities :: "val dict dict"
  p_retracts :: "(string \<times> rkey) list"
  p_winning :: "((string \<times> string) \<times> (int \<times> int)) list"

definition empty_projection :: projection where
  "empty_projection = \<lparr>p_entities = [], p_retracts = [], p_winning = []\<rparr>"

definition proj_reset :: "projection \<Rightarrow> projection" where
  "proj_reset p = p\<lparr>p_entities := [], p_retracts := [], p_winning := []\<rparr>"

definition vt_tx :: "datom \<Rightarrow> int \<times> int" where
  "vt_tx d = (d_valid_from d, d_tx d)"

definition lex_less :: "int \<times> int \<Rightarrow> int \<times> int \<Rightarrow> bool" where
  "lex_less p q \<longleftrightarrow> fst p < fst q \<or> fst p = fst q \<and> snd p < snd q"

definition proj_retract :: "datom \<Rightarrow> projection \<Rightarrow> projection" where
  "proj_retract d p =
     (let p' = p\<lparr>p_retracts := (d_e d, rkey d) # p_retracts p\<rparr> in
      case dget (p_entities p) (d_e d) of
        None \<Rightarrow> p'
      | Some attrs \<Rightarrow>
          if attrs \<noteq> [] \<and>
             py_eq (case dget attrs (d_a d) of None \<Rightarrow> VNone | Some v \<Rightarrow> v) (d_v d) \<and>
             map_of (p_winning p) (d_e d, d_a d) = Some (vt_tx d)
          then p'\<lparr>p_entities := dset (d_e d) (AList.delete (d_a d) attrs) (p_entities p),
                  p_winning := AList.delete (d_e d, d_a d) (p_winning p)\<rparr>
          else p')"

definition proj_assert :: "datom \<Rightarrow> projection \<Rightarrow> projection" where
  "proj_assert d p =
     (let attrs = (case dget (p_entities p) (d_e d) of None \<Rightarrow> [] | Some x \<Rightarrow> x) in
      case map_of (p_winning p) (d_e d, d_a d) of
        Some cur \<Rightarrow>
          if lex_less cur (vt_tx d)
          then p\<lparr>p_entities := dset (d_e d) (dset (d_a d) (d_v d) attrs) (p_entities p),
                 p_winning := AList.update (d_e d, d_a d) (vt_tx d) (p_winning p)\<rparr>
          else p\<lparr>p_entities := dset (d_e d) attrs (p_entities p)\<rparr>
      | None \<Rightarrow>
          p\<lparr>p_entities := dset (d_e d) (dset (d_a d) (d_v d) attrs) (p_entities p),
            p_winning := AList.update (d_e d, d_a d) (vt_tx d) (p_winning p)\<rparr>)"

definition proj_apply :: "datom \<Rightarrow> projection \<Rightarrow> projection" where
  "proj_apply d p = (case d_op d of Retract \<Rightarrow> proj_retract d p | Assert \<Rightarrow> proj_assert d p)"

definition proj_fork :: "string \<Rightarrow> projection \<Rightarrow> projection" where
  "proj_fork branch_id p = empty_projection"

definition proj_get :: "projection \<Rightarrow> string \<Rightarrow> val dict" where
  "proj_get p e = (case dget (p_entities p) e of None \<Rightarrow> [] | Some attrs \<Rightarrow> attrs)"

definition rebuild :: "log \<Rightarrow> projection \<Rightarrow> projection" where
  "rebuild l p = fold proj_apply l (proj_reset p)"

definition rebuild_view :: "datom list \<Rightarrow> projection \<Rightarrow> projection" where
  "rebuild_view ds p = fold proj_apply ds p"

section \<open>What a rebuild holds\<close>

lemma proj_reset_empty [simp]: "proj_reset p = empty_projection"
  by (simp add: proj_reset_def empty_projection_def)

text \<open>The newest assert of an attribute, retracts ignored.\<close>

abbreviation newest_of :: "string \<Rightarrow> datom list \<Rightarrow> string \<Rightarrow> datom option" where
  "newest_of e ds \<equiv> fold (latest_step []) (candidates_of e ds) Map.empty"

definition holds_newest :: "datom list \<Rightarrow> projection \<Rightarrow> bool" where
  "holds_newest ds p \<longleftrightarrow> (\<forall>e a.
     dget (proj_get p e) a = map_option d_v (newest_of e ds a) \<and>
     map_of (p_winning p) (e, a) = map_option vt_tx (newest_of e ds a))"

text \<open>No retract carries the transaction id and valid time of an assert of its attribute.\<close>

definition no_hit :: "datom list \<Rightarrow> bool" where
  "no_hit ds \<longleftrightarrow> (\<forall>r \<in> set ds. \<forall>d \<in> set ds. d_op r = Retract \<and> d_op d = Assert \<and>
     d_e r = d_e d \<and> d_a r = d_a d \<longrightarrow> vt_tx r \<noteq> vt_tx d)"

lemma newest_of_mem:
  assumes "newest_of e ds a = Some d"
  shows "d \<in> set ds" "d_e d = e" "d_a d = a" "d_op d = Assert"
  using fold_latest[where R = "[]" and cs = "candidates_of e ds" and a = a] assms
  by (auto simp: best_def candidates_of_def)

lemma proj_retract_get:
  assumes "\<not> (map_of (p_winning p) (d_e d, d_a d) = Some (vt_tx d))"
  shows "proj_get (proj_retract d p) e = proj_get p e" "p_winning (proj_retract d p) = p_winning p"
  using assms by (auto simp: proj_retract_def proj_get_def Let_def split: option.splits)

lemma proj_assert_get:
  "dget (proj_get (proj_assert d p) e) a =
     (if d_e d = e \<and> d_a d = a \<and>
         (case map_of (p_winning p) (e, a) of None \<Rightarrow> True | Some cur \<Rightarrow> lex_less cur (vt_tx d))
      then Some (d_v d) else dget (proj_get p e) a)"
  by (auto simp: proj_assert_def proj_get_def Let_def split: option.splits)

lemma proj_assert_winning:
  "map_of (p_winning (proj_assert d p)) (e, a) =
     (if d_e d = e \<and> d_a d = a \<and>
         (case map_of (p_winning p) (e, a) of None \<Rightarrow> True | Some cur \<Rightarrow> lex_less cur (vt_tx d))
      then Some (vt_tx d) else map_of (p_winning p) (e, a))"
  by (auto simp: proj_assert_def Let_def update_conv' split: option.splits)

lemma newer_lex: "lex_less (vt_tx c) (vt_tx d) \<longleftrightarrow> newer d c"
  by (auto simp: lex_less_def vt_tx_def newer_def)

lemma newest_of_snoc:
  "newest_of e (ds @ [d]) a =
     (if d_op d = Assert \<and> d_e d = e \<and> d_a d = a \<and>
         (case newest_of e ds a of None \<Rightarrow> True | Some cur \<Rightarrow> newer d cur)
      then Some d else newest_of e ds a)"
  by (auto simp: candidates_of_def latest_step_at[of "[]" d] split: option.splits)

lemma apply_holds_newest:
  assumes "holds_newest ds p" "no_hit (ds @ [d])"
  shows "holds_newest (ds @ [d]) (proj_apply d p)"
proof (cases "d_op d")
  case Assert
  have "dget (proj_get (proj_assert d p) e) a = map_option d_v (newest_of e (ds @ [d]) a) \<and>
      map_of (p_winning (proj_assert d p)) (e, a) = map_option vt_tx (newest_of e (ds @ [d]) a)"
    for e a
  proof -
    have h: "dget (proj_get p e) a = map_option d_v (newest_of e ds a)"
      "map_of (p_winning p) (e, a) = map_option vt_tx (newest_of e ds a)"
      using assms(1) by (simp_all add: holds_newest_def)
    show ?thesis
      unfolding newest_of_snoc proj_assert_get proj_assert_winning h
      using Assert by (cases "newest_of e ds a") (simp_all add: newer_lex)
  qed
  with Assert show ?thesis by (simp add: holds_newest_def proj_apply_def)
next
  case Retract
  have "map_of (p_winning p) (d_e d, d_a d) \<noteq> Some (vt_tx d)"
  proof
    assume "map_of (p_winning p) (d_e d, d_a d) = Some (vt_tx d)"
    with assms(1) have "map_option vt_tx (newest_of (d_e d) ds (d_a d)) = Some (vt_tx d)"
      by (simp add: holds_newest_def)
    then obtain c where "newest_of (d_e d) ds (d_a d) = Some c" "vt_tx c = vt_tx d"
      by auto
    with newest_of_mem[OF this(1)] assms(2) Retract show False
      by (auto simp: no_hit_def)
  qed
  with assms(1) Retract show ?thesis
    unfolding holds_newest_def newest_of_snoc
    by (simp add: proj_apply_def proj_retract_get)
qed

lemma no_hit_snocD: "no_hit (ds @ [d]) \<Longrightarrow> no_hit ds"
  by (simp add: no_hit_def)

lemma rebuild_holds_newest: "no_hit l \<Longrightarrow> holds_newest l (rebuild l p)"
proof (induction l rule: rev_induct)
  case Nil
  then show ?case
    by (simp add: holds_newest_def rebuild_def empty_projection_def proj_get_def candidates_of_def)
next
  case (snoc d l)
  have "holds_newest (l @ [d]) (proj_apply d (rebuild l p))"
    using snoc.IH[OF no_hit_snocD[OF snoc.prems]] snoc.prems by (rule apply_holds_newest)
  then show ?case by (simp add: rebuild_def)
qed

text \<open>Where every closed assert is older than a live one, the newest assert is the newest
  live one.\<close>

lemma newest_eq_latest:
  assumes "\<And>d. d \<in> set ds \<Longrightarrow> d_op d = Assert \<Longrightarrow> d_e d = e \<Longrightarrow> d_a d = a \<Longrightarrow>
    rkey d \<in> set (retracts_of e ds) \<Longrightarrow> \<exists>c. live e ds c \<and> d_a c = a \<and> newer c d"
    and "\<And>c d. live e ds c \<Longrightarrow> live e ds d \<Longrightarrow> d_a c = a \<Longrightarrow> d_a d = a \<Longrightarrow> vt_tx c = vt_tx d \<Longrightarrow> d_v c = d_v d"
  shows "map_option d_v (newest_of e ds a) = map_option d_v (latest_of e ds a)"
proof (cases "newest_of e ds a")
  case None
  with fold_latest[where R = "[]" and cs = "candidates_of e ds" and a = a]
  have "\<forall>d. live e ds d \<longrightarrow> d_a d \<noteq> a" by (auto simp: live_def candidates_of_def)
  then show ?thesis using None by (simp add: latest_of_None)
next
  case (Some d)
  with fold_latest[where R = "[]" and cs = "candidates_of e ds" and a = a]
  have b: "best [] (candidates_of e ds) a d" by simp
  have max: "\<not> newer c d" if "live e ds c" "d_a c = a" for c
    using b that by (auto simp: best_def live_def candidates_of_def)
  have d: "live e ds d"
    using b assms(1)[of d] max by (auto simp: best_def live_def candidates_of_def)
  have da: "d_a d = a" using b by (simp add: best_def)
  obtain c where c: "latest_of e ds a = Some c"
    using d da by (cases "latest_of e ds a") (auto simp: latest_of_None)
  note l = latest_of_Some[OF c]
  have "vt_tx c = vt_tx d"
    using max[OF l(1,2)] l(3)[OF d da] by (auto simp: newer_def vt_tx_def)
  then show ?thesis using assms(2)[OF l(1) d l(2) da] c Some by simp
qed

end
