(* ===== verification/TransactEffects.thy ===== *)
theory TransactEffects
  imports EntityLaws
begin

text \<open>
  The effect of one \<open>transact\<close> on what is read back: the frame (other entities and
  attributes), the written attribute, the companion intervals, and the pointers it sets.
\<close>

section \<open>Frame\<close>

definition written :: "fact list \<Rightarrow> (string \<times> string) set" where
  "written facts = (\<lambda>f. (f_e f, lstrip_colon (f_a f))) ` set facts"

definition datom_key :: "datom \<Rightarrow> string \<times> string" where
  "datom_key d = (d_e d, d_a d)"

lemma find_prior_SomeD:
  assumes "find_prior_assert ds e a = Some p"
  shows "p \<in> set ds" "d_e p = e" "d_a p = a" "is_open p"
  using assms by (auto simp: find_prior_assert_def dest!: find_SomeD)

definition keys_in :: "(string \<times> string) set \<Rightarrow> datom list \<Rightarrow> bool" where
  "keys_in K ds \<longleftrightarrow> (\<forall>d \<in> set ds. datom_key d \<in> K)"

lemma keys_in_simps [simp]:
  "keys_in K []" "keys_in K (ds @ cs) \<longleftrightarrow> keys_in K ds \<and> keys_in K cs"
  "keys_in K (d # ds) \<longleftrightarrow> datom_key d \<in> K \<and> keys_in K ds"
  by (auto simp: keys_in_def)

lemma datom_key_companion [simp]:
  "datom_key (companion env p f t) = (d_e p, lstrip_colon (d_a p))"
  by (simp add: datom_key_def)

lemma transact_step_keys:
  assumes "transact_step env pb force l f s = Inr s'" "f \<in> set facts"
    and "keys_in (written facts) (fst s)"
  shows "keys_in (written facts) (fst s')"
  using assms(1)
proof (rule transact_step_Inr)
  fix vf vt s1 d
  assume d: "fact_datom env pb f vf vt = Inr d" "s' = (fst s1 @ [d], snd s1)"
    and s1: "s1 = s \<and> (fact_op f = ''assert'' \<longrightarrow> find_prior_assert (l @ fst s) (f_e f) (f_a f) = None) \<or>
      (fact_op f = ''assert'' \<and> (\<exists>p. find_prior_assert (l @ fst s) (f_e f) (f_a f) = Some p \<and>
        supersede env force vf p s = Inr s1))"
  have k: "(f_e f, lstrip_colon (f_a f)) \<in> written facts"
    using assms(2) by (auto simp: written_def)
  from s1 have "keys_in (written facts) (fst s1)"
    using assms(3) k find_prior_SomeD(2,3)[of "l @ fst s" "f_e f" "f_a f"]
    by (fastforce dest!: supersede_Inr)
  then show ?thesis
    using d k fact_datom_Inr[OF d(1)] by (simp add: datom_key_def)
qed

lemma transact_erased:
  assumes "wf_log l" "transact env l facts pb force = Inr l'"
  obtains new where "map erase l' = map erase l @ map erase new"
    "keys_in (written facts) new"
    "\<forall>d \<in> set new. d_tx d = next_tx l \<and> d_tx_time d = env_now env"
proof (cases "facts = []")
  case True
  with assms show ?thesis using that[of "[]"] by (simp add: transact_def)
next
  case False
  from assms(2) False obtain s where
    s: "efold (transact_step env pb force l) facts ([], []) = Inr s"
    "l' = commit_shaped l s" "shaped_ok env s"
    by (rule transact_shaped)
  have k: "keys_in (written facts) (fst s)"
    using s(1) by (rule efold_invariant[where I = "\<lambda>s. keys_in (written facts) (fst s)"])
      (simp, erule (2) transact_step_keys)
  have "datom_key (with_tx tx d) = datom_key d" if "d \<in> set (fst s)" for tx d
    using s(3) that by (auto simp: datom_key_def shaped_ok_def wf_datom_iff)
  then have "keys_in (written facts) (map (with_tx (next_tx l)) (fst s))"
    using k by (auto simp: keys_in_def)
  moreover have "map erase l' = map erase l @ map erase (map (with_tx (next_tx l)) (fst s))"
    using s(2) commit_shaped_laws(3)[OF assms(1)] by simp
  moreover have "\<forall>d \<in> set (map (with_tx (next_tx l)) (fst s)).
      d_tx d = next_tx l \<and> d_tx_time d = env_now env"
    using s(3) by (auto simp: shaped_ok_def)
  ultimately show ?thesis by (intro that)
qed

lemma entity_frame:
  assumes "wf_log l" "transact env l facts pb force = Inr l'" "(e, a) \<notin> written facts"
  shows "entity l' e a = entity l e a"
proof -
  from assms(1,2) obtain new where n: "map erase l' = map erase l @ map erase new"
    "keys_in (written facts) new"
    by (rule transact_erased)
  have "filter (\<lambda>d. d_e d = e \<and> d_a d = a) (map erase new) = []"
    using n(2) assms(3) by (auto simp: filter_empty_conv datom_key_def keys_in_def)
  then have f: "filter (\<lambda>d. d_e d = e \<and> d_a d = a) (map erase l') =
      filter (\<lambda>d. d_e d = e \<and> d_a d = a) (map erase l)"
    by (simp add: n(1))
  have "entity l' e a = entity (map erase l') e a" by (simp add: entity_erase)
  also have "\<dots> = entity (map erase l) e a"
    unfolding entity_local[of "map erase l'"] f entity_local[of "map erase l", symmetric] ..
  finally show ?thesis by (simp add: entity_erase)
qed

section \<open>One open-ended assert\<close>

definition assert_fact :: "string \<Rightarrow> string \<Rightarrow> val \<Rightarrow> int \<Rightarrow> fact" where
  "assert_fact e a v t = \<lparr>f_e = e, f_a = a, f_v = v, f_valid_from = Some (DtVal (Aware t)),
     f_valid_to = None, f_op = None\<rparr>"

lemma assert_fact_sel [simp]:
  "f_e (assert_fact e a v t) = e" "f_a (assert_fact e a v t) = a" "f_v (assert_fact e a v t) = v"
  "f_valid_from (assert_fact e a v t) = Some (DtVal (Aware t))"
  "f_valid_to (assert_fact e a v t) = None"
  "fact_op (assert_fact e a v t) = ''assert''" "fact_vf env (assert_fact e a v t) = Inr (Aware t)"
  "fact_vt env (assert_fact e a v t) = Inr None"
  by (simp_all add: assert_fact_def fact_op_def fact_vf_def fact_vt_def)

definition new_assert :: "env \<Rightarrow> prov \<Rightarrow> string \<Rightarrow> string \<Rightarrow> val \<Rightarrow> int \<Rightarrow> datom" where
  "new_assert env pb e a v t = post_init
     \<lparr>d_e = e, d_a = a, d_v = v, d_tx = TX_PLACEHOLDER, d_tx_time = env_now env,
      d_valid_from = t, d_valid_to = None, d_op = Assert,
      d_provenance = dset ''prompt_hash'' (VStr (env_digest env (assert_fact e a v t))) pb,
      d_invalidated_by = None\<rparr>"

lemma new_assert_sel [simp]:
  "d_e (new_assert env pb e a v t) = e" "d_a (new_assert env pb e a v t) = lstrip_colon a"
  "d_v (new_assert env pb e a v t) = v" "d_valid_from (new_assert env pb e a v t) = t"
  "d_op (new_assert env pb e a v t) = Assert" "d_valid_to (new_assert env pb e a v t) = None"
  "d_invalidated_by (new_assert env pb e a v t) = None"
  "d_tx_time (new_assert env pb e a v t) = env_now env"
  "d_tx (new_assert env pb e a v t) = TX_PLACEHOLDER"
  by (simp_all add: new_assert_def)

lemma fact_datom_assert [simp]:
  "fact_datom env pb (assert_fact e a v t) (Aware t) None = Inr (new_assert env pb e a v t)"
  by (simp add: fact_datom_def mk_datom_def new_assert_def)

definition companion_of :: "env \<Rightarrow> int \<Rightarrow> datom \<Rightarrow> datom" where
  "companion_of env t p =
     (if t < d_valid_from p then companion env p t (d_valid_from p)
      else companion env p (d_valid_from p) t)"

text \<open>\<open>transact\<close> of one assert, in closed form.\<close>

lemma transact_assert:
  "transact env l [assert_fact e a v t] pb force =
     (case find_prior_assert l e a of
        None \<Rightarrow> Inr (commit_shaped l ([new_assert env pb e a v t], []))
      | Some p \<Rightarrow>
          if t < d_valid_from p \<and> \<not> force then Inl RetroactiveCorrectionError
          else Inr (commit_shaped l ([companion_of env t p, new_assert env pb e a v t], [d_tx p])))"
  by (auto simp: transact_def transact_step_def supersede_def companion_of_def split: option.split)

lemma transact_assert_erased:
  assumes "wf_log l" "transact env l [assert_fact e a v t] pb force = Inr l'"
  shows "map erase l' = map erase l @ map (erase \<circ> with_tx (next_tx l))
    ((case find_prior_assert l e a of None \<Rightarrow> [] | Some p \<Rightarrow> [companion_of env t p])
      @ [new_assert env pb e a v t])"
  using assms(2) unfolding transact_assert
  by (auto simp: commit_shaped_laws(3)[OF assms(1)] split: option.splits if_splits)

lemma rkey_companion_of:
  "wf_datom p \<Longrightarrow> rkey (companion_of env t p) =
     (d_a p, pnorm (freeze (d_v p)), min t (d_valid_from p))"
  by (auto simp: companion_of_def rkey_def wf_datom_iff)

lemma rkey_with_tx: "rkey (with_tx tx d) = (lstrip_colon (d_a d), pnorm (freeze (d_v d)), d_valid_from d)"
  by (simp add: rkey_def)

end
