(* ===== verification/BatchReads.thy ===== *)
theory BatchReads
  imports TransactEffects
begin

text \<open>
  What one asserted fact reads back as, alone in a transaction or inside a batch: a batch
  treats each attribute it writes once as if that fact had been transacted alone, and
  leaves the attributes it does not name as they were.
\<close>

section \<open>One assert read back\<close>

lemma transact_assert_live:
  assumes "wf_log l" "lstrip_colon a = a"
    and "transact env l [assert_fact e a v t] pb force = Inr l'"
  obtains n where "n \<in> set (map erase l')" "d_e n = e" "d_a n = a" "d_v n = v"
    "d_valid_from n = t" "d_op n = Assert" "d_tx n = next_tx l"
    "\<And>d. d \<in> set (map erase l') \<Longrightarrow> d_op d = Assert \<Longrightarrow> d = n \<or> d \<in> set (map erase l)"
    "\<And>d. d \<in> set (map erase l') \<Longrightarrow> d_op d = Retract \<Longrightarrow> d \<in> set (map erase l) \<or>
       (\<exists>p. find_prior_assert l e a = Some p \<and>
         rkey d = (a, pnorm (freeze (d_v p)), min t (d_valid_from p)))"
    "\<And>p. find_prior_assert l e a = Some p \<Longrightarrow> \<exists>d \<in> set (map erase l').
       d_e d = e \<and> d_op d = Retract \<and> rkey d = (a, pnorm (freeze (d_v p)), min t (d_valid_from p))"
proof -
  let ?n = "erase (with_tx (next_tx l) (new_assert env pb e a v t))"
  let ?c = "\<lambda>p. erase (with_tx (next_tx l) (companion_of env t p))"
  have m: "map erase l' = map erase l @
    (case find_prior_assert l e a of None \<Rightarrow> [] | Some p \<Rightarrow> [?c p]) @ [?n]"
    using transact_assert_erased[OF assms(1,3)] by (simp split: option.split)
  have p: "d_op (?c p) = Retract" "d_e (?c p) = e"
    "rkey (?c p) = (a, pnorm (freeze (d_v p)), min t (d_valid_from p))"
    if "find_prior_assert l e a = Some p" for p
    using find_prior_SomeD[OF that] assms(2) by (auto simp: companion_of_def rkey_with_tx)
  show ?thesis
  proof (cases "find_prior_assert l e a")
    case None
    then show ?thesis
      by (intro that[of ?n]) (use assms(2) in \<open>auto simp: m\<close>)
  next
    case (Some q)
    then show ?thesis
      by (intro that[of ?n]) (use assms(2) p[OF Some] in \<open>auto simp: m\<close>)
  qed
qed

lemma assert_reads_back:
  assumes "wf_log l" "lstrip_colon a = a"
    and "transact env l [assert_fact e a v t] pb force = Inr l'"
    and "\<forall>c \<in> set l. d_e c = e \<and> d_a c = a \<and> d_op c = Assert \<longrightarrow> d_valid_from c \<le> t"
    and "\<forall>r \<in> set l. d_e r = e \<and> d_op r = Retract \<longrightarrow> rkey r \<noteq> (a, pnorm (freeze v), t)"
    and "\<forall>p. find_prior_assert l e a = Some p \<longrightarrow> d_valid_from p < t \<or>
      pnorm (freeze (d_v p)) \<noteq> pnorm (freeze v)"
  shows "entity l' e a = Some v"
  using assms(1-3)
proof (rule transact_assert_live)
  fix n
  assume n: "n \<in> set (map erase l')" "d_e n = e" "d_a n = a" "d_v n = v" "d_valid_from n = t"
    "d_op n = Assert" "d_tx n = next_tx l"
    and as: "\<And>d. d \<in> set (map erase l') \<Longrightarrow> d_op d = Assert \<Longrightarrow> d = n \<or> d \<in> set (map erase l)"
    and rs: "\<And>d. d \<in> set (map erase l') \<Longrightarrow> d_op d = Retract \<Longrightarrow> d \<in> set (map erase l) \<or>
       (\<exists>p. find_prior_assert l e a = Some p \<and>
         rkey d = (a, pnorm (freeze (d_v p)), min t (d_valid_from p)))"
  have k: "rkey n = (a, pnorm (freeze v), t)" using n by (simp add: rkey_def)
  have "rkey n \<notin> set (retracts_of e (map erase l'))"
  proof
    assume "rkey n \<in> set (retracts_of e (map erase l'))"
    then obtain r where r: "r \<in> set (map erase l')" "d_e r = e" "d_op r = Retract"
      "rkey r = (a, pnorm (freeze v), t)"
      unfolding retracts_of_iff k by blast
    from rs[OF r(1,3)] show False
    proof (elim disjE exE conjE)
      fix p assume "find_prior_assert l e a = Some p"
        "rkey r = (a, pnorm (freeze (d_v p)), min t (d_valid_from p))"
      with assms(6) r(4) show False by auto
    next
      assume "r \<in> set (map erase l)"
      then obtain x where "x \<in> set l" "r = erase x" by auto
      with assms(5) r(2-4) show False by auto
    qed
  qed
  then have live: "live e (map erase l') n" using n by (simp add: live_def)
  have "latest_of e (map erase l') (d_a n) = Some n"
  proof (rule latest_of_unique[OF live])
    fix c assume "live e (map erase l') c" "d_a c = d_a n"
    then have c: "c \<in> set (map erase l')" "d_e c = e" "d_op c = Assert" "d_a c = a"
      using n by (auto simp: live_def)
    from as[OF c(1,3)] show "c = n \<or> newer n c"
      using c assms(4) n next_tx_greater[of _ l] by (auto simp: newer_def)
  qed
  then have "entity (map erase l') e a = Some v" using n by (simp add: entity_def)
  then show ?thesis by (simp add: entity_erase)
qed

text \<open>The conditions under which an assert is what \<open>entity\<close> reads afterwards.\<close>

definition readable_write :: "log \<Rightarrow> string \<Rightarrow> string \<Rightarrow> val \<Rightarrow> int \<Rightarrow> bool" where
  "readable_write l e a v t \<longleftrightarrow>
     list_all (\<lambda>c. d_e c = e \<and> d_a c = a \<and> d_op c = Assert \<longrightarrow> d_valid_from c \<le> t) l \<and>
     list_all (\<lambda>c. d_e c = e \<and> d_op c = Retract \<longrightarrow> rkey c \<noteq> (a, pnorm (freeze v), t)) l \<and>
     (case find_prior_assert l e a of None \<Rightarrow> True
      | Some p \<Rightarrow> d_valid_from p < t \<or> pnorm (freeze (d_v p)) \<noteq> pnorm (freeze v))"

lemma readable_write_reads:
  assumes "wf_log l" "lstrip_colon a = a" "transact env l [assert_fact e a v t] pb force = Inr l'"
    and "readable_write l e a v t"
  shows "entity l' e a = Some v"
  by (rule assert_reads_back[OF assms(1-3)])
    (use assms(4) in \<open>auto simp: readable_write_def list_all_iff split: option.splits\<close>)

section \<open>Inside a batch\<close>

definition fact_key :: "fact \<Rightarrow> string \<times> string" where
  "fact_key f = (f_e f, lstrip_colon (f_a f))"

lemma written_Nil [simp]: "written [] = {}"
  by (simp add: written_def)

lemma written_append [simp]: "written (xs @ ys) = written xs \<union> written ys"
  by (auto simp: written_def)

lemma written_Cons [simp]: "written (f # fs) = insert (fact_key f) (written fs)"
  by (simp add: written_def fact_key_def)

lemma keys_in_mono: "keys_in K ds \<Longrightarrow> K \<subseteq> K' \<Longrightarrow> keys_in K' ds"
  by (auto simp: keys_in_def)

text \<open>The batch index holds asserts under their own keys.\<close>

definition index_keyed :: "(string \<times> string) set \<Rightarrow> open_index \<Rightarrow> bool" where
  "index_keyed K ix \<longleftrightarrow> (\<forall>e a d. ix (e, a) = Some d \<longrightarrow>
     datom_key d = (e, lstrip_colon a) \<and> (e, lstrip_colon a) \<in> K)"

lemma index_keyedD:
  "index_keyed K ix \<Longrightarrow> ix (e, a) = Some d \<Longrightarrow> d_e d = e \<and> d_a d = lstrip_colon a \<and> (e, lstrip_colon a) \<in> K"
  by (auto simp: index_keyed_def datom_key_def)

lemma index_keyed_empty [simp]: "index_keyed K Map.empty"
  by (simp add: index_keyed_def)

lemma index_keyed_mono: "index_keyed K ix \<Longrightarrow> K \<subseteq> K' \<Longrightarrow> index_keyed K' ix"
  unfolding index_keyed_def by blast

lemma index_keyed_del: "index_keyed K ix \<Longrightarrow> index_keyed K (ix(k := None))"
  by (simp add: index_keyed_def)

lemma index_keyed_upd:
  "index_keyed K ix \<Longrightarrow> datom_key d = (e, lstrip_colon a) \<Longrightarrow> (e, lstrip_colon a) \<in> K \<Longrightarrow>
     index_keyed K (ix((e, a) \<mapsto> d))"
  by (simp add: index_keyed_def)

lemma prior_cases:
  "(if P then (case (case i of Some d \<Rightarrow> Some d | None \<Rightarrow> j) of None \<Rightarrow> Inr (s, b)
      | Some p \<Rightarrow> ebind (g p) (\<lambda>s'. Inr (s', c))) else Inr (s, b)) = Inr (s1, b1) \<Longrightarrow>
    (s1 = s \<and> b1 = b) \<or> (\<exists>p. (i = Some p \<or> j = Some p) \<and> g p = Inr s1 \<and> b1 = c)"
  by (cases i; cases j) (auto simp: ebind_Inr_iff split: if_splits)

lemma batch_step_keys:
  assumes "batch_step env pb force (prior_index l) f st = Inr st'" "index_keyed K (snd st)"
  obtains cs where "fst (fst st') = fst (fst st) @ cs" "keys_in {fact_key f} cs"
    "index_keyed (insert (fact_key f) K) (snd st')"
proof -
  obtain s ibo where st: "st = (s, ibo)" by (cases st)
  let ?k = "(f_e f, f_a f)" and ?K = "insert (fact_key f) K"
  from assms(1)[unfolded st batch_step_def Let_def fst_conv snd_conv ebind_Inr_iff]
  obtain vf vt x where
    a: "(if fact_op f = ''assert''
            then (case (case ibo ?k of Some d \<Rightarrow> Some d | None \<Rightarrow> prior_index l ?k) of
                    None \<Rightarrow> Inr (s, ibo)
                  | Some prior \<Rightarrow> ebind (supersede env force vf prior s)
                      (\<lambda>s'. Inr (s', ibo(?k := None))))
            else Inr (s, ibo)) = Inr x"
    and r: "(case x of (s', ibo) \<Rightarrow> ebind (fact_datom env pb f vf vt)
       (\<lambda>d. Inr ((fst s' @ [d], snd s'),
            if fact_op f = ''assert'' \<and> vt = None then ibo(?k \<mapsto> d) else ibo))) = Inr st'"
    by blast
  obtain s1 ibo1 where x: "x = (s1, ibo1)" by (cases x)
  from r[unfolded x] obtain d where
    d: "fact_datom env pb f vf vt = Inr d"
    and st': "st' = ((fst s1 @ [d], snd s1),
       if fact_op f = ''assert'' \<and> vt = None then ibo1(?k \<mapsto> d) else ibo1)"
    by (auto simp: ebind_Inr_iff)
  from prior_cases[OF a[unfolded x]]
  consider "s1 = s" "ibo1 = ibo"
    | p where "ibo ?k = Some p \<or> prior_index l ?k = Some p"
        "supersede env force vf p s = Inr s1" "ibo1 = ibo(?k := None)"
    by blast
  note s1 = this
  have dk: "datom_key d = fact_key f"
    using fact_datom_Inr[OF d(1)] by (simp add: datom_key_def fact_key_def)
  have ik: "index_keyed ?K ibo1"
    using s1 assms(2) st by cases (auto intro: index_keyed_del index_keyed_mono)
  have "index_keyed ?K (ibo1(?k \<mapsto> d))"
    by (rule index_keyed_upd[OF ik]) (use dk in \<open>auto simp: fact_key_def\<close>)
  then have i': "index_keyed ?K (snd st')"
    using ik by (simp add: st')
  from s1 show ?thesis
  proof cases
    case 1
    then show ?thesis using that[of "[d]"] dk i' st by (simp add: st')
  next
    case (2 p)
    then obtain fr to where c: "fst s1 = fst s @ [companion env p fr to]"
      by (auto dest!: supersede_Inr)
    have "(d_e p, lstrip_colon (d_a p)) = fact_key f"
      using 2(1) index_keyedD[OF assms(2), of "f_e f" "f_a f" p]
        find_prior_SomeD[of l "f_e f" "f_a f" p] st
      by (auto simp: fact_key_def prior_index_correct)
    then show ?thesis using that[of "[companion env p fr to, d]"] c dk i' st by (simp add: st')
  qed
qed

lemma batch_keys:
  assumes "efold (batch_step env pb force (prior_index l)) fs st = Inr st'" "index_keyed K (snd st)"
  shows "\<exists>cs. fst (fst st') = fst (fst st) @ cs \<and> keys_in (written fs) cs \<and>
    index_keyed (written fs \<union> K) (snd st')"
  using assms
proof (induction fs arbitrary: st K)
  case Nil
  then show ?case by simp
next
  case (Cons f fs)
  then obtain m where m: "batch_step env pb force (prior_index l) f st = Inr m"
    "efold (batch_step env pb force (prior_index l)) fs m = Inr st'"
    by (auto simp: ebind_Inr_iff)
  from m(1) Cons.prems(2) obtain cs where cs: "fst (fst m) = fst (fst st) @ cs"
    "keys_in {fact_key f} cs" "index_keyed (insert (fact_key f) K) (snd m)"
    by (rule batch_step_keys)
  from Cons.IH[OF m(2) cs(3)] obtain ds where "fst (fst st') = fst (fst m) @ ds"
    "keys_in (written fs) ds" "index_keyed (written fs \<union> insert (fact_key f) K) (snd st')"
    by blast
  with cs show ?case by (intro exI[of _ "cs @ ds"]) (auto intro: keys_in_mono)
qed

lemma batch_step_assert:
  assumes "snd m (e, a) = None"
  shows "batch_step env pb force (prior_index l) (assert_fact e a v t) m =
    (case find_prior_assert l e a of
       None \<Rightarrow> Inr ((fst (fst m) @ [new_assert env pb e a v t], snd (fst m)),
         (snd m)((e, a) \<mapsto> new_assert env pb e a v t))
     | Some p \<Rightarrow>
         if t < d_valid_from p \<and> \<not> force then Inl RetroactiveCorrectionError
         else Inr ((fst (fst m) @ [companion_of env t p, new_assert env pb e a v t],
                    snd (fst m) @ [d_tx p]), (snd m)((e, a) \<mapsto> new_assert env pb e a v t)))"
  using assms
  by (cases m) (auto simp: batch_step_def Let_def prior_index_correct supersede_def companion_of_def
      split: option.split)

lemma filter_key_none:
  assumes "keys_in K ds" "\<forall>d \<in> set ds. wf_datom d" "(e, a) \<notin> K"
  shows "filter (\<lambda>d. d_e d = e \<and> d_a d = a) (map (erase \<circ> with_tx tx) ds) = []"
  using assms by (auto simp: filter_empty_conv keys_in_def datom_key_def wf_datom_iff)

lemma entity_cong_filter:
  assumes "filter (\<lambda>d. d_e d = e \<and> d_a d = a) (map erase l) =
    filter (\<lambda>d. d_e d = e \<and> d_a d = a) (map erase l')"
  shows "entity l e a = entity l' e a"
proof -
  have "entity (map erase l) e a = entity (map erase l') e a"
    using assms by (simp only: entity_local[of "map erase l"] entity_local[of "map erase l'"])
  then show ?thesis by (simp add: entity_erase)
qed

lemma batch_frame:
  assumes "wf_log l" "transact_batch env l facts pb force = Inr l'" "(e, a) \<notin> written facts"
  shows "entity l' e a = entity l e a"
proof (cases "facts = []")
  case True
  with assms show ?thesis by (simp add: transact_batch_def)
next
  case False
  from assms(2) False obtain st where
    st: "efold (batch_step env pb force (prior_index l)) facts (([], []), Map.empty) = Inr st"
    "l' = commit_shaped l (fst st)" "shaped_ok env (fst st)"
    by (rule batch_shaped)
  from batch_keys[OF st(1), of "{}"] have k: "keys_in (written facts) (fst (fst st))" by auto
  have "\<forall>d \<in> set (fst (fst st)). wf_datom d" using st(3) by (simp add: shaped_ok_def)
  from filter_key_none[OF k this assms(3)] show ?thesis
    by (intro entity_cong_filter) (simp add: st(2) commit_shaped_laws(3)[OF assms(1)])
qed

text \<open>A batch restricted to one attribute it writes once is that write alone.\<close>

lemma batch_localises:
  assumes "wf_log l" "lstrip_colon a = a"
    and "transact_batch env l (xs @ assert_fact e a v t # ys) pb force = Inr l'"
    and "(e, a) \<notin> written xs" "(e, a) \<notin> written ys"
  obtains l1 where "transact env l [assert_fact e a v t] pb force = Inr l1"
    "entity l' e a = entity l1 e a"
proof -
  let ?b = "batch_step env pb force (prior_index l)"
  let ?cs = "(case find_prior_assert l e a of None \<Rightarrow> [] | Some p \<Rightarrow> [companion_of env t p])
    @ [new_assert env pb e a v t]"
  from assms(3) obtain st where
    st: "efold ?b (xs @ assert_fact e a v t # ys) (([], []), Map.empty) = Inr st"
    "l' = commit_shaped l (fst st)" "shaped_ok env (fst st)"
    by (rule batch_shaped) simp
  from st(1) obtain m n where m: "efold ?b xs (([], []), Map.empty) = Inr m"
    and n: "?b (assert_fact e a v t) m = Inr n" "efold ?b ys n = Inr st"
    by (auto simp: ebind_Inr_iff)
  from batch_keys[OF m, of "{}"] have mk: "keys_in (written xs) (fst (fst m))"
    and mi: "index_keyed (written xs) (snd m)" by auto
  have none: "snd m (e, a) = None"
    using index_keyedD[OF mi, of e a] assms(2,4) by (cases "snd m (e, a)") auto
  from n(1) none have nd: "fst (fst n) = fst (fst m) @ ?cs"
    and ok: "\<not> (\<exists>p. find_prior_assert l e a = Some p \<and> t < d_valid_from p \<and> \<not> force)"
    by (auto simp: batch_step_assert split: option.splits if_splits)
  from n(1) mi obtain K where "index_keyed K (snd n)" by (rule batch_step_keys)
  from batch_keys[OF n(2) this] obtain ds where
    ds: "fst (fst st) = fst (fst n) @ ds" "keys_in (written ys) ds" by blast
  have wf: "\<forall>d \<in> set (fst (fst m)). wf_datom d" "\<forall>d \<in> set ds. wf_datom d"
    using st(3) by (auto simp: ds(1) nd shaped_ok_def)
  obtain l1 where l1: "transact env l [assert_fact e a v t] pb force = Inr l1"
    using ok by (cases "find_prior_assert l e a") (auto simp: transact_assert split: if_splits)
  have "entity l' e a = entity l1 e a"
    by (rule entity_cong_filter)
      (simp add: st(2) commit_shaped_laws(3)[OF assms(1)] ds(1) nd
        filter_key_none[OF mk wf(1) assms(4), simplified]
        filter_key_none[OF ds(2) wf(2) assms(5), simplified]
        transact_assert_erased[OF assms(1) l1])
  with l1 show ?thesis by (rule that)
qed

end
