(* ===== verification/FactProps.thy ===== *)
theory FactProps
  imports BatchReads
begin

text \<open>
  The properties of the fact module: history is append-only and re-readable, transaction
  ids are fresh, the two transactors agree, what a write makes visible, and where the
  invalidation pointer and the companion retract say more than the write did.
\<close>

section \<open>Sample data for the witnesses\<close>

definition env_at :: "int \<Rightarrow> env" where
  "env_at t = \<lparr>env_now = t, env_digest = (\<lambda>f. f_e f @ f_a f), env_iso = (\<lambda>_. None)\<rparr>"

definition log1 :: log where
  "log1 = projr (transact (env_at 10) []
     [assert_fact ''e1'' ''price'' (VInt 7) 5, assert_fact ''e2'' ''price'' (VInt 8) 5] [] False)"

definition log2 :: log where
  "log2 = projr (transact (env_at 20) log1 [assert_fact ''e1'' ''price'' (VInt 9) 6] [] False)"

lemma log1_run: "transact_call (env_at 10, [assert_fact ''e1'' ''price'' (VInt 7) 5,
    assert_fact ''e2'' ''price'' (VInt 8) 5], [], False) [] = Inr log1"
  by code_simp

lemma log2_run: "transact_call (env_at 20, [assert_fact ''e1'' ''price'' (VInt 9) 6], [], False) log1
    = Inr log2"
  by code_simp

lemma env_at_sel [simp]: "env_now (env_at t) = t"
  by (simp add: env_at_def)

lemma wf_log1: "wf_log log1"
  using tl.put_wf[OF wf_log_Nil log1_run] .

lemma wf_log2: "wf_log log2"
  using tl.put_wf[OF wf_log1 log2_run] .

section \<open>History\<close>

text \<open>C1. History is append-only: after any sequence of transactions every datom that was
  in the log is still there, at its position and unchanged but for an invalidation pointer
  that was unset, and the log is still well formed (canonical datoms, transaction ids at
  least 1 and in order).\<close>

theorem history_append_only:
  assumes "wf_log l" "efold transact_call calls l = Inr l'"
  shows "wf_log l' \<and> grows l l'"
  using tl.run_wf[OF assms] tl.run_grows[OF assms] by simp

theorem history_append_only_witness:
  "wf_log log2 \<and> grows log1 log2"
proof -
  have "efold transact_call
      [(env_at 20, [assert_fact ''e1'' ''price'' (VInt 9) 6], [], False)] log1 = Inr log2"
    using log2_run by simp
  from history_append_only[OF wf_log1 this] show ?thesis .
qed

text \<open>C2. Time travel is stable up to the invalidation pointer: after any transactions whose
  clock is past \<open>t\<close>, the view as of \<open>t\<close> has the same datoms in the same order, where at
  most an unset invalidation pointer has been filled in (\<open>pointer_le\<close>), and every entity
  reads in it, attribute by attribute, as it read before.\<close>

theorem as_of_stable:
  assumes "wf_log l" "efold transact_call calls l = Inr l'"
    and "\<And>c. c \<in> set calls \<Longrightarrow> t < call_time c"
  shows "map erase (as_of l' t) = map erase (as_of l t) \<and>
    list_all2 pointer_le (as_of l t) (as_of l' t) \<and>
    (\<forall>e a. entity (as_of l' t) e a = entity (as_of l t) e a)"
  using tl.run_as_of[OF assms] tl.run_as_of_le[OF assms] entity_cong_erase[OF tl.run_as_of[OF assms]]
  by simp

theorem as_of_stable_witness:
  "map erase (as_of log2 10) = map erase (as_of log1 10) \<and>
    list_all2 pointer_le (as_of log1 10) (as_of log2 10) \<and>
    (\<forall>e a. entity (as_of log2 10) e a = entity (as_of log1 10) e a)"
proof (rule as_of_stable[OF wf_log1])
  show "efold transact_call
      [(env_at 20, [assert_fact ''e1'' ''price'' (VInt 9) 6], [], False)] log1 = Inr log2"
    using log2_run by simp
qed (simp add: call_time_def)

text \<open>A transaction writes all its datoms (companion retracts included) under one
  transaction id, greater than every id already in the log, and stamps them with its own
  recording time.\<close>

lemma transact_one_fresh_tx:
  assumes "wf_log l" "transact env l facts pb force = Inr l'"
    and "d \<in> set (drop (length l) l')"
  shows "d_tx d = next_tx l \<and> d_tx_time d = env_now env \<and> (\<forall>c \<in> set l. d_tx c < d_tx d)"
  using transact_laws[OF assms(1,2)] assms(3) next_tx_greater[of _ l] by simp

section \<open>The two transactors\<close>

text \<open>C3. The indexed \<open>transact_batch\<close> is equivalent to \<open>transact\<close>, same log and same
  error, for facts whose attribute has no leading colon and whose asserts are open-ended.\<close>

theorem transact_batch_equivalent:
  assumes "\<forall>f \<in> set facts. lstrip_colon (f_a f) = f_a f \<and>
    (fact_op f = ''assert'' \<longrightarrow> f_valid_to f = None)"
  shows "transact_batch env l facts pb force = transact env l facts pb force"
  using assms by (intro batch_eq_transact) (simp add: bare_fact_def open_ended_def)

theorem transact_batch_equivalent_witness:
  "transact_batch (env_at 20) log1 [assert_fact ''e1'' ''price'' (VInt 9) 6] [] False = Inr log2"
  using transact_batch_equivalent[of "[assert_fact ''e1'' ''price'' (VInt 9) 6]" "env_at 20" log1 "[]" False]
    log2_run
  by (simp add: lstrip_colon_def)

definition bounded_batch :: "fact list" where
  "bounded_batch =
     [assert_fact ''e'' ''a'' (VInt 1) 1,
      (assert_fact ''e'' ''a'' (VInt 2) 2)\<lparr>f_valid_to := Some (DtVal (Aware 3))\<rparr>,
      assert_fact ''e'' ''a'' (VInt 3) 3]"

text \<open>The documented equivalence does not extend to bounded asserts: an open assert, a
  bounded one and a third one of the same attribute in a single batch retract the first
  assert twice under \<open>transact\<close> and once under \<open>transact_batch\<close>.\<close>

lemma transact_batch_diverges_on_bounded:
  "map_sum id (map d_op) (transact (env_at 10) [] bounded_batch [] False) =
     Inr [Assert, Retract, Assert, Retract, Assert] \<and>
   map_sum id (map d_op) (transact_batch (env_at 10) [] bounded_batch [] False) =
     Inr [Assert, Retract, Assert, Assert]"
  by code_simp

section \<open>Reading back\<close>

text \<open>C4. The entity projection returns, per attribute, exactly the newest live assert: one
  that no retract of the view closes, with no live assert of the attribute of greater
  \<open>valid_from\<close> or, at equal \<open>valid_from\<close>, greater transaction id; and it returns nothing
  exactly when no assert of the attribute is live.\<close>

theorem entity_returns_newest_live:
  "case entity ds e a of
     None \<Rightarrow> \<forall>d. live e ds d \<longrightarrow> d_a d \<noteq> a
   | Some v \<Rightarrow> \<exists>d. live e ds d \<and> d_a d = a \<and> d_v d = v \<and>
       (\<forall>c. live e ds c \<longrightarrow> d_a c = a \<longrightarrow> \<not> newer c d)"
  using latest_of_cases[of e ds a] by (auto simp: entity_def split: option.splits)

theorem entity_returns_newest_live_witness:
  "live ''e1'' log2 (log2 ! 3) \<and> entity log2 ''e1'' ''price'' = Some (VInt 9) \<and>
   (case entity log2 ''e1'' ''price'' of
     None \<Rightarrow> \<forall>d. live ''e1'' log2 d \<longrightarrow> d_a d \<noteq> ''price''
   | Some v \<Rightarrow> \<exists>d. live ''e1'' log2 d \<and> d_a d = ''price'' \<and> d_v d = v \<and>
       (\<forall>c. live ''e1'' log2 c \<longrightarrow> d_a c = ''price'' \<longrightarrow> \<not> newer c d))"
proof (intro conjI)
  show "live ''e1'' log2 (log2 ! 3)" by code_simp
  show "entity log2 ''e1'' ''price'' = Some (VInt 9)" by code_simp
qed (rule entity_returns_newest_live)

text \<open>Read your writes: after asserting a value for an attribute at a valid time no
  earlier than every assert of the attribute, the entity reads back that value, provided no
  retract in the log closes that very value at that very time and the superseded assert did
  not itself hold that value from that time.\<close>

lemma transact_read_back:
  assumes "wf_log l" "lstrip_colon a = a"
    and "transact env l [assert_fact e a v t] pb force = Inr l'"
    and "\<forall>c \<in> set l. d_e c = e \<and> d_a c = a \<and> d_op c = Assert \<longrightarrow> d_valid_from c \<le> t"
    and "\<forall>r \<in> set l. d_e r = e \<and> d_op r = Retract \<longrightarrow> rkey r \<noteq> (a, pnorm (freeze v), t)"
    and "\<forall>p. find_prior_assert l e a = Some p \<longrightarrow> d_valid_from p < t \<or>
      pnorm (freeze (d_v p)) \<noteq> pnorm (freeze v)"
  shows "entity l' e a = Some v"
  using assms by (rule assert_reads_back)

text \<open>Frame: a transaction leaves every entity attribute it does not name as it was.\<close>

lemma transact_frame:
  assumes "wf_log l" "transact env l facts pb force = Inr l'"
    and "\<forall>f \<in> set facts. f_e f \<noteq> e \<or> lstrip_colon (f_a f) \<noteq> a"
  shows "entity l' e a = entity l e a"
  using assms by (intro entity_frame[OF assms(1,2)]) (auto simp: written_def)

section \<open>Companion retracts\<close>

definition forward :: "datom \<Rightarrow> bool" where
  "forward d \<longleftrightarrow> (case d_valid_to d of None \<Rightarrow> True | Some u \<Rightarrow> d_valid_from d \<le> u)"

definition retracts_forward :: "datom list \<Rightarrow> bool" where
  "retracts_forward ds \<longleftrightarrow> (\<forall>d \<in> set ds. d_op d = Retract \<longrightarrow> forward d)"

lemma retracts_forward_simps [simp]:
  "retracts_forward []" "retracts_forward (ds @ cs) \<longleftrightarrow> retracts_forward ds \<and> retracts_forward cs"
  "retracts_forward [d] \<longleftrightarrow> (d_op d = Retract \<longrightarrow> forward d)"
  by (auto simp: retracts_forward_def)

lemma transact_step_forward:
  assumes "transact_step env pb force l f s = Inr s'" "fact_op f = ''assert''"
    and "retracts_forward (fst s)"
  shows "retracts_forward (fst s')"
  using assms(1)
proof (rule transact_step_Inr)
  fix vf vt s1 d
  assume d: "fact_datom env pb f vf vt = Inr d" "s' = (fst s1 @ [d], snd s1)"
    and s1: "s1 = s \<and> (fact_op f = ''assert'' \<longrightarrow> find_prior_assert (l @ fst s) (f_e f) (f_a f) = None) \<or>
      (fact_op f = ''assert'' \<and> (\<exists>p. find_prior_assert (l @ fst s) (f_e f) (f_a f) = Some p \<and>
        supersede env force vf p s = Inr s1))"
  from s1 have "retracts_forward (fst s1)"
    using assms(3) by (auto dest!: supersede_Inr simp: forward_def)
  then show ?thesis
    using d fact_datom_Inr[OF d(1)] assms(2) by simp
qed

text \<open>No negative interval: whatever valid times a transaction of asserts supplies, in
  order or retroactive, every retract it adds has \<open>valid_from\<close> at most \<open>valid_to\<close>.\<close>

lemma companions_never_negative:
  assumes "wf_log l" "transact env l facts pb force = Inr l'"
    and "\<forall>f \<in> set facts. fact_op f = ''assert''"
    and "d \<in> set (drop (length l) l')" "d_op d = Retract"
  shows "forward d"
proof (cases "facts = []")
  case True
  with assms(2,4) show ?thesis by (simp add: transact_def)
next
  case False
  with assms(2) obtain s where
    s: "efold (transact_step env pb force l) facts ([], []) = Inr s" "l' = commit_shaped l s"
    by (rule transact_shaped)
  have "retracts_forward (fst s)"
    using s(1) by (rule efold_invariant[where I = "\<lambda>s. retracts_forward (fst s)"])
      (use assms(3) in \<open>auto intro: transact_step_forward\<close>)
  moreover have "erase d \<in> set (map (erase \<circ> with_tx (next_tx l)) (fst s))"
    using assms(4) s(2) commit_shaped_new[OF assms(1), of s] by (metis image_eqI list.set_map)
  then obtain c where "c \<in> set (fst s)" "erase d = erase (with_tx (next_tx l) c)" by auto
  moreover from this(2) have "d_op d = d_op c" "d_valid_from d = d_valid_from c"
    "d_valid_to d = d_valid_to c"
    by (metis erase_sel(8) with_tx_sel(8), metis erase_sel(6) with_tx_sel(6),
        metis erase_sel(7) with_tx_sel(7))
  ultimately have "d_op c = Retract" "retracts_forward (fst s)" "forward d = forward c"
    using assms(5) by (simp_all add: forward_def split: option.split)
  with \<open>c \<in> set (fst s)\<close> show ?thesis by (simp add: retracts_forward_def)
qed

text \<open>The retroactive guard is exact for a single assert: it is refused with
  \<open>RetroactiveCorrectionError\<close> iff the open assert it would supersede starts strictly
  later and the caller did not opt in.\<close>

lemma retroactive_guard_exact:
  "transact env l [assert_fact e a v t] pb force = Inl err \<longleftrightarrow>
     err = RetroactiveCorrectionError \<and> \<not> force \<and>
     (\<exists>p. find_prior_assert l e a = Some p \<and> t < d_valid_from p)"
  by (auto simp: transact_assert split: option.splits)

section \<open>Where a write says more than it should\<close>

text \<open>Asserting again the value an attribute already has, from the same valid time,
  removes it: the companion retract of the superseded assert carries the key of the new one,
  so the projection finds neither live.\<close>

lemma reassert_hides_value:
  assumes "wf_log l" "lstrip_colon a = a" "find_prior_assert l e a = Some p"
    and "d_valid_from p = t" "py_eq (freeze (d_v p)) (freeze v)"
    and "\<forall>c. live e l c \<and> d_a c = a \<longrightarrow> rkey c = rkey p"
    and "transact env l [assert_fact e a v t] pb force = Inr l'"
  shows "entity l' e a = None"
  using assms(1,2,7)
proof (rule transact_assert_live)
  fix n
  assume n: "d_e n = e" "d_a n = a" "d_v n = v" "d_valid_from n = t"
    and as: "\<And>d. d \<in> set (map erase l') \<Longrightarrow> d_op d = Assert \<Longrightarrow> d = n \<or> d \<in> set (map erase l)"
    and cs: "\<And>p. find_prior_assert l e a = Some p \<Longrightarrow> \<exists>d \<in> set (map erase l').
       d_e d = e \<and> d_op d = Retract \<and> rkey d = (a, pnorm (freeze (d_v p)), min t (d_valid_from p))"
  have pa: "d_a p = a" using find_prior_SomeD[OF assms(3)] by simp
  have kp: "rkey p = (a, pnorm (freeze (d_v p)), t)" using pa assms(4) by (simp add: rkey_def)
  have kn: "rkey n = rkey p" using n kp assms(5) by (simp add: rkey_def py_eq_def)
  have ret: "rkey p \<in> set (retracts_of e (map erase l'))"
    using cs[OF assms(3)] assms(4) kp by (auto simp: retracts_of_iff)
  have "set (map erase l) \<subseteq> set (map erase l')"
    using grows_split[of l l'] transact_laws[OF assms(1,7)] by auto
  then have mono: "set (retracts_of e l) \<subseteq> set (retracts_of e (map erase l'))"
    using retracts_of_mono[of "map erase l" "map erase l'" e] by simp
  have "\<not> (live e (map erase l') c \<and> d_a c = a)" for c
  proof
    assume c: "live e (map erase l') c \<and> d_a c = a"
    then have "c \<in> set (map erase l)" using as[of c] kn ret by (auto simp: live_def)
    then obtain c0 where "c0 \<in> set l" "c = erase c0" by auto
    then have "live e l c0" "d_a c0 = a" using c mono by (auto simp: live_def)
    then show False using assms(6) c ret \<open>c = erase c0\<close> by (auto simp: live_def)
  qed
  then have "latest_of e (map erase l') a = None" by (auto simp: latest_of_None)
  then have "entity (map erase l') e a = None" by (simp add: entity_def)
  then show ?thesis by (simp add: entity_erase)
qed

text \<open>Superseding one fact stamps the invalidation pointer of every assert of the
  superseded transaction, whatever its entity and attribute.\<close>

lemma pointer_hits_whole_transaction:
  assumes "wf_log l" "find_prior_assert l e a = Some p"
    and "transact env l [assert_fact e a v t] pb force = Inr l'"
    and "i < length l" "d_op (l ! i) = Assert" "d_invalidated_by (l ! i) = None"
    and "d_tx (l ! i) = d_tx p"
  shows "d_invalidated_by (l' ! i) = Some (next_tx l)"
proof -
  have "l' = commit_shaped l ([companion_of env t p, new_assert env pb e a v t], [d_tx p])"
    using assms(2,3) by (auto simp: transact_assert split: if_splits)
  then show ?thesis
    using assms(4-7) by (simp add: commit_shaped_unfold mark_invalidated_def nth_append mark_one_def)
qed

text \<open>The sibling fact then escapes the transactor's own rules: its assert is no longer
  found, so overwriting it emits no companion retract and accepts a retroactive valid time
  without the opt-in.\<close>

lemma sibling_escapes_retroactive_guard:
  "find_prior_assert log1 ''e2'' ''price'' \<noteq> None \<and>
   transact (env_at 30) log1 [assert_fact ''e2'' ''price'' (VInt 1) 2] [] False =
     Inl RetroactiveCorrectionError \<and>
   find_prior_assert log2 ''e2'' ''price'' = None \<and>
   map_sum id (\<lambda>l. map d_op (drop (length log2) l))
     (transact (env_at 30) log2 [assert_fact ''e2'' ''price'' (VInt 1) 2] [] False) = Inr [Assert]"
  by code_simp

text \<open>An attribute written with a leading colon is stored without it, and the
  transactor looks the prior assert up under the name as written: it never finds one, so no
  write under such a name is ever superseded or refused as retroactive.\<close>

lemma colon_attribute_never_superseded:
  assumes "wf_log l"
  shows "transact env l [assert_fact e (CHR '':'' # a) v t] pb force =
    Inr (commit_shaped l ([new_assert env pb e a v t\<lparr>d_provenance :=
      d_provenance (new_assert env pb e (CHR '':'' # a) v t)\<rparr>], []))"
proof -
  have "find_prior_assert l e (CHR '':'' # a) = None"
  proof (cases "find_prior_assert l e (CHR '':'' # a)")
    case (Some p)
    from find_prior_SomeD[OF Some] assms have "lstrip_colon (CHR '':'' # a) = CHR '':'' # a"
      by (auto simp: wf_log_def wf_datom_iff)
    moreover have "length (lstrip_colon (CHR '':'' # a)) \<le> length a"
      by (simp add: lstrip_colon_def length_dropWhile_le)
    ultimately show ?thesis by simp
  qed
  then show ?thesis
    by (simp add: transact_assert new_assert_def post_init_def)
qed

section \<open>Branches\<close>

text \<open>A branch at \<open>t\<close> is the snapshot as of \<open>t\<close> plus the hypothetical facts: it grows
  the snapshot, its new datoms carry one transaction id fresh in the snapshot, and with no
  facts it is the snapshot.\<close>

lemma branch_extends_snapshot:
  assumes "wf_log l" "branch env isof l t facts = Inr b"
  shows "wf_log b \<and> grows (as_of l t) b \<and> (facts = [] \<longrightarrow> b = as_of l t) \<and>
    (\<forall>d \<in> set (drop (length (as_of l t)) b). d_tx d = next_tx (as_of l t) \<and>
       d_tx_time d = env_now env)"
proof -
  have wf: "wf_log (as_of l t)"
    using assms(1) sorted_filter[of d_tx l "\<lambda>d. d_tx_time d \<le> t"] by (auto simp: wf_log_def as_of_def)
  then have "map post_init (as_of l t) = as_of l t"
    by (intro map_idI) (auto simp: wf_log_def wf_datom_def)
  then have b: "if facts = [] then b = as_of l t else
      \<exists>p. transact env (as_of l t) facts p False = Inr b"
    using assms(2) by (auto simp: branch_def append_datoms_def Let_def)
  show ?thesis
  proof (cases "facts = []")
    case True
    with b wf show ?thesis by simp
  next
    case False
    with b obtain p where "transact env (as_of l t) facts p False = Inr b" by auto
    from transact_laws[OF wf this] False show ?thesis by simp
  qed
qed

end
