(* ===== verification/ProjectionProps.thy ===== *)
theory ProjectionProps
  imports Projection FactProps
begin

text \<open>Properties of the dictionary projection against \<open>DBView.entity\<close>.\<close>

text \<open>C5. A rebuilt projection reads as \<open>DBView.entity\<close> over the whole log for every
  attribute whose closed asserts are all superseded by a newer live one, in a log where no
  retract shares transaction id and valid time with an assert of its attribute.\<close>

theorem rebuild_agrees_with_entity:
  assumes "no_hit l"
    and "\<And>d. d \<in> set l \<Longrightarrow> d_op d = Assert \<Longrightarrow> d_e d = e \<Longrightarrow> d_a d = a \<Longrightarrow>
      rkey d \<in> set (retracts_of e l) \<Longrightarrow> \<exists>c. live e l c \<and> d_a c = a \<and> newer c d"
    and "\<And>c d. live e l c \<Longrightarrow> live e l d \<Longrightarrow> d_a c = a \<Longrightarrow> d_a d = a \<Longrightarrow> vt_tx c = vt_tx d \<Longrightarrow> d_v c = d_v d"
  shows "dget (proj_get (rebuild l p) e) a = entity l e a"
proof -
  have "dget (proj_get (rebuild l p) e) a = map_option d_v (newest_of e l a)"
    using rebuild_holds_newest[OF assms(1), of p] by (simp only: holds_newest_def)
  also have "\<dots> = map_option d_v (latest_of e l a)"
    by (rule newest_eq_latest) (fact assms(2), fact assms(3))
  finally show ?thesis by (simp add: entity_def)
qed

theorem rebuild_agrees_with_entity_witness:
  "dget (proj_get (rebuild log2 empty_projection) ''e1'') ''price'' = Some (VInt 9) \<and>
   entity log2 ''e1'' ''price'' = Some (VInt 9)"
proof -
  have n: "no_hit log2" by code_simp
  have "list_all (\<lambda>d. d_op d = Assert \<and> d_e d = ''e1'' \<and> d_a d = ''price'' \<and>
      rkey d \<in> set (retracts_of ''e1'' log2) \<longrightarrow> newer (log2 ! 3) d) log2" by code_simp
  moreover have "live ''e1'' log2 (log2 ! 3) \<and> d_a (log2 ! 3) = ''price''" by code_simp
  ultimately have c: "\<And>d. d \<in> set log2 \<Longrightarrow> d_op d = Assert \<Longrightarrow> d_e d = ''e1'' \<Longrightarrow> d_a d = ''price'' \<Longrightarrow>
      rkey d \<in> set (retracts_of ''e1'' log2) \<Longrightarrow>
      \<exists>c. live ''e1'' log2 c \<and> d_a c = ''price'' \<and> newer c d"
    by (intro exI[of _ "log2 ! 3"]) (simp add: list_all_iff)
  have "list_all (\<lambda>c. list_all (\<lambda>d. vt_tx c = vt_tx d \<and> d_e c = ''e1'' \<and> d_e d = ''e1'' \<and>
      d_op c = Assert \<and> d_op d = Assert \<longrightarrow> d_v c = d_v d) log2) log2" by code_simp
  then have u: "\<And>c d. live ''e1'' log2 c \<Longrightarrow> live ''e1'' log2 d \<Longrightarrow> d_a c = ''price'' \<Longrightarrow>
      d_a d = ''price'' \<Longrightarrow> vt_tx c = vt_tx d \<Longrightarrow> d_v c = d_v d"
    by (simp add: list_all_iff live_def)
  have v: "entity log2 ''e1'' ''price'' = Some (VInt 9)" by code_simp
  have "dget (proj_get (rebuild log2 empty_projection) ''e1'') ''price'' = entity log2 ''e1'' ''price''"
    by (rule rebuild_agrees_with_entity[OF n c u])
  then show ?thesis by (simp only: v)
qed

text \<open>An explicit retract in a later transaction closes the value for
  \<open>DBView.entity\<close> and leaves it in the projection: the projection compares the retract's
  own transaction id with the assert's.\<close>

lemma projection_keeps_retracted_value:
  assumes "d_op d = Assert" "d_op r = Retract" "d_e r = d_e d" "rkey r = rkey d" "d_tx r \<noteq> d_tx d"
  shows "entity [d, r] (d_e d) (d_a d) = None \<and>
    dget (proj_get (rebuild [d, r] p) (d_e d)) (d_a d) = Some (d_v d)"
proof
  have "rkey d \<in> set (retracts_of (d_e d) [d, r])"
    using assms by (auto simp: retracts_of_iff)
  then have "\<not> live (d_e d) [d, r] c" if "d_a c = d_a d" for c
    using assms by (auto simp: live_def)
  then show "entity [d, r] (d_e d) (d_a d) = None"
    using latest_of_None[of "d_e d" "[d, r]" "d_a d"] by (auto simp: entity_def)
  have "no_hit [d, r]" using assms by (auto simp: no_hit_def vt_tx_def)
  from rebuild_holds_newest[OF this, of p]
  show "dget (proj_get (rebuild [d, r] p) (d_e d)) (d_a d) = Some (d_v d)"
    using assms by (simp add: holds_newest_def candidates_of_def latest_step_def)
qed

definition retract_fact :: fact where
  "retract_fact = (assert_fact ''e2'' ''price'' (VInt 8) 5)\<lparr>f_op := Some ''retract''\<rparr>"

end
