(* ===== verification/Fold.thy ===== *)
theory Fold
  imports DbLaws
begin

text \<open>
  \<open>DB.fold\<close>: a reduce over items whose facts are committed in batches, with a checkpoint
  after each batch and three error policies. The reducer reads the log; each flush reads the
  clock, so the environment is a function of the number of flushes made.
\<close>

datatype on_error = OnAbort | OnSkip | OnCheckpoint

text \<open>What the reducer does with an item: raise, or return the new accumulator with a list
  of facts (\<open>None\<close> when the second component is not a list).\<close>

type_synonym ('acc, 'item) reducer = "'acc \<Rightarrow> 'item \<Rightarrow> log \<Rightarrow> err + 'acc \<times> fact list option"

record 'acc fold_state =
  fs_log :: log
  fs_acc :: 'acc
  fs_checkpoint_acc :: 'acc
  fs_committed :: int
  fs_pending :: "fact list"
  fs_count :: int
  fs_flushes :: nat

datatype 'acc fold_outcome =
    Folded 'acc int log
  | FoldFailed 'acc int nat err log
  | FoldRaised err log

definition parse_on_error :: "string \<Rightarrow> err + on_error" where
  "parse_on_error s =
     (if s = ''abort'' then Inr OnAbort else if s = ''skip'' then Inr OnSkip
      else if s = ''checkpoint'' then Inr OnCheckpoint else Inl ValueError)"

text \<open>The provenance of the batches: a \<open>source\<close> of \<open>fold\<close> unless the caller set one.\<close>

definition fold_provenance :: "prov option \<Rightarrow> prov" where
  "fold_provenance provenance =
     (case provenance of
        None \<Rightarrow> [(''source'', VStr ''fold'')]
      | Some p \<Rightarrow> (case dget p ''source'' of None \<Rightarrow> dset ''source'' (VStr ''fold'') p | Some _ \<Rightarrow> p))"

text \<open>\<open>_flush\<close>: nothing to commit only resets the counter; otherwise the pending facts are
  one \<open>transact_batch\<close>, whose error escapes as it is.\<close>

definition flush :: "(nat \<Rightarrow> env) \<Rightarrow> prov \<Rightarrow> 'acc fold_state \<Rightarrow> (err \<times> log) + 'acc fold_state" where
  "flush clock pb s =
     (if fs_pending s = [] then Inr (s\<lparr>fs_count := 0\<rparr>)
      else case transact_batch (clock (fs_flushes s)) (fs_log s) (fs_pending s) pb False of
          Inl e \<Rightarrow> Inl (e, fs_log s)
        | Inr l' \<Rightarrow> Inr (s\<lparr>fs_log := l', fs_checkpoint_acc := fs_acc s,
            fs_committed := fs_committed s + max 0 (int (length l') - int (length (fs_log s))),
            fs_pending := [], fs_count := 0, fs_flushes := Suc (fs_flushes s)\<rparr>))"

definition fold_failed :: "'acc fold_state \<Rightarrow> nat \<Rightarrow> err \<Rightarrow> 'acc fold_outcome" where
  "fold_failed s idx cause =
     FoldFailed (fs_checkpoint_acc s) (fs_committed s) idx cause (fs_log s)"

text \<open>One accepted item: advance the accumulator, buffer the facts, flush when due.\<close>

definition accept :: "(nat \<Rightarrow> env) \<Rightarrow> prov \<Rightarrow> int \<Rightarrow> 'acc \<Rightarrow> fact list \<Rightarrow> 'acc fold_state \<Rightarrow>
    (err \<times> log) + 'acc fold_state" where
  "accept clock pb every new_acc facts s =
     (let s' = s\<lparr>fs_acc := new_acc, fs_pending := fs_pending s @ facts, fs_count := fs_count s + 1\<rparr>
      in if every = 0 \<or> every \<le> fs_count s' then flush clock pb s' else Inr s')"

fun fold_items :: "('acc, 'item) reducer \<Rightarrow> on_error \<Rightarrow> int \<Rightarrow> (nat \<Rightarrow> env) \<Rightarrow> prov \<Rightarrow>
    nat \<Rightarrow> 'item list \<Rightarrow> 'acc fold_state \<Rightarrow> 'acc fold_outcome" where
  "fold_items fn pol every clock pb idx [] s =
     (if fs_pending s = [] then Folded (fs_acc s) (fs_committed s) (fs_log s)
      else case flush clock pb s of
          Inl (e, l) \<Rightarrow> FoldRaised e l
        | Inr s' \<Rightarrow> Folded (fs_acc s') (fs_committed s') (fs_log s'))"
| "fold_items fn pol every clock pb idx (item # items) s =
     (case fn (fs_acc s) item (fs_log s) of
        Inl e \<Rightarrow>
          (case pol of
             OnSkip \<Rightarrow> fold_items fn pol every clock pb (Suc idx) items s
           | _ \<Rightarrow> fold_failed s idx e)
      | Inr (new_acc, None) \<Rightarrow> fold_failed s idx TypeError
      | Inr (new_acc, Some facts) \<Rightarrow>
          (case accept clock pb every new_acc facts s of
             Inl (e, l) \<Rightarrow> FoldRaised e l
           | Inr s' \<Rightarrow> fold_items fn pol every clock pb (Suc idx) items s'))"

definition fold_start :: "log \<Rightarrow> 'acc \<Rightarrow> 'acc fold_state" where
  "fold_start l seed = \<lparr>fs_log = l, fs_acc = seed, fs_checkpoint_acc = seed, fs_committed = 0,
     fs_pending = [], fs_count = 0, fs_flushes = 0\<rparr>"

definition db_fold :: "(nat \<Rightarrow> env) \<Rightarrow> log \<Rightarrow> 'acc \<Rightarrow> 'item list \<Rightarrow> ('acc, 'item) reducer \<Rightarrow>
    string \<Rightarrow> int \<Rightarrow> prov option \<Rightarrow> 'acc fold_outcome" where
  "db_fold clock l seed items fn pol every provenance =
     (case parse_on_error pol of
        Inl e \<Rightarrow> FoldRaised e l
      | Inr p \<Rightarrow>
          if every < 0 then FoldRaised ValueError l
          else fold_items fn p every clock (fold_provenance provenance) 0 items (fold_start l seed))"

section \<open>What every outcome guarantees\<close>

text \<open>The log has grown by whole batches and the counter is the number of datoms added.\<close>

definition fold_inv :: "log \<Rightarrow> 'acc fold_state \<Rightarrow> bool" where
  "fold_inv l s \<longleftrightarrow> wf_log (fs_log s) \<and> grows l (fs_log s) \<and>
     fs_committed s = int (length (fs_log s)) - int (length l)"

definition outcome_ok :: "log \<Rightarrow> 'acc fold_outcome \<Rightarrow> bool" where
  "outcome_ok l out \<longleftrightarrow>
     (case out of
        Folded acc n l' \<Rightarrow> wf_log l' \<and> grows l l' \<and> n = int (length l') - int (length l)
      | FoldFailed acc n idx e l' \<Rightarrow> wf_log l' \<and> grows l l' \<and> n = int (length l') - int (length l)
      | FoldRaised e l' \<Rightarrow> wf_log l' \<and> grows l l')"

lemma fold_inv_start: "wf_log l \<Longrightarrow> fold_inv l (fold_start l seed)"
  by (simp add: fold_inv_def fold_start_def)

lemma flush_Inl: "fold_inv l s \<Longrightarrow> flush clock pb s = Inl (e, l') \<Longrightarrow> wf_log l' \<and> grows l l'"
  by (auto simp: flush_def fold_inv_def split: if_splits sum.splits)

lemma flush_Inr:
  assumes "fold_inv l s" "flush clock pb s = Inr s'"
  shows "fold_inv l s'"
proof (cases "fs_pending s = []")
  case True
  with assms show ?thesis by (auto simp: flush_def fold_inv_def)
next
  case False
  with assms(2) obtain l' where
    b: "transact_batch (clock (fs_flushes s)) (fs_log s) (fs_pending s) pb False = Inr l'"
    and s': "fs_log s' = l'"
      "fs_committed s' = fs_committed s + max 0 (int (length l') - int (length (fs_log s)))"
    by (auto simp: flush_def split: sum.splits)
  have "wf_log l'" "grows (fs_log s) l'"
    using batch_laws[OF _ b] assms(1) by (auto simp: fold_inv_def)
  moreover from this(2) have "length (fs_log s) \<le> length l'" by (simp add: grows_def)
  ultimately show ?thesis
    using assms(1) s' by (auto simp: fold_inv_def intro: grows_trans)
qed

definition buffered :: "'acc \<Rightarrow> fact list \<Rightarrow> 'acc fold_state \<Rightarrow> 'acc fold_state" where
  "buffered acc facts s =
     s\<lparr>fs_acc := acc, fs_pending := fs_pending s @ facts, fs_count := fs_count s + 1\<rparr>"

lemma accept_unfold:
  "accept clock pb every acc facts s =
     (if every = 0 \<or> every \<le> fs_count s + 1 then flush clock pb (buffered acc facts s)
      else Inr (buffered acc facts s))"
  by (simp add: accept_def buffered_def Let_def)

lemma fold_inv_buffered: "fold_inv l s \<Longrightarrow> fold_inv l (buffered acc facts s)"
  by (simp add: fold_inv_def buffered_def)

lemma accept_Inl:
  "fold_inv l s \<Longrightarrow> accept clock pb every acc facts s = Inl (e, l') \<Longrightarrow> wf_log l' \<and> grows l l'"
  by (auto simp: accept_unfold split: if_splits dest: flush_Inl[OF fold_inv_buffered])

lemma accept_Inr:
  "fold_inv l s \<Longrightarrow> accept clock pb every acc facts s = Inr s' \<Longrightarrow> fold_inv l s'"
  by (auto simp: accept_unfold fold_inv_buffered split: if_splits
      dest: flush_Inr[OF fold_inv_buffered])

lemma accept_acc: "accept clock pb every acc facts s = Inr s' \<Longrightarrow> fs_acc s' = acc"
  by (auto simp: accept_unfold flush_def buffered_def split: if_splits sum.splits)

lemma fold_items_ok: "fold_inv l s \<Longrightarrow> outcome_ok l (fold_items fn pol every clock pb idx items s)"
proof (induction items arbitrary: idx s)
  case Nil
  show ?case
  proof (cases "flush clock pb s")
    case (Inl el)
    then obtain e l' where "flush clock pb s = Inl (e, l')" by (cases el) auto
    with flush_Inl[OF Nil this] Nil show ?thesis by (simp add: outcome_ok_def fold_inv_def)
  next
    case (Inr s')
    with flush_Inr[OF Nil this] Nil show ?thesis by (simp add: outcome_ok_def fold_inv_def)
  qed
next
  case (Cons x items)
  have f: "outcome_ok l (fold_failed s idx e)" for e
    using Cons.prems by (simp add: outcome_ok_def fold_failed_def fold_inv_def)
  have a: "outcome_ok l (case accept clock pb every a facts s of
      Inl (e, l') \<Rightarrow> FoldRaised e l'
    | Inr s' \<Rightarrow> fold_items fn pol every clock pb (Suc idx) items s')" for a facts
    using accept_Inl[OF Cons.prems] accept_Inr[OF Cons.prems] Cons.IH
    by (auto simp: outcome_ok_def split: sum.splits)
  show ?case
    using f a Cons by (auto split: sum.split prod.split option.split on_error.split)
qed

section \<open>Policies\<close>

text \<open>Under \<open>skip\<close> an item on which the reducer raises leaves no trace.\<close>

lemma skip_raising_item:
  "fn (fs_acc s) item (fs_log s) = Inl e \<Longrightarrow>
   fold_items fn OnSkip every clock pb idx (item # items) s =
   fold_items fn OnSkip every clock pb (Suc idx) items s"
  by simp

text \<open>A reducer that looks at neither the log nor errors: the accumulator is a left fold.\<close>

lemma pure_fold_acc:
  assumes "\<And>a x l. fn a x l = Inr (g a x, Some (h a x))"
    and "fold_items fn pol every clock pb idx items s = Folded acc n l'"
  shows "acc = foldl g (fs_acc s) items"
  using assms(2)
proof (induction items arbitrary: idx s)
  case Nil
  then show ?case
    by (auto simp: flush_def split: if_splits sum.splits)
next
  case (Cons x items)
  show ?case
  proof (cases "accept clock pb every (g (fs_acc s) x) (h (fs_acc s) x) s")
    case (Inl el)
    with Cons.prems assms(1)[of "fs_acc s" x "fs_log s"] show ?thesis by (cases el) simp
  next
    case (Inr s')
    with Cons.prems assms(1)[of "fs_acc s" x "fs_log s"]
    have "fold_items fn pol every clock pb (Suc idx) items s' = Folded acc n l'"
      by simp
    from Cons.IH[OF this] accept_acc[OF Inr] show ?thesis by simp
  qed
qed

text \<open>The facts such a reducer returns, and the batches in which they are committed.\<close>

fun fold_facts :: "('acc \<Rightarrow> 'item \<Rightarrow> 'acc) \<Rightarrow> ('acc \<Rightarrow> 'item \<Rightarrow> fact list) \<Rightarrow> 'acc \<Rightarrow> 'item list \<Rightarrow>
    fact list" where
  "fold_facts g h a [] = []"
| "fold_facts g h a (x # xs) = h a x @ fold_facts g h (g a x) xs"

fun run_batches :: "(nat \<Rightarrow> env) \<Rightarrow> prov \<Rightarrow> nat \<Rightarrow> fact list list \<Rightarrow> log \<Rightarrow> err + log" where
  "run_batches clock pb k [] l = Inr l"
| "run_batches clock pb k (b # bs) l =
     ebind (transact_batch (clock k) l b pb False) (run_batches clock pb (Suc k) bs)"

text \<open>One flush is one batch of everything pending, or nothing at all.\<close>

lemma flush_batch:
  assumes "flush clock pb s = Inr s'"
  obtains "fs_pending s = []" "fs_pending s' = []" "fs_log s' = fs_log s" "fs_flushes s' = fs_flushes s"
  | "transact_batch (clock (fs_flushes s)) (fs_log s) (fs_pending s) pb False = Inr (fs_log s')"
    "fs_pending s' = []" "fs_flushes s' = Suc (fs_flushes s)"
  using assms by (auto simp: flush_def split: if_splits sum.splits)

lemma flush_then_batches:
  assumes "flush clock pb s = Inr s'" "run_batches clock pb (fs_flushes s') bs (fs_log s') = Inr l'"
  shows "\<exists>bs'. concat bs' = fs_pending s @ concat bs \<and>
    run_batches clock pb (fs_flushes s) bs' (fs_log s) = Inr l'"
  using assms(1)
proof (cases rule: flush_batch)
  case 1
  then show ?thesis using assms(2) by (intro exI[of _ bs]) simp
next
  case 2
  then show ?thesis using assms(2) by (intro exI[of _ "fs_pending s # bs"]) simp
qed

lemma flush_pending: "flush clock pb s = Inr s' \<Longrightarrow> fs_pending s' = []"
  by (erule flush_batch) auto

lemma fold_commits_all_facts:
  assumes pure: "\<And>a x l. fn a x l = Inr (g a x, Some (h a x))"
    and "fold_items fn pol every clock pb idx items s = Folded acc n l'"
  shows "\<exists>bs. concat bs = fs_pending s @ fold_facts g h (fs_acc s) items \<and>
    run_batches clock pb (fs_flushes s) bs (fs_log s) = Inr l'"
  using assms(2)
proof (induction items arbitrary: idx s)
  case Nil
  show ?case
  proof (cases "fs_pending s = []")
    case True
    with Nil show ?thesis by (intro exI[of _ "[]"]) simp
  next
    case False
    with Nil obtain s' where "flush clock pb s = Inr s'" "fs_log s' = l'"
      by (auto split: sum.splits)
    with flush_then_batches[OF this(1), of "[]"] show ?thesis by simp
  qed
next
  case (Cons x items)
  let ?b = "buffered (g (fs_acc s) x) (h (fs_acc s) x) s"
  have b: "fs_pending ?b = fs_pending s @ h (fs_acc s) x" "fs_flushes ?b = fs_flushes s"
    "fs_log ?b = fs_log s" by (simp_all add: buffered_def)
  show ?case
  proof (cases "accept clock pb every (g (fs_acc s) x) (h (fs_acc s) x) s")
    case (Inl el)
    with Cons.prems pure[of "fs_acc s" x "fs_log s"] show ?thesis by (cases el) simp
  next
    case acc: (Inr s')
    with Cons.prems pure[of "fs_acc s" x "fs_log s"]
    have "fold_items fn pol every clock pb (Suc idx) items s' = Folded acc n l'" by simp
    from Cons.IH[OF this] accept_acc[OF acc] obtain bs where
      bs: "concat bs = fs_pending s' @ fold_facts g h (g (fs_acc s) x) items"
      "run_batches clock pb (fs_flushes s') bs (fs_log s') = Inr l'" by auto
    show ?thesis
    proof (cases "every = 0 \<or> every \<le> fs_count s + 1")
      case True
      with acc have fl: "flush clock pb ?b = Inr s'" by (simp add: accept_unfold)
      from flush_then_batches[OF fl bs(2)] bs(1) flush_pending[OF fl] b show ?thesis by simp
    next
      case False
      with acc have "s' = ?b" by (simp add: accept_unfold)
      with bs b show ?thesis by (intro exI[of _ bs]) simp
    qed
  qed
qed

end
