(* ===== verification/Fork.thy ===== *)
theory Fork
  imports Values
begin

text \<open>
  \<open>persistence.fact._fork\<close>: speculate over N branches, let a callback choose one, and
  queue the audit intents of the fork on the enclosing transaction. The digest
  (\<open>_hash16\<close>, a SHA-256 prefix), the identity hashes of the two callables and the text of
  an exception are parameters.
\<close>

section \<open>Data\<close>

record branch_result =
  br_index :: int
  br_id :: string
  br_item :: val
  br_state :: val
  br_score :: "val option"
  br_error :: "string option"

record fork_result =
  fr_chosen_index :: int
  fr_chosen_state :: val
  fr_branches :: "branch_result list"
  fr_txn_commit :: "string option"

text \<open>\<open>tx.effect(op, **kwargs)\<close> queues an intent.\<close>

record intent =
  i_op :: string
  i_kwargs :: "val dict"

record fork_env =
  fe_hash16 :: "val \<Rightarrow> string"
  fe_fn_hash :: string
  fe_choose_hash :: string
  fe_show :: "err \<Rightarrow> string"

datatype fork_policy = ForkStop | ForkContinue

definition parse_fork_policy :: "string \<Rightarrow> err + fork_policy" where
  "parse_fork_policy s =
     (if s = ''stop'' then Inr ForkStop else if s = ''continue'' then Inr ForkContinue
      else Inl ValueError)"

section \<open>Intents\<close>

definition probe_intent :: "fork_env \<Rightarrow> val \<Rightarrow> val list \<Rightarrow> nat \<Rightarrow> intent" where
  "probe_intent fe seed items n = \<lparr>i_op = '':fork/probe'', i_kwargs =
     [(''seed_hash'', VStr (fe_hash16 fe seed)),
      (''items_hash'', VStr (fe_hash16 fe (VList items))),
      (''fn_hash'', VStr (fe_fn_hash fe)), (''choose_hash'', VStr (fe_choose_hash fe)),
      (''branch_count'', VInt (int n))]\<rparr>"

definition branch_intent :: "fork_env \<Rightarrow> branch_result \<Rightarrow> intent" where
  "branch_intent fe b = \<lparr>i_op = '':fork/branch'', i_kwargs =
     [(''branch_index'', VInt (br_index b)), (''branch_id'', VStr (br_id b)),
      (''item_hash'', VStr (fe_hash16 fe (br_item b))),
      (''branch_state_hash'', VStr (fe_hash16 fe (br_state b)))]\<rparr>"

text \<open>Scalars pass through; everything else becomes its canonical JSON.\<close>

definition canonicalize_score_value :: "val \<Rightarrow> val" where
  "canonicalize_score_value raw =
     (case raw of VNone \<Rightarrow> raw | VBool _ \<Rightarrow> raw | VInt _ \<Rightarrow> raw | VStr _ \<Rightarrow> raw
      | _ \<Rightarrow> VStr (canonical_json raw))"

definition score_payload :: "branch_result \<Rightarrow> val" where
  "score_payload b = (case br_score b of Some v \<Rightarrow> v | None \<Rightarrow> br_state b)"

definition score_intent :: "fork_env \<Rightarrow> branch_result \<Rightarrow> intent" where
  "score_intent fe b = \<lparr>i_op = '':fork/score'', i_kwargs =
     [(''branch_index'', VInt (br_index b)),
      (''score_value'', canonicalize_score_value (score_payload b)),
      (''score_hash'', VStr (fe_hash16 fe (score_payload b)))]\<rparr>"

definition chosen_intent :: "fork_env \<Rightarrow> branch_result \<Rightarrow> intent" where
  "chosen_intent fe b = \<lparr>i_op = '':fork/chosen'', i_kwargs =
     [(''chosen_index'', VInt (br_index b)), (''chosen_branch_id'', VStr (br_id b)),
      (''chosen_state_hash'', VStr (fe_hash16 fe (br_state b)))]\<rparr>"

section \<open>Branches\<close>

definition run_branch :: "fork_env \<Rightarrow> (val \<Rightarrow> val \<Rightarrow> err + val) \<Rightarrow> fork_policy \<Rightarrow> val \<Rightarrow> nat \<Rightarrow> val \<Rightarrow>
    err + branch_result" where
  "run_branch fe fn pol seed idx item =
     (let mk = (\<lambda>st er. \<lparr>br_index = int idx,
          br_id = fe_hash16 fe (VDict [(''item'', item), (''state'', st)]),
          br_item = item, br_state = st, br_score = None, br_error = er\<rparr>) in
      case fn seed item of
        Inr st \<Rightarrow> Inr (mk st None)
      | Inl e \<Rightarrow> (case pol of ForkStop \<Rightarrow> Inl e | ForkContinue \<Rightarrow> Inr (mk seed (Some (fe_show fe e)))))"

fun run_branches :: "fork_env \<Rightarrow> (val \<Rightarrow> val \<Rightarrow> err + val) \<Rightarrow> fork_policy \<Rightarrow> val \<Rightarrow> nat \<Rightarrow> val list \<Rightarrow>
    err + branch_result list" where
  "run_branches fe fn pol seed idx [] = Inr []"
| "run_branches fe fn pol seed idx (x # xs) =
     ebind (run_branch fe fn pol seed idx x) (\<lambda>b.
     ebind (run_branches fe fn pol seed (Suc idx) xs) (\<lambda>bs. Inr (b # bs)))"

section \<open>Choosing\<close>

text \<open>A boolean is refused although it is an \<open>int\<close> in Python.\<close>

definition validate_choose_index :: "val \<Rightarrow> nat \<Rightarrow> err + nat" where
  "validate_choose_index chosen n =
     (case chosen of
        VInt i \<Rightarrow> if i < 0 \<or> int n \<le> i then Inl ForkChooseError else Inr (nat i)
      | _ \<Rightarrow> Inl ForkChooseError)"

type_synonym chooser = "branch_result list \<Rightarrow> err + val"

text \<open>The result, or the exception, with the intents queued so far.\<close>

definition fork_impl :: "fork_env \<Rightarrow> bool \<Rightarrow> val list \<Rightarrow> (val \<Rightarrow> val \<Rightarrow> err + val) \<Rightarrow> chooser \<Rightarrow>
    val \<Rightarrow> string \<Rightarrow> intent list \<Rightarrow> (err + fork_result) \<times> intent list" where
  "fork_impl fe in_dosync items fn choosef seed on_err queue =
     (if \<not> in_dosync then (Inl ForkOutsideDosync, queue)
      else case parse_fork_policy on_err of
        Inl e \<Rightarrow> (Inl e, queue)
      | Inr pol \<Rightarrow>
          if items = [] then (Inl ValueError, queue)
          else case run_branches fe fn pol seed 0 items of
            Inl e \<Rightarrow> (Inl e, queue)
          | Inr branches \<Rightarrow>
              let q = queue @ [probe_intent fe seed items (length branches)]
                @ map (branch_intent fe) branches @ map (score_intent fe) branches in
              case choosef branches of
                Inl e \<Rightarrow> (Inl ForkChooseError, q)
              | Inr raw \<Rightarrow>
                  (case validate_choose_index raw (length branches) of
                     Inl e \<Rightarrow> (Inl e, q)
                   | Inr i \<Rightarrow>
                       (Inr \<lparr>fr_chosen_index = int i, fr_chosen_state = br_state (branches ! i),
                          fr_branches = branches, fr_txn_commit = None\<rparr>,
                        q @ [chosen_intent fe (branches ! i)])))"

section \<open>Facts about a fork\<close>

lemma run_branches_Inr:
  assumes "run_branches fe fn pol seed idx items = Inr bs"
  shows "length bs = length items"
    "\<forall>i < length items. run_branch fe fn pol seed (idx + i) (items ! i) = Inr (bs ! i)"
  using assms
proof (induction items arbitrary: idx bs)
  case Nil
  { case 1 then show ?case by simp next case 2 then show ?case by simp }
next
  case (Cons x xs)
  { case 1 then show ?case using Cons.IH(1) by (auto simp: ebind_Inr_iff) next
    case 2
    then obtain b cs where b: "run_branch fe fn pol seed idx x = Inr b"
      "run_branches fe fn pol seed (Suc idx) xs = Inr cs" "bs = b # cs"
      by (auto simp: ebind_Inr_iff)
    show ?case
    proof (intro allI impI)
      fix i assume "i < length (x # xs)"
      then show "run_branch fe fn pol seed (idx + i) ((x # xs) ! i) = Inr (bs ! i)"
        using Cons.IH(2)[OF b(2)] b by (cases i) auto
    qed }
qed

lemma run_branch_Inr:
  "run_branch fe fn pol seed idx item = Inr b \<Longrightarrow>
     br_index b = int idx \<and> br_item b = item \<and>
     (case fn seed item of
        Inr st \<Rightarrow> br_state b = st \<and> br_error b = None
      | Inl e \<Rightarrow> pol = ForkContinue \<and> br_state b = seed \<and> br_error b = Some (fe_show fe e))"
  by (auto simp: run_branch_def Let_def split: sum.splits fork_policy.splits)

lemma validate_Inr:
  "validate_choose_index raw n = Inr i \<longleftrightarrow> raw = VInt (int i) \<and> i < n"
  by (auto simp: validate_choose_index_def split: val.splits)

lemma fork_impl_Inr:
  assumes "fork_impl fe dosync items fn choosef seed on_err queue = (Inr r, q)"
  obtains pol bs i where "dosync" "parse_fork_policy on_err = Inr pol"
    "run_branches fe fn pol seed 0 items = Inr bs" "choosef bs = Inr (VInt (int i))"
    "i < length bs" "fr_branches r = bs" "fr_chosen_index r = int i"
    "fr_chosen_state r = br_state (bs ! i)"
    "q = queue @ [probe_intent fe seed items (length bs)] @ map (branch_intent fe) bs
       @ map (score_intent fe) bs @ [chosen_intent fe (bs ! i)]"
  using assms unfolding fork_impl_def
  by (auto simp: Let_def validate_Inr split: if_splits sum.splits)

end
