(* ===== verification/FoldForkProps.thy ===== *)
theory FoldForkProps
  imports Fold Fork FactProps
begin

text \<open>Properties of \<open>DB.fold\<close> and \<open>DB.fork\<close>.\<close>

section \<open>fold\<close>

text \<open>C6. Whatever the reducer does and however the fold ends (result, \<open>FoldError\<close>, or an
  error of the transactor escaping), the log has only grown, it is well formed, and the
  count reported is exactly the number of datoms the fold added.\<close>

theorem fold_outcome_accounts:
  assumes "wf_log l"
  shows "outcome_ok l (db_fold clock l seed items fn pol every provenance)"
proof -
  have "outcome_ok l (FoldRaised e l)" for e :: err
    using assms by (simp add: outcome_ok_def)
  then show ?thesis
    unfolding db_fold_def
    using fold_items_ok[OF fold_inv_start[OF assms]] by (auto split: sum.split)
qed

definition sum_reducer :: "(int, int) reducer" where
  "sum_reducer acc item l =
     (if item < 0 then Inl (UserError ''negative'')
      else Inr (acc + item,
        Some (if item = 0 then [] else [assert_fact ''total'' ''value'' (VInt (acc + item)) (acc + item)])))"

definition fold_clock :: "nat \<Rightarrow> env" where
  "fold_clock k = env_at (100 + int k)"

theorem fold_outcome_accounts_witness:
  "outcome_ok log1 (db_fold fold_clock log1 0 [1, 2, -1, 3] sum_reducer ''checkpoint'' 2 None)"
  by (rule fold_outcome_accounts[OF wf_log1])

text \<open>A reducer that never raises and does not read the log is a left fold, and every
  fact it returns is committed exactly once and in order, whatever the checkpoint interval:
  the final log is the result of \<open>transact_batch\<close> over batches whose concatenation is the
  facts of the items.\<close>

lemma fold_is_foldl:
  assumes "\<And>a x l. fn a x l = Inr (g a x, Some (h a x))"
    and "db_fold clock l seed items fn pol every provenance = Folded acc n l'"
  shows "acc = foldl g seed items \<and>
    (\<exists>bs. concat bs = fold_facts g h seed items \<and>
       run_batches clock (fold_provenance provenance) 0 bs l = Inr l')"
proof -
  from assms(2) obtain p where
    "fold_items fn p every clock (fold_provenance provenance) 0 items (fold_start l seed) = Folded acc n l'"
    unfolding db_fold_def by (auto split: sum.splits if_splits)
  from pure_fold_acc[OF assms(1) this] fold_commits_all_facts[OF assms(1) this]
  show ?thesis by (simp add: fold_start_def)
qed

definition item_facts :: "int \<Rightarrow> int \<Rightarrow> fact list" where
  "item_facts acc item = [assert_fact ''total'' ''value'' (VInt (acc + item)) (acc + item)]"

text \<open>With \<open>checkpoint_every = 0\<close> the documented checkpoint after every successful item
  is not taken for an item without facts: when the next item fails, the accumulator handed
  back is the one from before both.\<close>

lemma fold_checkpoint_lags:
  assumes "fn seed x l = Inr (a', Some [])" "fn a' y l = Inl e"
  shows "db_fold clock l seed [x, y] fn ''abort'' 0 provenance = FoldFailed seed 0 1 e l"
  using assms
  by (simp add: db_fold_def parse_on_error_def accept_def flush_def fold_start_def fold_failed_def
      Let_def)

section \<open>fork\<close>

text \<open>A fork that returns ran inside a transaction, produced one result per item at its
  position, chose an index in range and queued exactly \<open>2 + 2N\<close> audit intents in the
  documented order: one probe, the branches, the scores, the chosen one.\<close>

lemma fork_audit_shape:
  assumes "fork_impl fe in_dosync items fn choosef seed on_err queue = (Inr r, q)"
  shows "in_dosync \<and> length (fr_branches r) = length items \<and>
    0 \<le> fr_chosen_index r \<and> fr_chosen_index r < int (length items) \<and>
    fr_chosen_state r = br_state (fr_branches r ! nat (fr_chosen_index r)) \<and>
    (\<forall>i < length items. br_index (fr_branches r ! i) = int i \<and> br_item (fr_branches r ! i) = items ! i) \<and>
    take (length queue) q = queue \<and> length q = length queue + 2 + 2 * length items \<and>
    map i_op (drop (length queue) q) = '':fork/probe'' # replicate (length items) '':fork/branch''
      @ replicate (length items) '':fork/score'' @ ['':fork/chosen'']"
  using assms
proof (rule fork_impl_Inr)
  fix pol bs i
  assume h: "in_dosync" "run_branches fe fn pol seed 0 items = Inr bs" "i < length bs"
    "fr_branches r = bs" "fr_chosen_index r = int i" "fr_chosen_state r = br_state (bs ! i)"
    "q = queue @ [probe_intent fe seed items (length bs)] @ map (branch_intent fe) bs
       @ map (score_intent fe) bs @ [chosen_intent fe (bs ! i)]"
  note b = run_branches_Inr[OF h(2)]
  have "\<forall>j < length items. br_index (bs ! j) = int j \<and> br_item (bs ! j) = items ! j"
    using b(2) by (auto dest!: run_branch_Inr)
  moreover have "map i_op (drop (length queue) q) = '':fork/probe'' # replicate (length items) '':fork/branch''
      @ replicate (length items) '':fork/score'' @ ['':fork/chosen'']"
    using h(7) b(1)
    by (simp add: probe_intent_def branch_intent_def score_intent_def chosen_intent_def o_def
        map_replicate_const)
  ultimately show ?thesis using h b(1) by simp
qed

definition fork_env0 :: fork_env where
  "fork_env0 = \<lparr>fe_hash16 = canonical_json, fe_fn_hash = ''f'', fe_choose_hash = ''c'',
     fe_show = (\<lambda>_. ''boom'')\<rparr>"

definition double_or_fail :: "val \<Rightarrow> val \<Rightarrow> err + val" where
  "double_or_fail st item = (case item of VInt i \<Rightarrow> if i = 0 then Inl ValueError else Inr (VInt (2 * i)) | _ \<Rightarrow> Inl TypeError)"

text \<open>Branches are isolated and failures are data under \<open>continue\<close>: each branch state
  is what the reducer gives from the seed alone, and a raising branch keeps the seed and
  carries its error.\<close>

lemma fork_branches_isolated:
  assumes "fork_impl fe in_dosync items fn choosef seed on_err queue = (Inr r, q)" "i < length items"
  shows "case fn seed (items ! i) of
      Inr st \<Rightarrow> br_state (fr_branches r ! i) = st \<and> br_error (fr_branches r ! i) = None
    | Inl e \<Rightarrow> on_err = ''continue'' \<and> br_state (fr_branches r ! i) = seed \<and>
        br_error (fr_branches r ! i) = Some (fe_show fe e)"
  using assms(1)
proof (rule fork_impl_Inr)
  fix pol bs j
  assume h: "parse_fork_policy on_err = Inr pol" "run_branches fe fn pol seed 0 items = Inr bs"
    "fr_branches r = bs"
  have "run_branch fe fn pol seed i (items ! i) = Inr (bs ! i)"
    using run_branches_Inr(2)[OF h(2)] assms(2) by simp
  from run_branch_Inr[OF this] h(1,3) show ?thesis
    by (auto simp: parse_fork_policy_def split: sum.splits if_splits)
qed

end
