(* ===== verification/Txn.thy ===== *)
theory Txn
  imports BatchEquiv Fork
begin

text \<open>
  \<open>persistence.txn\<close>: refs, the transaction a \<open>dosync\<close> body works on (reads, writes,
  ensures, commutes, staged facts, queued effect intents), the commit attempt with its
  conflict check, and the retry loop.
\<close>

section \<open>Refs\<close>

record ref =
  r_eid :: string
  r_db_id :: string
  r_spec_attr :: string

text \<open>Equality and hashing of refs leave \<open>spec_attr\<close> out.\<close>

definition ref_eq :: "ref \<Rightarrow> ref \<Rightarrow> bool" where
  "ref_eq r q \<longleftrightarrow> r_eid r = r_eid q \<and> r_db_id r = r_db_id q"

text \<open>Sets and dictionaries keyed by refs: an equal key already there is kept.\<close>

definition ref_insert :: "ref \<Rightarrow> ref list \<Rightarrow> ref list" where
  "ref_insert r rs = (if list_ex (ref_eq r) rs then rs else rs @ [r])"

fun ref_get :: "(ref \<times> 'v) list \<Rightarrow> ref \<Rightarrow> 'v option" where
  "ref_get [] r = None"
| "ref_get ((q, v) # xs) r = (if ref_eq r q then Some v else ref_get xs r)"

fun ref_set :: "ref \<Rightarrow> 'v \<Rightarrow> (ref \<times> 'v) list \<Rightarrow> (ref \<times> 'v) list" where
  "ref_set r v [] = [(r, v)]"
| "ref_set r v ((q, w) # xs) = (if ref_eq r q then (q, v) # xs else (q, w) # ref_set r v xs)"

text \<open>\<open>is_immutable_value\<close>: tuples and scalars; lists and dictionaries are refused.\<close>

definition is_immutable_value :: "val \<Rightarrow> bool" where
  "is_immutable_value v = (case v of VList _ \<Rightarrow> False | VDict _ \<Rightarrow> False | _ \<Rightarrow> True)"

section \<open>Commutes\<close>

text \<open>\<open>(v if v is not None else 0) + n\<close>: Python's addition of numbers (booleans count), which
  also joins two strings, two tuples or two lists.\<close>

definition py_add :: "val \<Rightarrow> val \<Rightarrow> err + val" where
  "py_add v n =
     (case (v, n) of
        (VStr a, VStr b) \<Rightarrow> Inr (VStr (a @ b))
      | (VTuple xs, VTuple ys) \<Rightarrow> Inr (VTuple (xs @ ys))
      | (VList xs, VList ys) \<Rightarrow> Inr (VList (xs @ ys))
      | _ \<Rightarrow> (case pnorm n of
            VInt j \<Rightarrow> (case pnorm v of VNone \<Rightarrow> Inr (VInt j) | VInt i \<Rightarrow> Inr (VInt (i + j)) | _ \<Rightarrow> Inl TypeError)
          | _ \<Rightarrow> Inl TypeError))"

definition inc_by :: "val \<Rightarrow> val list \<Rightarrow> err + val" where
  "inc_by v args = (case args of [n] \<Rightarrow> py_add v n | _ \<Rightarrow> Inl TypeError)"

definition sum_into :: "val \<Rightarrow> val list \<Rightarrow> err + val" where
  "sum_into v args = (case args of [n] \<Rightarrow> py_add v n | _ \<Rightarrow> Inl TypeError)"

type_synonym registry = "string \<Rightarrow> (val \<Rightarrow> val list \<Rightarrow> err + val) option"

text \<open>The integer entries of the shipped table; the set and mapping entries work on
  values of a third-party library.\<close>

definition default_registry :: registry where
  "default_registry = [''inc-by'' \<mapsto> inc_by, ''sum-into'' \<mapsto> sum_into]"

section \<open>Transaction\<close>

record txn =
  tx_db_id :: string
  tx_t_start :: int
  tx_attempt :: nat
  tx_read_set :: "ref list"
  tx_write_set :: "(ref \<times> val) list"
  tx_ensure_set :: "ref list"
  tx_intents :: "intent list"
  tx_commute_log :: "(ref \<times> string \<times> val list) list"
  tx_commute_eager :: "(ref \<times> val) list"
  tx_staged :: "fact list"
  tx_deadline_set :: bool

definition new_txn :: "string \<Rightarrow> int \<Rightarrow> nat \<Rightarrow> bool \<Rightarrow> txn" where
  "new_txn db_id t attempt dl = \<lparr>tx_db_id = db_id, tx_t_start = t, tx_attempt = attempt,
     tx_read_set = [], tx_write_set = [], tx_ensure_set = [], tx_intents = [],
     tx_commute_log = [], tx_commute_eager = [], tx_staged = [], tx_deadline_set = dl\<rparr>"

definition tx_assoc :: "txn \<Rightarrow> ref \<Rightarrow> val \<Rightarrow> err + txn" where
  "tx_assoc tx r v =
     (if r_db_id r \<noteq> tx_db_id tx then Inl RefBranchMismatch
      else if \<not> is_immutable_value v then Inl RefValueNotImmutable
      else Inr (tx\<lparr>tx_write_set := ref_set r v (tx_write_set tx)\<rparr>))"

text \<open>Facts are dictionaries by type here; the code raises \<open>TypeError\<close> on an argument that is no
  list and on an element that is no dictionary.\<close>

definition tx_add_facts :: "txn \<Rightarrow> fact list \<Rightarrow> txn" where
  "tx_add_facts tx fs = tx\<lparr>tx_staged := tx_staged tx @ fs\<rparr>"

definition tx_effect :: "txn \<Rightarrow> string \<Rightarrow> val dict \<Rightarrow> txn" where
  "tx_effect tx op kw = tx\<lparr>tx_intents := tx_intents tx @ [\<lparr>i_op = op, i_kwargs = kw\<rparr>]\<rparr>"

text \<open>The attribute of the ref's entity in a view; a missing one reads as \<open>None\<close>.\<close>

definition view_value :: "datom list \<Rightarrow> ref \<Rightarrow> val" where
  "view_value ds r = (case entity ds (r_eid r) (r_spec_attr r) of None \<Rightarrow> VNone | Some v \<Rightarrow> v)"

definition tx_deref :: "log \<Rightarrow> txn \<Rightarrow> ref \<Rightarrow> err + val \<times> txn" where
  "tx_deref l tx r =
     (if r_db_id r \<noteq> tx_db_id tx then Inl RefBranchMismatch
      else let tx' = tx\<lparr>tx_read_set := ref_insert r (tx_read_set tx)\<rparr> in
        case ref_get (tx_write_set tx) r of
          Some v \<Rightarrow> Inr (v, tx')
        | None \<Rightarrow> (case ref_get (tx_commute_eager tx) r of
            Some v \<Rightarrow> Inr (v, tx')
          | None \<Rightarrow> Inr (view_value (as_of l (tx_t_start tx)) r, tx')))"

definition tx_alter :: "log \<Rightarrow> txn \<Rightarrow> ref \<Rightarrow> (val \<Rightarrow> err + val) \<Rightarrow> err + val \<times> txn" where
  "tx_alter l tx r fn =
     ebind (tx_deref l tx r) (\<lambda>(v, tx').
     ebind (fn v) (\<lambda>w.
     ebind (tx_assoc tx' r w) (\<lambda>tx''. Inr (w, tx''))))"

definition tx_ensure :: "log \<Rightarrow> txn \<Rightarrow> ref \<Rightarrow> err + val \<times> txn" where
  "tx_ensure l tx r =
     (if r_db_id r \<noteq> tx_db_id tx then Inl RefBranchMismatch
      else ebind (tx_deref l tx r) (\<lambda>(v, tx').
        Inr (v, tx'\<lparr>tx_ensure_set := ref_insert r (tx_ensure_set tx')\<rparr>)))"

definition tx_commute :: "registry \<Rightarrow> log \<Rightarrow> txn \<Rightarrow> ref \<Rightarrow> string \<Rightarrow> val list \<Rightarrow> err + val \<times> txn" where
  "tx_commute reg l tx r fn_id args =
     (if r_db_id r \<noteq> tx_db_id tx then Inl RefBranchMismatch
      else case reg fn_id of
        None \<Rightarrow> Inl ValueError
      | Some fn \<Rightarrow>
          let base = (case ref_get (tx_write_set tx) r of
              Some v \<Rightarrow> v
            | None \<Rightarrow> (case ref_get (tx_commute_eager tx) r of
                Some v \<Rightarrow> v
              | None \<Rightarrow> view_value (as_of l (tx_t_start tx)) r)) in
          ebind (fn base args) (\<lambda>w.
            if \<not> is_immutable_value w then Inl RefValueNotImmutable
            else Inr (w, tx\<lparr>tx_commute_log := tx_commute_log tx @ [(r, fn_id, args)],
                            tx_commute_eager := ref_set r w (tx_commute_eager tx)\<rparr>)))"

section \<open>Commit\<close>

text \<open>What a commit attempt reads: successive clock readings, the digest and timestamp
  text, the fresh commit id, the commute registry, the registered write specs, the spec of
  the intent log, and the active effect runtime (whether there is one, and what replaying
  the \<open>i\<close>-th intent raises).\<close>

record commit_env =
  ce_clock :: "nat \<Rightarrow> int"
  ce_digest :: "fact \<Rightarrow> string"
  ce_isoformat :: "int \<Rightarrow> string"
  ce_commit_id :: string
  ce_registry :: registry
  ce_specs :: "string \<Rightarrow> (val \<Rightarrow> bool) option"
  ce_intents_ok :: "intent list \<Rightarrow> bool"
  ce_runtime :: bool
  ce_perform :: "nat \<Rightarrow> intent \<Rightarrow> err option"

definition value_fact :: "string \<Rightarrow> string \<Rightarrow> val \<Rightarrow> int \<Rightarrow> fact" where
  "value_fact e a v t = \<lparr>f_e = e, f_a = a, f_v = v, f_valid_from = Some (DtVal (Aware t)),
     f_valid_to = None, f_op = None\<rparr>"

definition spec_validate_writes :: "commit_env \<Rightarrow> (ref \<times> val) list \<Rightarrow> err + unit" where
  "spec_validate_writes ce ws =
     (if list_all (\<lambda>(r, v). case ce_specs ce (r_spec_attr r) of None \<Rightarrow> True | Some ok \<Rightarrow> ok v) ws
      then Inr () else Inl SpecError)"

definition build_write_facts :: "txn \<Rightarrow> int \<Rightarrow> fact list" where
  "build_write_facts tx now = map (\<lambda>(r, v). value_fact (r_eid r) (r_spec_attr r) v now) (tx_write_set tx)"

definition build_commit_fact :: "string \<Rightarrow> int \<Rightarrow> fact" where
  "build_commit_fact cid now = value_fact cid '':persistence.txn/commit-id'' (VStr cid) now"

text \<open>Replay the commutes against the state at commit, skipping refs with an explicit
  write; a ref commuted twice chains.\<close>

fun commute_facts :: "registry \<Rightarrow> datom list \<Rightarrow> int \<Rightarrow> (ref \<times> val) list \<Rightarrow>
    (ref \<times> string \<times> val list) list \<Rightarrow> (ref \<times> val) list \<Rightarrow> err + fact list \<times> (ref \<times> val) list" where
  "commute_facts reg view now ws [] resolved = Inr ([], resolved)"
| "commute_facts reg view now ws ((r, fn_id, args) # cs) resolved =
     (if ref_get ws r \<noteq> None then commute_facts reg view now ws cs resolved
      else case reg fn_id of
        None \<Rightarrow> Inl RuntimeError
      | Some fn \<Rightarrow>
          ebind (fn (case ref_get resolved r of Some v \<Rightarrow> v | None \<Rightarrow> view_value view r) args) (\<lambda>w.
            if \<not> is_immutable_value w then Inl RefValueNotImmutable
            else ebind (commute_facts reg view now ws cs (ref_set r w resolved)) (\<lambda>(fs, res).
              Inr (value_fact (r_eid r) (r_spec_attr r) w now # fs, res))))"

definition intent_wire :: "intent \<Rightarrow> val" where
  "intent_wire i = VDict [('':op'', VStr (i_op i)), ('':kwargs'', VDict (i_kwargs i))]"

definition commute_wire :: "ref \<times> string \<times> val list \<Rightarrow> val" where
  "commute_wire c = (case c of (r, fn_id, args) \<Rightarrow>
     VDict [('':ref'', VStr (r_eid r)), ('':fn-id'', VStr fn_id), ('':args'', VList args)])"

definition build_commit_provenance :: "commit_env \<Rightarrow> txn \<Rightarrow> int \<Rightarrow> err + prov" where
  "build_commit_provenance ce tx now =
     (if \<not> ce_intents_ok ce (tx_intents tx) then Inl SpecError
      else Inr
       [('':persistence.txn/commit-id'', VStr (ce_commit_id ce)),
        ('':persistence.txn/started-at'', VStr (ce_isoformat ce (tx_t_start tx))),
        ('':persistence.txn/committed-at'', VStr (ce_isoformat ce now)),
        ('':persistence.txn/retry-count'', VInt (int (tx_attempt tx))),
        ('':persistence.txn/non-deterministic-retry'', VBool (tx_deadline_set tx)),
        ('':persistence.txn/read-set'', VList (map VStr (sort (map r_eid (tx_read_set tx))))),
        ('':persistence.txn/ensure-set'', VList (map VStr (sort (map r_eid (tx_ensure_set tx))))),
        ('':persistence.txn/intent-log'', VList (map intent_wire (tx_intents tx))),
        ('':persistence.txn/commute-log'', VList (map commute_wire (tx_commute_log tx)))])"

definition any_datoms_since :: "log \<Rightarrow> int \<Rightarrow> string list \<Rightarrow> bool" where
  "any_datoms_since l t eids = (eids \<noteq> [] \<and> list_ex (\<lambda>d. d_e d \<in> set eids) (since l t))"

definition touched :: "txn \<Rightarrow> string list" where
  "touched tx = map r_eid (tx_read_set tx) @ map (r_eid \<circ> fst) (tx_write_set tx)
     @ map r_eid (tx_ensure_set tx)"

text \<open>Replay of the intents after the facts are durable; the first one that raises stops
  it. The intents that went through are returned.\<close>

fun replay_intents :: "commit_env \<Rightarrow> nat \<Rightarrow> intent list \<Rightarrow> intent list \<times> err option" where
  "replay_intents ce i [] = ([], None)"
| "replay_intents ce i (x # xs) =
     (case ce_perform ce i x of
        Some e \<Rightarrow> ([], Some e)
      | None \<Rightarrow> (case replay_intents ce (Suc i) xs of (done, r) \<Rightarrow> (x # done, r)))"

datatype commit_outcome =
    Conflict
  | Committed log "intent list"
  | CommitRaised err log "intent list"

definition commit_env_at :: "commit_env \<Rightarrow> nat \<Rightarrow> env" where
  "commit_env_at ce k = \<lparr>env_now = ce_clock ce k, env_digest = ce_digest ce, env_iso = (\<lambda>_. None)\<rparr>"

text \<open>The part under the store lock: conflict check, commutes, one batch.\<close>

definition commit_locked :: "commit_env \<Rightarrow> log \<Rightarrow> txn \<Rightarrow> prov \<Rightarrow> err + log option" where
  "commit_locked ce l tx pb =
     (if any_datoms_since l (tx_t_start tx) (touched tx) then Inr None
      else ebind (commute_facts (ce_registry ce) (as_of l (ce_clock ce 3)) (ce_clock ce 3)
                    (tx_write_set tx) (tx_commute_log tx) []) (\<lambda>(cfs, _).
        ebind (transact_batch (commit_env_at ce 4) l
            (build_write_facts tx (ce_clock ce 0) @ cfs @ tx_staged tx
              @ [build_commit_fact (ce_commit_id ce) (ce_clock ce 1)]) pb False)
          (\<lambda>l'. Inr (Some l'))))"

definition commit_attempt :: "commit_env \<Rightarrow> log \<Rightarrow> txn \<Rightarrow> commit_outcome" where
  "commit_attempt ce l tx =
     (if tx_intents tx \<noteq> [] \<and> \<not> ce_runtime ce then CommitRaised AuditStackMissing l []
      else case ebind (spec_validate_writes ce (tx_write_set tx)) (\<lambda>_.
             ebind (build_commit_provenance ce tx (ce_clock ce 2)) (commit_locked ce l tx)) of
        Inl e \<Rightarrow> CommitRaised e l []
      | Inr None \<Rightarrow> Conflict
      | Inr (Some l') \<Rightarrow>
          (case replay_intents ce 0 (tx_intents tx) of
             (done, None) \<Rightarrow> Committed l' done
           | (done, Some e) \<Rightarrow> CommitRaised e l' done))"

section \<open>The retry loop\<close>

text \<open>What attempt \<open>k\<close> meets: whether the deadline has passed, the clock, what the body
  does with its transaction, the store at commit time (other writers included) and the
  commit's environment.\<close>

record run_world =
  rw_db_id :: string
  rw_deadline :: "(nat \<Rightarrow> bool) option"
  rw_now :: "nat \<Rightarrow> int"
  rw_body :: "nat \<Rightarrow> txn \<Rightarrow> err + txn"
  rw_log :: "nat \<Rightarrow> log"
  rw_commit :: "nat \<Rightarrow> commit_env"

datatype run_result =
    RunCommitted string nat log "intent list"
  | RunRaised err nat "(log \<times> intent list) option"

function run_loop :: "run_world \<Rightarrow> nat \<Rightarrow> nat \<Rightarrow> run_result" where
  "run_loop w max_retries attempt =
     (if (case rw_deadline w of None \<Rightarrow> False | Some hit \<Rightarrow> hit attempt)
      then RunRaised TxnDeadlineExceeded attempt None
      else if attempt > max_retries then RunRaised TxnRetryExhausted attempt None
      else case rw_body w attempt
             (new_txn (rw_db_id w) (rw_now w attempt) attempt (rw_deadline w \<noteq> None)) of
        Inl e \<Rightarrow> RunRaised e attempt None
      | Inr tx \<Rightarrow>
          (case commit_attempt (rw_commit w attempt) (rw_log w attempt) tx of
             Committed l done \<Rightarrow> RunCommitted (ce_commit_id (rw_commit w attempt)) attempt l done
           | CommitRaised e l done \<Rightarrow> RunRaised e attempt (Some (l, done))
           | Conflict \<Rightarrow> run_loop w max_retries (Suc attempt)))"
  by pat_completeness auto
termination
  by (relation "measure (\<lambda>(w, m, a). Suc m - a)") auto

declare run_loop.simps [simp del]

definition dosync_run :: "bool \<Rightarrow> run_world \<Rightarrow> nat \<Rightarrow> run_result" where
  "dosync_run in_dosync w max_retries =
     (if in_dosync then RunRaised NestedDosyncNotSupported 0 None else run_loop w max_retries 0)"

text \<open>The context-manager form: one attempt, a conflict raises.\<close>

definition dosync_cm :: "bool \<Rightarrow> run_world \<Rightarrow> run_result" where
  "dosync_cm in_dosync w =
     (if in_dosync then RunRaised NestedDosyncNotSupported 0 None
      else case rw_body w 0 (new_txn (rw_db_id w) (rw_now w 0) 0 False) of
        Inl e \<Rightarrow> RunRaised e 0 None
      | Inr tx \<Rightarrow>
          (case commit_attempt (rw_commit w 0) (rw_log w 0) tx of
             Committed l done \<Rightarrow> RunCommitted (ce_commit_id (rw_commit w 0)) 0 l done
           | CommitRaised e l done \<Rightarrow> RunRaised e 0 (Some (l, done))
           | Conflict \<Rightarrow> RunRaised TxnRetryExhausted 0 None))"

end
