(* ===== verification/TxnLaws.thy ===== *)
theory TxnLaws
  imports Txn BatchReads
begin

text \<open>
  The lemmas the transaction properties share: what a quiet log means for reads, what a
  commit attempt can do to the log, and what replaying commutes and intents computes.
\<close>

section \<open>Reads of an untouched entity\<close>

lemma any_datoms_since_iff:
  "any_datoms_since l t es \<longleftrightarrow> (\<exists>d \<in> set l. t < d_tx_time d \<and> d_e d \<in> set es)"
  by (auto simp: any_datoms_since_def since_def list_ex_iff)

lemma quiet_entity:
  assumes "\<not> any_datoms_since l t es" "e \<in> set es"
  shows "entity (as_of l t) e a = entity l e a"
proof -
  have "filter (\<lambda>d. d_e d = e \<and> d_a d = a) (as_of l t) = filter (\<lambda>d. d_e d = e \<and> d_a d = a) l"
    using assms unfolding any_datoms_since_iff as_of_def filter_filter
    by (intro filter_cong) (auto simp: not_less)
  then show ?thesis
    by (simp only: entity_local[of "as_of l t" e a] entity_local[of l e a])
qed

lemma view_value_entity: "entity ds (r_eid r) = entity ds' (r_eid r) \<Longrightarrow> view_value ds r = view_value ds' r"
  by (simp add: view_value_def)

lemma quiet_view_value:
  "\<not> any_datoms_since l t es \<Longrightarrow> r_eid r \<in> set es \<Longrightarrow> view_value (as_of l t) r = view_value l r"
  by (intro view_value_entity ext) (rule quiet_entity)

lemma view_value_erase: "map erase ds = map erase ds' \<Longrightarrow> view_value ds r = view_value ds' r"
  by (rule view_value_entity) (rule entity_cong_erase)

section \<open>Keyed by refs\<close>

lemma ref_eq_refl [simp]: "ref_eq r r"
  by (simp add: ref_eq_def)

lemma ref_eq_sym: "ref_eq r q \<Longrightarrow> ref_eq q r"
  by (simp add: ref_eq_def)

lemma ref_get_set_same [simp]: "ref_get (ref_set r v m) r = Some v"
  by (induction r v m rule: ref_set.induct) auto

lemma ref_get_cong: "ref_eq r q \<Longrightarrow> ref_get m r = ref_get m q"
  by (induction m r rule: ref_get.induct) (auto simp: ref_eq_def)

lemma ref_get_set_other:
  "\<not> ref_eq r q \<Longrightarrow> ref_get (ref_set r v m) q = ref_get m q"
  by (induction r v m rule: ref_set.induct) (auto simp: ref_eq_def)

lemma ref_set_absent: "ref_get m r = None \<Longrightarrow> ref_set r v m = m @ [(r, v)]"
  by (induction m r rule: ref_get.induct) (auto split: if_splits)

lemma ref_set_append:
  "ref_get m r = None \<Longrightarrow> ref_set r v (m @ xs) = m @ ref_set r v xs"
  by (induction m r rule: ref_get.induct) (auto split: if_splits)

lemma ref_insert_eid: "r_eid r \<in> r_eid ` set (ref_insert r rs)"
  by (auto simp: ref_insert_def list_ex_iff ref_eq_def image_iff)

section \<open>The commit attempt\<close>

lemma commit_locked_Some:
  "commit_locked ce l tx pb = Inr (Some l') \<longleftrightarrow>
     \<not> any_datoms_since l (tx_t_start tx) (touched tx) \<and>
     (\<exists>cfs res. commute_facts (ce_registry ce) (as_of l (ce_clock ce 3)) (ce_clock ce 3)
        (tx_write_set tx) (tx_commute_log tx) [] = Inr (cfs, res) \<and>
      transact_batch (commit_env_at ce 4) l
        (build_write_facts tx (ce_clock ce 0) @ cfs @ tx_staged tx
          @ [build_commit_fact (ce_commit_id ce) (ce_clock ce 1)]) pb False = Inr l')"
  by (auto simp: commit_locked_def ebind_Inr_iff)

lemma commit_locked_None:
  "commit_locked ce l tx pb = Inr None \<longleftrightarrow> any_datoms_since l (tx_t_start tx) (touched tx)"
  by (auto simp: commit_locked_def ebind_Inr_iff)

lemma batch_step_nonempty: "batch_step env pb force ix f st = Inr st' \<Longrightarrow> fst (fst st') \<noteq> []"
  by (cases st) (auto elim: batch_step_Inr)

lemma transact_batch_length:
  assumes "transact_batch env l fs pb force = Inr l'" "fs \<noteq> []"
  shows "length l < length l'"
proof -
  from assms obtain st where "l' = commit_shaped l (fst st)"
    and st: "efold (batch_step env pb force (prior_index l)) fs (([], []), Map.empty) = Inr st"
    by (auto simp: transact_batch_def ebind_Inr_iff)
  moreover obtain f gs where "fs = gs @ [f]" using assms(2) by (cases fs rule: rev_cases) auto
  then have "fst (fst st) \<noteq> []" using st by (auto simp: ebind_Inr_iff dest: batch_step_nonempty)
  ultimately show ?thesis by simp
qed

text \<open>Everything before the intents, as one computation.\<close>

definition commit_core :: "commit_env \<Rightarrow> log \<Rightarrow> txn \<Rightarrow> err + log option" where
  "commit_core ce l tx = ebind (spec_validate_writes ce (tx_write_set tx)) (\<lambda>_.
     ebind (build_commit_provenance ce tx (ce_clock ce 2)) (commit_locked ce l tx))"

lemma commit_attempt_core:
  "commit_attempt ce l tx =
     (if tx_intents tx \<noteq> [] \<and> \<not> ce_runtime ce then CommitRaised AuditStackMissing l []
      else case commit_core ce l tx of
        Inl e \<Rightarrow> CommitRaised e l []
      | Inr None \<Rightarrow> Conflict
      | Inr (Some l') \<Rightarrow>
          (case replay_intents ce 0 (tx_intents tx) of
             (sent, None) \<Rightarrow> Committed l' sent
           | (sent, Some e) \<Rightarrow> CommitRaised e l' sent))"
  by (simp add: commit_attempt_def commit_core_def)

lemma commit_core_Some:
  assumes "commit_core ce l tx = Inr (Some l')"
  obtains pb where "commit_locked ce l tx pb = Inr (Some l')"
  using assms by (auto simp: commit_core_def ebind_Inr_iff)

lemma commit_core_quiet:
  "commit_core ce l tx = Inr (Some l') \<Longrightarrow> \<not> any_datoms_since l (tx_t_start tx) (touched tx)"
  by (elim commit_core_Some) (simp add: commit_locked_Some)

lemma commit_core_laws:
  assumes "wf_log l" "commit_core ce l tx = Inr (Some l')"
  shows "wf_log l'" "grows l l'" "length l < length l'"
    "d \<in> set (drop (length l) l') \<Longrightarrow> d_tx d = next_tx l \<and> d_tx_time d = ce_clock ce 4"
proof -
  from assms(2) obtain pb fs where
    b: "transact_batch (commit_env_at ce 4) l fs pb False = Inr l'" and ne: "fs \<noteq> []"
    by (elim commit_core_Some) (auto simp: commit_locked_Some)
  note laws = batch_laws[OF assms(1) b]
  show "wf_log l'" "grows l l'" using laws by auto
  show "d \<in> set (drop (length l) l') \<Longrightarrow> d_tx d = next_tx l \<and> d_tx_time d = ce_clock ce 4"
    using laws by (auto simp: commit_env_at_def)
  show "length l < length l'"
    using transact_batch_length[OF b ne] .
qed

section \<open>Intents\<close>

lemma replay_intents_prefix: "replay_intents ce i xs = (sent, r) \<Longrightarrow> sent = take (length sent) xs \<and> length sent \<le> length xs"
proof (induction xs arbitrary: i sent r)
  case (Cons x xs)
  then show ?case
    by (auto split: option.splits prod.splits)
qed simp

lemma replay_intents_None: "replay_intents ce i xs = (sent, None) \<Longrightarrow> sent = xs"
  by (induction xs arbitrary: i sent) (auto split: option.splits prod.splits)

lemma replay_intents_Some:
  "replay_intents ce i xs = (sent, Some e) \<Longrightarrow>
     length sent < length xs \<and> ce_perform ce (i + length sent) (xs ! length sent) = Some e"
proof (induction xs arbitrary: i sent)
  case (Cons x xs)
  show ?case
  proof (cases "ce_perform ce i x")
    case None
    with Cons.prems obtain s where "replay_intents ce (Suc i) xs = (s, Some e)" "sent = x # s"
      by (auto split: prod.splits)
    with Cons.IH[of "Suc i" s] show ?thesis by simp
  qed (use Cons.prems in auto)
qed simp

lemma commit_Committed:
  assumes "commit_attempt ce l tx = Committed l' sent"
  shows "commit_core ce l tx = Inr (Some l')" "sent = tx_intents tx"
  using assms replay_intents_None[of ce 0 "tx_intents tx" sent]
  by (auto simp: commit_attempt_core split: if_splits sum.splits option.splits prod.splits)

lemma commit_Raised:
  assumes "commit_attempt ce l tx = CommitRaised e l' sent"
  shows "(l' = l \<and> sent = [] \<and> (\<forall>l''. commit_core ce l tx = Inr (Some l'') \<longrightarrow> e = AuditStackMissing)) \<or>
    (commit_core ce l tx = Inr (Some l') \<and> replay_intents ce 0 (tx_intents tx) = (sent, Some e))"
  using assms
  by (auto simp: commit_attempt_core split: if_splits sum.splits option.splits prod.splits)

section \<open>What the operations of a transaction keep\<close>

text \<open>Every ref a transaction holds belongs to its database, and the write set has one entry
  per entity.\<close>

definition refs_of :: "txn \<Rightarrow> ref set" where
  "refs_of tx = set (tx_read_set tx) \<union> fst ` set (tx_write_set tx) \<union> set (tx_ensure_set tx)
     \<union> fst ` set (tx_commute_log tx)"

definition txn_inv :: "txn \<Rightarrow> bool" where
  "txn_inv tx \<longleftrightarrow> (\<forall>r \<in> refs_of tx. r_db_id r = tx_db_id tx) \<and>
     distinct (map (r_eid \<circ> fst) (tx_write_set tx))"

lemma txn_inv_new [simp]: "txn_inv (new_txn db t k dl)"
  by (simp add: txn_inv_def new_txn_def refs_of_def)

lemma txn_inv_touch:
  assumes "txn_inv tx" "r_db_id r = tx_db_id tx" "tx_db_id tx' = tx_db_id tx"
    and "refs_of tx' \<subseteq> insert r (refs_of tx)" "distinct (map (r_eid \<circ> fst) (tx_write_set tx'))"
  shows "txn_inv tx'"
  unfolding txn_inv_def
proof (intro conjI ballI)
  fix q assume "q \<in> refs_of tx'"
  with assms(4) have "q = r \<or> q \<in> refs_of tx" by blast
  with assms(1-3) show "r_db_id q = tx_db_id tx'" by (auto simp: txn_inv_def)
qed (rule assms(5))

lemma set_ref_insert: "set (ref_insert r rs) \<subseteq> insert r (set rs)"
  by (auto simp: ref_insert_def)

lemma ref_set_eids:
  assumes "\<forall>q \<in> set m. r_db_id (fst q) = r_db_id r"
  shows "map (r_eid \<circ> fst) (ref_set r v m) =
      (if r_eid r \<in> set (map (r_eid \<circ> fst) m) then map (r_eid \<circ> fst) m
       else map (r_eid \<circ> fst) m @ [r_eid r])"
  using assms
proof (induction m)
  case (Cons p m)
  then show ?case by (cases "r_eid r = r_eid (fst p)"; cases p) (simp_all add: ref_eq_def)
qed simp

lemma ref_set_refs: "fst ` set (ref_set r v m) \<subseteq> insert r (fst ` set m)"
proof (induction m)
  case (Cons p m)
  then show ?case by (cases p) auto
qed simp

lemma un_insert:
  "R' \<subseteq> insert r R \<Longrightarrow> W' \<subseteq> insert r W \<Longrightarrow> E' \<subseteq> insert r E \<Longrightarrow> C' \<subseteq> insert r C \<Longrightarrow>
     R' \<union> W' \<union> E' \<union> C' \<subseteq> insert r (R \<union> W \<union> E \<union> C)"
  by blast

lemma txn_inv_assoc: "txn_inv tx \<Longrightarrow> tx_assoc tx r v = Inr tx' \<Longrightarrow> txn_inv tx'"
proof -
  assume i: "txn_inv tx" and a: "tx_assoc tx r v = Inr tx'"
  from a have r: "r_db_id r = tx_db_id tx"
    and tx': "tx' = tx\<lparr>tx_write_set := ref_set r v (tx_write_set tx)\<rparr>"
    by (auto simp: tx_assoc_def split: if_splits)
  have "\<forall>q \<in> set (tx_write_set tx). r_db_id (fst q) = r_db_id r"
    unfolding r using i unfolding txn_inv_def refs_of_def by blast
  note keys = ref_set_eids[OF this, of v]
  show ?thesis
  proof (rule txn_inv_touch[OF i r])
    show "refs_of tx' \<subseteq> insert r (refs_of tx)"
      unfolding refs_of_def by (rule un_insert) (simp_all add: tx' ref_set_refs subset_insertI)
    have "distinct (map (r_eid \<circ> fst) (tx_write_set tx))" using i by (simp add: txn_inv_def)
    then show "distinct (map (r_eid \<circ> fst) (tx_write_set tx'))"
      by (simp add: tx' keys)
  qed (simp add: tx')
qed

lemma tx_deref_tx:
  "tx_deref l tx r = Inr (v, tx') \<Longrightarrow>
     r_db_id r = tx_db_id tx \<and> tx' = tx\<lparr>tx_read_set := ref_insert r (tx_read_set tx)\<rparr>"
  by (auto simp: tx_deref_def Let_def split: if_splits option.splits)

lemma txn_inv_deref:
  assumes "txn_inv tx" "tx_deref l tx r = Inr (v, tx')"
  shows "txn_inv tx'"
proof (rule txn_inv_touch[OF assms(1)])
  note t = tx_deref_tx[OF assms(2)]
  show "r_db_id r = tx_db_id tx" "tx_db_id tx' = tx_db_id tx" using t by auto
  show "refs_of tx' \<subseteq> insert r (refs_of tx)"
    unfolding refs_of_def by (rule un_insert) (simp_all add: t set_ref_insert subset_insertI)
  show "distinct (map (r_eid \<circ> fst) (tx_write_set tx'))"
    using t assms(1) by (simp add: txn_inv_def)
qed

lemma txn_inv_alter:
  assumes "txn_inv tx" "tx_alter l tx r fn = Inr (v, tx')"
  shows "txn_inv tx'"
proof -
  from assms(2) obtain x tx1 where d: "tx_deref l tx r = Inr (x, tx1)" and a: "tx_assoc tx1 r v = Inr tx'"
    by (auto simp: tx_alter_def ebind_Inr_iff)
  show ?thesis by (rule txn_inv_assoc[OF txn_inv_deref[OF assms(1) d] a])
qed

lemma txn_inv_ensure:
  assumes "txn_inv tx" "tx_ensure l tx r = Inr (v, tx')"
  shows "txn_inv tx'"
proof -
  from assms(2) obtain tx1 where d: "tx_deref l tx r = Inr (v, tx1)"
    and tx': "tx' = tx1\<lparr>tx_ensure_set := ref_insert r (tx_ensure_set tx1)\<rparr>"
    by (auto simp: tx_ensure_def ebind_Inr_iff split: if_splits)
  have i: "txn_inv tx1" by (rule txn_inv_deref[OF assms(1) d])
  show ?thesis
  proof (rule txn_inv_touch[OF i])
    show "r_db_id r = tx_db_id tx1" using tx_deref_tx[OF d] by simp
    show "refs_of tx' \<subseteq> insert r (refs_of tx1)"
      unfolding refs_of_def by (rule un_insert) (simp_all add: tx' set_ref_insert subset_insertI)
    show "distinct (map (r_eid \<circ> fst) (tx_write_set tx'))" using i by (simp add: txn_inv_def tx')
  qed (simp add: tx')
qed

lemma txn_inv_commute:
  assumes "txn_inv tx" "tx_commute reg l tx r fid args = Inr (v, tx')"
  shows "txn_inv tx'"
proof (rule txn_inv_touch[OF assms(1)])
  from assms(2) have r: "r_db_id r = tx_db_id tx"
    and tx': "tx' = tx\<lparr>tx_commute_log := tx_commute_log tx @ [(r, fid, args)],
      tx_commute_eager := ref_set r v (tx_commute_eager tx)\<rparr>"
    by (auto simp: tx_commute_def Let_def ebind_Inr_iff split: if_splits option.splits)
  show "r_db_id r = tx_db_id tx" "tx_db_id tx' = tx_db_id tx" using r by (simp_all add: tx')
  show "refs_of tx' \<subseteq> insert r (refs_of tx)"
    unfolding refs_of_def by (rule un_insert) (auto simp: tx')
  show "distinct (map (r_eid \<circ> fst) (tx_write_set tx'))"
    using assms(1) by (simp add: txn_inv_def tx')
qed

lemma txn_inv_stage [simp]: "txn_inv (tx_add_facts tx fs) = txn_inv tx"
  "txn_inv (tx_effect tx op kw) = txn_inv tx"
  by (simp_all add: txn_inv_def refs_of_def tx_add_facts_def tx_effect_def)

lemmas txn_inv_ops = txn_inv_assoc txn_inv_deref txn_inv_alter txn_inv_ensure txn_inv_commute

section \<open>The facts of a commit\<close>

lemma value_fact_assert: "value_fact e a v t = assert_fact e a v t"
  by (simp add: value_fact_def assert_fact_def)

lemma ref_get_None: "ref_get m r = None \<longleftrightarrow> (\<forall>q \<in> fst ` set m. \<not> ref_eq r q)"
  by (induction m r rule: ref_get.induct) auto

text \<open>A ref with an explicit write gets no commute fact.\<close>

lemma commute_facts_Cons:
  assumes "commute_facts reg view now ws ((r, fid, args) # cs) res = Inr (fs, res')"
  shows "(ref_get ws r \<noteq> None \<and> commute_facts reg view now ws cs res = Inr (fs, res')) \<or>
    (ref_get ws r = None \<and> (\<exists>v gs. fs = value_fact (r_eid r) (r_spec_attr r) v now # gs \<and>
       commute_facts reg view now ws cs (ref_set r v res) = Inr (gs, res')))"
proof (cases "ref_get ws r = None")
  case True
  then obtain fn where "reg fid = Some fn" using assms by (cases "reg fid") auto
  with True assms show ?thesis by (simp add: ebind_Inr_iff split: if_splits) blast
qed (use assms in simp)

lemma commute_facts_keys:
  "commute_facts reg view now ws cs res = Inr (fs, res') \<Longrightarrow> k \<in> written fs \<Longrightarrow>
     \<exists>c \<in> set cs. k = (r_eid (fst c), lstrip_colon (r_spec_attr (fst c))) \<and> ref_get ws (fst c) = None"
proof (induction cs arbitrary: res fs)
  case (Cons c cs)
  obtain r fid args where c: "c = (r, fid, args)" by (cases c)
  from commute_facts_Cons[OF Cons.prems(1)[unfolded c]] show ?case
  proof (elim disjE conjE exE)
    assume "commute_facts reg view now ws cs res = Inr (fs, res')"
    from Cons.IH[OF this Cons.prems(2)] show ?thesis by simp
  next
    fix v gs
    assume n: "ref_get ws r = None" and fs: "fs = value_fact (r_eid r) (r_spec_attr r) v now # gs"
      and g: "commute_facts reg view now ws cs (ref_set r v res) = Inr (gs, res')"
    show ?thesis
    proof (cases "k \<in> written gs")
      case True
      from Cons.IH[OF g True] show ?thesis by simp
    next
      case False
      then have "k = (r_eid r, lstrip_colon (r_spec_attr r))"
        using Cons.prems(2) by (simp add: fs fact_key_def value_fact_def)
      with n c show ?thesis by simp
    qed
  qed
qed simp

lemma written_write_facts:
  "written (build_write_facts tx now) = (\<lambda>(r, v). (r_eid r, lstrip_colon (r_spec_attr r))) ` set (tx_write_set tx)"
  by (force simp: written_def build_write_facts_def value_fact_def)

lemma written_commit_fact:
  "fact_key (build_commit_fact cid now) = (cid, ''persistence.txn/commit-id'')"
  by (simp add: fact_key_def build_commit_fact_def value_fact_def) (simp add: lstrip_colon_def)

lemma txn_write_facts_split:
  assumes "txn_inv tx" "(r, v) \<in> set (tx_write_set tx)"
  shows "\<exists>xs ys. build_write_facts tx t = xs @ assert_fact (r_eid r) (r_spec_attr r) v t # ys \<and>
    (r_eid r, a) \<notin> written xs \<and> (r_eid r, a) \<notin> written ys"
proof -
  from assms(2) obtain us vs where u: "tx_write_set tx = us @ (r, v) # vs"
    by (auto simp: in_set_conv_decomp)
  let ?f = "\<lambda>(q, w). value_fact (r_eid q) (r_spec_attr q) w t"
  have d: "r_eid r \<notin> (r_eid \<circ> fst) ` set us" "r_eid r \<notin> (r_eid \<circ> fst) ` set vs"
    using assms(1) by (auto simp: txn_inv_def u)
  have n: "(r_eid r, a) \<notin> written (map ?f ws)" if "r_eid r \<notin> (r_eid \<circ> fst) ` set ws" for ws
    using that by (induction ws) (auto simp: fact_key_def value_fact_def)
  show ?thesis
    by (rule exI[of _ "map ?f us"], rule exI[of _ "map ?f vs"])
      (simp add: build_write_facts_def u n[OF d(1)] n[OF d(2)] value_fact_assert[symmetric])
qed

lemma commute_skips_writes:
  assumes "txn_inv tx" "commute_facts reg view now (tx_write_set tx) (tx_commute_log tx) res = Inr (fs, res')"
    and "(r, v) \<in> set (tx_write_set tx)" "k \<in> written fs"
  shows "fst k \<noteq> r_eid r"
proof
  assume k: "fst k = r_eid r"
  from commute_facts_keys[OF assms(2,4)] obtain c where c: "c \<in> set (tx_commute_log tx)"
    "fst k = r_eid (fst c)" "ref_get (tx_write_set tx) (fst c) = None"
    by auto
  have "r \<in> refs_of tx" "fst c \<in> refs_of tx"
    using assms(3) c(1) by (force simp: refs_of_def)+
  then have "r_db_id r = tx_db_id tx" "r_db_id (fst c) = tx_db_id tx"
    using assms(1) unfolding txn_inv_def by blast+
  then have "ref_eq (fst c) r" using c(2) k by (simp add: ref_eq_def)
  moreover have "\<not> ref_eq (fst c) r"
    using c(3) assms(3) unfolding ref_get_None by force
  ultimately show False by simp
qed

end
