(* ===== verification/TxnProps.thy ===== *)
theory TxnProps
  imports TxnLaws FactProps
begin

text \<open>
  The properties of \<open>persistence.txn\<close>: isolation of the reads, atomicity of the commit,
  what a commit makes visible, commutes, and the retry loop.
\<close>

section \<open>Sample data for the witnesses\<close>

definition counter_ref :: ref where
  "counter_ref = \<lparr>r_eid = ''c1'', r_db_id = ''db'', r_spec_attr = ''value''\<rparr>"

definition ce_at :: "int \<Rightarrow> string \<Rightarrow> commit_env" where
  "ce_at t cid = \<lparr>ce_clock = (\<lambda>_. t), ce_digest = (\<lambda>f. f_e f @ f_a f), ce_isoformat = int_str,
     ce_commit_id = cid, ce_registry = default_registry, ce_specs = (\<lambda>_. None),
     ce_intents_ok = (\<lambda>_. True), ce_runtime = True,
     ce_perform = (\<lambda>i x. if i_op x = '':bad'' then Some Unhandled else None)\<rparr>"

definition counter_log :: log where
  "counter_log = projr (transact (env_at 5) [] [assert_fact ''c1'' ''value'' (VInt 10) 5] [] False)"

lemma counter_log_run:
  "transact_call (env_at 5, [assert_fact ''c1'' ''value'' (VInt 10) 5], [], False) [] = Inr counter_log"
  by code_simp

lemma wf_counter_log: "wf_log counter_log"
  using tl.put_wf[OF wf_log_Nil counter_log_run] .

definition bump :: "int \<Rightarrow> log \<Rightarrow> nat \<Rightarrow> int \<Rightarrow> txn" where
  "bump n l k t = snd (projr (tx_alter l (new_txn ''db'' t k False) counter_ref
     (\<lambda>v. py_add v (VInt n))))"

section \<open>Isolation\<close>

lemma in_touched:
  assumes "r \<in> set (tx_read_set tx) \<union> fst ` set (tx_write_set tx) \<union> set (tx_ensure_set tx)"
  shows "r_eid r \<in> set (touched tx)"
  using assms unfolding touched_def by auto

text \<open>C7. Snapshot reads are current at commit: if other writers extended the log after the
  body read it, with clocks past the transaction's start, and the commit attempt succeeds,
  then every ref of an entity the transaction read, wrote or ensured has at commit the very
  value the body saw in its snapshot. (Attempts that fail this check are conflicts.)\<close>

theorem commit_reads_current:
  assumes "wf_log l0" "efold batch_call others l0 = Inr l"
    and "\<And>c. c \<in> set others \<Longrightarrow> tx_t_start tx < call_time c"
    and "commit_attempt ce l tx = Committed l' sent"
    and "r \<in> set (tx_read_set tx) \<union> fst ` set (tx_write_set tx) \<union> set (tx_ensure_set tx)"
  shows "view_value (as_of l0 (tx_t_start tx)) r = view_value l r"
proof -
  have "view_value (as_of l0 (tx_t_start tx)) r = view_value (as_of l (tx_t_start tx)) r"
    using bl.run_as_of[OF assms(1-3)] by (intro view_value_erase) simp
  also have "\<dots> = view_value l r"
    using commit_Committed(1)[OF assms(4)] commit_core_quiet quiet_view_value
      in_touched[OF assms(5)] by blast
  finally show ?thesis .
qed

theorem commit_reads_current_witness:
  "view_value (as_of counter_log 6) counter_ref = view_value
     (projr (batch_call (env_at 7, [assert_fact ''e9'' ''price'' (VInt 1) 7], [], False) counter_log))
     counter_ref"
proof -
  let ?c = "(env_at 7, [assert_fact ''e9'' ''price'' (VInt 1) 7], [], False)"
  let ?l = "projr (batch_call ?c counter_log)"
  let ?tx = "bump 1 counter_log 0 6"
  have run: "efold batch_call [?c] counter_log = Inr ?l" by code_simp
  have t: "tx_t_start ?tx = 6" by code_simp
  obtain l' sent where c: "commit_attempt (ce_at 8 ''k1'') ?l ?tx = Committed l' sent"
  proof (cases "commit_attempt (ce_at 8 ''k1'') ?l ?tx")
    case (Committed l' sent)
    then show ?thesis by (rule that)
  next
    case Conflict
    moreover have "commit_attempt (ce_at 8 ''k1'') ?l ?tx \<noteq> Conflict" by code_simp
    ultimately show ?thesis by simp
  next
    case (CommitRaised e l' sent)
    moreover have "case commit_attempt (ce_at 8 ''k1'') ?l ?tx of CommitRaised _ _ _ \<Rightarrow> False | _ \<Rightarrow> True"
      by code_simp
    ultimately show ?thesis by simp
  qed
  have "counter_ref \<in> set (tx_read_set ?tx)" by code_simp
  then have e: "counter_ref \<in> set (tx_read_set ?tx) \<union> fst ` set (tx_write_set ?tx)
      \<union> set (tx_ensure_set ?tx)" by blast
  have "tx_t_start ?tx < call_time c" if "c \<in> set [?c]" for c
    using that by (simp add: t call_time_def)
  from commit_reads_current[OF wf_counter_log run this c e] show ?thesis unfolding t .
qed

section \<open>Atomicity\<close>

text \<open>What an attempt appends: one batch, the facts of the write set, the facts of the
  commutes recomputed at commit, the staged facts and the commit fact, in this order.\<close>

definition batch_of_commit :: "commit_env \<Rightarrow> log \<Rightarrow> txn \<Rightarrow> log \<Rightarrow> bool" where
  "batch_of_commit ce l tx l' \<longleftrightarrow> (\<exists>cfs res pb.
     commute_facts (ce_registry ce) (as_of l (ce_clock ce 3)) (ce_clock ce 3)
       (tx_write_set tx) (tx_commute_log tx) [] = Inr (cfs, res) \<and>
     build_commit_provenance ce tx (ce_clock ce 2) = Inr pb \<and>
     transact_batch (commit_env_at ce 4) l (build_write_facts tx (ce_clock ce 0) @ cfs @ tx_staged tx
       @ [build_commit_fact (ce_commit_id ce) (ce_clock ce 1)]) pb False = Inr l')"

lemma commit_core_batch: "commit_core ce l tx = Inr (Some l') \<Longrightarrow> batch_of_commit ce l tx l'"
  unfolding batch_of_commit_def by (auto simp: commit_core_def ebind_Inr_iff commit_locked_Some)

lemma commit_conflict:
  assumes "commit_attempt ce l tx = Conflict"
  shows "any_datoms_since l (tx_t_start tx) (touched tx)"
proof -
  obtain pb where "commit_locked ce l tx pb = Inr None"
    using assms
    by (auto simp: commit_attempt_def ebind_Inr_iff split: if_splits sum.splits option.splits prod.splits)
  then show ?thesis by (simp add: commit_locked_None)
qed

text \<open>C8. A commit attempt has one of four outcomes. A conflict happens only when the log has
  a newer datom of a touched entity, and writes nothing. A commit appends exactly one batch,
  the facts of the write set, the commutes recomputed at commit, the staged facts and the
  commit fact, all under one fresh transaction id, and performs every queued intent in order.
  An attempt that raises leaves the log alone and performs no intent; or it raises because a
  queued intent raised after that same batch was appended: the facts then stay, and exactly
  the intents before the failing one were performed.\<close>

theorem commit_atomic:
  assumes "wf_log l"
  shows "case commit_attempt ce l tx of
      Conflict \<Rightarrow> any_datoms_since l (tx_t_start tx) (touched tx)
    | Committed l' sent \<Rightarrow> sent = tx_intents tx \<and> batch_of_commit ce l tx l' \<and>
        wf_log l' \<and> grows l l' \<and> length l < length l' \<and>
        (\<forall>d \<in> set (drop (length l) l'). d_tx d = next_tx l)
    | CommitRaised e l' sent \<Rightarrow> l' = l \<and> sent = [] \<or>
        batch_of_commit ce l tx l' \<and> wf_log l' \<and> grows l l' \<and> length l < length l' \<and>
        (\<forall>d \<in> set (drop (length l) l'). d_tx d = next_tx l) \<and>
        length sent < length (tx_intents tx) \<and> sent = take (length sent) (tx_intents tx) \<and>
        ce_perform ce (length sent) (tx_intents tx ! length sent) = Some e"
proof (cases "commit_attempt ce l tx")
  case Conflict
  then show ?thesis by (simp add: commit_conflict)
next
  case (Committed l' sent)
  from commit_core_batch[OF commit_Committed(1)[OF Committed]]
    commit_core_laws[OF assms commit_Committed(1)[OF Committed]] commit_Committed(2)[OF Committed]
  show ?thesis by (simp add: Committed)
next
  case (CommitRaised e l' sent)
  from commit_Raised[OF CommitRaised] show ?thesis
  proof
    assume "l' = l \<and> sent = [] \<and> (\<forall>l''. commit_core ce l tx = Inr (Some l'') \<longrightarrow> e = AuditStackMissing)"
    then show ?thesis by (simp add: CommitRaised)
  next
    assume a: "commit_core ce l tx = Inr (Some l') \<and>
      replay_intents ce 0 (tx_intents tx) = (sent, Some e)"
    from commit_core_batch[OF conjunct1[OF a]] commit_core_laws[OF assms conjunct1[OF a]] replay_intents_Some[OF conjunct2[OF a]]
      replay_intents_prefix[OF conjunct2[OF a]]
    show ?thesis by (simp add: CommitRaised)
  qed
qed

theorem commit_atomic_witness:
  "tx_intents (bump 1 counter_log 0 6) = [] \<and>
   (case commit_attempt (ce_at 8 ''k1'') counter_log (bump 1 counter_log 0 6) of
      Committed l' sent \<Rightarrow> grows counter_log l' | _ \<Rightarrow> False)"
proof
  let ?c = "commit_attempt (ce_at 8 ''k1'') counter_log (bump 1 counter_log 0 6)"
  have "case ?c of Committed _ _ \<Rightarrow> True | _ \<Rightarrow> False" by code_simp
  with commit_atomic[OF wf_counter_log, where ce = "ce_at 8 ''k1''" and tx = "bump 1 counter_log 0 6"]
  show "case ?c of Committed l' sent \<Rightarrow> grows counter_log l' | _ \<Rightarrow> False"
    by (cases ?c) auto
  show "tx_intents (bump 1 counter_log 0 6) = []" by code_simp
qed

text \<open>Effects are replayed after the facts are durable: when the first intent raises, the
  caller of \<open>dosync\<close> sees the exception, but the facts stay in the log exactly as if the
  replay had succeeded.\<close>

lemma failed_replay_keeps_facts:
  assumes "commit_attempt (ce\<lparr>ce_perform := \<lambda>_ _. None\<rparr>) l tx = Committed l' sent"
    and "tx_intents tx = x # xs" "ce_perform ce 0 x = Some e"
  shows "commit_attempt ce l tx = CommitRaised e l' []"
proof -
  have "commit_core (ce\<lparr>ce_perform := \<lambda>_ _. None\<rparr>) l tx = commit_core ce l tx"
    by (simp add: commit_core_def build_commit_provenance_def commit_locked_def[abs_def]
        spec_validate_writes_def commit_env_at_def)
  with commit_Committed(1)[OF assms(1)] have c: "commit_core ce l tx = Inr (Some l')" by simp
  from assms(1,2) have "ce_runtime ce" by (auto simp: commit_attempt_core split: if_splits)
  with c assms(2,3) show ?thesis by (simp add: commit_attempt_core)
qed

section \<open>What a commit makes visible\<close>

text \<open>C9. After a commit every written ref reads back its written value, commutes and staged
  facts of the same transaction notwithstanding: an explicit write beats the commutes of its
  ref. (The conditions are those of reading back a single assert: the write is not earlier
  than the recorded asserts, and does not repeat a value at its very valid time; the commit
  id is fresh and nothing staged names the attribute.)\<close>

theorem commit_writes_visible:
  assumes "wf_log l" "txn_inv tx" "commit_attempt ce l tx = Committed l' sent"
    and "(r, v) \<in> set (tx_write_set tx)" "lstrip_colon (r_spec_attr r) = r_spec_attr r"
    and "(r_eid r, r_spec_attr r) \<notin> written (tx_staged tx)" "r_eid r \<noteq> ce_commit_id ce"
    and "readable_write l (r_eid r) (r_spec_attr r) v (ce_clock ce 0)"
  shows "entity l' (r_eid r) (r_spec_attr r) = Some v"
proof -
  let ?k = "(r_eid r, r_spec_attr r)"
  obtain pb cfs res where
    b: "transact_batch (commit_env_at ce 4) l (build_write_facts tx (ce_clock ce 0) @ cfs @ tx_staged tx
        @ [build_commit_fact (ce_commit_id ce) (ce_clock ce 1)]) pb False = Inr l'"
    and cf: "commute_facts (ce_registry ce) (as_of l (ce_clock ce 3)) (ce_clock ce 3)
        (tx_write_set tx) (tx_commute_log tx) [] = Inr (cfs, res)"
    using commit_Committed(1)[OF assms(3)] by (elim commit_core_Some) (auto simp: commit_locked_Some)
  from txn_write_facts_split[OF assms(2,4)] obtain xs ys where
    w: "build_write_facts tx (ce_clock ce 0) = xs @ assert_fact (r_eid r) (r_spec_attr r) v (ce_clock ce 0) # ys"
    "?k \<notin> written xs" "?k \<notin> written ys"
    by blast
  have "?k \<notin> written cfs"
    using commute_skips_writes[OF assms(2) cf assms(4), of ?k] by auto
  with w(3) assms(6,7) have n: "?k \<notin> written (ys @ cfs @ tx_staged tx
      @ [build_commit_fact (ce_commit_id ce) (ce_clock ce 1)])"
    by (simp add: written_commit_fact)
  obtain l1 where l1: "transact (commit_env_at ce 4) l
      [assert_fact (r_eid r) (r_spec_attr r) v (ce_clock ce 0)] pb False = Inr l1"
    "entity l' (r_eid r) (r_spec_attr r) = entity l1 (r_eid r) (r_spec_attr r)"
    by (rule batch_localises[OF assms(1,5) b[unfolded w(1) append_assoc append_Cons] w(2) n])
  show ?thesis
    unfolding l1(2) by (rule readable_write_reads[OF assms(1,5) l1(1) assms(8)])
qed

theorem commit_writes_visible_witness:
  "case commit_attempt (ce_at 8 ''k1'') counter_log (bump 1 counter_log 0 6) of
     Committed l' sent \<Rightarrow> entity l' ''c1'' ''value'' = Some (VInt 11) | _ \<Rightarrow> False"
proof -
  let ?tx = "bump 1 counter_log 0 6"
  let ?c = "commit_attempt (ce_at 8 ''k1'') counter_log ?tx"
  have "case ?c of Committed _ _ \<Rightarrow> True | _ \<Rightarrow> False" by code_simp
  then obtain l' sent where c: "?c = Committed l' sent" by (cases ?c) auto
  have i: "txn_inv ?tx" by code_simp
  have w: "(counter_ref, VInt 11) \<in> set (tx_write_set ?tx)"
    and a: "lstrip_colon (r_spec_attr counter_ref) = r_spec_attr counter_ref"
    and s: "(r_eid counter_ref, r_spec_attr counter_ref) \<notin> written (tx_staged ?tx)"
    and n: "r_eid counter_ref \<noteq> ce_commit_id (ce_at 8 ''k1'')"
    and r: "readable_write counter_log (r_eid counter_ref) (r_spec_attr counter_ref) (VInt 11)
      (ce_clock (ce_at 8 ''k1'') 0)"
    by code_simp+
  have k: "r_eid counter_ref = ''c1''" "r_spec_attr counter_ref = ''value''" by code_simp+
  from commit_writes_visible[OF wf_counter_log i c w a s n r, unfolded k] c show ?thesis by simp
qed

section \<open>Commutes\<close>

text \<open>Commutes do not conflict and lose no update: whatever was committed since the
  transaction started, an increment is applied to the value at commit.\<close>

lemma commute_adds_to_current:
  assumes "wf_log l" "tx_read_set tx = []" "tx_write_set tx = []" "tx_ensure_set tx = []"
    and "tx_commute_log tx = [(r, ''inc-by'', [VInt n])]" "ce_registry ce = default_registry"
    and "view_value l r = VInt b" "list_all (\<lambda>d. d_tx_time d \<le> ce_clock ce 3) l"
    and "lstrip_colon (r_spec_attr r) = r_spec_attr r"
    and "(r_eid r, r_spec_attr r) \<notin> written (tx_staged tx)" "r_eid r \<noteq> ce_commit_id ce"
    and "readable_write l (r_eid r) (r_spec_attr r) (VInt (b + n)) (ce_clock ce 3)"
  shows "case commit_attempt ce l tx of
      Conflict \<Rightarrow> False
    | Committed l' sent \<Rightarrow> entity l' (r_eid r) (r_spec_attr r) = Some (VInt (b + n))
    | CommitRaised e l' sent \<Rightarrow> True"
proof (cases "commit_attempt ce l tx")
  case Conflict
  from commit_conflict[OF this] show ?thesis
    by (simp add: touched_def assms(2-4) any_datoms_since_def)
next
  case (Committed l' sent)
  let ?f = "assert_fact (r_eid r) (r_spec_attr r) (VInt (b + n)) (ce_clock ce 3)"
  have v: "as_of l (ce_clock ce 3) = l"
    using assms(8) by (simp add: as_of_def list_all_iff)
  have cf: "commute_facts (ce_registry ce) (as_of l (ce_clock ce 3)) (ce_clock ce 3)
      (tx_write_set tx) (tx_commute_log tx) [] = Inr ([?f], [(r, VInt (b + n))])"
    by (simp add: assms(3,5-7) v inc_by_def py_add_def is_immutable_value_def value_fact_assert
        default_registry_def)
  obtain pb where
    b: "transact_batch (commit_env_at ce 4) l ([] @ ?f # tx_staged tx
        @ [build_commit_fact (ce_commit_id ce) (ce_clock ce 1)]) pb False = Inr l'"
    using commit_Committed(1)[OF Committed]
    by (elim commit_core_Some)
      (auto simp: commit_locked_Some cf[unfolded assms(3)] build_write_facts_def assms(3))
  have n: "(r_eid r, r_spec_attr r) \<notin> written (tx_staged tx
      @ [build_commit_fact (ce_commit_id ce) (ce_clock ce 1)])"
    using assms(10,11) by (simp add: written_commit_fact)
  obtain l1 where l1: "transact (commit_env_at ce 4) l [?f] pb False = Inr l1"
    "entity l' (r_eid r) (r_spec_attr r) = entity l1 (r_eid r) (r_spec_attr r)"
    by (rule batch_localises[OF assms(1,9) b _ n]) simp
  from readable_write_reads[OF assms(1,9) l1(1) assms(12)] show ?thesis
    by (simp add: Committed l1(2))
qed simp

definition commuting :: "int \<Rightarrow> log \<Rightarrow> int \<Rightarrow> txn" where
  "commuting n l t = snd (projr (tx_commute default_registry l (new_txn ''db'' t 0 False)
     counter_ref ''inc-by'' [VInt n]))"

definition counter_log' :: log where
  "counter_log' = (case commit_attempt (ce_at 8 ''k1'') counter_log (commuting 5 counter_log 6) of
     Committed l sent \<Rightarrow> l | _ \<Rightarrow> [])"

lemma wf_counter_log': "wf_log counter_log'"
proof -
  let ?c = "commit_attempt (ce_at 8 ''k1'') counter_log (commuting 5 counter_log 6)"
  have "case ?c of Committed _ _ \<Rightarrow> True | _ \<Rightarrow> False" by code_simp
  then obtain l sent where c: "?c = Committed l sent" by (cases ?c) auto
  then have "counter_log' = l" by (simp add: counter_log'_def)
  with commit_core_laws(1)[OF wf_counter_log commit_Committed(1)[OF c]] show ?thesis by simp
qed

section \<open>Limits of the conflict check\<close>

definition commit_log :: "commit_outcome \<Rightarrow> log" where
  "commit_log r = (case r of Committed l _ \<Rightarrow> l | _ \<Rightarrow> [])"

definition two_bumps :: "int \<Rightarrow> commit_outcome" where
  "two_bumps t = commit_attempt (ce_at t ''k2'')
     (commit_log (commit_attempt (ce_at t ''k1'') counter_log (bump 1 counter_log 0 6)))
     (bump 2 counter_log 0 6)"

text \<open>The conflict check is strict in time: under a clock that has not moved since the
  transaction started, a concurrent increment is not seen as a conflict and is lost (10, then
  +1 and +2 give 12); had the clock moved, the second commit would have been refused.\<close>

lemma lost_update_equal_clock:
  "entity counter_log ''c1'' ''value'' = Some (VInt 10) \<and>
   entity (commit_log (two_bumps 6)) ''c1'' ''value'' = Some (VInt 12) \<and>
   two_bumps 7 = Conflict"
proof (intro conjI)
  show "entity counter_log ''c1'' ''value'' = Some (VInt 10)" by code_simp
  show "entity (commit_log (two_bumps 6)) ''c1'' ''value'' = Some (VInt 12)" by code_simp
  show "two_bumps 7 = Conflict" by code_simp
qed

text \<open>Two refs of one entity under different attributes are one key of the write set: the
  second write replaces the value of the first and is committed under the first attribute;
  nothing is written under the second.\<close>

lemma assoc_aliases_spec_attr:
  assumes "r_eid p = r_eid r" "r_db_id p = tx_db_id tx" "r_db_id r = tx_db_id tx"
    and "ref_get (tx_write_set tx) p = None" "is_immutable_value v" "is_immutable_value w"
  shows "map_sum id (\<lambda>tx'. build_write_facts tx' t)
      (ebind (tx_assoc tx p v) (\<lambda>tx1. tx_assoc tx1 r w)) =
    Inr (build_write_facts tx t @ [value_fact (r_eid p) (r_spec_attr p) w t])"
proof -
  have s: "ref_set p v (tx_write_set tx) = tx_write_set tx @ [(p, v)]"
    using assms(4) by (intro ref_set_absent)
  have "ref_get (tx_write_set tx) r = None"
    using assms(1-4) ref_get_cong[of r p "tx_write_set tx"] by (simp add: ref_eq_def)
  then have "ref_set r w (tx_write_set tx @ [(p, v)]) = tx_write_set tx @ [(p, w)]"
    using assms(1-3) by (subst ref_set_append) (auto simp: ref_eq_def)
  with s assms(2-3,5-6) show ?thesis
    by (simp add: tx_assoc_def build_write_facts_def)
qed

section \<open>The retry loop\<close>

text \<open>What attempt \<open>k\<close> of the loop comes to: the exception of the body, or the outcome of
  its commit attempt.\<close>

definition attempt_at :: "run_world \<Rightarrow> nat \<Rightarrow> err + commit_outcome" where
  "attempt_at w k = ebind (rw_body w k (new_txn (rw_db_id w) (rw_now w k) k (rw_deadline w \<noteq> None)))
     (\<lambda>tx. Inr (commit_attempt (rw_commit w k) (rw_log w k) tx))"

definition deadline_hit :: "run_world \<Rightarrow> nat \<Rightarrow> bool" where
  "deadline_hit w k = (case rw_deadline w of None \<Rightarrow> False | Some hit \<Rightarrow> hit k)"

lemma run_loop_unfold:
  "run_loop w m k =
     (if deadline_hit w k then RunRaised TxnDeadlineExceeded k None
      else if m < k then RunRaised TxnRetryExhausted k None
      else case attempt_at w k of
        Inl e \<Rightarrow> RunRaised e k None
      | Inr Conflict \<Rightarrow> run_loop w m (Suc k)
      | Inr (Committed l sent) \<Rightarrow> RunCommitted (ce_commit_id (rw_commit w k)) k l sent
      | Inr (CommitRaised e l sent) \<Rightarrow> RunRaised e k (Some (l, sent)))"
  by (subst run_loop.simps)
    (auto simp: attempt_at_def deadline_hit_def ebind_def split: sum.split commit_outcome.split)

definition decided :: "run_world \<Rightarrow> nat \<Rightarrow> nat \<Rightarrow> run_result \<Rightarrow> bool" where
  "decided w m k res =
     (if deadline_hit w k then res = RunRaised TxnDeadlineExceeded k None
      else if m < k then k = Suc m \<and> res = RunRaised TxnRetryExhausted k None
      else case attempt_at w k of
        Inl e \<Rightarrow> res = RunRaised e k None
      | Inr Conflict \<Rightarrow> False
      | Inr (Committed l sent) \<Rightarrow> res = RunCommitted (ce_commit_id (rw_commit w k)) k l sent
      | Inr (CommitRaised e l sent) \<Rightarrow> res = RunRaised e k (Some (l, sent)))"

lemma run_loop_decided:
  assumes "a \<le> Suc m"
  shows "\<exists>k \<ge> a. k \<le> Suc m \<and> (\<forall>j. a \<le> j \<and> j < k \<longrightarrow> attempt_at w j = Inr Conflict \<and> \<not> deadline_hit w j)
    \<and> decided w m k (run_loop w m a)"
  using assms
proof (induction "Suc m - a" arbitrary: a)
  case 0
  then have a: "a = Suc m" by simp
  show ?case unfolding a
    by (intro exI[of _ "Suc m"]) (auto simp: decided_def run_loop_unfold[of w m "Suc m"])
next
  case (Suc n)
  have le: "\<not> m < a" using Suc(2) by arith
  show ?case
  proof (cases "\<not> deadline_hit w a \<and> attempt_at w a = Inr Conflict")
    case True
    with le have r: "run_loop w m a = run_loop w m (Suc a)"
      by (simp add: run_loop_unfold[of w m a])
    have na: "n = Suc m - Suc a" "Suc a \<le> Suc m" using Suc(2) by arith+
    from Suc(1)[OF na] obtain k where k: "Suc a \<le> k" "k \<le> Suc m"
      "\<forall>j. Suc a \<le> j \<and> j < k \<longrightarrow> attempt_at w j = Inr Conflict \<and> \<not> deadline_hit w j"
      "decided w m k (run_loop w m (Suc a))"
      by blast
    show ?thesis
    proof (intro exI[of _ k] conjI allI impI)
      fix j assume "a \<le> j \<and> j < k"
      then show "attempt_at w j = Inr Conflict" "\<not> deadline_hit w j"
        using k(3) True by (cases "j = a"; simp)+
    qed (use k r in auto)
  next
    case False
    then have "decided w m a (run_loop w m a)"
      using le
      by (auto simp: decided_def run_loop_unfold[of w m a] split: sum.split commit_outcome.split)
    then show ?thesis using Suc(2,3) by (intro exI[of _ a]) auto
  qed
qed

text \<open>C10. \<open>dosync\<close> returns the outcome of the first attempt that does not end in a
  conflict: every earlier one conflicted, it stops after at most \<open>max_retries + 1\<close> attempts
  with \<open>TxnRetryExhausted\<close>, and no attempt starts once the deadline has passed.\<close>

theorem dosync_first_decisive:
  "\<exists>k \<le> Suc m. (\<forall>j < k. attempt_at w j = Inr Conflict \<and> \<not> deadline_hit w j) \<and>
     decided w m k (dosync_run False w m)"
  using run_loop_decided[of 0 m w] by (auto simp: dosync_run_def)

text \<open>A run whose first attempt meets a newer datom and whose second does not.\<close>

definition contended :: run_world where
  "contended = \<lparr>rw_db_id = ''db'', rw_deadline = None, rw_now = (\<lambda>k. if k = 0 then 4 else 6),
     rw_body = (\<lambda>k tx. map_sum id snd (tx_deref counter_log tx counter_ref)),
     rw_log = (\<lambda>_. counter_log), rw_commit = (\<lambda>_. ce_at 8 ''k1'')\<rparr>"

theorem dosync_first_decisive_witness:
  "decided contended 3 1 (dosync_run False contended 3)"
proof -
  have 0: "attempt_at contended 0 = Inr Conflict" by code_simp
  have 1: "attempt_at contended 1 \<noteq> Inr Conflict" by code_simp
  have n: "\<not> deadline_hit contended k" for k by (simp add: deadline_hit_def contended_def)
  obtain k where k: "\<forall>j < k. attempt_at contended j = Inr Conflict \<and> \<not> deadline_hit contended j"
    "decided contended 3 k (dosync_run False contended 3)"
    using dosync_first_decisive[of 3 contended] by blast
  have "\<not> decided contended 3 0 res" for res using 0 n[of 0] by (simp add: decided_def)
  then have "k \<noteq> 0" using k(2) by metis
  moreover have "\<not> 1 < k" using k(1) 1 by blast
  ultimately have "k = 1" by simp
  with k(2) show ?thesis by simp
qed

end
