(* ===== verification/Atom.thy ===== *)
theory Atom
  imports TxnProps
begin

text \<open>
  \<open>persistence.txn.atom\<close>: a single cell on the log, read through the newest open assert
  of \<open>(eid, value)\<close> and written by a transaction of one fact. Every operation runs under
  the store's lock, so each is one step; the clock is read once for the fact's valid time
  and once by \<open>transact\<close>.
\<close>

section \<open>Operations\<close>

definition ATOM_ATTR :: string where
  "ATOM_ATTR = ''value''"

record atom_env =
  ae_vf :: int
  ae_env :: env

definition check_not_in_dosync :: "bool \<Rightarrow> err + unit" where
  "check_not_in_dosync in_dosync = (if in_dosync then Inl AtomInDosyncProhibited else Inr ())"

definition atom_read :: "string \<Rightarrow> log \<Rightarrow> val" where
  "atom_read eid l = (case find_prior_assert l eid ATOM_ATTR of None \<Rightarrow> VNone | Some d \<Rightarrow> d_v d)"

definition atom_deref :: "bool \<Rightarrow> string \<Rightarrow> log \<Rightarrow> err + val" where
  "atom_deref in_dosync eid l = ebind (check_not_in_dosync in_dosync) (\<lambda>_. Inr (atom_read eid l))"

definition transact_value :: "string \<Rightarrow> atom_env \<Rightarrow> val \<Rightarrow> log \<Rightarrow> err + log" where
  "transact_value eid ae v l =
     transact (ae_env ae) l [value_fact eid ATOM_ATTR v (ae_vf ae)] [] False"

definition atom_swap :: "bool \<Rightarrow> string \<Rightarrow> atom_env \<Rightarrow> (val \<Rightarrow> err + val) \<Rightarrow> int \<Rightarrow> log \<Rightarrow>
    err + val \<times> log" where
  "atom_swap in_dosync eid ae fn max_retries l =
     ebind (check_not_in_dosync in_dosync) (\<lambda>_.
       if max_retries < 1 then Inl AtomCASExhausted
       else ebind (fn (atom_read eid l)) (\<lambda>v.
         ebind (transact_value eid ae v l) (\<lambda>l'. Inr (v, l'))))"

definition atom_cas :: "bool \<Rightarrow> string \<Rightarrow> atom_env \<Rightarrow> val \<Rightarrow> val \<Rightarrow> log \<Rightarrow> err + bool \<times> log" where
  "atom_cas in_dosync eid ae old new l =
     ebind (check_not_in_dosync in_dosync) (\<lambda>_.
       if \<not> py_eq (atom_read eid l) old then Inr (False, l)
       else ebind (transact_value eid ae new l) (\<lambda>l'. Inr (True, l')))"

definition atom_reset :: "bool \<Rightarrow> string \<Rightarrow> atom_env \<Rightarrow> val \<Rightarrow> log \<Rightarrow> err + val \<times> log" where
  "atom_reset in_dosync eid ae v l =
     ebind (check_not_in_dosync in_dosync) (\<lambda>_.
       ebind (transact_value eid ae v l) (\<lambda>l'. Inr (v, l')))"

text \<open>\<open>DB.atom\<close>: allocation of a fresh cell.\<close>

definition db_atom :: "string \<Rightarrow> atom_env \<Rightarrow> val \<Rightarrow> log \<Rightarrow> err + log" where
  "db_atom eid ae initial l =
     (if list_ex (\<lambda>d. d_e d = eid \<and> d_a d = ATOM_ATTR \<and> is_open d) l then Inl ValueError
      else transact_value eid ae initial l)"

section \<open>The cell contract\<close>

text \<open>A cell: a write that succeeds is what is read next. Sequences of read-modify-writes
  then apply their functions in order to the first value.\<close>

locale cell =
  fixes get :: "'s \<Rightarrow> 'v" and put :: "'c \<Rightarrow> 'v \<Rightarrow> 's \<Rightarrow> err + 's" and ok :: "'s \<Rightarrow> bool"
  assumes put_get: "ok s \<Longrightarrow> put c v s = Inr s' \<Longrightarrow> get s' = v"
    and put_ok: "ok s \<Longrightarrow> put c v s = Inr s' \<Longrightarrow> ok s'"
begin

lemma modifies_serialise:
  "ok s \<Longrightarrow> efold (\<lambda>(c, f) s. put c (f (get s)) s) ops s = Inr s' \<Longrightarrow>
     get s' = fold snd ops (get s) \<and> ok s'"
proof (induction ops arbitrary: s)
  case (Cons op ops)
  obtain c f where op: "op = (c, f)" by (cases op)
  with Cons.prems(2) obtain t where t: "put c (f (get s)) s = Inr t"
    "efold (\<lambda>(c, f) s. put c (f (get s)) s) ops t = Inr s'"
    by (auto simp: ebind_Inr_iff)
  from put_get[OF Cons.prems(1) t(1)] put_ok[OF Cons.prems(1) t(1)] Cons.IH[OF _ t(2)] show ?case by (simp add: op)
qed simp

end

section \<open>The atom is a cell\<close>

lemma foldl_mark_other:
  assumes "\<forall>x \<in> set xs. x \<noteq> d_tx d"
  shows "foldl (\<lambda>m x. mark_invalidated m x by) (l @ [d]) xs =
    foldl (\<lambda>m x. mark_invalidated m x by) l xs @ [d]"
  using assms by (induction xs arbitrary: l) (auto simp: mark_invalidated_def mark_one_def)

lemma find_prior_last:
  assumes "d_e d = e" "d_a d = a" "is_open d"
  shows "find_prior_assert (l @ [d]) e a = Some d"
  using assms by (simp add: find_prior_append)

lemma transact_assert_last:
  assumes "wf_log l" "lstrip_colon a = a" "transact env l [assert_fact e a v t] pb force = Inr l'"
  obtains m where "l' = m @ [with_tx (next_tx l) (new_assert env pb e a v t)]"
proof -
  let ?d = "with_tx (next_tx l) (new_assert env pb e a v t)"
  from assms(3) consider
      "l' = commit_shaped l ([new_assert env pb e a v t], [])"
    | p where "find_prior_assert l e a = Some p"
        "l' = commit_shaped l ([companion_of env t p, new_assert env pb e a v t], [d_tx p])"
    unfolding transact_assert by (auto split: option.splits if_splits)
  then show ?thesis
  proof cases
    case 1
    then show ?thesis by (intro that[of l]) (simp add: commit_shaped_unfold)
  next
    case (2 p)
    have "d_tx p \<noteq> next_tx l"
      using find_prior_SomeD(1)[OF 2(1)] next_tx_greater[of p l] by auto
    then show ?thesis
      using 2(2) foldl_mark_other[of "[d_tx p]" ?d "next_tx l" "l @ [with_tx (next_tx l) (companion_of env t p)]"]
      by (intro that) (auto simp: commit_shaped_unfold)
  qed
qed

lemma transact_value_reads:
  assumes "wf_log l" "transact_value eid ae v l = Inr l'"
  shows "atom_read eid l' = v" "wf_log l'"
proof -
  have a: "lstrip_colon ATOM_ATTR = ATOM_ATTR" by (simp add: ATOM_ATTR_def lstrip_colon_def)
  have t: "transact (ae_env ae) l [assert_fact eid ATOM_ATTR v (ae_vf ae)] [] False = Inr l'"
    using assms(2) by (simp add: transact_value_def value_fact_assert)
  from transact_assert_last[OF assms(1) a t] obtain m where
    m: "l' = m @ [with_tx (next_tx l) (new_assert (ae_env ae) [] eid ATOM_ATTR v (ae_vf ae))]" .
  show "atom_read eid l' = v"
    unfolding m atom_read_def by (subst find_prior_last) (auto simp: a is_open_def)
  show "wf_log l'" using transact_laws[OF assms(1) t] by simp
qed

interpretation atom: cell "atom_read eid" "transact_value eid" wf_log
  by unfold_locales (fact transact_value_reads)+

section \<open>Properties\<close>

lemma atom_cas_exact:
  assumes "wf_log l" "atom_cas False eid ae old new l = Inr (b, l')"
  shows "b = py_eq (atom_read eid l) old \<and> (if b then atom_read eid l' = new else l' = l)"
  using assms atom.put_get[OF assms(1)]
  by (auto simp: atom_cas_def check_not_in_dosync_def ebind_Inr_iff split: if_splits)

text \<open>A swap with a total function, outside any transaction.\<close>

definition swap_step :: "string \<Rightarrow> atom_env \<times> (val \<Rightarrow> val) \<Rightarrow> log \<Rightarrow> err + log" where
  "swap_step eid op l =
     ebind (atom_swap False eid (fst op) (\<lambda>v. Inr (snd op v)) 256 l) (\<lambda>r. Inr (snd r))"

lemma swap_step_put: "swap_step eid = (\<lambda>(c, f) l. transact_value eid c (f (atom_read eid l)) l)"
  by (auto simp: fun_eq_iff swap_step_def atom_swap_def check_not_in_dosync_def ebind_def
      split: sum.split)

text \<open>Swaps serialise: any sequence of swaps of one atom, by whichever callers, leaves in
  it the composition of their functions, in order, applied to the value before: no update is
  lost.\<close>

lemma atom_swaps_serialise:
  assumes "wf_log l" "efold (swap_step eid) ops l = Inr l'"
  shows "atom_deref False eid l' = Inr (fold snd ops (atom_read eid l))"
  using atom.modifies_serialise[OF assms(1) assms(2)[unfolded swap_step_put]]
  by (simp add: atom_deref_def check_not_in_dosync_def)

definition plus_val :: "int \<Rightarrow> val \<Rightarrow> val" where
  "plus_val n v = (case v of VInt i \<Rightarrow> VInt (i + n) | _ \<Rightarrow> VInt n)"

definition ae_at :: "int \<Rightarrow> atom_env" where
  "ae_at t = \<lparr>ae_vf = t, ae_env = env_at t\<rparr>"

text \<open>An atom can lose its value to a write elsewhere: two cells written by one
  transaction share its id, and resetting the first stamps the second as superseded. The
  entity view still shows the second value, but the atom reads \<open>None\<close>, and allocating it
  anew is not refused.\<close>

lemma atom_lost_to_sibling:
  "let l1 = projr (transact (env_at 5) [] [value_fact ''c1'' ''value'' (VInt 1) 5,
        value_fact ''c2'' ''value'' (VInt 2) 5] [] False);
       l2 = snd (projr (atom_reset False ''c1'' (ae_at 6) (VInt 3) l1))
   in atom_read ''c2'' l1 = VInt 2 \<and> atom_read ''c1'' l2 = VInt 3 \<and>
      entity l2 ''c2'' ''value'' = Some (VInt 2) \<and> atom_read ''c2'' l2 = VNone \<and>
      map_sum id (atom_read ''c2'') (db_atom ''c2'' (ae_at 7) (VInt 0) l2) = Inr (VInt 0)"
  unfolding Let_def by (intro conjI; code_simp)

end
