(* ===== verification/Runtime.thy ===== *)
theory Runtime
  imports Values
begin

text \<open>
  \<open>persistence.effect.runtime\<close>: handler stacks and their dispatch. A clause is a
  computation over the world that may raise; it gets the operations of the active runtime
  (for the effects it performs itself), the arguments and the continuation. Python's
  recursion limit is the fuel of the dispatch: without fuel a \<open>perform\<close> raises
  \<open>RecursionError\<close>. Masks are lists of names, pushed for the extent of a call.
\<close>

section \<open>Computations over a world\<close>

type_synonym ('w, 'a) io = "'w \<Rightarrow> (err + 'a) \<times> 'w"

definition io_return :: "'a \<Rightarrow> ('w, 'a) io" where
  "io_return x w = (Inr x, w)"

definition io_raise :: "err \<Rightarrow> ('w, 'a) io" where
  "io_raise e w = (Inl e, w)"

definition io_bind :: "('w, 'a) io \<Rightarrow> ('a \<Rightarrow> ('w, 'b) io) \<Rightarrow> ('w, 'b) io" where
  "io_bind m f w = (case m w of (Inl e, w') \<Rightarrow> (Inl e, w') | (Inr x, w') \<Rightarrow> f x w')"

text \<open>\<open>try\<close>: go on with the outcome, value or exception.\<close>

definition io_try :: "('w, 'a) io \<Rightarrow> (err + 'a \<Rightarrow> ('w, 'b) io) \<Rightarrow> ('w, 'b) io" where
  "io_try m f w = (case m w of (r, w') \<Rightarrow> f r w')"

definition io_lift :: "err + 'a \<Rightarrow> ('w, 'a) io" where
  "io_lift r w = (r, w)"

lemma io_simps [simp]:
  "io_return x w = (Inr x, w)" "io_raise e w = (Inl e, w)" "io_lift r w = (r, w)"
  by (simp_all add: io_return_def io_raise_def io_lift_def)

lemma io_bind_Inr: "m w = (Inr x, w') \<Longrightarrow> io_bind m f w = f x w'"
  by (simp add: io_bind_def)

lemma io_bind_Inl: "m w = (Inl e, w') \<Longrightarrow> io_bind m f w = (Inl e, w')"
  by (simp add: io_bind_def)

text \<open>An invariant of the world every step keeps, whatever it returns or raises.\<close>

definition io_keeps :: "('w \<Rightarrow> bool) \<Rightarrow> ('w, 'a) io \<Rightarrow> bool" where
  "io_keeps I m \<longleftrightarrow> (\<forall>w. I w \<longrightarrow> I (snd (m w)))"

lemma io_keepsD: "io_keeps I m \<Longrightarrow> I w \<Longrightarrow> m w = (r, w') \<Longrightarrow> I w'"
  unfolding io_keeps_def by (metis snd_conv)

lemma io_keeps_simps [simp]:
  "io_keeps I (io_return x)" "io_keeps I (io_raise e)" "io_keeps I (io_lift r)" "io_keeps I (Pair r)"
  by (simp_all add: io_keeps_def)

lemma io_keeps_bind: "io_keeps I m \<Longrightarrow> (\<And>x. io_keeps I (f x)) \<Longrightarrow> io_keeps I (io_bind m f)"
  unfolding io_keeps_def io_bind_def by (auto split: prod.splits sum.splits; metis snd_conv)

lemma io_keeps_try: "io_keeps I m \<Longrightarrow> (\<And>r. io_keeps I (f r)) \<Longrightarrow> io_keeps I (io_try m f)"
  unfolding io_keeps_def io_try_def by (metis (no_types, lifting) case_prod_beta)

section \<open>Handlers\<close>

record 'w rt_ops =
  ro_perform :: "string list \<Rightarrow> string \<Rightarrow> val dict \<Rightarrow> ('w, val) io"
  ro_named :: "string list \<Rightarrow> string \<Rightarrow> string \<Rightarrow> val dict \<Rightarrow> ('w, val) io"

type_synonym 'w cont = "val dict \<Rightarrow> ('w, val) io"

type_synonym 'w clause = "'w rt_ops \<Rightarrow> val dict \<Rightarrow> 'w cont \<Rightarrow> ('w, val) io"

record 'w handler =
  h_name :: string
  h_wraps :: "string list"
  h_clauses :: "'w clause dict"

definition mk_handler :: "string \<Rightarrow> string list \<Rightarrow> 'w clause dict \<Rightarrow> err + 'w handler" where
  "mk_handler name wraps clauses =
     (if list_all (\<lambda>(op, c). op \<in> set wraps) clauses
      then Inr \<lparr>h_name = name, h_wraps = wraps, h_clauses = clauses\<rparr> else Inl ValueError)"

section \<open>Coverage\<close>

definition uncovered_ops :: "'w handler list \<Rightarrow> string list \<Rightarrow> string list" where
  "uncovered_ops hs catalog =
     filter (\<lambda>op. \<not> list_ex (\<lambda>h. op \<in> set (map fst (h_clauses h))) hs) catalog"

definition is_well_formed :: "'w handler list \<Rightarrow> string list \<Rightarrow> bool" where
  "is_well_formed hs catalog \<longleftrightarrow> uncovered_ops hs catalog = []"

section \<open>Dispatch\<close>

text \<open>The clauses an operation meets, outermost first (the stack is given innermost first);
  the continuation of each is the rest of the list, and falling off its end raises.\<close>

definition candidates :: "string list \<Rightarrow> 'w handler list \<Rightarrow> string \<Rightarrow> 'w clause list" where
  "candidates masked hs op =
     List.map_filter (\<lambda>h. if h_name h \<in> set masked then None else dget (h_clauses h) op) (rev hs)"

fun run_candidates :: "'w rt_ops \<Rightarrow> 'w clause list \<Rightarrow> 'w cont" where
  "run_candidates ops [] args = io_raise Unhandled"
| "run_candidates ops (c # cs) args = c ops args (run_candidates ops cs)"

text \<open>A named call starts at the first handler of that name, masked or not, and goes on
  below it.\<close>

definition named_candidates :: "string list \<Rightarrow> 'w handler list \<Rightarrow> string \<Rightarrow> string \<Rightarrow> 'w clause list option" where
  "named_candidates masked hs name op =
     (case dropWhile (\<lambda>h. h_name h \<noteq> name) hs of
        [] \<Rightarrow> None
      | target # _ \<Rightarrow> (case dget (h_clauses target) op of
          None \<Rightarrow> None
        | Some c \<Rightarrow> Some (c # candidates masked (takeWhile (\<lambda>h. h_name h \<noteq> name) hs) op)))"

text \<open>The operations of a runtime under given masks, with fuel.\<close>

primrec runtime_ops :: "nat \<Rightarrow> 'w handler list \<Rightarrow> string list \<Rightarrow> 'w rt_ops" where
  "runtime_ops 0 hs masks =
     \<lparr>ro_perform = (\<lambda>_ _ _. io_raise RecursionError), ro_named = (\<lambda>_ _ _ _. io_raise RecursionError)\<rparr>"
| "runtime_ops (Suc n) hs masks =
     \<lparr>ro_perform = (\<lambda>ms op args.
        run_candidates (runtime_ops n hs (ms @ masks)) (candidates (ms @ masks) hs op) args),
      ro_named = (\<lambda>ms name op args.
        case named_candidates (ms @ masks) hs name op of
          None \<Rightarrow> io_raise Unhandled
        | Some cs \<Rightarrow> run_candidates (runtime_ops n hs (ms @ masks)) cs args)\<rparr>"

definition TXN_COMMIT_KEY :: string where
  "TXN_COMMIT_KEY = ''_txn_commit''"

text \<open>\<open>Runtime.perform\<close>, with the commit id lifted onto the arguments.\<close>

definition rt_perform :: "nat \<Rightarrow> 'w handler list \<Rightarrow> string list \<Rightarrow> string \<Rightarrow> val dict \<Rightarrow> string option \<Rightarrow>
    ('w, val) io" where
  "rt_perform n hs masks op args txn_commit =
     ro_perform (runtime_ops n hs masks) [] op
       (case txn_commit of None \<Rightarrow> args | Some c \<Rightarrow> dset TXN_COMMIT_KEY (VStr c) args)"

definition named_perform :: "nat \<Rightarrow> 'w handler list \<Rightarrow> string list \<Rightarrow> string \<Rightarrow> string \<Rightarrow> val dict \<Rightarrow>
    ('w, val) io" where
  "named_perform n hs masks name op args = ro_named (runtime_ops n hs masks) [] name op args"

text \<open>The module-level \<open>perform\<close> and \<open>named\<close> on the active runtime, if there is one.\<close>

definition perform :: "bool \<Rightarrow> nat \<Rightarrow> 'w handler list option \<Rightarrow> string list \<Rightarrow> string \<Rightarrow> val dict \<Rightarrow>
    ('w, val) io" where
  "perform in_dosync n active masks op args =
     (if in_dosync then io_raise EffectInIoBlock
      else case active of None \<Rightarrow> io_raise Unhandled | Some hs \<Rightarrow> rt_perform n hs masks op args None)"

definition named_effect :: "nat \<Rightarrow> 'w handler list option \<Rightarrow> string list \<Rightarrow> string \<Rightarrow> string \<Rightarrow> val dict \<Rightarrow>
    ('w, val) io" where
  "named_effect n active masks name op args =
     (case active of None \<Rightarrow> io_raise Unhandled | Some hs \<Rightarrow> named_perform n hs masks name op args)"

section \<open>Facts about dispatch\<close>

lemma candidates_snoc [simp]:
  "candidates masked (hs @ [h]) op =
     (if h_name h \<in> set masked then candidates masked hs op
      else case dget (h_clauses h) op of
        None \<Rightarrow> candidates masked hs op | Some c \<Rightarrow> c # candidates masked hs op)"
  by (simp add: candidates_def List.map_filter_simps split: option.split)

lemma candidates_Nil [simp]: "candidates masked [] op = []"
  by (simp add: candidates_def List.map_filter_simps)

lemma candidates_empty_iff:
  "candidates masked hs op = [] \<longleftrightarrow>
     (\<forall>h \<in> set hs. h_name h \<in> set masked \<or> op \<notin> set (map fst (h_clauses h)))"
proof (induction hs rule: rev_induct)
  case (snoc h hs)
  then show ?case by (auto simp: map_of_eq_None_iff split: option.splits dest: map_of_SomeD; force dest: map_of_SomeD)
qed simp

lemma is_well_formed_iff:
  "is_well_formed hs catalog \<longleftrightarrow> (\<forall>op \<in> set catalog. candidates [] hs op \<noteq> [])"
  unfolding candidates_empty_iff
  by (auto simp: is_well_formed_def uncovered_ops_def filter_empty_conv list_ex_iff)

text \<open>Masked handlers might as well not be in the stack.\<close>

lemma candidates_unmasked:
  "candidates (ms @ masked) hs op = candidates ms (filter (\<lambda>h. h_name h \<notin> set masked) hs) op"
  by (induction hs rule: rev_induct) (auto split: option.split)

lemma rt_perform_simps:
  "rt_perform (Suc n) hs masks op args None =
     run_candidates (runtime_ops n hs masks) (candidates masks hs op) args"
  "rt_perform (Suc n) hs masks op args (Some c) =
     run_candidates (runtime_ops n hs masks) (candidates masks hs op)
       (dset TXN_COMMIT_KEY (VStr c) args)"
  by (simp_all add: rt_perform_def)

text \<open>An invariant of the world all clauses keep is kept by every dispatch.\<close>

definition clause_keeps :: "('w \<Rightarrow> bool) \<Rightarrow> 'w clause \<Rightarrow> bool" where
  "clause_keeps I c \<longleftrightarrow> (\<forall>ops args k.
     (\<forall>ms op a. io_keeps I (ro_perform ops ms op a)) \<longrightarrow>
     (\<forall>ms nm op a. io_keeps I (ro_named ops ms nm op a)) \<longrightarrow>
     (\<forall>a. io_keeps I (k a)) \<longrightarrow> io_keeps I (c ops args k))"

definition stack_keeps :: "('w \<Rightarrow> bool) \<Rightarrow> 'w handler list \<Rightarrow> bool" where
  "stack_keeps I hs \<longleftrightarrow> (\<forall>h \<in> set hs. \<forall>(op, c) \<in> set (h_clauses h). clause_keeps I c)"

lemma run_candidates_keeps:
  assumes "\<forall>c \<in> set cs. clause_keeps I c"
    and "\<forall>ms op a. io_keeps I (ro_perform ops ms op a)"
    and "\<forall>ms nm op a. io_keeps I (ro_named ops ms nm op a)"
  shows "io_keeps I (run_candidates ops cs args)"
  using assms(1)
proof (induction cs arbitrary: args)
  case (Cons c cs)
  then have "clause_keeps I c" "\<forall>a. io_keeps I (run_candidates ops cs a)" by auto
  with assms(2,3) show ?case by (simp add: clause_keeps_def)
qed simp

lemma candidates_keep:
  assumes "stack_keeps I hs" "c \<in> set (candidates masked hs op)"
  shows "clause_keeps I c"
proof -
  from assms(2) obtain h where "h \<in> set hs" "dget (h_clauses h) op = Some c"
    by (auto simp: candidates_def List.map_filter_def split: if_splits)
  then have "(op, c) \<in> set (h_clauses h)" by (simp add: map_of_SomeD)
  with assms(1) \<open>h \<in> set hs\<close> show ?thesis by (auto simp: stack_keeps_def)
qed

lemma named_candidates_keep:
  assumes "stack_keeps I hs" "named_candidates masked hs name op = Some cs" "c \<in> set cs"
  shows "clause_keeps I c"
proof -
  from assms(2) obtain t ts d where t: "dropWhile (\<lambda>h. h_name h \<noteq> name) hs = t # ts"
    "dget (h_clauses t) op = Some d"
    "cs = d # candidates masked (takeWhile (\<lambda>h. h_name h \<noteq> name) hs) op"
    by (auto simp: named_candidates_def split: list.splits option.splits)
  have "t \<in> set hs" using t(1) by (metis list.set_intros(1) set_dropWhileD)
  have "stack_keeps I (takeWhile (\<lambda>h. h_name h \<noteq> name) hs)"
    using assms(1) by (auto simp: stack_keeps_def dest: set_takeWhileD)
  from candidates_keep[OF this] show ?thesis
    using assms(1,3) t \<open>t \<in> set hs\<close> map_of_SomeD[OF t(2)] by (auto simp: stack_keeps_def)
qed

lemma runtime_ops_keep:
  assumes "stack_keeps I hs"
  shows "io_keeps I (ro_perform (runtime_ops n hs masks) ms op args)"
    "io_keeps I (ro_named (runtime_ops n hs masks) ms nm op args)"
proof (induction n arbitrary: masks ms op args nm)
  case 0
  { case 1 then show ?case by simp next case 2 then show ?case by simp }
next
  case (Suc n)
  { case 1
    show ?case using Suc candidates_keep[OF assms]
      by (auto intro!: run_candidates_keeps)
  next
    case 2
    show ?case using Suc named_candidates_keep[OF assms]
      by (auto intro!: run_candidates_keeps split: option.split)
  }
qed

lemma rt_perform_keeps: "stack_keeps I hs \<Longrightarrow> io_keeps I (rt_perform n hs masks op args tc)"
  by (simp add: rt_perform_def runtime_ops_keep)

end
