(* ===== verification/Policy.thy ===== *)
theory Policy
  imports Runtime
begin

text \<open>
  \<open>persistence.effect.policy_eval\<close> and \<open>persistence.effect.handlers.policy\<close>: the rule
  language (predicates are nested lists of values), its evaluation, first firing rule
  first, and the handler that gates an operation on the verdict. The regular-expression
  search and the text of a value are parameters.
\<close>

section \<open>Membership\<close>

fun substring :: "string \<Rightarrow> string \<Rightarrow> bool" where
  "substring s [] = (s = [])"
| "substring s (c # cs) = (startswith s (c # cs) \<or> substring s cs)"

text \<open>\<open>needle in container\<close>.\<close>

definition py_in :: "val \<Rightarrow> val \<Rightarrow> err + bool" where
  "py_in needle container =
     (case container of
        VStr s \<Rightarrow> (case needle of VStr t \<Rightarrow> Inr (substring t s) | _ \<Rightarrow> Inl TypeError)
      | VList xs \<Rightarrow> Inr (list_ex (py_eq needle) xs)
      | VTuple xs \<Rightarrow> Inr (list_ex (py_eq needle) xs)
      | VDict kvs \<Rightarrow>
          if \<not> hashable needle then Inl TypeError
          else Inr (case needle of VStr k \<Rightarrow> dget kvs k \<noteq> None | _ \<Rightarrow> False)
      | _ \<Rightarrow> Inl TypeError)"

definition py_index :: "val list \<Rightarrow> nat \<Rightarrow> err + val" where
  "py_index xs i = (if i < length xs then Inr (xs ! i) else Inl IndexError)"

section \<open>Paths\<close>

text \<open>The walk of a path through nested dictionaries: a missing key reads as \<open>None\<close>, and
  so does anything below it; an unhashable key raises.\<close>

fun walk_path :: "val \<Rightarrow> val list \<Rightarrow> err + val" where
  "walk_path cur [] = Inr cur"
| "walk_path (VDict kvs) (key # keys) =
     (if \<not> hashable key then Inl TypeError
      else walk_path (case key of
          VStr k \<Rightarrow> (case dget kvs k of None \<Rightarrow> VNone | Some v \<Rightarrow> v) | _ \<Rightarrow> VNone) keys)"
| "walk_path cur (key # keys) = Inr VNone"

definition resolve_path :: "val \<Rightarrow> val dict \<Rightarrow> string \<Rightarrow> val dict \<Rightarrow> err + val" where
  "resolve_path path princ op args =
     (case path of
        VList [] \<Rightarrow> Inr VNone
      | VList (root # keys) \<Rightarrow>
          if root = VStr '':args'' then walk_path (VDict args) keys
          else if root = VStr '':principal'' then walk_path (VDict princ) keys
          else if root = VStr '':op'' then Inr (VStr op)
          else Inr path
      | _ \<Rightarrow> Inr path)"

section \<open>Predicates\<close>

record policy_env =
  pe_principal :: "val dict"
  pe_op :: string
  pe_args :: "val dict"
  pe_mode :: string
  pe_search :: "string \<Rightarrow> string \<Rightarrow> err + bool"

definition match_contains :: "policy_env \<Rightarrow> val \<Rightarrow> val \<Rightarrow> err + bool" where
  "match_contains pe path needle =
     ebind (resolve_path path (pe_principal pe) (pe_op pe) (pe_args pe)) (\<lambda>value.
       if value = VNone then Inr False
       else case py_in needle value of Inl e \<Rightarrow> Inr False | Inr b \<Rightarrow> Inr b)"

definition match_regex :: "policy_env \<Rightarrow> val \<Rightarrow> val \<Rightarrow> err + bool" where
  "match_regex pe path pattern =
     ebind (resolve_path path (pe_principal pe) (pe_op pe) (pe_args pe)) (\<lambda>value.
       case value of
         VStr s \<Rightarrow> (case pattern of VStr p \<Rightarrow> pe_search pe p s | _ \<Rightarrow> Inl TypeError)
       | _ \<Rightarrow> Inr False)"

text \<open>\<open>len(value) > 0\<close>, or its truth value when it has no length.\<close>

definition match_non_empty :: "policy_env \<Rightarrow> val \<Rightarrow> err + bool" where
  "match_non_empty pe path =
     ebind (resolve_path path (pe_principal pe) (pe_op pe) (pe_args pe)) (\<lambda>value. Inr (truthy value))"

definition match_equals :: "policy_env \<Rightarrow> val \<Rightarrow> val \<Rightarrow> err + bool" where
  "match_equals pe path rhs =
     ebind (resolve_path path (pe_principal pe) (pe_op pe) (pe_args pe)) (\<lambda>lhs. Inr (py_eq lhs rhs))"

definition arg1 :: "val list \<Rightarrow> (val \<Rightarrow> err + bool) \<Rightarrow> err + bool" where
  "arg1 rest f = ebind (py_index rest 0) f"

definition arg2 :: "val list \<Rightarrow> (val \<Rightarrow> val \<Rightarrow> err + bool) \<Rightarrow> err + bool" where
  "arg2 rest f = ebind (py_index rest 0) (\<lambda>x. ebind (py_index rest 1) (f x))"

fun match_when :: "policy_env \<Rightarrow> val \<Rightarrow> err + bool"
  and match_all :: "policy_env \<Rightarrow> val list \<Rightarrow> err + bool"
  and match_any :: "policy_env \<Rightarrow> val list \<Rightarrow> err + bool" where
  "match_when pe (VList (VStr h # rest)) =
     (if h = '':op='' then arg1 rest (\<lambda>x. Inr (py_eq (VStr (pe_op pe)) x))
      else if h = '':op-in'' then arg1 rest (py_in (VStr (pe_op pe)))
      else if h = '':mode='' then arg1 rest (\<lambda>x. Inr (py_eq (VStr (pe_mode pe)) x))
      else if h = '':and'' then match_all pe rest
      else if h = '':or'' then match_any pe rest
      else if h = '':not'' then
        (case rest of [] \<Rightarrow> Inl IndexError | p # _ \<Rightarrow> ebind (match_when pe p) (\<lambda>b. Inr (\<not> b)))
      else if h = '':contains?'' then arg2 rest (match_contains pe)
      else if h = '':matches?'' then arg2 rest (match_regex pe)
      else if h = '':non-empty?'' then arg1 rest (match_non_empty pe)
      else if h = '':='' then arg2 rest (match_equals pe)
      else Inl PolicyError)"
| "match_when pe _ = Inl PolicyError"
| "match_all pe [] = Inr True"
| "match_all pe (p # ps) = ebind (match_when pe p) (\<lambda>b. if b then match_all pe ps else Inr False)"
| "match_any pe [] = Inr False"
| "match_any pe (p # ps) = ebind (match_when pe p) (\<lambda>b. if b then Inr True else match_any pe ps)"

section \<open>Evaluation\<close>

record verdict_info =
  vi_verdict :: val
  vi_reasons :: "string list"
  vi_policy_id :: val

record policy =
  po_rules :: "val dict list"
  po_id :: "val option"

definition dget_or :: "val dict \<Rightarrow> string \<Rightarrow> val \<Rightarrow> val" where
  "dget_or d k x = (case dget d k of None \<Rightarrow> x | Some v \<Rightarrow> v)"

text \<open>Whether a rule fires: its \<open>when\<close> matches and its \<open>require\<close>, if any, does not.\<close>

definition rule_fires :: "policy_env \<Rightarrow> val dict \<Rightarrow> err + bool" where
  "rule_fires pe rule =
     (if dget_or rule ''when'' VNone = VNone then Inl PolicyError
      else ebind (match_when pe (dget_or rule ''when'' VNone)) (\<lambda>m.
        if \<not> m then Inr False
        else if dget_or rule ''require'' VNone = VNone then Inr True
        else ebind (match_when pe (dget_or rule ''require'' VNone)) (\<lambda>ok. Inr (\<not> ok))))"

fun eval_rules :: "(val \<Rightarrow> string) \<Rightarrow> policy_env \<Rightarrow> val \<Rightarrow> val dict list \<Rightarrow> err + verdict_info" where
  "eval_rules str pe pid [] =
     Inr \<lparr>vi_verdict = VStr ''allow'', vi_reasons = [], vi_policy_id = pid\<rparr>"
| "eval_rules str pe pid (rule # rules) =
     ebind (rule_fires pe rule) (\<lambda>fires.
       if fires then
         (let v = dget_or rule ''on-fail'' (VStr ''deny'') in
          Inr \<lparr>vi_verdict = v,
            vi_reasons = [str (dget_or rule ''id'' (VStr ''anon'')) @ '': on-fail='' @ str v],
            vi_policy_id = pid\<rparr>)
       else eval_rules str pe pid rules)"

definition evaluate :: "(val \<Rightarrow> string) \<Rightarrow> policy \<Rightarrow> policy_env \<Rightarrow> err + verdict_info" where
  "evaluate str po pe =
     eval_rules str pe (case po_id po of None \<Rightarrow> VStr ''unknown'' | Some v \<Rightarrow> v) (po_rules po)"

section \<open>The handler\<close>

text \<open>The approval callback is a test of what it is shown: the name of the operation (the code
  adds it to the verdict under \<open>op\<close>) and the verdict.\<close>

record policy_cfg =
  pc_policy :: policy
  pc_mode :: string
  pc_principal :: "val dict"
  pc_approval :: "(string \<Rightarrow> verdict_info \<Rightarrow> bool) option"
  pc_search :: "string \<Rightarrow> string \<Rightarrow> err + bool"
  pc_str :: "val \<Rightarrow> string"

definition policy_verdict :: "policy_cfg \<Rightarrow> string \<Rightarrow> val dict \<Rightarrow> err + verdict_info" where
  "policy_verdict pc op args = evaluate (pc_str pc) (pc_policy pc)
     \<lparr>pe_principal = pc_principal pc, pe_op = op, pe_args = args, pe_mode = pc_mode pc,
      pe_search = pc_search pc\<rparr>"

definition policy_clause :: "policy_cfg \<Rightarrow> string \<Rightarrow> 'w clause" where
  "policy_clause pc op ops args k =
     (case policy_verdict pc op args of
        Inl e \<Rightarrow> io_raise e
      | Inr vi \<Rightarrow>
          (let v = vi_verdict vi in
           if py_eq v (VStr ''allow'') then k args
           else if py_eq v (VStr ''deny'') then io_raise PolicyDenied
           else if py_eq v (VStr ''deny-silently'') then
             io_return (VDict [(''denied'', VBool True), (''silently'', VBool True),
               (''reasons'', VList (map VStr (vi_reasons vi))), (''policy_id'', vi_policy_id vi)])
           else if py_eq v (VStr ''require-approval'') then
             (case pc_approval pc of
                Some af \<Rightarrow> if af op vi then k args else io_raise ApprovalRequired
              | None \<Rightarrow> io_raise ApprovalRequired)
           else io_raise RuntimeError))"

definition make_policy_handler :: "policy_cfg \<Rightarrow> string list \<Rightarrow> 'w handler" where
  "make_policy_handler pc wraps =
     \<lparr>h_name = ''policy'', h_wraps = wraps, h_clauses = map (\<lambda>op. (op, policy_clause pc op)) wraps\<rparr>"

section \<open>Properties\<close>

lemma eval_rules_first:
  "eval_rules str pe pid rules = Inr vi \<Longrightarrow>
     (\<exists>i < length rules. rule_fires pe (rules ! i) = Inr True \<and>
        (\<forall>j < i. rule_fires pe (rules ! j) = Inr False) \<and>
        vi_verdict vi = dget_or (rules ! i) ''on-fail'' (VStr ''deny'')) \<or>
     ((\<forall>rule \<in> set rules. rule_fires pe rule = Inr False) \<and> vi_verdict vi = VStr ''allow'')"
proof (induction rules)
  case (Cons rule rules)
  then obtain b where b: "rule_fires pe rule = Inr b" by (auto simp: ebind_Inr_iff)
  show ?case
  proof (cases b)
    case True
    with b Cons.prems show ?thesis by (intro disjI1 exI[of _ 0]) (auto simp: Let_def)
  next
    case False
    with b Cons have "(\<exists>i < length rules. rule_fires pe (rules ! i) = Inr True \<and>
        (\<forall>j < i. rule_fires pe (rules ! j) = Inr False) \<and>
        vi_verdict vi = dget_or (rules ! i) ''on-fail'' (VStr ''deny'')) \<or>
      ((\<forall>rule \<in> set rules. rule_fires pe rule = Inr False) \<and> vi_verdict vi = VStr ''allow'')"
      by simp
    then show ?thesis
    proof
      assume "\<exists>i < length rules. rule_fires pe (rules ! i) = Inr True \<and>
        (\<forall>j < i. rule_fires pe (rules ! j) = Inr False) \<and>
        vi_verdict vi = dget_or (rules ! i) ''on-fail'' (VStr ''deny'')"
      then obtain i where "i < length rules" "rule_fires pe (rules ! i) = Inr True"
        "\<forall>j < i. rule_fires pe (rules ! j) = Inr False"
        "vi_verdict vi = dget_or (rules ! i) ''on-fail'' (VStr ''deny'')" by blast
      with b False show ?thesis
        by (intro disjI1 exI[of _ "Suc i"]) (auto simp: less_Suc_eq_0_disj)
    qed (use b False in auto)
  qed
qed auto

text \<open>The verdict is that of the first rule that fires (its \<open>on-fail\<close>, or \<open>deny\<close>), every
  earlier rule having been evaluated and not fired; it is \<open>allow\<close> only when no rule fires or
  the firing rule says so.\<close>

lemma evaluate_first_firing:
  assumes "evaluate str po pe = Inr vi"
  shows "(\<exists>i < length (po_rules po). rule_fires pe (po_rules po ! i) = Inr True \<and>
        (\<forall>j < i. rule_fires pe (po_rules po ! j) = Inr False) \<and>
        vi_verdict vi = dget_or (po_rules po ! i) ''on-fail'' (VStr ''deny'')) \<or>
     ((\<forall>rule \<in> set (po_rules po). rule_fires pe rule = Inr False) \<and> vi_verdict vi = VStr ''allow'')"
  using assms by (intro eval_rules_first) (simp add: evaluate_def)

definition model_ban :: policy where
  "model_ban = \<lparr>po_rules =
     [[(''id'', VStr ''r1''), (''when'', VList [VStr '':op='', VStr '':tool/call''])],
      [(''id'', VStr ''r2''),
       (''when'', VList [VStr '':and'', VList [VStr '':op='', VStr '':llm/call''],
          VList [VStr '':='', VList [VStr '':args'', VStr ''model''], VStr ''gpt-2'']]),
       (''on-fail'', VStr ''deny-silently'')]], po_id = Some (VStr ''ban'')\<rparr>"

definition ban_env :: policy_env where
  "ban_env = \<lparr>pe_principal = [], pe_op = '':llm/call'', pe_args = [(''model'', VStr ''gpt-2'')],
     pe_mode = ''live'', pe_search = (\<lambda>_ _. Inr False)\<rparr>"

text \<open>C13. The policy gate fails closed: the gated operation runs only when the first rule that
  fires says \<open>allow\<close> (or no rule fires), or asks for an approval that is given; in every
  other case, malformed rules included, the continuation is not entered and the world is as
  it was.\<close>

theorem policy_gate:
  "(policy_clause pc op ops args k = k args \<and>
     (\<exists>vi. policy_verdict pc op args = Inr vi \<and>
       (py_eq (vi_verdict vi) (VStr ''allow'') \<or>
        py_eq (vi_verdict vi) (VStr ''require-approval'') \<and>
          (\<exists>af. pc_approval pc = Some af \<and> af op vi)))) \<or>
   (\<exists>e. policy_clause pc op ops args k = io_raise e) \<or>
   (\<exists>x vi. policy_clause pc op ops args k = io_return x \<and> policy_verdict pc op args = Inr vi \<and>
      py_eq (vi_verdict vi) (VStr ''deny-silently''))"
proof (cases "policy_verdict pc op args")
  case (Inl e)
  then have "policy_clause pc op ops args k = io_raise e" by (simp add: policy_clause_def)
  then show ?thesis by blast
next
  case (Inr vi)
  note d = policy_clause_def[of pc op ops args k, unfolded Inr sum.case Let_def]
  let ?v = "vi_verdict vi"
  let ?is = "\<lambda>s. py_eq ?v (VStr s)"
  let ?ok = "?is ''require-approval'' \<and> (\<exists>af. pc_approval pc = Some af \<and> af op vi)
    \<and> \<not> ?is ''deny'' \<and> \<not> ?is ''deny-silently''"
  show ?thesis
  proof (cases "?is ''allow'' \<or> ?ok")
    case True
    then have "policy_clause pc op ops args k = k args" unfolding d by auto
    with True Inr show ?thesis by blast
  next
    case False
    show ?thesis
    proof (cases "?is ''deny-silently'' \<and> \<not> ?is ''deny''")
      case True
      with False have "\<exists>x. policy_clause pc op ops args k = io_return x" unfolding d by auto
      with True Inr show ?thesis by blast
    next
      case f: False
      with False have "\<exists>e. policy_clause pc op ops args k = io_raise e"
        unfolding d by (auto split: option.split)
      then show ?thesis by blast
    qed
  qed
qed

end
