(* ===== verification/AuditLog.thy ===== *)
theory AuditLog
  imports Complex_Main Runtime
begin

text \<open>
  \<open>persistence.effect.handlers.audit\<close>, \<open>persistence.effect.verdicts\<close> and
  \<open>persistence.effect._audit_stack\<close>: the Merkle-chained audit log, the handler that
  appends to it, its datom form and the canonical audit stack. Digests (SHA-256 of the
  canonical JSON) are parameters: \<open>cd_content\<close> of an entry's content, \<open>cd_value\<close> of
  arguments and results. Clock readings are integers of seconds.
\<close>

section \<open>Verdicts\<close>

definition PYTHON_VERDICTS :: "string list" where
  "PYTHON_VERDICTS = [''allow'', ''deny'', ''deny-silently'', ''require-approval'', ''ok'', ''error'']"

definition EDN_VERDICTS :: "string list" where
  "EDN_VERDICTS = map (\<lambda>v. CHR '':'' # v) PYTHON_VERDICTS"

definition as_edn :: "string \<Rightarrow> err + string" where
  "as_edn v =
     (if startswith '':'' v then if v \<in> set EDN_VERDICTS then Inr v else Inl ValueError
      else if v \<in> set PYTHON_VERDICTS then Inr (CHR '':'' # v) else Inl ValueError)"

definition as_python :: "string \<Rightarrow> err + string" where
  "as_python v =
     (if startswith '':'' v then if tl v \<in> set PYTHON_VERDICTS then Inr (tl v) else Inl ValueError
      else if v \<in> set PYTHON_VERDICTS then Inr v else Inl ValueError)"

lemma python_verdicts_bare: "v \<in> set PYTHON_VERDICTS \<Longrightarrow> \<not> startswith '':'' v"
  by (auto simp: PYTHON_VERDICTS_def startswith_def)

lemma as_python_as_edn:
  "v \<in> set PYTHON_VERDICTS \<Longrightarrow> ebind (as_edn v) as_python = Inr v"
  using startswith_append[of "'':''" v] by (simp add: as_edn_def as_python_def python_verdicts_bare)

section \<open>Audit entries\<close>

record audit_entry =
  e_id :: string
  e_prev_hash :: "string option"
  e_op :: string
  e_args_hash :: string
  e_verdict :: string
  e_latency_ms :: int
  e_recorded_at :: int
  e_result_hash :: "string option"
  e_error :: "string option"
  e_policy_id :: "string option"
  e_handler_chain :: "string list"
  e_principal :: "val dict"
  e_run_id :: "string option"
  e_parent :: "string option"
  e_txn_commit :: val

definition check_op :: "string \<Rightarrow> err + unit" where
  "check_op op =
     (if op = [] \<or> \<not> startswith '':'' op \<or> 1 < count_list op (CHR ''/'') \<or> CHR ''.'' \<in> set op
      then Inl ValueError else Inr ())"

text \<open>A dictionary comprehension with stripped keys: a later duplicate keeps the place of
  the first.\<close>

definition canon_principal :: "val dict \<Rightarrow> val dict" where
  "canon_principal p = fold (\<lambda>(k, v). dset (lstrip_colon k) v) p []"

text \<open>The canonical form of the keyword-bearing fields; \<open>_canonicalise_content\<close> does the
  same on the dictionary of fields that \<open>__post_init__\<close> does on the entry.\<close>

definition canonicalise_content :: "audit_entry \<Rightarrow> audit_entry" where
  "canonicalise_content e = e\<lparr>
     e_policy_id := map_option (\<lambda>p. CHR '':'' # lstrip_colon p) (e_policy_id e),
     e_handler_chain := map lstrip_colon (e_handler_chain e),
     e_principal := canon_principal (e_principal e)\<rparr>"

definition mk_entry :: "audit_entry \<Rightarrow> err + audit_entry" where
  "mk_entry e = ebind (check_op (e_op e)) (\<lambda>_. Inr (canonicalise_content e))"

section \<open>The chain\<close>

text \<open>What is hashed: the fields without the id; keys are sorted.\<close>

definition hashed_content :: "audit_entry \<Rightarrow> audit_entry" where
  "hashed_content e = e\<lparr>e_id := [], e_principal := sort_key fst (e_principal e)\<rparr>"

record digests =
  cd_content :: "audit_entry \<Rightarrow> string"
  cd_value :: "val \<Rightarrow> string"

definition content_hash :: "digests \<Rightarrow> audit_entry \<Rightarrow> string" where
  "content_hash cd e = cd_content cd (hashed_content e)"

fun verify_from :: "digests \<Rightarrow> string option \<Rightarrow> audit_entry list \<Rightarrow> bool" where
  "verify_from cd prev [] = True"
| "verify_from cd prev (e # es) =
     (if e_id e \<noteq> content_hash cd e then False
      else if e_prev_hash e \<noteq> prev then False
      else verify_from cd (Some (e_id e)) es)"

definition verify_chain :: "digests \<Rightarrow> audit_entry list \<Rightarrow> bool" where
  "verify_chain cd es = verify_from cd None es"

definition last_id :: "audit_entry list \<Rightarrow> string option" where
  "last_id es = (if es = [] then None else Some (e_id (last es)))"

definition opt_val :: "string option \<Rightarrow> val" where
  "opt_val x = (case x of None \<Rightarrow> VNone | Some s \<Rightarrow> VStr s)"

text \<open>\<open>to_dict\<close>: \<open>txn_commit\<close> is left out when unset.\<close>

definition to_dict :: "audit_entry \<Rightarrow> val dict" where
  "to_dict e =
     [(''id'', VStr (e_id e)), (''prev_hash'', opt_val (e_prev_hash e)), (''op'', VStr (e_op e)),
      (''args_hash'', VStr (e_args_hash e)), (''verdict'', VStr (e_verdict e)),
      (''latency_ms'', VInt (e_latency_ms e)), (''recorded_at'', VInt (e_recorded_at e)),
      (''result_hash'', opt_val (e_result_hash e)), (''error'', opt_val (e_error e)),
      (''policy_id'', opt_val (e_policy_id e)),
      (''handler_chain'', VTuple (map VStr (e_handler_chain e))),
      (''principal'', VDict (e_principal e)), (''run_id'', opt_val (e_run_id e)),
      (''parent'', opt_val (e_parent e))]
     @ (if e_txn_commit e = VNone then [] else [(''txn_commit'', e_txn_commit e)])"

section \<open>The handler\<close>

text \<open>The world of the effect handlers: the contexts of the stateful ones (audit log,
  cache with its statistics, token bucket, call counter of the flaky model, timestamps of the
  replay clock) and the raw side (the clock, the milliseconds slept, what reached the raw
  handlers).\<close>

record world =
  w_entries :: "audit_entry list"
  w_cache :: "(string \<times> val) list"
  w_hits :: nat
  w_misses :: nat
  w_tokens :: rat
  w_last :: "int option"
  w_flaky :: int
  w_replay :: "int list"
  w_time :: "nat \<Rightarrow> int"
  w_ticks :: nat
  w_slept :: "int list"
  w_calls :: "(string \<times> val dict) list"

record audit_cfg =
  ac_sink_name :: "string option"
  ac_run_id :: "string option"
  ac_principal :: "val dict"
  ac_policy_id :: "string option"
  ac_handler_chain :: "string list"
  ac_show :: "err \<Rightarrow> string"

definition audit_name :: string where
  "audit_name = ''audit''"

text \<open>\<open>perform(':clock/now')['ts']\<close>, with the audit handler masked.\<close>

definition clock_ts :: "'w rt_ops \<Rightarrow> ('w, val) io" where
  "clock_ts ops = io_bind (ro_perform ops [audit_name] '':clock/now'' [])
     (\<lambda>r. case r of VDict d \<Rightarrow> (case dget d ''ts'' of Some t \<Rightarrow> io_return t | None \<Rightarrow> io_raise KeyError)
          | _ \<Rightarrow> io_raise TypeError)"

fun latency :: "val \<Rightarrow> val \<Rightarrow> err + int \<times> int" where
  "latency (VInt t0) (VInt t1) = Inr (max 0 ((t1 - t0) * 1000), t1)"
| "latency _ _ = Inl TypeError"

definition entry_content ::
  "digests \<Rightarrow> audit_cfg \<Rightarrow> string \<Rightarrow> string \<Rightarrow> val \<Rightarrow> err + val \<Rightarrow> int \<Rightarrow> int \<Rightarrow> string option \<Rightarrow> audit_entry" where
  "entry_content cd cfg op args_hash txn_commit res lat t1 prev_hash =
     \<lparr>e_id = [], e_prev_hash = prev_hash, e_op = op, e_args_hash = args_hash,
      e_verdict = (case res of Inl _ \<Rightarrow> ''error'' | Inr _ \<Rightarrow> ''ok''),
      e_latency_ms = lat, e_recorded_at = t1,
      e_result_hash = (case res of Inl _ \<Rightarrow> None
        | Inr v \<Rightarrow> if v = VNone then None else Some (cd_value cd v)),
      e_error = (case res of Inl e \<Rightarrow> Some (ac_show cfg e) | Inr _ \<Rightarrow> None),
      e_policy_id = ac_policy_id cfg, e_handler_chain = ac_handler_chain cfg,
      e_principal = ac_principal cfg, e_run_id = ac_run_id cfg, e_parent = prev_hash,
      e_txn_commit = txn_commit\<rparr>"

text \<open>The entry of a content: its canonical form under the hash of that form.\<close>

definition build_entry :: "digests \<Rightarrow> audit_entry \<Rightarrow> err + audit_entry" where
  "build_entry cd content =
     (let c = canonicalise_content content in mk_entry (c\<lparr>e_id := content_hash cd c\<rparr>))"

definition record_entry :: "digests \<Rightarrow> (string option \<Rightarrow> audit_entry) \<Rightarrow> (world, audit_entry) io" where
  "record_entry cd content w =
     (case build_entry cd (content (last_id (w_entries w))) of
        Inl err \<Rightarrow> (Inl err, w)
      | Inr e \<Rightarrow> (Inr e, w\<lparr>w_entries := w_entries w @ [e]\<rparr>))"

definition drain_to_sink :: "audit_cfg \<Rightarrow> world rt_ops \<Rightarrow> audit_entry \<Rightarrow> (world, unit) io" where
  "drain_to_sink cfg ops e =
     (case ac_sink_name cfg of
        Some (c # cs) \<Rightarrow>
          io_bind (ro_named ops [audit_name] (c # cs) '':audit/emit''
            [(''kind'', VStr ''audit-entry''), (''payload'', VDict (to_dict e))]) (\<lambda>_. io_return ())
      | _ \<Rightarrow> io_return ())"

text \<open>The \<open>finally\<close> block: read the clock, append the entry, drain to the sink.\<close>

definition audit_finally ::
  "digests \<Rightarrow> audit_cfg \<Rightarrow> string \<Rightarrow> world rt_ops \<Rightarrow> string \<Rightarrow> val \<Rightarrow> val \<Rightarrow> err + val \<Rightarrow> (world, unit) io" where
  "audit_finally cd cfg op ops args_hash txn_commit t0 res =
     io_bind (clock_ts ops) (\<lambda>t1.
     io_bind (io_lift (latency t0 t1)) (\<lambda>(lat, rec).
     io_bind (record_entry cd (entry_content cd cfg op args_hash txn_commit res lat rec))
       (drain_to_sink cfg ops)))"

text \<open>The clause takes the commit id off the arguments before hashing them. An exception of
  the \<open>finally\<close> block replaces the outcome of the call.\<close>

definition audit_clause :: "digests \<Rightarrow> audit_cfg \<Rightarrow> string \<Rightarrow> world clause" where
  "audit_clause cd cfg op ops args k =
     (let txn_commit = (case dget args TXN_COMMIT_KEY of None \<Rightarrow> VNone | Some v \<Rightarrow> v);
          args' = AList.delete TXN_COMMIT_KEY args;
          args_hash = cd_value cd (VDict args')
      in io_bind (clock_ts ops) (\<lambda>t0.
         io_try (k args') (\<lambda>res.
         io_bind (audit_finally cd cfg op ops args_hash txn_commit t0 res) (\<lambda>_. io_lift res))))"

definition make_audit_handler :: "digests \<Rightarrow> audit_cfg \<Rightarrow> string list \<Rightarrow> world handler" where
  "make_audit_handler cd cfg wraps =
     \<lparr>h_name = audit_name, h_wraps = wraps, h_clauses = map (\<lambda>op. (op, audit_clause cd cfg op)) wraps\<rparr>"

section \<open>The canonical stack\<close>

definition CANONICAL_AUDIT_OPS :: "string list" where
  "CANONICAL_AUDIT_OPS = ['':plan/edit'', '':code/exec'', '':fork/probe'', '':fork/branch'',
     '':fork/score'', '':fork/chosen'', '':fold/chosen'']"

definition make_canonical_raw_terminator :: "world handler" where
  "make_canonical_raw_terminator =
     \<lparr>h_name = ''audit-canonical-raw'', h_wraps = CANONICAL_AUDIT_OPS,
      h_clauses = map (\<lambda>op. (op, \<lambda>_ _ _. io_return VNone)) CANONICAL_AUDIT_OPS\<rparr>"

definition make_system_clock_handler :: "world handler" where
  "make_system_clock_handler =
     \<lparr>h_name = ''clock'', h_wraps = ['':clock/now''],
      h_clauses = [('':clock/now'', \<lambda>_ _ _ w.
        (Inr (VDict [(''ts'', VInt (w_time w (w_ticks w)))]), w\<lparr>w_ticks := Suc (w_ticks w)\<rparr>))]\<rparr>"

definition default_cfg :: "(err \<Rightarrow> string) \<Rightarrow> audit_cfg" where
  "default_cfg sh = \<lparr>ac_sink_name = None, ac_run_id = None, ac_principal = [], ac_policy_id = None,
     ac_handler_chain = [], ac_show = sh\<rparr>"

definition canonical_audit_stack :: "digests \<Rightarrow> (err \<Rightarrow> string) \<Rightarrow> world handler list" where
  "canonical_audit_stack cd sh =
     [make_canonical_raw_terminator, make_system_clock_handler,
      make_audit_handler cd (default_cfg sh) CANONICAL_AUDIT_OPS]"

section \<open>Datom form\<close>

text \<open>The wire datom of an entry, its value map and its provenance map as records (optional
  keys as options). Whether it conforms to the registered datom spec is a parameter.\<close>

record audit_value =
  av_verdict :: string
  av_args_hash :: string
  av_result_hash :: "string option"
  av_latency_ms :: int
  av_error :: "string option"

record audit_prov =
  ap_signature :: string
  ap_prev_hash :: "string option"
  ap_parent_provenance_hash :: "string option"
  ap_handler_chain :: "string list"
  ap_policy_id :: "string option"
  ap_principal :: "val dict"
  ap_episode :: "string option"
  ap_txn_commit :: val

record audit_datom =
  ad_e :: string
  ad_a :: string
  ad_v :: audit_value
  ad_tx :: string
  ad_tx_time :: int
  ad_valid_from :: int
  ad_op :: string
  ad_provenance :: audit_prov

definition replace_char :: "char \<Rightarrow> char \<Rightarrow> string \<Rightarrow> string" where
  "replace_char a b s = map (\<lambda>c. if c = a then b else c) s"

definition AUDIT_PREFIX :: string where
  "AUDIT_PREFIX = '':audit/''"

definition principal_to_keyword_map :: "val dict \<Rightarrow> val dict" where
  "principal_to_keyword_map p = map (\<lambda>(k, v). (CHR '':'' # k, v)) p"

definition keyword_map_to_principal :: "val dict \<Rightarrow> val dict" where
  "keyword_map_to_principal p = fold (\<lambda>(k, v). dset (lstrip_colon k) v) p []"

definition audit_entry_to_datom :: "(audit_datom \<Rightarrow> bool) \<Rightarrow> audit_entry \<Rightarrow> err + audit_datom" where
  "audit_entry_to_datom conforms e =
     ebind (as_edn (e_verdict e)) (\<lambda>verdict.
       let d = \<lparr>ad_e = (case e_run_id e of Some (c # cs) \<Rightarrow> c # cs | _ \<Rightarrow> e_id e),
           ad_a = AUDIT_PREFIX @ replace_char (CHR ''/'') (CHR ''.'') (lstrip_colon (e_op e)),
           ad_v = \<lparr>av_verdict = verdict, av_args_hash = e_args_hash e,
             av_result_hash = e_result_hash e, av_latency_ms = e_latency_ms e, av_error = e_error e\<rparr>,
           ad_tx = e_id e, ad_tx_time = e_recorded_at e, ad_valid_from = e_recorded_at e,
           ad_op = '':assert'',
           ad_provenance = \<lparr>ap_signature = e_id e, ap_prev_hash = e_prev_hash e,
             ap_parent_provenance_hash = e_prev_hash e, ap_handler_chain = e_handler_chain e,
             ap_policy_id = e_policy_id e, ap_principal = principal_to_keyword_map (e_principal e),
             ap_episode = e_run_id e, ap_txn_commit = e_txn_commit e\<rparr>\<rparr>
       in if conforms d then Inr d else Inl ValueError)"

definition datom_to_audit_entry :: "audit_datom \<Rightarrow> err + audit_entry" where
  "datom_to_audit_entry d =
     (if \<not> startswith AUDIT_PREFIX (ad_a d) then Inl AssertionError
      else ebind (as_python (av_verdict (ad_v d))) (\<lambda>verdict.
        let p = ad_provenance d; v = ad_v d in
        mk_entry \<lparr>e_id = ad_tx d, e_prev_hash = ap_prev_hash p,
          e_op = CHR '':'' # replace_char (CHR ''.'') (CHR ''/'') (drop (length AUDIT_PREFIX) (ad_a d)),
          e_args_hash = av_args_hash v, e_verdict = verdict, e_latency_ms = av_latency_ms v,
          e_recorded_at = ad_tx_time d, e_result_hash = av_result_hash v, e_error = av_error v,
          e_policy_id = ap_policy_id p, e_handler_chain = ap_handler_chain p,
          e_principal = keyword_map_to_principal (ap_principal p), e_run_id = ap_episode p,
          e_parent = ap_prev_hash p, e_txn_commit = ap_txn_commit p\<rparr>))"

definition rebind_audit_datom_prev_hash ::
  "digests \<Rightarrow> (audit_datom \<Rightarrow> bool) \<Rightarrow> audit_datom \<Rightarrow> string option \<Rightarrow> err + audit_datom" where
  "rebind_audit_datom_prev_hash cd conforms d new_prev =
     (if ap_prev_hash (ad_provenance d) = new_prev then Inr d
      else ebind (datom_to_audit_entry d) (\<lambda>e.
        ebind (build_entry cd (e\<lparr>e_prev_hash := new_prev, e_parent := new_prev\<rparr>))
          (audit_entry_to_datom conforms)))"

end
