(* ===== verification/AuditProps.thy ===== *)
theory AuditProps
  imports AuditLog
begin

text \<open>
  Laws of the audit log (canonical entries, chains extended by the handler) and its
  properties: the chain always verifies, one entry per audited call, tamper evidence, and
  the datom form.
\<close>

section \<open>Canonical entries\<close>

definition bare_keys :: "val dict \<Rightarrow> bool" where
  "bare_keys p \<longleftrightarrow> distinct (map fst p) \<and> list_all (\<lambda>(k, v). lstrip_colon k = k) p"

lemma keys_dset: "fst ` set (dset k v d) = insert k (fst ` set d)"
  by (induction d) auto

lemma distinct_dset: "distinct (map fst d) \<Longrightarrow> distinct (map fst (dset k v d))"
  by (induction d) (auto simp: keys_dset)

lemma list_all_key_iff: "list_all (\<lambda>(k, v). P k) d \<longleftrightarrow> (\<forall>k \<in> fst ` set d. P k)"
  by (auto simp: list_all_iff)

lemma bare_keys_dset: "bare_keys d \<Longrightarrow> bare_keys (dset (lstrip_colon k) v d)"
  by (auto simp: bare_keys_def distinct_dset list_all_key_iff keys_dset)

lemma bare_keys_fold: "bare_keys d \<Longrightarrow> bare_keys (fold (\<lambda>(k, v). dset (lstrip_colon k) v) p d)"
  by (induction p arbitrary: d) (auto intro: bare_keys_dset)

lemma bare_keys_Nil [simp]: "bare_keys []"
  by (simp add: bare_keys_def)

lemma bare_keys_canon [simp]: "bare_keys (canon_principal p)"
  by (simp add: canon_principal_def bare_keys_fold)

lemma fold_dset_append:
  "distinct (map fst (d @ p)) \<Longrightarrow> fold (\<lambda>(k, v). dset k v) p d = d @ p"
proof (induction p arbitrary: d)
  case (Cons x p)
  obtain k v where x: "x = (k, v)" by (cases x)
  with Cons.prems have "dget d k = None" by (auto simp: map_of_eq_None_iff)
  then show ?case using Cons.IH[of "d @ [(k, v)]"] Cons.prems x by (simp add: dset_notin)
qed simp

lemma fold_bare:
  "list_all (\<lambda>(k, v). lstrip_colon k = k) p \<Longrightarrow>
     fold (\<lambda>(k, v). dset (lstrip_colon k) v) p d = fold (\<lambda>(k, v). dset k v) p d"
  by (induction p arbitrary: d) auto

lemma canon_principal_id: "bare_keys p \<Longrightarrow> canon_principal p = p"
  using fold_dset_append[of "[]" p] by (simp add: bare_keys_def canon_principal_def fold_bare)

lemma canonicalise_idem [simp]:
  "canonicalise_content (canonicalise_content e) = canonicalise_content e"
  by (cases "e_policy_id e") (simp_all add: canonicalise_content_def canon_principal_id)

lemma canonicalise_sel [simp]:
  "e_id (canonicalise_content e) = e_id e" "e_op (canonicalise_content e) = e_op e"
  "e_prev_hash (canonicalise_content e) = e_prev_hash e"
  "canonicalise_content (e\<lparr>e_id := x\<rparr>) = (canonicalise_content e)\<lparr>e_id := x\<rparr>"
  by (simp_all add: canonicalise_content_def)

lemma canonicalise_principal: "e_principal (canonicalise_content e) = canon_principal (e_principal e)"
  by (simp add: canonicalise_content_def)

lemma canonicalise_relink:
  "canonicalise_content e = e \<Longrightarrow>
     canonicalise_content (e\<lparr>e_prev_hash := h, e_parent := p\<rparr>) = e\<lparr>e_prev_hash := h, e_parent := p\<rparr>"
  by (cases e) (simp add: canonicalise_content_def)

lemma content_hash_id [simp]: "content_hash cd (e\<lparr>e_id := x\<rparr>) = content_hash cd e"
  by (simp add: content_hash_def hashed_content_def)

lemma mk_entry_Inr: "mk_entry e = Inr e' \<longleftrightarrow> check_op (e_op e) = Inr () \<and> e' = canonicalise_content e"
  by (auto simp: mk_entry_def ebind_Inr_iff)

lemma hashed_content_prev: "e_prev_hash (hashed_content e) = e_prev_hash e"
  by (simp add: hashed_content_def)

section \<open>Extending a chain\<close>

lemma verify_from_append:
  "verify_from cd p (es @ [e]) \<longleftrightarrow> verify_from cd p es \<and> e_id e = content_hash cd e \<and>
     e_prev_hash e = (if es = [] then p else Some (e_id (last es)))"
  by (induction es arbitrary: p) auto

lemma verify_chain_snoc:
  "verify_chain cd (es @ [e]) \<longleftrightarrow> verify_chain cd es \<and> e_id e = content_hash cd e \<and>
     e_prev_hash e = last_id es"
  by (simp add: verify_chain_def verify_from_append last_id_def)

lemma verify_chain_Nil [simp]: "verify_chain cd []"
  by (simp add: verify_chain_def)

definition chain_ok :: "digests \<Rightarrow> world \<Rightarrow> bool" where
  "chain_ok cd w \<longleftrightarrow> verify_chain cd (w_entries w)"

text \<open>The entry the handler appends is the canonical content under its own hash.\<close>

lemma build_entry_Inr:
  assumes "build_entry cd c = Inr e"
  shows "check_op (e_op c) = Inr ()"
    "e = (canonicalise_content c)\<lparr>e_id := content_hash cd (canonicalise_content c)\<rparr>"
    "e_id e = content_hash cd e" "e_prev_hash e = e_prev_hash c"
  using assms by (auto simp: build_entry_def Let_def mk_entry_Inr)

lemma record_entry_keeps:
  assumes "\<And>h. e_prev_hash (content h) = h"
  shows "io_keeps (chain_ok cd) (record_entry cd content)"
  unfolding io_keeps_def
proof (intro allI impI)
  fix w assume "chain_ok cd w"
  then show "chain_ok cd (snd (record_entry cd content w))"
    using build_entry_Inr(3,4)[of cd "content (last_id (w_entries w))"] assms
    by (auto simp: record_entry_def chain_ok_def verify_chain_snoc split: sum.split)
qed

lemma clock_ts_keeps:
  "(\<And>ms op a. io_keeps I (ro_perform ops ms op a)) \<Longrightarrow> io_keeps I (clock_ts ops)"
  unfolding clock_ts_def by (rule io_keeps_bind) (auto split: val.split option.split)

lemma drain_keeps:
  "(\<And>ms nm op a. io_keeps I (ro_named ops ms nm op a)) \<Longrightarrow> io_keeps I (drain_to_sink cfg ops e)"
  unfolding drain_to_sink_def by (auto intro!: io_keeps_bind split: option.split list.split)

text \<open>The clause keeps whatever appending an entry keeps.\<close>

lemma audit_clause_keeps_if:
  assumes "\<And>content. (\<And>h. e_prev_hash (content h) = h) \<Longrightarrow> io_keeps I (record_entry cd content)"
  shows "clause_keeps I (audit_clause cd cfg op)"
  unfolding clause_keeps_def audit_clause_def audit_finally_def Let_def
proof (intro allI impI io_keeps_bind io_keeps_try clock_ts_keeps)
  fix ops :: "world rt_ops" and k :: "world cont" and args :: "val dict"
    and x :: "int \<times> int" and ah :: string and tc t0 :: val and r :: "err + val"
  assume "\<forall>ms nm op a. io_keeps I (ro_named ops ms nm op a)"
  then show "io_keeps I (case x of (lat, rec) \<Rightarrow>
      io_bind (record_entry cd (entry_content cd cfg op ah tc r lat rec)) (drain_to_sink cfg ops))"
    by (auto intro!: io_keeps_bind assms drain_keeps simp: entry_content_def split: prod.split)
qed auto

lemma audit_clause_keeps: "clause_keeps (chain_ok cd) (audit_clause cd cfg op)"
  by (rule audit_clause_keeps_if) (rule record_entry_keeps)

lemma stack_keeps_append: "stack_keeps I (hs @ hs') \<longleftrightarrow> stack_keeps I hs \<and> stack_keeps I hs'"
  by (auto simp: stack_keeps_def)

lemma audit_handler_keeps: "stack_keeps (chain_ok cd) [make_audit_handler cd cfg wraps]"
  by (auto simp: stack_keeps_def make_audit_handler_def audit_clause_keeps)

section \<open>Properties\<close>

text \<open>C11. The audit chain verifies, always: whatever is performed through a stack with the
  audit handler in it, whatever the inner handlers return, raise or perform in turn, under
  any masks, and also when the audit handler itself fails, a verifying chain of entries is
  again a verifying chain (the other handlers leaving the log alone).\<close>

theorem audit_chain_verifies:
  assumes "stack_keeps (chain_ok cd) inner" "stack_keeps (chain_ok cd) outer"
    and "verify_chain cd (w_entries w)"
  shows "verify_chain cd (w_entries (snd
    (rt_perform n (inner @ make_audit_handler cd cfg wraps # outer) masks op args tc w)))"
proof -
  have "stack_keeps (chain_ok cd) (inner @ [make_audit_handler cd cfg wraps] @ outer)"
    unfolding stack_keeps_append using assms(1,2) audit_handler_keeps by blast
  from rt_perform_keeps[OF this, of n masks op args tc] assms(3) show ?thesis
    by (simp add: io_keeps_def chain_ok_def)
qed

lemma raw_handlers_keep:
  "stack_keeps (chain_ok cd) [make_canonical_raw_terminator, make_system_clock_handler]"
  by (auto simp: stack_keeps_def make_canonical_raw_terminator_def make_system_clock_handler_def
      clause_keeps_def io_keeps_def chain_ok_def)

definition demo_digests :: digests where
  "demo_digests = \<lparr>cd_content = (\<lambda>e. e_op e @ int_str (e_recorded_at e) @
      (case e_prev_hash e of None \<Rightarrow> ''-'' | Some h \<Rightarrow> h)), cd_value = canonical_json\<rparr>"

definition world0 :: world where
  "world0 = \<lparr>w_entries = [], w_cache = [], w_hits = 0, w_misses = 0, w_tokens = 2, w_last = None,
     w_flaky = 0, w_replay = [], w_time = (\<lambda>i. 100 + int i), w_ticks = 0, w_slept = [], w_calls = []\<rparr>"

theorem audit_chain_verifies_witness:
  "verify_chain demo_digests (w_entries (snd (rt_perform 5
     ([make_canonical_raw_terminator, make_system_clock_handler] @
        make_audit_handler demo_digests (default_cfg (\<lambda>_. ''E'')) CANONICAL_AUDIT_OPS # [])
     [] '':plan/edit'' [(''x'', VInt 1)] (Some ''k1'') world0)))"
proof (rule audit_chain_verifies[OF raw_handlers_keep])
  show "stack_keeps (chain_ok demo_digests) []" by (simp add: stack_keeps_def)
  show "verify_chain demo_digests (w_entries world0)" by (simp add: world0_def)
qed

section \<open>One entry per audited operation\<close>

lemma dget_clauses: "dget (map (\<lambda>op. (op, f op)) ops) op = (if op \<in> set ops then Some (f op) else None)"
  by (induction ops) auto

lemma clock_not_canonical: "'':clock/now'' \<notin> set CANONICAL_AUDIT_OPS"
  by (simp add: CANONICAL_AUDIT_OPS_def)

lemma canonical_op_ok: "op \<in> set CANONICAL_AUDIT_OPS \<Longrightarrow> check_op op = Inr ()"
  by (auto simp: CANONICAL_AUDIT_OPS_def check_op_def startswith_def)

lemma canonical_candidates:
  assumes "op \<in> set CANONICAL_AUDIT_OPS"
  shows "candidates [] (canonical_audit_stack cd sh) op =
    [audit_clause cd (default_cfg sh) op, \<lambda>_ _ _. io_return VNone]"
proof -
  have "op \<noteq> '':clock/now''" using assms clock_not_canonical by auto
  then show ?thesis
    using assms
    by (simp add: candidates_def canonical_audit_stack_def List.map_filter_simps
        make_audit_handler_def make_system_clock_handler_def make_canonical_raw_terminator_def
        dget_clauses)
qed

lemma canonical_clock:
  "clock_ts (runtime_ops (Suc n) (canonical_audit_stack cd sh) []) w =
     (Inr (VInt (w_time w (w_ticks w))), w\<lparr>w_ticks := Suc (w_ticks w)\<rparr>)"
  using clock_not_canonical
  by (simp add: clock_ts_def io_bind_def candidates_def canonical_audit_stack_def
      List.map_filter_simps make_audit_handler_def make_system_clock_handler_def
      make_canonical_raw_terminator_def dget_clauses audit_name_def)

text \<open>Through the canonical stack every canonical operation, replayed for a commit,
  appends exactly one entry: it names the operation and the commit, links to the previous
  entry, and its argument hash does not depend on the commit. An operation outside the
  catalogue of the stack is refused and leaves no trace.\<close>

lemma canonical_stack_one_entry:
  "\<exists>e. rt_perform (Suc (Suc n)) (canonical_audit_stack cd sh) [] op args (Some commit) w =
      (if op \<in> set CANONICAL_AUDIT_OPS
       then (Inr VNone, w\<lparr>w_ticks := w_ticks w + 2, w_entries := w_entries w @ [e]\<rparr>)
       else if op = '':clock/now''
       then (Inr (VDict [(''ts'', VInt (w_time w (w_ticks w)))]), w\<lparr>w_ticks := Suc (w_ticks w)\<rparr>)
       else (Inl Unhandled, w)) \<and>
     e_op e = op \<and> e_txn_commit e = VStr commit \<and> e_prev_hash e = last_id (w_entries w) \<and>
     e_args_hash e = cd_value cd (VDict (AList.delete TXN_COMMIT_KEY args)) \<and> e_verdict e = ''ok''"
proof (cases "op \<in> set CANONICAL_AUDIT_OPS")
  case True
  let ?ops = "runtime_ops (Suc n) (canonical_audit_stack cd sh) []"
  let ?args = "dset TXN_COMMIT_KEY (VStr commit) args"
  let ?c = "entry_content cd (default_cfg sh) op (cd_value cd (VDict (AList.delete TXN_COMMIT_KEY ?args)))
    (VStr commit) (Inr VNone) (max 0 ((w_time w (Suc (w_ticks w)) - w_time w (w_ticks w)) * 1000))
    (w_time w (Suc (w_ticks w))) (last_id (w_entries w))"
  let ?e = "(canonicalise_content ?c)\<lparr>e_id := content_hash cd (canonicalise_content ?c)\<rparr>"
  have b: "build_entry cd ?c = Inr ?e"
    using canonical_op_ok[OF True] by (simp add: build_entry_def Let_def mk_entry_Inr entry_content_def)
  have "rt_perform (Suc (Suc n)) (canonical_audit_stack cd sh) [] op args (Some commit) w =
      (Inr VNone, w\<lparr>w_ticks := w_ticks w + 2, w_entries := w_entries w @ [?e]\<rparr>)"
    unfolding rt_perform_simps canonical_candidates[OF True]
    using b by (simp add: audit_clause_def Let_def io_bind_def io_try_def canonical_clock
        audit_finally_def record_entry_def drain_to_sink_def default_cfg_def del: runtime_ops.simps)
  moreover have "AList.delete TXN_COMMIT_KEY ?args = AList.delete TXN_COMMIT_KEY args"
    by (simp add: delete_update_same)
  ultimately show ?thesis
    using True by (intro exI[of _ ?e]) (simp add: entry_content_def canonicalise_content_def)
next
  case False
  let ?e = "entry_content cd (default_cfg sh) op (cd_value cd (VDict (AList.delete TXN_COMMIT_KEY args)))
    (VStr commit) (Inr VNone) 0 0 (last_id (w_entries w))"
  have "rt_perform (Suc (Suc n)) (canonical_audit_stack cd sh) [] op args (Some commit) w =
      (if op = '':clock/now''
       then (Inr (VDict [(''ts'', VInt (w_time w (w_ticks w)))]), w\<lparr>w_ticks := Suc (w_ticks w)\<rparr>)
       else (Inl Unhandled, w))"
    using False unfolding rt_perform_simps
    by (simp add: candidates_def canonical_audit_stack_def List.map_filter_simps
        make_audit_handler_def make_system_clock_handler_def make_canonical_raw_terminator_def
        dget_clauses)
  with False show ?thesis by (intro exI[of _ ?e]) (simp add: entry_content_def)
qed

section \<open>Tamper evidence\<close>

text \<open>C12. Two verifying chains with the same head are the same, entry by entry: changing,
  dropping, inserting or reordering entries shows in the last id (as long as the digest does
  not collide on the entries at hand; the id of an entry and the order of the keys of its
  principal are not part of the content).\<close>

theorem audit_chain_tamper_evident:
  assumes "verify_chain cd es" "verify_chain cd es'" "last_id es = last_id es'"
    and "inj_on (cd_content cd) (hashed_content ` (set es \<union> set es'))"
  shows "map hashed_content es = map hashed_content es'"
  using assms
proof (induction es arbitrary: es' rule: rev_induct)
  case Nil
  then show ?case by (simp add: last_id_def split: if_splits)
next
  case (snoc e es)
  then obtain fs f where es': "es' = fs @ [f]"
    by (cases es' rule: rev_cases) (auto simp: last_id_def)
  have v: "verify_chain cd es" "e_id e = content_hash cd e" "e_prev_hash e = last_id es"
    and v': "verify_chain cd fs" "e_id f = content_hash cd f" "e_prev_hash f = last_id fs"
    using snoc.prems(1,2) by (simp_all add: es' verify_chain_snoc)
  have "cd_content cd (hashed_content e) = cd_content cd (hashed_content f)"
    using snoc.prems(3) v(2) v'(2) by (simp add: es' last_id_def content_hash_def)
  then have h: "hashed_content e = hashed_content f"
    by (rule inj_onD[OF snoc.prems(4)]) (simp_all add: es')
  then have "e_prev_hash e = e_prev_hash f"
    by (metis hashed_content_prev)
  then have l: "last_id es = last_id fs" using v(3) v'(3) by simp
  have "map hashed_content es = map hashed_content fs"
    by (rule snoc.IH[OF v(1) v'(1) l], rule inj_on_subset[OF snoc.prems(4)]) (auto simp: es')
  with h show ?case by (simp add: es')
qed

definition chain_of :: "nat \<Rightarrow> audit_entry list" where
  "chain_of n = w_entries (snd (rt_perform 5 (canonical_audit_stack demo_digests (\<lambda>_. ''E'')) []
     '':plan/edit'' [(''x'', VInt (int n))] (Some ''k1'') world0))"

theorem audit_chain_tamper_evident_witness:
  "chain_of 1 \<noteq> [] \<and> map hashed_content (chain_of 1) = map hashed_content (chain_of 1)"
proof
  show "chain_of 1 \<noteq> []" by code_simp
  have v: "verify_chain demo_digests (chain_of 1)" by code_simp
  have n: "length (chain_of 1) = 1" by code_simp
  then obtain e where e: "chain_of 1 = [e]" by (auto simp: length_Suc_conv)
  have "inj_on (cd_content demo_digests) (hashed_content ` (set (chain_of 1) \<union> set (chain_of 1)))"
    unfolding e by simp
  from audit_chain_tamper_evident[OF v v refl this]
  show "map hashed_content (chain_of 1) = map hashed_content (chain_of 1)" .
qed

section \<open>The datom form\<close>

lemma replace_char_inverse:
  "b \<notin> set s \<Longrightarrow> replace_char b a (replace_char a b s) = s"
  by (induction s) (auto simp: replace_char_def)

lemma fold_keyworded:
  "fold (\<lambda>(k, v). dset (lstrip_colon k) v) (principal_to_keyword_map p) d =
     fold (\<lambda>(k, v). dset (lstrip_colon k) v) p d"
  by (induction p arbitrary: d) (auto simp: principal_to_keyword_map_def)

lemma keyword_map_roundtrip:
  "bare_keys p \<Longrightarrow> keyword_map_to_principal (principal_to_keyword_map p) = p"
  using canon_principal_id by (simp add: keyword_map_to_principal_def fold_keyworded canon_principal_def)

text \<open>An entry as the constructors of the module build it: canonical, with a one-colon
  operation, a bare verdict and its parent equal to its previous hash.\<close>

definition proper_entry :: "audit_entry \<Rightarrow> bool" where
  "proper_entry e \<longleftrightarrow> check_op (e_op e) = Inr () \<and> e_op e = CHR '':'' # lstrip_colon (e_op e) \<and>
     canonicalise_content e = e \<and> e_verdict e \<in> set PYTHON_VERDICTS \<and> e_parent e = e_prev_hash e"

lemma canonical_principal_bare: "canonicalise_content e = e \<Longrightarrow> bare_keys (e_principal e)"
proof -
  assume "canonicalise_content e = e"
  then have "e_principal e = canon_principal (e_principal e)"
    by (metis canonicalise_principal)
  then show ?thesis by (metis bare_keys_canon)
qed

lemma op_roundtrip:
  assumes "check_op op = Inr ()" "op = CHR '':'' # lstrip_colon op"
  shows "CHR '':'' # replace_char (CHR ''.'') (CHR ''/'') (replace_char (CHR ''/'') (CHR ''.'') (lstrip_colon op)) = op"
proof -
  have "CHR ''.'' \<notin> set op" using assms(1) by (auto simp: check_op_def split: if_splits)
  then have "CHR ''.'' \<notin> set (lstrip_colon op)"
    unfolding lstrip_colon_def by (meson set_dropWhileD)
  then show ?thesis using assms(2) by (simp add: replace_char_inverse)
qed

lemma datom_roundtrip:
  assumes "proper_entry e" "audit_entry_to_datom conforms e = Inr d"
  shows "datom_to_audit_entry d = Inr e"
proof -
  have c: "check_op (e_op e) = Inr ()" "canonicalise_content e = e" "e_parent e = e_prev_hash e"
    and v: "e_verdict e \<in> set PYTHON_VERDICTS"
    using assms(1) by (simp_all add: proper_entry_def)
  from assms(2) obtain verdict where ve: "as_edn (e_verdict e) = Inr verdict"
    by (auto simp: audit_entry_to_datom_def ebind_Inr_iff)
  with as_python_as_edn[OF v] have vp: "as_python verdict = Inr (e_verdict e)" by simp
  have op: "CHR '':'' # replace_char (CHR ''.'') (CHR ''/'')
      (replace_char (CHR ''/'') (CHR ''.'') (lstrip_colon (e_op e))) = e_op e"
    using op_roundtrip assms(1) by (simp add: proper_entry_def)
  have p: "keyword_map_to_principal (principal_to_keyword_map (e_principal e)) = e_principal e"
    by (rule keyword_map_roundtrip[OF canonical_principal_bare[OF c(2)]])
  have eta: "\<lparr>e_id = e_id e, e_prev_hash = e_prev_hash e, e_op = e_op e, e_args_hash = e_args_hash e,
      e_verdict = e_verdict e, e_latency_ms = e_latency_ms e, e_recorded_at = e_recorded_at e,
      e_result_hash = e_result_hash e, e_error = e_error e, e_policy_id = e_policy_id e,
      e_handler_chain = e_handler_chain e, e_principal = e_principal e, e_run_id = e_run_id e,
      e_parent = e_prev_hash e, e_txn_commit = e_txn_commit e\<rparr> = e"
    using c(3) by (cases e) simp
  have "datom_to_audit_entry d = mk_entry e"
    using assms(2) unfolding audit_entry_to_datom_def ve ebind_simps
    by (auto simp: Let_def datom_to_audit_entry_def vp op p eta split: if_splits)
  then show ?thesis using c by (simp add: mk_entry_Inr)
qed

text \<open>Rebinding a stored audit datom to another chain head relinks it and nothing else:
  what is decoded afterwards is the old entry under the new previous hash, with an id that
  verifies; decoding is the inverse of encoding throughout.\<close>

lemma rebind_relinks:
  assumes "proper_entry e" "e_id e = content_hash cd e"
    and "audit_entry_to_datom conforms e = Inr d"
    and "rebind_audit_datom_prev_hash cd conforms d h = Inr d'"
  shows "\<exists>e'. datom_to_audit_entry d' = Inr e' \<and> e_id e' = content_hash cd e' \<and>
    e' = e\<lparr>e_id := e_id e', e_prev_hash := h, e_parent := h\<rparr>"
proof (cases "ap_prev_hash (ad_provenance d) = h")
  case True
  have "ap_prev_hash (ad_provenance d) = e_prev_hash e"
    using assms(3) by (auto simp: audit_entry_to_datom_def ebind_Inr_iff Let_def split: if_splits)
  with True assms(1) have "e_prev_hash e = h" "e_parent e = h" by (simp_all add: proper_entry_def)
  then have "e = e\<lparr>e_id := e_id e, e_prev_hash := h, e_parent := h\<rparr>" by simp
  moreover have "d' = d" using True assms(4) by (simp add: rebind_audit_datom_prev_hash_def)
  ultimately show ?thesis
    using datom_roundtrip[OF assms(1,3)] assms(2) by (intro exI[of _ e]) simp
next
  case False
  let ?c = "e\<lparr>e_prev_hash := h, e_parent := h\<rparr>"
  from False assms(4) obtain e' where b: "build_entry cd ?c = Inr e'"
    and d': "audit_entry_to_datom conforms e' = Inr d'"
    by (auto simp: rebind_audit_datom_prev_hash_def datom_roundtrip[OF assms(1,3)] ebind_Inr_iff)
  have cc: "canonicalise_content ?c = ?c"
    using assms(1) by (simp add: proper_entry_def canonicalise_relink)
  note be = build_entry_Inr[OF b, unfolded cc]
  have "canonicalise_content e' = e'" unfolding be(2) canonicalise_sel cc ..
  then have "proper_entry e'"
    using assms(1) unfolding be(2) by (simp add: proper_entry_def)
  from datom_roundtrip[OF this d'] show ?thesis
    using be(3) unfolding be(2) by (intro exI[of _ e']) (simp add: be(2))
qed

end
