(* ===== verification/Handlers.thy ===== *)
theory Handlers
  imports AuditProps
begin

text \<open>
  The other effect handlers of \<open>persistence.effect.handlers\<close>: cache, retry, rate limit,
  dry run, PII redaction, clocks and the scripted raw handlers. A clause that performs
  effects of its own goes through the operations of the runtime it is given. Times and
  amounts are integers or rationals where the code has floats.
\<close>

section \<open>Cache\<close>

definition cache_key :: "digests \<Rightarrow> string \<Rightarrow> val dict \<Rightarrow> string" where
  "cache_key cd op args = cd_value cd (VDict [(''op'', VStr op), (''args'', VDict args)])"

definition cache_clause :: "digests \<Rightarrow> string \<Rightarrow> world clause" where
  "cache_clause cd op ops args k w =
     (let key = cache_key cd op args in
      case map_of (w_cache w) key of
        Some v \<Rightarrow> (Inr v, w\<lparr>w_hits := w_hits w + 1\<rparr>)
      | None \<Rightarrow>
          (case k args (w\<lparr>w_misses := w_misses w + 1\<rparr>) of
             (Inl e, w') \<Rightarrow> (Inl e, w')
           | (Inr v, w') \<Rightarrow> (Inr v, w'\<lparr>w_cache := AList.update key v (w_cache w')\<rparr>)))"

section \<open>Retry\<close>

record retry_cfg =
  rc_max_attempts :: nat
  rc_base_backoff_ms :: int
  rc_jitter_ms :: int
  rc_retryable :: "err \<Rightarrow> bool"

definition value_field :: "val \<Rightarrow> err + val" where
  "value_field r =
     (case r of VDict d \<Rightarrow> (case dget d ''value'' of Some v \<Rightarrow> Inr v | None \<Rightarrow> Inl KeyError)
      | _ \<Rightarrow> Inl TypeError)"

definition int_field :: "val \<Rightarrow> err + int" where
  "int_field v = (case pnorm v of VInt i \<Rightarrow> Inr i | _ \<Rightarrow> Inl TypeError)"

text \<open>Jitter and sleep between two attempts.\<close>

definition backoff :: "retry_cfg \<Rightarrow> 'w rt_ops \<Rightarrow> nat \<Rightarrow> ('w, unit) io" where
  "backoff rc ops attempt =
     io_bind (ro_perform ops [] '':random''
       [(''kind'', VStr ''jitter''), (''params'', VDict [(''max'', VInt (rc_jitter_ms rc))])]) (\<lambda>r.
     io_bind (io_lift (ebind (value_field r) int_field)) (\<lambda>jitter.
     io_bind (ro_perform ops [] '':sleep''
       [(''ms'', VInt (rc_base_backoff_ms rc * 2 ^ attempt + jitter))]) (\<lambda>_. io_return ())))"

text \<open>\<open>left\<close> attempts to go, \<open>attempt\<close> made so far.\<close>

fun retry_loop :: "retry_cfg \<Rightarrow> 'w rt_ops \<Rightarrow> ('w, val) io \<Rightarrow> nat \<Rightarrow> nat \<Rightarrow> ('w, val) io" where
  "retry_loop rc ops call 0 attempt = io_raise RuntimeError"
| "retry_loop rc ops call (Suc left) attempt =
     io_try call (\<lambda>r. case r of
         Inr v \<Rightarrow> io_return v
       | Inl e \<Rightarrow>
           if \<not> rc_retryable rc e \<or> left = 0 then io_raise e
           else io_bind (backoff rc ops attempt) (\<lambda>_. retry_loop rc ops call left (Suc attempt)))"

definition retry_clause :: "retry_cfg \<Rightarrow> 'w clause" where
  "retry_clause rc ops args k = retry_loop rc ops (k args) (rc_max_attempts rc) 0"

section \<open>Rate limit\<close>

record bucket_cfg =
  bc_capacity :: rat
  bc_refill_per_sec :: rat

text \<open>Python's \<open>round\<close>: to the nearest integer, ties to the even one.\<close>

definition round_half_even :: "rat \<Rightarrow> int" where
  "round_half_even x =
     (let f = \<lfloor>x\<rfloor>; d = x - of_int f in
      if d < 1 / 2 then f else if d > 1 / 2 then f + 1 else if even f then f else f + 1)"

text \<open>The critical section of the clause: the milliseconds to sleep and the new bucket.\<close>

definition bucket_step :: "bucket_cfg \<Rightarrow> int \<Rightarrow> rat \<times> int option \<Rightarrow> err + int \<times> rat \<times> int option" where
  "bucket_step bc now b =
     (case b of (tokens, prev) \<Rightarrow>
       let elapsed = (case prev of None \<Rightarrow> 0 | Some t \<Rightarrow> max 0 (of_int (now - t)));
           tokens' = min (bc_capacity bc) (tokens + elapsed * bc_refill_per_sec bc)
       in if tokens' < 1 then
            if bc_refill_per_sec bc \<le> 0 then Inl RuntimeError
            else Inr (max 1 (round_half_even ((1 - tokens') / bc_refill_per_sec bc * 1000)), 0, Some now)
          else Inr (0, tokens' - 1, Some now))"

definition bucket_get :: "world \<Rightarrow> rat \<times> int option" where
  "bucket_get w = (w_tokens w, w_last w)"

definition rate_limit_clause :: "bucket_cfg \<Rightarrow> world clause" where
  "rate_limit_clause bc ops args k =
     io_bind (ro_perform ops [] '':clock/now'' []) (\<lambda>r.
     io_bind (io_lift (case r of
         VDict d \<Rightarrow> (case dget d ''ts'' of Some v \<Rightarrow> int_field v | None \<Rightarrow> Inl KeyError)
       | _ \<Rightarrow> Inl TypeError)) (\<lambda>now w.
       case bucket_step bc now (bucket_get w) of
         Inl e \<Rightarrow> (Inl e, w\<lparr>w_tokens := min (bc_capacity bc) (w_tokens w +
             (case w_last w of None \<Rightarrow> 0 | Some t \<Rightarrow> max 0 (of_int (now - t))) * bc_refill_per_sec bc),
             w_last := Some now\<rparr>)
       | Inr (sleep_ms, tokens, stamp) \<Rightarrow>
           io_bind (if 0 < sleep_ms then ro_perform ops [] '':sleep'' [(''ms'', VInt sleep_ms)]
                    else io_return VNone) (\<lambda>_. k args)
             (w\<lparr>w_tokens := tokens, w_last := stamp\<rparr>)))"

section \<open>Dry run\<close>

text \<open>A mock is a value or a function of the arguments.\<close>

datatype mock = MockValue val | MockFun "val dict \<Rightarrow> err + val"

record dry_cfg =
  dc_mode :: string
  dc_mocks :: "(string \<times> mock) list"
  dc_allow_live :: "string list"

definition dry_run_clause :: "dry_cfg \<Rightarrow> string \<Rightarrow> 'w clause" where
  "dry_run_clause dc op ops args k =
     (if dc_mode dc \<noteq> ''dry-run'' \<or> op \<in> set (dc_allow_live dc) then k args
      else case map_of (dc_mocks dc) op of
        None \<Rightarrow> k args
      | Some (MockFun f) \<Rightarrow> io_lift (f args)
      | Some (MockValue v) \<Rightarrow> io_return v)"

section \<open>PII redaction\<close>

definition REDACTED :: string where
  "REDACTED = ''<REDACTED>''"

text \<open>The in-place walk, on the deep copy the clause makes: dictionaries and lists are
  entered, everything else is left.\<close>

fun redact :: "string list \<Rightarrow> string list \<Rightarrow> string \<Rightarrow> val \<Rightarrow> val" where
  "redact names paths prefix (VDict kvs) = VDict (map (\<lambda>(key, sub).
     let full = (if prefix = [] then key else prefix @ ''.'' @ key) in
     (key, if key \<in> set names \<or> full \<in> set paths then VStr REDACTED
           else redact names paths full sub)) kvs)"
| "redact names paths prefix (VList xs) = VList (map (redact names paths prefix) xs)"
| "redact names paths prefix v = v"

definition redact_args :: "string list \<Rightarrow> string list \<Rightarrow> val dict \<Rightarrow> val dict" where
  "redact_args names paths args = (case redact names paths [] (VDict args) of VDict d \<Rightarrow> d | _ \<Rightarrow> [])"

definition pii_clause :: "string list \<Rightarrow> string list \<Rightarrow> 'w clause" where
  "pii_clause names paths ops args k = k (redact_args names paths args)"

section \<open>Clocks and raw handlers\<close>

definition fixed_clock_clause :: "int \<Rightarrow> world clause" where
  "fixed_clock_clause ts ops args k = io_return (VDict [(''ts'', VInt ts)])"

definition replay_clock_clause :: "world clause" where
  "replay_clock_clause ops args k w =
     (case w_replay w of
        [] \<Rightarrow> (Inl RuntimeError, w)
      | t # ts \<Rightarrow> (Inr (VDict [(''ts'', VInt t)]), w\<lparr>w_replay := ts\<rparr>))"

definition last_content :: "val dict \<Rightarrow> val" where
  "last_content args =
     (case dget args ''messages'' of
        Some (VList ms) \<Rightarrow> (if ms = [] then VStr [] else
          case last ms of VDict m \<Rightarrow> (case dget m ''content'' of Some c \<Rightarrow> c | None \<Rightarrow> VStr []) | _ \<Rightarrow> VStr [])
      | _ \<Rightarrow> VStr [])"

definition echo_text :: "(val \<Rightarrow> string) \<Rightarrow> val dict \<Rightarrow> val" where
  "echo_text str args = VStr (''echo:'' @ str (last_content args))"

definition flaky_llm_clause :: "(val \<Rightarrow> string) \<Rightarrow> int \<Rightarrow> world clause" where
  "flaky_llm_clause str fail_every ops args k w =
     (let n = w_flaky w + 1; w' = w\<lparr>w_flaky := n\<rparr> in
      if n mod fail_every = 0 then (Inl TransientError, w')
      else (Inr (VDict [(''text'', echo_text str args),
              (''usage'', VDict [(''tokens'', VInt 12)])]), w'))"

definition scripted_tool_clause :: "(string \<times> val) list \<Rightarrow> 'w clause" where
  "scripted_tool_clause scripts ops args k =
     (case dget args ''name'' of
        None \<Rightarrow> io_raise KeyError
      | Some name \<Rightarrow>
          if \<not> hashable name then io_raise TypeError
          else (case (case name of VStr s \<Rightarrow> map_of scripts s | _ \<Rightarrow> None) of
            Some v \<Rightarrow> io_return (VDict [(''result'', v), (''error'', VNone)])
          | None \<Rightarrow> io_return (VDict [(''result'', VNone), (''error'', VStr ''unknown-tool'')])))"

section \<open>Retry: bounds\<close>

text \<open>How often the inner call ran, seen on the raw log.\<close>

definition counts_calls :: "(world, val) io \<Rightarrow> bool" where
  "counts_calls call \<longleftrightarrow> (\<forall>w. length (w_calls (snd (call w))) = Suc (length (w_calls w)))"

definition quiet :: "(world, 'a) io \<Rightarrow> bool" where
  "quiet m \<longleftrightarrow> (\<forall>w. length (w_calls (snd (m w))) = length (w_calls w))"

lemma quiet_bind: "quiet m \<Longrightarrow> (\<And>x. quiet (f x)) \<Longrightarrow> quiet (io_bind m f)"
  unfolding quiet_def io_bind_def by (auto split: prod.splits sum.splits; metis snd_conv)

lemma quiet_simps [simp]: "quiet (io_return x)" "quiet (io_lift r)" "quiet (Pair r)"
  by (simp_all add: quiet_def)

lemma backoff_quiet:
  assumes "\<And>ms op a. quiet (ro_perform ops ms op a)"
  shows "quiet (backoff rc ops attempt)"
  unfolding backoff_def by (intro quiet_bind assms quiet_simps)

lemma retry_loop_calls:
  assumes "counts_calls call" "\<And>ms op a. quiet (ro_perform ops ms op a)"
    and "retry_loop rc ops call left attempt w = (r, w')"
  shows "length (w_calls w) + (if left = 0 then 0 else 1) \<le> length (w_calls w') \<and>
    length (w_calls w') \<le> length (w_calls w) + left"
  using assms(3)
proof (induction left arbitrary: attempt w)
  case (Suc left)
  obtain r1 w1 where c: "call w = (r1, w1)" by (cases "call w")
  have l1: "length (w_calls w1) = Suc (length (w_calls w))"
    using assms(1) c by (metis counts_calls_def snd_conv)
  show ?case
  proof (cases "\<exists>e. r1 = Inl e \<and> rc_retryable rc e \<and> left \<noteq> 0")
    case True
    then obtain e where e: "r1 = Inl e" "rc_retryable rc e" "left \<noteq> 0" by blast
    obtain r2 w2 where b: "backoff rc ops attempt w1 = (r2, w2)" by (cases "backoff rc ops attempt w1")
    have l2: "length (w_calls w2) = length (w_calls w1)"
      using backoff_quiet[OF assms(2)] b unfolding quiet_def by (metis snd_conv)
    show ?thesis
    proof (cases r2)
      case (Inl x)
      with Suc.prems c e b l1 l2 show ?thesis by (auto simp: io_try_def io_bind_def)
    next
      case (Inr u)
      with Suc.prems c e b have "retry_loop rc ops call left (Suc attempt) w2 = (r, w')"
        by (simp add: io_try_def io_bind_def)
      from Suc.IH[OF this] e(3) l1 l2 show ?thesis by simp
    qed
  next
    case False
    with Suc.prems c have "w' = w1"
      by (auto simp: io_try_def split: sum.splits if_splits)
    with l1 show ?thesis by simp
  qed
qed simp

text \<open>Retry calls the operation at least once and at most \<open>max_attempts\<close> times, whatever
  the calls, the jitter and the sleeps return or raise.\<close>

lemma retry_bounded:
  assumes "counts_calls (k args)" "\<And>ms op a. quiet (ro_perform ops ms op a)"
    and "retry_clause rc ops args k w = (r, w')" "0 < rc_max_attempts rc"
  shows "length (w_calls w) < length (w_calls w') \<and>
    length (w_calls w') \<le> length (w_calls w) + rc_max_attempts rc"
  using retry_loop_calls[OF assms(1,2) assms(3)[unfolded retry_clause_def]] assms(4) by auto

definition dead_call :: "val dict \<Rightarrow> (world, val) io" where
  "dead_call args w = (Inl TransientError, w\<lparr>w_calls := w_calls w @ [('':llm/call'', args)]\<rparr>)"

definition still_ops :: "world rt_ops" where
  "still_ops = \<lparr>ro_perform = (\<lambda>_ _ _. io_return (VDict [(''value'', VInt 0)])),
     ro_named = (\<lambda>_ _ _ _. io_raise Unhandled)\<rparr>"

definition retry3 :: retry_cfg where
  "retry3 = \<lparr>rc_max_attempts = 3, rc_base_backoff_ms = 50, rc_jitter_ms = 10,
     rc_retryable = (\<lambda>e. e = TransientError)\<rparr>"

section \<open>Rate limit: double credit\<close>

text \<open>Back-to-back calls on a clock that moves exactly by the time slept.\<close>

primrec bucket_run :: "bucket_cfg \<Rightarrow> nat \<Rightarrow> rat \<times> int option \<Rightarrow> int \<Rightarrow> err + (rat \<times> int option) \<times> int" where
  "bucket_run bc 0 b now = Inr (b, now)"
| "bucket_run bc (Suc n) b now =
     ebind (bucket_step bc now b) (\<lambda>(sleep_ms, b'). bucket_run bc n b' (now + sleep_ms div 1000))"

lemma bucket_pair:
  assumes "bc_capacity bc = c" "1 \<le> c" "bc_refill_per_sec bc = 1"
  shows "bucket_step bc t (0, Some t) = Inr (1000, 0, Some t)"
    "bucket_step bc (t + 1) (0, Some t) = Inr (0, 0, Some (t + 1))"
  using assms by (auto simp: bucket_step_def round_half_even_def Let_def)

text \<open>The limiter grants twice its rate: with a refill of one token per second and an empty
  bucket, \<open>2 n\<close> calls go through in \<open>n\<close> seconds, because the time slept for a token is
  credited again on the next call.\<close>

lemma rate_limit_double:
  assumes "1 \<le> bc_capacity bc" "bc_refill_per_sec bc = 1"
  shows "bucket_run bc (2 * n) (0, Some t) t = Inr ((0, Some (t + int n)), t + int n)"
proof (induction n arbitrary: t)
  case (Suc n)
  show ?case
    using Suc[of "t + 1"] bucket_pair[OF refl assms, of t] by (simp add: algebra_simps)
qed simp

section \<open>Redaction\<close>

text \<open>A position in a nested value: keys of dictionaries and indices of lists. Tuples are
  leaves here, as they are for the handler.\<close>

datatype step = Key string | Idx nat

fun val_at :: "val \<Rightarrow> step list \<Rightarrow> val option" where
  "val_at v [] = Some v"
| "val_at (VDict kvs) (Key k # ps) = (case dget kvs k of None \<Rightarrow> None | Some x \<Rightarrow> val_at x ps)"
| "val_at (VList xs) (Idx i # ps) = (if i < length xs then val_at (xs ! i) ps else None)"
| "val_at v (s # ps) = None"

text \<open>The steps below the first sensitive key on the way to a position, if there is one: a
  key is sensitive when it is a configured name, or when the dotted path of the keys passed
  (indices do not count) is a configured path.\<close>

fun below_sensitive :: "string list \<Rightarrow> string list \<Rightarrow> string \<Rightarrow> step list \<Rightarrow> step list option" where
  "below_sensitive names paths prefix [] = None"
| "below_sensitive names paths prefix (Idx i # ps) = below_sensitive names paths prefix ps"
| "below_sensitive names paths prefix (Key k # ps) =
     (let full = (if prefix = [] then k else prefix @ ''.'' @ k) in
      if k \<in> set names \<or> full \<in> set paths then Some ps
      else below_sensitive names paths full ps)"

text \<open>Same node: same keys, same length, or the very same leaf.\<close>

definition same_node :: "val \<Rightarrow> val \<Rightarrow> bool" where
  "same_node v w =
     (case v of
        VDict kvs \<Rightarrow> (case w of VDict kws \<Rightarrow> map fst kws = map fst kvs | _ \<Rightarrow> False)
      | VList xs \<Rightarrow> (case w of VList ys \<Rightarrow> length ys = length xs | _ \<Rightarrow> False)
      | _ \<Rightarrow> w = v)"

lemma same_node_redact: "same_node v (redact names paths prefix v)"
  by (cases v) (auto simp: same_node_def Let_def)

lemma dget_redacted:
  "dget (map (\<lambda>(key, sub). (key, f key sub)) kvs) k = map_option (f k) (dget kvs k)"
  by (induction kvs) auto

lemma val_at_redact:
  "case below_sensitive names paths prefix ps of
     None \<Rightarrow> rel_option same_node (val_at v ps) (val_at (redact names paths prefix v) ps)
   | Some [] \<Rightarrow> val_at (redact names paths prefix v) ps = map_option (\<lambda>_. VStr REDACTED) (val_at v ps)
   | Some (s # rest) \<Rightarrow> val_at (redact names paths prefix v) ps = None"
proof (induction v ps arbitrary: prefix rule: val_at.induct)
  case (2 kvs k ps)
  show ?case
  proof (cases "dget kvs k")
    case None
    then show ?thesis
      by (auto simp: Let_def dget_redacted split: option.split list.split)
  next
    case (Some x)
    let ?full = "if prefix = [] then k else prefix @ ''.'' @ k"
    show ?thesis
    proof (cases "k \<in> set names \<or> ?full \<in> set paths")
      case True
      then show ?thesis by (cases ps) (simp_all add: dget_redacted Some Let_def)
    next
      case False
      then have "below_sensitive names paths prefix (Key k # ps) = below_sensitive names paths ?full ps"
        "val_at (redact names paths prefix (VDict kvs)) (Key k # ps) =
           val_at (redact names paths ?full x) ps"
        "val_at (VDict kvs) (Key k # ps) = val_at x ps"
        by (simp_all add: dget_redacted Some Let_def)
      then show ?thesis using 2[OF Some, of ?full] by (simp only:)
    qed
  qed
next
  case (3 xs i ps)
  show ?case
  proof (cases "i < length xs")
    case True
    then have "below_sensitive names paths prefix (Idx i # ps) = below_sensitive names paths prefix ps"
      "val_at (redact names paths prefix (VList xs)) (Idx i # ps) =
         val_at (redact names paths prefix (xs ! i)) ps"
      "val_at (VList xs) (Idx i # ps) = val_at (xs ! i) ps"
      by simp_all
    then show ?thesis using 3[OF True, of prefix] by (simp only:)
  qed (simp split: option.split list.split)
qed (auto simp: same_node_redact split: option.split list.split)

text \<open>C14. The redaction handler calls its continuation with the arguments changed exactly at
  the sensitive keys, however deep in dictionaries and lists. A position on whose way no key
  is a configured name or completes a configured dotted path holds what it held (a leaf is
  the same, a dictionary has the same keys, a list the same length); a position that ends in
  the first such key holds the redaction mark if it held anything; below it nothing is left.\<close>

theorem redact_exactly_sensitive:
  "\<exists>clean. pii_clause names paths ops args k = k clean \<and>
     (\<forall>ps. case below_sensitive names paths [] ps of
        None \<Rightarrow> rel_option same_node (val_at (VDict args) ps) (val_at (VDict clean) ps)
      | Some [] \<Rightarrow> val_at (VDict clean) ps = map_option (\<lambda>_. VStr REDACTED) (val_at (VDict args) ps)
      | Some (s # rest) \<Rightarrow> val_at (VDict clean) ps = None)"
proof (intro exI[of _ "redact_args names paths args"] conjI allI)
  fix ps
  have e: "redact names paths [] (VDict args) = VDict (redact_args names paths args)"
    by (simp add: redact_args_def)
  show "case below_sensitive names paths [] ps of
        None \<Rightarrow> rel_option same_node (val_at (VDict args) ps) (val_at (VDict (redact_args names paths args)) ps)
      | Some [] \<Rightarrow> val_at (VDict (redact_args names paths args)) ps =
          map_option (\<lambda>_. VStr REDACTED) (val_at (VDict args) ps)
      | Some (s # rest) \<Rightarrow> val_at (VDict (redact_args names paths args)) ps = None"
    using val_at_redact[where v = "VDict args" and prefix = "[]" and names = names and paths = paths]
    unfolding e .
qed (simp add: pii_clause_def)

text \<open>Tuples are not entered.\<close>

lemma redact_skips_tuples:
  "redact names paths prefix (VTuple xs) = VTuple xs"
  by simp

end
