(* ===== verification/Json.thy ===== *)
theory Json
  imports Values
begin

text \<open>
  The compact canonical JSON of the content addresses: \<open>json.dumps(v, sort_keys=True,
  separators=(",", ":"))\<close>, as used by the plan ids, the audit hashes and the search
  hashes. The text determines the value up to the order of dictionary keys and the
  difference between tuples and lists: distinct canonical forms never share a text, so a
  collision of addresses is a collision of the digest.
\<close>

section \<open>The text\<close>

fun compact_json :: "val \<Rightarrow> string" where
  "compact_json VNone = ''null''"
| "compact_json (VBool b) = (if b then ''true'' else ''false'')"
| "compact_json (VInt i) = int_str i"
| "compact_json (VStr s) = json_string s"
| "compact_json (VTuple xs) = ''['' @ join '','' (map compact_json xs) @ '']''"
| "compact_json (VList xs) = ''['' @ join '','' (map compact_json xs) @ '']''"
| "compact_json (VDict kvs) =
     CHR 0x7B # join '',''
       (map (\<lambda>(k, s). json_string k @ '':'' @ s)
          (sort_key fst (map (\<lambda>(k, v). (k, compact_json v)) kvs)))
     @ [CHR 0x7D]"

text \<open>What the text forgets: tuples become lists, keys are sorted.\<close>

fun json_norm :: "val \<Rightarrow> val" where
  "json_norm (VTuple xs) = VList (map json_norm xs)"
| "json_norm (VList xs) = VList (map json_norm xs)"
| "json_norm (VDict kvs) = VDict (sort_key fst (map (\<lambda>(k, v). (k, json_norm v)) kvs))"
| "json_norm v = v"

text \<open>The text of a normal form, without the sorting.\<close>

fun raw_json :: "val \<Rightarrow> string" where
  "raw_json VNone = ''null''"
| "raw_json (VBool b) = (if b then ''true'' else ''false'')"
| "raw_json (VInt i) = int_str i"
| "raw_json (VStr s) = json_string s"
| "raw_json (VTuple xs) = ''['' @ join '','' (map raw_json xs) @ '']''"
| "raw_json (VList xs) = ''['' @ join '','' (map raw_json xs) @ '']''"
| "raw_json (VDict kvs) =
     CHR 0x7B # join '','' (map (\<lambda>(k, v). json_string k @ '':'' @ raw_json v) kvs)
     @ [CHR 0x7D]"

fun no_tuple :: "val \<Rightarrow> bool" where
  "no_tuple (VTuple _) = False"
| "no_tuple (VList xs) = list_all no_tuple xs"
| "no_tuple (VDict kvs) = list_all (\<lambda>(k, v). no_tuple v) kvs"
| "no_tuple _ = True"

lemma sort_key_map_snd:
  "sort_key fst (map (\<lambda>(k, v). (k, f v)) kvs) = map (\<lambda>(k, v). (k, f v)) (sort_key fst kvs)"
proof (induction kvs)
  case Nil
  then show ?case by simp
next
  case (Cons p kvs)
  have "insort_key fst (case p of (k, v) \<Rightarrow> (k, f v)) (map (\<lambda>(k, v). (k, f v)) xs) =
      map (\<lambda>(k, v). (k, f v)) (insort_key fst p xs)" for xs
    by (induction xs) (auto split: prod.splits)
  with Cons show ?case by simp
qed

lemma compact_json_norm: "compact_json v = raw_json (json_norm v)"
proof (induction v rule: compact_json.induct)
  case (5 xs)
  then have "map compact_json xs = map (\<lambda>x. raw_json (json_norm x)) xs" by simp
  then show ?case by (simp only: compact_json.simps json_norm.simps raw_json.simps map_map comp_def)
next
  case (6 xs)
  then have "map compact_json xs = map (\<lambda>x. raw_json (json_norm x)) xs" by simp
  then show ?case by (simp only: compact_json.simps json_norm.simps raw_json.simps map_map comp_def)
next
  case (7 kvs)
  then have "map (\<lambda>(k, v). (k, compact_json v)) kvs =
      map (\<lambda>(k, v). (k, raw_json v)) (map (\<lambda>(k, v). (k, json_norm v)) kvs)"
    by (auto split: prod.splits)
  then have "sort_key fst (map (\<lambda>(k, v). (k, compact_json v)) kvs) =
      map (\<lambda>(k, v). (k, raw_json v)) (sort_key fst (map (\<lambda>(k, v). (k, json_norm v)) kvs))"
    by (simp only: sort_key_map_snd)
  then show ?case
    by (simp only: compact_json.simps json_norm.simps raw_json.simps map_map)
       (simp add: comp_def case_prod_beta')
qed auto

lemma no_tuple_norm: "no_tuple (json_norm v)"
  by (induction v rule: json_norm.induct) (auto simp: list_all_iff split: prod.splits)

lemma json_norm_idem: "json_norm (json_norm v) = json_norm v"
proof (induction v rule: json_norm.induct)
  case (3 kvs)
  let ?f = "\<lambda>(k, v). (k, json_norm v)"
  from 3 have eq: "map ?f (map ?f kvs) = map ?f kvs"
    by (auto split: prod.splits)
  have "map ?f (sort_key fst (map ?f kvs)) = sort_key fst (map ?f kvs)"
    by (simp only: sort_key_map_snd[symmetric] eq)
  moreover have "sort_key fst (sort_key fst (map ?f kvs)) = sort_key fst (map ?f kvs)"
    by (rule sort_key_id_if_sorted) simp
  ultimately show ?case by (simp only: json_norm.simps)
qed auto

section \<open>Characters and numbers can be read back\<close>

definition hex_value :: "char \<Rightarrow> nat" where
  "hex_value c = length (takeWhile (\<lambda>d. d \<noteq> c) ''0123456789abcdef'')"

lemma hex_value_digit [simp]: "hex_value (hex_digit n) = n mod 16"
proof -
  have "\<forall>m \<in> set [0..<16]. hex_value (''0123456789abcdef'' ! m) = m" by code_simp
  then show ?thesis unfolding hex_digit_def by simp
qed

definition read_char :: "string \<Rightarrow> char \<times> string" where
  "read_char s = (case s of c # t \<Rightarrow>
     if c \<noteq> CHR 0x5C then (c, t)
     else (case t of d # u \<Rightarrow>
       if d = CHR ''n'' then (CHR 0x0A, u) else if d = CHR ''r'' then (CHR 0x0D, u)
       else if d = CHR ''t'' then (CHR 0x09, u) else if d = CHR ''b'' then (CHR 0x08, u)
       else if d = CHR ''f'' then (CHR 0x0C, u)
       else if d = CHR ''u'' then
         (char_of (16 * hex_value (u ! 2) + hex_value (u ! 3)), drop 4 u)
       else (d, u)))"

lemma char_of_hex: "char_of (16 * (of_char c div 16 mod 16) + of_char c mod 16 :: nat) = c"
proof -
  have "(of_char c :: nat) < 256" by (rule nat_of_char_less_256)
  then have "of_char c div 16 < (16 :: nat)" by (simp add: less_mult_imp_div_less)
  then have "16 * (of_char c div 16 mod 16) + of_char c mod 16 = (of_char c :: nat)"
    by (simp only: mod_less mult_div_mod_eq)
  then show ?thesis by simp
qed

lemma read_json_char: "read_char (json_char c @ r) = (c, r)"
  unfolding json_char_def Let_def by (auto simp: read_char_def char_of_hex)

lemma json_char_prefix:
  "json_char c @ r = json_char d @ s \<Longrightarrow> c = d \<and> r = s"
  by (metis read_json_char prod.inject)

lemma json_char_no_quote: "json_char c \<noteq> [] \<and> hd (json_char c) \<noteq> CHR 0x22"
proof -
  have "c \<noteq> CHR 0x22 \<Longrightarrow> json_char c \<noteq> [] \<and> hd (json_char c) \<noteq> CHR 0x22"
    unfolding json_char_def Let_def by auto
  moreover have "hd (json_char (CHR 0x22)) \<noteq> CHR 0x22" by code_simp
  ultimately show ?thesis by (cases "c = CHR 0x22") (auto simp: json_char_def)
qed

lemma json_chars_prefix:
  "concat (map json_char a) @ CHR 0x22 # r = concat (map json_char b) @ CHR 0x22 # s
     \<Longrightarrow> a = b \<and> r = s"
proof (induction a arbitrary: b)
  case Nil
  show ?case
  proof (cases b)
    case Nil
    with \<open>concat (map json_char []) @ _ = _\<close> show ?thesis by simp
  next
    case (Cons d b')
    with Nil json_char_no_quote[of d] show ?thesis by (cases "json_char d") auto
  qed
next
  case (Cons c a)
  show ?case
  proof (cases b)
    case Nil
    with Cons.prems json_char_no_quote[of c] show ?thesis by (cases "json_char c") auto
  next
    case (Cons d b')
    with Cons.prems have "json_char c @ (concat (map json_char a) @ CHR 0x22 # r) =
        json_char d @ (concat (map json_char b') @ CHR 0x22 # s)" by simp
    then have "c = d" "concat (map json_char a) @ CHR 0x22 # r =
        concat (map json_char b') @ CHR 0x22 # s"
      by (auto dest: json_char_prefix)
    with Cons.IH Cons show ?thesis by simp
  qed
qed

lemma json_string_prefix: "json_string a @ r = json_string b @ s \<Longrightarrow> a = b \<and> r = s"
  using json_chars_prefix[of a r b s] unfolding json_string_def by simp

definition digits_value :: "string \<Rightarrow> nat" where
  "digits_value s = foldl (\<lambda>n c. 10 * n + hex_value c) 0 s"

lemma digits_value_nat_str [simp]: "digits_value (nat_str n) = n"
proof (induction n rule: nat_str.induct)
  case (1 n)
  then show ?case by (subst nat_str.simps) (simp add: digits_value_def)
qed

definition decimal :: "char \<Rightarrow> bool" where
  "decimal c \<longleftrightarrow> c \<in> set ''0123456789''"

lemma hex_digit_decimal: "n < 10 \<Longrightarrow> decimal (hex_digit n)"
proof -
  have "\<forall>m \<in> set [0..<10]. decimal (hex_digit m)" by code_simp
  then show "n < 10 \<Longrightarrow> decimal (hex_digit n)" by simp
qed

lemma nat_str_decimal: "nat_str n \<noteq> [] \<and> list_all decimal (nat_str n)"
proof (induction n rule: nat_str.induct)
  case (1 n)
  then show ?case by (subst (1 2) nat_str.simps) (simp add: hex_digit_decimal)
qed

lemma int_str_inj: "int_str i = int_str j \<Longrightarrow> i = j"
proof -
  assume a: "int_str i = int_str j"
  have neg: "nat_str n \<noteq> CHR ''-'' # t" for n t
    using nat_str_decimal[of n] by (auto simp: decimal_def)
  from a show "i = j"
    unfolding int_str_def
    by (auto split: if_splits dest!: arg_cong[where f = digits_value] simp: neg neg[symmetric])
qed

lemma int_str_chars:
  "int_str i \<noteq> [] \<and> list_all (\<lambda>c. decimal c \<or> c = CHR ''-'') (int_str i)"
  using nat_str_decimal[of "nat i"] nat_str_decimal[of "nat (- i)"]
  unfolding int_str_def by (auto simp: list_all_iff)

section \<open>The text determines the normal form\<close>

text \<open>What may follow a value inside a text.\<close>

definition ends :: "string \<Rightarrow> bool" where
  "ends r \<longleftrightarrow> r = [] \<or> hd r \<in> set '',]'' \<or> hd r = CHR 0x7D"

lemma ends_simps [simp]:
  "ends []" "ends (CHR '','' # r)" "ends (CHR '']'' # r)" "ends (CHR 0x7D # r)"
  by (simp_all add: ends_def)

lemma int_str_prefix:
  assumes "int_str i @ r = int_str j @ s" "ends r" "ends s"
  shows "i = j \<and> r = s"
proof -
  let ?P = "\<lambda>c. decimal c \<or> c = CHR ''-''"
  have tw: "takeWhile ?P (int_str i @ r) = int_str i" if "ends r" for i r
  proof -
    have "takeWhile ?P r = []"
      using that by (cases r) (auto simp: ends_def decimal_def)
    then show ?thesis
      using int_str_chars[of i] by (simp add: list_all_iff takeWhile_append2)
  qed
  from assms tw have "int_str i = int_str j" by metis
  with int_str_inj assms(1) show ?thesis by auto
qed

lemma join_tail: "join [c] (x # xs) = x @ concat (map (\<lambda>y. c # y) xs)"
  by (induction xs arbitrary: x) auto

definition prefix_ok :: "('a \<Rightarrow> string) \<Rightarrow> 'a \<Rightarrow> 'a \<Rightarrow> bool" where
  "prefix_ok f x y \<longleftrightarrow>
     (\<forall>r s. ends r \<longrightarrow> ends s \<longrightarrow> f x @ r = f y @ s \<longrightarrow> x = y \<and> r = s)"

lemma tail_prefix:
  assumes "\<And>x y. x \<in> set xs \<Longrightarrow> y \<in> set ys \<Longrightarrow> prefix_ok f x y"
    and "concat (map (\<lambda>x. CHR '','' # f x) xs) @ e # r =
      concat (map (\<lambda>x. CHR '','' # f x) ys) @ e # s"
    and "e = CHR '']'' \<or> e = CHR 0x7D"
  shows "xs = ys \<and> r = s"
  using assms(1,2)
proof (induction xs arbitrary: ys)
  case Nil
  then show ?case using assms(3) by (cases ys) auto
next
  case (Cons x xs)
  show ?case
  proof (cases ys)
    case Nil
    with Cons.prems assms(3) show ?thesis by auto
  next
    case ys: (Cons y ys')
    let ?t = "\<lambda>zs q. concat (map (\<lambda>x. CHR '','' # f x) zs) @ e # q"
    have e: "ends (?t zs q)" for zs q using assms(3) by (cases zs) auto
    from Cons.prems(2) ys have "f x @ ?t xs r = f y @ ?t ys' s" by simp
    with Cons.prems(1)[of x y] ys e have "x = y" "?t xs r = ?t ys' s"
      unfolding prefix_ok_def by auto
    with Cons.IH[of ys'] Cons.prems(1) ys show ?thesis by simp
  qed
qed

lemma join_prefix:
  assumes "\<And>x y. x \<in> set xs \<Longrightarrow> y \<in> set ys \<Longrightarrow> prefix_ok f x y"
    and "\<And>x. x \<in> set xs \<union> set ys \<Longrightarrow> f x \<noteq> [] \<and> hd (f x) \<noteq> e"
    and "join '','' (map f xs) @ e # r = join '','' (map f ys) @ e # s"
    and "e = CHR '']'' \<or> e = CHR 0x7D"
  shows "xs = ys \<and> r = s"
proof (cases xs)
  case Nil
  then show ?thesis
    using assms(2)[of "hd ys"] assms(3) by (cases ys; cases "f (hd ys)") (auto simp: join_tail)
next
  case xs: (Cons x xs')
  show ?thesis
  proof (cases ys)
    case Nil
    then show ?thesis
      using assms(2)[of x] assms(3) xs by (cases "f x") (auto simp: join_tail)
  next
    case ys: (Cons y ys')
    let ?t = "\<lambda>zs q. concat (map (\<lambda>x. CHR '','' # f x) zs) @ e # q"
    have e: "ends (?t zs q)" for zs q using assms(4) by (cases zs) auto
    from assms(3) xs ys have "f x @ ?t xs' r = f y @ ?t ys' s"
      by (simp add: join_tail comp_def)
    with assms(1)[of x y] xs ys e have "x = y" "?t xs' r = ?t ys' s"
      unfolding prefix_ok_def by auto
    with tail_prefix[of xs' ys' f e r s] assms(1,4) xs ys show ?thesis by simp
  qed
qed

definition first_kind :: "char \<Rightarrow> nat" where
  "first_kind c = (if c = CHR ''n'' then 0 else if c = CHR ''t'' \<or> c = CHR ''f'' then 1
     else if c = CHR 0x22 then 3 else if c = CHR ''['' then 4 else if c = CHR 0x7B then 5
     else if decimal c \<or> c = CHR ''-'' then 2 else 6)"

fun val_kind :: "val \<Rightarrow> nat" where
  "val_kind VNone = 0" | "val_kind (VBool _) = 1" | "val_kind (VInt _) = 2"
| "val_kind (VStr _) = 3" | "val_kind (VTuple _) = 4" | "val_kind (VList _) = 4"
| "val_kind (VDict _) = 5"

lemma raw_json_kind: "raw_json v \<noteq> [] \<and> first_kind (hd (raw_json v)) = val_kind v"
proof (cases v)
  case (VInt i)
  obtain c t where t: "int_str i = c # t" and c: "decimal c \<or> c = CHR ''-''"
    using int_str_chars[of i] by (cases "int_str i") auto
  from c have "first_kind c = 2" unfolding first_kind_def decimal_def by auto
  with t VInt show ?thesis by simp
qed (auto simp: first_kind_def json_string_def)

lemma raw_json_same_kind:
  assumes "raw_json v @ r = raw_json w @ s"
  shows "val_kind v = val_kind w"
  by (metis assms hd_append2 raw_json_kind)

lemma raw_json_not_end: "raw_json v \<noteq> [] \<and> hd (raw_json v) \<noteq> CHR '']'' \<and> hd (raw_json v) \<noteq> CHR 0x7D"
proof -
  have "val_kind v \<noteq> 6" by (cases v) auto
  moreover have "first_kind (CHR '']'') = 6" "first_kind (CHR 0x7D) = 6" by code_simp+
  ultimately show ?thesis using raw_json_kind[of v] by metis
qed

lemma raw_json_prefix_ok:
  "no_tuple v \<Longrightarrow> no_tuple w \<Longrightarrow> prefix_ok raw_json v w"
proof (induction v arbitrary: w rule: raw_json.induct)
  case (6 xs)
  show ?case unfolding prefix_ok_def
  proof (intro allI impI)
    fix r s
    assume e: "ends r" "ends s" and eq: "raw_json (VList xs) @ r = raw_json w @ s"
    from raw_json_same_kind[OF eq] \<open>no_tuple w\<close> obtain ys where w: "w = VList ys"
      by (cases w) auto
    have "prefix_ok raw_json x y" if "x \<in> set xs" "y \<in> set ys" for x y
      using 6 that w by (simp add: list_all_iff)
    from join_prefix[of xs ys raw_json "CHR '']''" r s, OF this] raw_json_not_end eq w
    show "VList xs = w \<and> r = s" by simp
  qed
next
  case (7 kvs)
  let ?f = "\<lambda>(k, v). json_string k @ '':'' @ raw_json v"
  show ?case unfolding prefix_ok_def
  proof (intro allI impI)
    fix r s
    assume e: "ends r" "ends s" and eq: "raw_json (VDict kvs) @ r = raw_json w @ s"
    from raw_json_same_kind[OF eq] \<open>no_tuple w\<close> obtain ys where w: "w = VDict ys"
      by (cases w) auto
    have "prefix_ok ?f x y" if xy: "x \<in> set kvs" "y \<in> set ys" for x y
    proof (cases x; cases y)
      fix k v k' v' assume x: "x = (k, v)" and y: "y = (k', v')"
      have ok: "prefix_ok raw_json v v'"
        using 7 xy w x y by (auto simp: list_all_iff split: prod.splits)
      show ?thesis unfolding prefix_ok_def
      proof (intro allI impI)
        fix r s assume "ends r" "ends s" "?f x @ r = ?f y @ s"
        with x y have "json_string k @ (CHR '':'' # raw_json v @ r) =
            json_string k' @ (CHR '':'' # raw_json v' @ s)" by simp
        from json_string_prefix[OF this] have "k = k'" "raw_json v @ r = raw_json v' @ s" by simp_all
        with ok \<open>ends r\<close> \<open>ends s\<close> x y show "x = y \<and> r = s" unfolding prefix_ok_def by simp
      qed
    qed
    moreover have "?f x \<noteq> [] \<and> hd (?f x) \<noteq> CHR 0x7D" for x
      by (auto simp: json_string_def split: prod.splits)
    moreover from eq w have "join '','' (map ?f kvs) @ CHR 0x7D # r = join '','' (map ?f ys) @ CHR 0x7D # s"
      by simp
    ultimately have "kvs = ys \<and> r = s" using join_prefix[of kvs ys ?f "CHR 0x7D" r s] by blast
    with w show "VDict kvs = w \<and> r = s" by simp
  qed
next
  case (3 i)
  show ?case unfolding prefix_ok_def
  proof (intro allI impI)
    fix r s
    assume e: "ends r" "ends s" and eq: "raw_json (VInt i) @ r = raw_json w @ s"
    from raw_json_same_kind[OF eq] obtain j where "w = VInt j" by (cases w) auto
    with int_str_prefix[of i r j s] e eq show "VInt i = w \<and> r = s" by simp
  qed
next
  case (4 a)
  show ?case unfolding prefix_ok_def
  proof (intro allI impI)
    fix r s
    assume eq: "raw_json (VStr a) @ r = raw_json w @ s"
    from raw_json_same_kind[OF eq] obtain b where "w = VStr b" by (cases w) auto
    with json_string_prefix[of a r b s] eq show "VStr a = w \<and> r = s" by simp
  qed
next
  case 1
  show ?case unfolding prefix_ok_def
  proof (intro allI impI)
    fix r s
    assume eq: "raw_json VNone @ r = raw_json w @ s"
    from raw_json_same_kind[OF eq] have "w = VNone" by (cases w) auto
    with eq show "VNone = w \<and> r = s" by simp
  qed
next
  case (2 b)
  show ?case unfolding prefix_ok_def
  proof (intro allI impI)
    fix r s
    assume eq: "raw_json (VBool b) @ r = raw_json w @ s"
    from raw_json_same_kind[OF eq] obtain c where "w = VBool c" by (cases w) auto
    with eq show "VBool b = w \<and> r = s" by (auto split: if_splits)
  qed
qed simp

lemma compact_json_eq_iff: "compact_json v = compact_json w \<longleftrightarrow> json_norm v = json_norm w"
proof
  assume "compact_json v = compact_json w"
  then have "raw_json (json_norm v) @ [] = raw_json (json_norm w) @ []"
    by (simp add: compact_json_norm)
  with raw_json_prefix_ok[OF no_tuple_norm no_tuple_norm, of v w] show "json_norm v = json_norm w"
    unfolding prefix_ok_def by (meson ends_simps(1))
qed (simp add: compact_json_norm)

end
