(* ===== verification/PlanAst.thy ===== *)
theory PlanAst
  imports Json Runtime
begin

text \<open>
  \<open>persistence.plan._ast\<close>, \<open>_parse\<close> and \<open>_walk\<close>: the plan tree, its construction
  checks and content address, the conversions between plans and EDN vectors, and the
  depth-first walker. Attribute values are the JSON-native values; the digest
  (SHA-256 of a text, in hexadecimal) and the EDN reader are parameters.
\<close>

section \<open>Nodes\<close>

datatype node = Node (n_tag: string) (n_attrs: "val dict") (n_children: "node list")

definition attr_key_ok :: "string \<Rightarrow> bool" where
  "attr_key_ok k \<longleftrightarrow> k \<noteq> [] \<and> k \<noteq> ''id'' \<and> k \<noteq> '':id'' \<and> \<not> startswith '':'' k"

definition mk_node :: "string \<Rightarrow> val dict \<Rightarrow> node list \<Rightarrow> err + node" where
  "mk_node tag attrs children =
     (if \<not> startswith '':'' tag then Inl ValueError
      else if \<not> list_all (attr_key_ok \<circ> fst) attrs then Inl ValueError
      else Inr (Node tag attrs children))"

text \<open>What the constructor guarantees for a tree built with it.\<close>

fun node_ok :: "node \<Rightarrow> bool" where
  "node_ok (Node tag attrs children) \<longleftrightarrow>
     startswith '':'' tag \<and> list_all (attr_key_ok \<circ> fst) attrs \<and> distinct (map fst attrs) \<and>
     list_all node_ok children"

lemma mk_node_Inr:
  "mk_node tag attrs children = Inr n \<longleftrightarrow>
     startswith '':'' tag \<and> list_all (attr_key_ok \<circ> fst) attrs \<and> n = Node tag attrs children"
  by (auto simp: mk_node_def)

section \<open>Content address\<close>

fun coerce_value :: "val \<Rightarrow> val" where
  "coerce_value (VDict kvs) = VDict (map (\<lambda>(k, v). (k, coerce_value v)) kvs)"
| "coerce_value (VList xs) = VList (map coerce_value xs)"
| "coerce_value (VTuple xs) = VList (map coerce_value xs)"
| "coerce_value v = v"

fun canonical_dict :: "node \<Rightarrow> val" where
  "canonical_dict (Node tag attrs children) =
     VDict [(''tag'', VStr tag), (''attrs'', coerce_value (VDict attrs)),
       (''children'', VList (map canonical_dict children))]"

definition ID_HEX_WIDTH :: nat where
  "ID_HEX_WIDTH = 32"

definition node_id :: "(string \<Rightarrow> string) \<Rightarrow> node \<Rightarrow> string" where
  "node_id sha n = take ID_HEX_WIDTH (sha (compact_json (canonical_dict n)))"

text \<open>What the address forgets: the order of attribute keys, tuples against lists.\<close>

fun node_norm :: "node \<Rightarrow> node" where
  "node_norm (Node tag attrs children) =
     Node tag (sort_key fst (map (\<lambda>(k, v). (k, json_norm v)) attrs)) (map node_norm children)"

lemma json_norm_coerce: "json_norm (coerce_value v) = json_norm v"
  by (induction v rule: coerce_value.induct) (auto split: prod.splits intro!: arg_cong[where f = "sort_key fst"])

lemma sort_three:
  "sort_key fst [(''tag'', t), (''attrs'', a), (''children'', c)] =
     [(''attrs'', a), (''children'', c), (''tag'', t)]"
  by simp

lemma json_norm_canonical_dict:
  "json_norm (canonical_dict (Node tag attrs children)) =
     VDict [(''attrs'', json_norm (VDict attrs)), (''children'', VList (map (json_norm \<circ> canonical_dict) children)),
       (''tag'', VStr tag)]"
  by (simp add: sort_three json_norm_coerce del: coerce_value.simps)

lemma canonical_dict_eq_iff:
  "json_norm (canonical_dict m) = json_norm (canonical_dict n) \<longleftrightarrow> node_norm m = node_norm n"
proof (induction m arbitrary: n)
  case (Node tag attrs children)
  obtain tag' attrs' children' where n: "n = Node tag' attrs' children'" by (cases n)
  have "map (json_norm \<circ> canonical_dict) children = map (json_norm \<circ> canonical_dict) children' \<longleftrightarrow>
      map node_norm children = map node_norm children'"
    using Node
  proof (induction children arbitrary: children')
    case (Cons c cs)
    then show ?case by (cases children') auto
  qed simp
  then show ?case unfolding n json_norm_canonical_dict by auto
qed

text \<open>A digest without collisions on the canonical texts of two plans.\<close>

definition collision_free :: "(string \<Rightarrow> string) \<Rightarrow> node set \<Rightarrow> bool" where
  "collision_free sha ns \<longleftrightarrow> inj_on (\<lambda>s. take ID_HEX_WIDTH (sha s))
     ((compact_json \<circ> canonical_dict) ` ns)"

lemma node_id_eq_iff:
  assumes "collision_free sha ns" "m \<in> ns" "n \<in> ns"
  shows "node_id sha m = node_id sha n \<longleftrightarrow> node_norm m = node_norm n"
proof -
  have "node_id sha m = node_id sha n \<longleftrightarrow>
      compact_json (canonical_dict m) = compact_json (canonical_dict n)"
    using assms unfolding collision_free_def node_id_def by (auto dest: inj_onD)
  then show ?thesis by (simp add: compact_json_eq_iff canonical_dict_eq_iff)
qed

section \<open>The walker\<close>

text \<open>A loop over a list in the effect monad.\<close>

fun io_each :: "('a \<Rightarrow> ('w, 'b) io) \<Rightarrow> 'a list \<Rightarrow> ('w, 'b list) io" where
  "io_each f [] = io_return []"
| "io_each f (x # xs) = io_bind (f x) (\<lambda>y. io_bind (io_each f xs) (\<lambda>ys. io_return (y # ys)))"

lemma io_each_cong [fundef_cong]:
  assumes "xs = ys" and "\<And>x. x \<in> set ys \<Longrightarrow> f x = g x"
  shows "io_each f xs = io_each g ys"
  using assms by (induction xs arbitrary: ys) auto

definition UNIMPLEMENTED_KINDS :: "string list" where
  "UNIMPLEMENTED_KINDS = ['':code'', '':branch'']"

definition unimplemented_leaf :: "node \<Rightarrow> bool" where
  "unimplemented_leaf n \<longleftrightarrow> n_tag n \<in> set UNIMPLEMENTED_KINDS \<and> n_children n = []"

type_synonym 'w visitor = "node \<Rightarrow> string list \<Rightarrow> ('w, unit) io"

fun walk_recursive :: "(string \<Rightarrow> string) \<Rightarrow> 'w visitor \<Rightarrow> string list \<Rightarrow> node \<Rightarrow> ('w, string list) io" where
  "walk_recursive sha visitor path (Node tag attrs children) =
     (if unimplemented_leaf (Node tag attrs children) then io_raise UnimplementedNodeKind
      else io_bind (visitor (Node tag attrs children) (path @ [tag])) (\<lambda>_.
        io_bind (io_each (walk_recursive sha visitor (path @ [tag])) children) (\<lambda>traces.
          io_return (node_id sha (Node tag attrs children) # concat traces))))"

definition walk :: "(string \<Rightarrow> string) \<Rightarrow> 'w visitor \<Rightarrow> node \<Rightarrow> ('w, string list) io" where
  "walk sha visitor node = walk_recursive sha visitor [] node"

text \<open>The reference: the nodes with their breadcrumbs, parents before children.\<close>

fun preorder :: "string list \<Rightarrow> node \<Rightarrow> (node \<times> string list) list" where
  "preorder path (Node tag attrs children) =
     (Node tag attrs children, path @ [tag]) # concat (map (preorder (path @ [tag])) children)"

definition subnodes :: "node \<Rightarrow> node list" where
  "subnodes n = map fst (preorder [] n)"

definition io_iter :: "('a \<Rightarrow> ('w, unit) io) \<Rightarrow> 'a list \<Rightarrow> ('w, unit) io" where
  "io_iter f xs = foldr (\<lambda>x m. io_bind (f x) (\<lambda>_. m)) xs (io_return ())"

definition visit_list ::
  "(string \<Rightarrow> string) \<Rightarrow> 'w visitor \<Rightarrow> (node \<times> string list) list \<Rightarrow> ('w, string list) io" where
  "visit_list sha visitor nps =
     io_bind (io_iter (\<lambda>(n, p). visitor n p) (takeWhile (\<lambda>(n, p). \<not> unimplemented_leaf n) nps)) (\<lambda>_.
       if list_all (\<lambda>(n, p). \<not> unimplemented_leaf n) nps
       then io_return (map (node_id sha \<circ> fst) nps) else io_raise UnimplementedNodeKind)"

lemma io_bind_assoc: "io_bind (io_bind m f) g = io_bind m (\<lambda>x. io_bind (f x) g)"
  by (rule ext) (simp add: io_bind_def split: prod.splits sum.splits)

lemma io_bind_return [simp]: "io_bind (io_return x) f = f x" "io_bind m io_return = m"
  "io_bind (io_raise e) f = io_raise e"
  by (auto simp: io_bind_def fun_eq_iff split: prod.splits sum.splits)

lemma io_iter_simps [simp]:
  "io_iter f [] = io_return ()" "io_iter f (x # xs) = io_bind (f x) (\<lambda>_. io_iter f xs)"
  by (simp_all add: io_iter_def)

lemma io_iter_append: "io_iter f (xs @ ys) = io_bind (io_iter f xs) (\<lambda>_. io_iter f ys)"
  by (induction xs) (simp_all add: io_bind_assoc del: io_simps)

lemma visit_list_Nil [simp]: "visit_list sha visitor [] = io_return []"
  by (simp add: visit_list_def del: io_simps)

lemma visit_list_append:
  "visit_list sha visitor (xs @ ys) =
     io_bind (visit_list sha visitor xs) (\<lambda>a. io_bind (visit_list sha visitor ys) (\<lambda>b. io_return (a @ b)))"
proof (cases "list_all (\<lambda>(n, p). \<not> unimplemented_leaf n) xs")
  case True
  then have tw1: "takeWhile (\<lambda>(n, p). \<not> unimplemented_leaf n) (xs @ ys) =
      xs @ takeWhile (\<lambda>(n, p). \<not> unimplemented_leaf n) ys"
    by (auto simp: list_all_iff takeWhile_append2)
  from True have tw2: "takeWhile (\<lambda>(n, p). \<not> unimplemented_leaf n) xs = xs"
    by (auto simp: list_all_iff takeWhile_eq_all_conv)
  from True show ?thesis
    by (simp add: tw1 tw2 visit_list_def io_iter_append io_bind_assoc del: io_simps)
next
  case False
  then obtain x where "x \<in> set xs" "\<not> (\<lambda>(n, p). \<not> unimplemented_leaf n) x"
    by (auto simp: list_all_iff)
  then have "takeWhile (\<lambda>(n, p). \<not> unimplemented_leaf n) (xs @ ys) =
      takeWhile (\<lambda>(n, p). \<not> unimplemented_leaf n) xs"
    by (rule takeWhile_append1)
  with False show ?thesis by (simp add: visit_list_def io_bind_assoc del: io_simps)
qed

lemma visit_list_Cons:
  "visit_list sha visitor ((n, p) # ys) =
     (if unimplemented_leaf n then io_raise UnimplementedNodeKind
      else io_bind (visitor n p) (\<lambda>_. io_bind (visit_list sha visitor ys) (\<lambda>b.
        io_return (node_id sha n # b))))"
proof -
  have "visit_list sha visitor [(n, p)] =
      (if unimplemented_leaf n then io_raise UnimplementedNodeKind
       else io_bind (visitor n p) (\<lambda>_. io_return [node_id sha n]))"
    by (simp add: visit_list_def io_bind_assoc del: io_simps)
  then show ?thesis
    using visit_list_append[of sha visitor "[(n, p)]" ys] by (simp add: io_bind_assoc del: io_simps)
qed

lemma walk_recursive_visits:
  "walk_recursive sha visitor path n = visit_list sha visitor (preorder path n)"
proof (induction n arbitrary: path)
  case (Node tag attrs children)
  have "io_bind (io_each (walk_recursive sha visitor (path @ [tag])) children)
      (\<lambda>traces. io_return (concat traces)) =
      visit_list sha visitor (concat (map (preorder (path @ [tag])) children))"
    using Node
  proof (induction children)
    case (Cons c cs)
    have IH: "io_bind (io_each (walk_recursive sha visitor (path @ [tag])) cs)
        (\<lambda>traces. io_return (concat traces)) =
        visit_list sha visitor (concat (map (preorder (path @ [tag])) cs))"
      using Cons by (simp del: io_simps)
    show ?case
      using Cons.prems[of c] by (simp add: visit_list_append io_bind_assoc del: io_simps flip: IH)
  qed (simp del: io_simps)
  then show ?case
    by (simp add: visit_list_Cons io_bind_assoc del: io_simps flip: \<open>_ = visit_list _ _ _\<close>)
qed

end
