(* ===== verification/PlanExec.thy ===== *)
theory PlanExec
  imports PlanAst "HOL-Library.Multiset"
begin

text \<open>
  \<open>persistence.plan._dispatch\<close>, \<open>_execute\<close> and \<open>_metric_registry\<close>: handler
  dispatch over a plan, the execution envelope that records failures instead of raising
  them, and the canonical hash of a training set. A handler is a computation over the world
  (which holds the shared \<open>env\<close> dictionary and everything else a handler touches).
\<close>

section \<open>Dispatcher\<close>

type_synonym 'w node_handler = "node \<Rightarrow> ('w, val) io"

type_synonym 'w dispatcher = "string \<Rightarrow> 'w node_handler option"

definition disp_register ::
  "'w dispatcher \<Rightarrow> string \<Rightarrow> 'w node_handler \<Rightarrow> bool \<Rightarrow> err + 'w dispatcher" where
  "disp_register d tag h replace =
     (if d tag \<noteq> None \<and> \<not> replace then Inl ValueError else Inr (d(tag \<mapsto> h)))"

definition has_handler :: "'w dispatcher \<Rightarrow> string \<Rightarrow> bool" where
  "has_handler d tag \<longleftrightarrow> d tag \<noteq> None"

text \<open>The results list is local state of the traversal, beside the world.\<close>

definition io_with :: "('w, 'a) io \<Rightarrow> ('w \<times> 's, 'a) io" where
  "io_with m ws = (case m (fst ws) of (r, w') \<Rightarrow> (r, (w', snd ws)))"

definition dispatch_visitor :: "'w dispatcher \<Rightarrow> ('w \<times> val list) visitor" where
  "dispatch_visitor d n path =
     (case d (n_tag n) of None \<Rightarrow> io_return ()
      | Some h \<Rightarrow> io_bind (io_with (h n)) (\<lambda>r ws. (Inr (), (fst ws, snd ws @ [r]))))"

definition dispatch :: "(string \<Rightarrow> string) \<Rightarrow> 'w dispatcher \<Rightarrow> node \<Rightarrow> ('w, val list) io" where
  "dispatch sha d node w =
     (case walk sha (dispatch_visitor d) node (w, []) of
        (Inl e, ws) \<Rightarrow> (Inl e, fst ws) | (Inr _, ws) \<Rightarrow> (Inr (snd ws), fst ws))"

section \<open>execute\<close>

record leaf_result =
  lr_node_id :: string
  lr_tag :: string
  lr_handler_id :: val
  lr_result :: val

record failure_info =
  fi_node_id :: string
  fi_tag :: string
  fi_error_class :: string
  fi_error_repr :: string

record exec_result =
  er_plan_id :: string
  er_status :: string
  er_leaf_results :: "leaf_result list"
  er_failure :: "failure_info option"

text \<open>What the code reads off an exception: its class name and its \<open>repr\<close>.\<close>

record exc_text =
  xt_class :: "err \<Rightarrow> string"
  xt_repr :: "err \<Rightarrow> string"

type_synonym exec_state = "leaf_result list \<times> failure_info option"

definition leaf_of :: "(string \<Rightarrow> string) \<Rightarrow> node \<Rightarrow> val \<Rightarrow> leaf_result" where
  "leaf_of sha n r = \<lparr>lr_node_id = node_id sha n, lr_tag = n_tag n,
     lr_handler_id = (case dget (n_attrs n) ''handler-id'' of Some v \<Rightarrow> v | None \<Rightarrow> VStr ''<default>''),
     lr_result = r\<rparr>"

definition failure_of :: "exc_text \<Rightarrow> (string \<Rightarrow> string) \<Rightarrow> node \<Rightarrow> err \<Rightarrow> failure_info" where
  "failure_of xt sha n e = \<lparr>fi_node_id = node_id sha n, fi_tag = n_tag n,
     fi_error_class = xt_class xt e, fi_error_repr = xt_repr xt e\<rparr>"

definition execute_visitor ::
  "exc_text \<Rightarrow> (string \<Rightarrow> string) \<Rightarrow> 'w dispatcher \<Rightarrow> ('w \<times> exec_state) visitor" where
  "execute_visitor xt sha d n path ws =
     (case ws of (w, leaf_results, failure) \<Rightarrow>
        if failure \<noteq> None then (Inr (), ws)
        else case d (n_tag n) of None \<Rightarrow> (Inr (), ws)
          | Some h \<Rightarrow> (case h n w of
                (Inl e, w') \<Rightarrow> (Inr (), (w', leaf_results, Some (failure_of xt sha n e)))
              | (Inr r, w') \<Rightarrow> (Inr (), (w', leaf_results @ [leaf_of sha n r], None))))"

definition execute ::
  "exc_text \<Rightarrow> (string \<Rightarrow> string) \<Rightarrow> node \<Rightarrow> 'w dispatcher \<Rightarrow> ('w, exec_result) io" where
  "execute xt sha plan d w =
     (case walk sha (execute_visitor xt sha d) plan (w, [], None) of
        (Inl e, (w', _)) \<Rightarrow> (Inl e, w')
      | (Inr _, (w', leaf_results, failure)) \<Rightarrow>
          (Inr \<lparr>er_plan_id = node_id sha plan,
             er_status = (if failure \<noteq> None then ''failed'' else ''ok''),
             er_leaf_results = leaf_results, er_failure = failure\<rparr>, w'))"

section \<open>Metrics\<close>

text \<open>A metric reference is an id with a version; the registry maps it to a function.\<close>

type_synonym metric_ref = "string \<times> string"

type_synonym 'f metrics = "metric_ref \<Rightarrow> (exec_result \<Rightarrow> val \<Rightarrow> 'f) option"

definition register_metric ::
  "'f metrics \<Rightarrow> metric_ref \<Rightarrow> (exec_result \<Rightarrow> val \<Rightarrow> 'f) \<Rightarrow> bool \<Rightarrow> err + 'f metrics" where
  "register_metric reg ref fn replace =
     (if \<not> replace \<and> reg ref \<noteq> None then Inl ValueError else Inr (reg(ref \<mapsto> fn)))"

definition lookup_metric :: "'f metrics \<Rightarrow> metric_ref \<Rightarrow> err + (exec_result \<Rightarrow> val \<Rightarrow> 'f)" where
  "lookup_metric reg ref = (case reg ref of None \<Rightarrow> Inl MetricNotRegistered | Some fn \<Rightarrow> Inr fn)"

definition unregister_metric :: "'f metrics \<Rightarrow> metric_ref \<Rightarrow> err + 'f metrics" where
  "unregister_metric reg ref =
     (if reg ref = None then Inl MetricNotRegistered else Inr (reg(ref := None)))"

section \<open>Training sets\<close>

definition canonical_example :: "val \<Rightarrow> err + string" where
  "canonical_example ex =
     (case ex of VDict kvs \<Rightarrow>
        if set (map fst kvs) \<noteq> {''inputs'', ''expected''} then Inl ValueError
        else (case (dget kvs ''inputs'', dget kvs ''expected'') of
            (Some (VDict inputs), Some expected) \<Rightarrow>
              Inr (compact_json (VDict [(''inputs'', VDict inputs), (''expected'', expected)]))
          | _ \<Rightarrow> Inl ValueError)
      | _ \<Rightarrow> Inl ValueError)"

definition canonicalize_training_set :: "(string \<Rightarrow> string) \<Rightarrow> val list \<Rightarrow> err + string" where
  "canonicalize_training_set sha training_set =
     ebind (emap canonical_example training_set) (\<lambda>texts.
       Inr (sha (join [CHR 0x0A] (sort texts))))"

end
