(* ===== verification/PlanExecProps.thy ===== *)
theory PlanExecProps
  imports PlanExec
begin

text \<open>
  What \<open>walk\<close>, \<open>dispatch\<close>, \<open>execute\<close> and the training-set hash compute, stated
  against the list of the plan's nodes in pre-order.
\<close>

section \<open>Execution\<close>

text \<open>The reference: run the handlers of a list of nodes, stop at the first exception.\<close>

fun run_nodes :: "'w dispatcher \<Rightarrow> node list \<Rightarrow> 'w \<Rightarrow> ((node \<times> val) list \<times> (node \<times> err) option) \<times> 'w" where
  "run_nodes d [] w = (([], None), w)"
| "run_nodes d (n # ns) w =
     (case d (n_tag n) of None \<Rightarrow> run_nodes d ns w
      | Some h \<Rightarrow> (case h n w of
            (Inl e, w') \<Rightarrow> (([], Some (n, e)), w')
          | (Inr r, w') \<Rightarrow> (case run_nodes d ns w' of ((rs, f), w'') \<Rightarrow> (((n, r) # rs, f), w''))))"

definition implemented :: "node \<Rightarrow> bool" where
  "implemented n \<longleftrightarrow> list_all (\<lambda>m. \<not> unimplemented_leaf m) (subnodes n)"

definition walked :: "node \<Rightarrow> node list" where
  "walked n = takeWhile (\<lambda>m. \<not> unimplemented_leaf m) (subnodes n)"

lemma preorder_split:
  "map fst (takeWhile (\<lambda>(n, p). \<not> unimplemented_leaf n) (preorder [] n)) = walked n"
  "list_all (\<lambda>(n, p). \<not> unimplemented_leaf n) (preorder [] n) \<longleftrightarrow> implemented n"
  by (simp_all add: walked_def implemented_def subnodes_def takeWhile_map comp_def case_prod_beta'
      list_all_iff)

lemma walk_result:
  "walk sha visitor n w =
     (case io_iter (\<lambda>(n, p). visitor n p)
        (takeWhile (\<lambda>(n, p). \<not> unimplemented_leaf n) (preorder [] n)) w of
        (Inl e, w') \<Rightarrow> (Inl e, w')
      | (Inr _, w') \<Rightarrow> (if implemented n then Inr (map (node_id sha) (subnodes n))
          else Inl UnimplementedNodeKind, w'))"
  by (simp add: walk_def walk_recursive_visits visit_list_def io_bind_def preorder_split
      subnodes_def split: prod.splits sum.splits)

lemma execute_visitor_steps:
  "execute_visitor xt sha d n p (w, ls, Some f) = (Inr (), (w, ls, Some f))"
  "d (n_tag n) = None \<Longrightarrow> execute_visitor xt sha d n p (w, ls, None) = (Inr (), (w, ls, None))"
  "d (n_tag n) = Some h \<Longrightarrow> h n w = (Inl e, w') \<Longrightarrow>
     execute_visitor xt sha d n p (w, ls, None) = (Inr (), (w', ls, Some (failure_of xt sha n e)))"
  "d (n_tag n) = Some h \<Longrightarrow> h n w = (Inr r, w') \<Longrightarrow>
     execute_visitor xt sha d n p (w, ls, None) = (Inr (), (w', ls @ [leaf_of sha n r], None))"
  by (simp_all add: execute_visitor_def)

lemma dispatch_visitor_steps:
  "d (n_tag n) = None \<Longrightarrow> dispatch_visitor d n p (w, vs) = (Inr (), (w, vs))"
  "d (n_tag n) = Some h \<Longrightarrow> h n w = (Inl e, w') \<Longrightarrow> dispatch_visitor d n p (w, vs) = (Inl e, (w', vs))"
  "d (n_tag n) = Some h \<Longrightarrow> h n w = (Inr r, w') \<Longrightarrow>
     dispatch_visitor d n p (w, vs) = (Inr (), (w', vs @ [r]))"
  by (simp_all add: dispatch_visitor_def io_with_def io_bind_def)

lemma execute_iter_done:
  "io_iter (\<lambda>(n, p). execute_visitor xt sha d n p) nps (w, ls, Some f) = (Inr (), (w, ls, Some f))"
  by (induction nps) (auto simp: io_bind_def execute_visitor_steps)

lemma execute_iter:
  "io_iter (\<lambda>(n, p). execute_visitor xt sha d n p) nps (w, ls, None) =
     (case run_nodes d (map fst nps) w of ((rs, f), w') \<Rightarrow>
        (Inr (), (w', ls @ map (\<lambda>(n, r). leaf_of sha n r) rs,
           map_option (\<lambda>(n, e). failure_of xt sha n e) f)))"
proof (induction nps arbitrary: w ls)
  case Nil
  then show ?case by simp
next
  case (Cons np nps)
  obtain n p where np: "np = (n, p)" by (cases np)
  show ?case
  proof (cases "d (n_tag n)")
    case None
    with Cons np show ?thesis by (simp add: io_bind_def execute_visitor_steps)
  next
    case (Some h)
    show ?thesis
    proof (cases "h n w")
      case (Pair r w')
      with Some Cons np show ?thesis
        by (cases r) (auto simp: io_bind_def execute_visitor_steps execute_iter_done
            split: prod.splits)
    qed
  qed
qed

lemma execute_run:
  "execute xt sha plan d w =
     (case run_nodes d (walked plan) w of ((rs, f), w') \<Rightarrow>
        (if implemented plan
         then Inr \<lparr>er_plan_id = node_id sha plan,
           er_status = (if f = None then ''ok'' else ''failed''),
           er_leaf_results = map (\<lambda>(n, r). leaf_of sha n r) rs,
           er_failure = map_option (\<lambda>(n, e). failure_of xt sha n e) f\<rparr>
         else Inl UnimplementedNodeKind, w'))"
  unfolding execute_def walk_result execute_iter preorder_split
  by (auto split: prod.splits)

text \<open>C15. \<open>execute\<close> runs the registered handlers in pre-order and stops at the first
  exception, which becomes the failure record of the envelope next to the results collected
  so far; nodes without a handler are skipped. It raises exactly when the plan has a
  childless \<open>:code\<close> or \<open>:branch\<close> node, and then the handlers of the nodes before it
  have run and their results, or their failure, are lost.\<close>

theorem execute_runs_preorder:
  "execute xt sha plan d w =
     (case run_nodes d (walked plan) w of ((rs, f), w') \<Rightarrow>
        (if implemented plan
         then Inr \<lparr>er_plan_id = node_id sha plan,
           er_status = (if f = None then ''ok'' else ''failed''),
           er_leaf_results = map (\<lambda>(n, r). leaf_of sha n r) rs,
           er_failure = map_option (\<lambda>(n, e). failure_of xt sha n e) f\<rparr>
         else Inl UnimplementedNodeKind, w'))"
  by (rule execute_run)

lemma dispatch_iter:
  "io_iter (\<lambda>(n, p). dispatch_visitor d n p) nps (w, vs) =
     (case run_nodes d (map fst nps) w of ((rs, f), w') \<Rightarrow>
        (case f of None \<Rightarrow> Inr () | Some (n, e) \<Rightarrow> Inl e, (w', vs @ map snd rs)))"
proof (induction nps arbitrary: w vs)
  case Nil
  then show ?case by simp
next
  case (Cons np nps)
  obtain n p where np: "np = (n, p)" by (cases np)
  show ?case
  proof (cases "d (n_tag n)")
    case None
    with Cons np show ?thesis by (simp add: io_bind_def dispatch_visitor_steps)
  next
    case (Some h)
    show ?thesis
    proof (cases "h n w")
      case (Pair r w')
      with Some Cons np show ?thesis
        by (cases r) (auto simp: io_bind_def dispatch_visitor_steps split: prod.splits)
    qed
  qed
qed

lemma dispatch_run:
  "dispatch sha d plan w =
     (case run_nodes d (walked plan) w of ((rs, f), w') \<Rightarrow>
        (case f of Some (n, e) \<Rightarrow> Inl e
         | None \<Rightarrow> if implemented plan then Inr (map snd rs) else Inl UnimplementedNodeKind, w'))"
  unfolding dispatch_def walk_result dispatch_iter preorder_split
  by (auto split: prod.splits option.splits)

text \<open>On a plan without childless \<open>:code\<close> and \<open>:branch\<close> nodes \<open>execute\<close> and
  \<open>dispatch\<close> do the same: the same effects on the world, the same results when no handler
  raises, and otherwise \<open>dispatch\<close> raises the very exception that \<open>execute\<close> reports as
  a failed run.\<close>

lemma execute_agrees_with_dispatch:
  assumes "implemented plan"
  shows "snd (execute xt sha plan d w) = snd (dispatch sha d plan w) \<and>
    (case (fst (execute xt sha plan d w), fst (dispatch sha d plan w)) of
        (Inr r, Inr vs) \<Rightarrow> er_status r = ''ok'' \<and> er_failure r = None \<and> map lr_result (er_leaf_results r) = vs
      | (Inr r, Inl e) \<Rightarrow> er_status r = ''failed'' \<and>
          (\<exists>f. er_failure r = Some f \<and> fi_error_class f = xt_class xt e \<and> fi_error_repr f = xt_repr xt e)
      | _ \<Rightarrow> False)"
  using assms unfolding execute_run dispatch_run
  by (auto split: prod.splits option.splits simp: leaf_of_def failure_of_def)

definition failing_dispatcher :: "nat dispatcher" where
  "failing_dispatcher = ['':llm-call'' \<mapsto> (\<lambda>n w. (Inr (VInt (int w)), Suc w)),
     '':tool-call'' \<mapsto> (\<lambda>n w. (Inl RuntimeError, w))]"

definition two_step_plan :: node where
  "two_step_plan = Node '':seq'' [] [Node '':llm-call'' [] [], Node '':tool-call'' [] [],
     Node '':llm-call'' [] []]"

definition plain_exc :: exc_text where
  "plain_exc = \<lparr>xt_class = (\<lambda>_. ''RuntimeError''), xt_repr = (\<lambda>_. ''RuntimeError()'')\<rparr>"

section \<open>Training sets\<close>

lemma json_char_newline: "CHR 0x0A \<notin> set (json_char c)"
proof -
  have h: "hex_digit n \<noteq> CHR 0x0A" for n
  proof -
    have "\<forall>m \<in> set [0..<16]. ''0123456789abcdef'' ! m \<noteq> CHR 0x0A" by code_simp
    then show ?thesis unfolding hex_digit_def by simp
  qed
  show ?thesis
  proof (cases "c = CHR 0x0A")
    case True
    then show ?thesis by (simp add: json_char_def)
  next
    case False
    then show ?thesis unfolding json_char_def Let_def by (simp add: h h[THEN not_sym])
  qed
qed

lemma nat_str_newline: "CHR 0x0A \<notin> set (nat_str n)"
proof -
  have "\<not> decimal (CHR 0x0A)" by code_simp
  with nat_str_decimal[of n] show ?thesis unfolding list_all_iff by blast
qed

lemma join_chars:
  "c \<in> set (join sep xs) \<Longrightarrow> c \<in> set sep \<or> (\<exists>x \<in> set xs. c \<in> set x)"
  by (induction sep xs rule: join.induct) auto

lemma raw_json_newline: "CHR 0x0A \<notin> set (raw_json v)"
proof (induction v rule: raw_json.induct)
  case (3 i)
  then show ?case using nat_str_newline by (auto simp: int_str_def)
next
  case (4 s)
  then show ?case using json_char_newline by (auto simp: json_string_def)
next
  case (5 xs)
  then show ?case by (auto dest!: join_chars)
next
  case (6 xs)
  then show ?case by (auto dest!: join_chars)
next
  case (7 kvs)
  then show ?case using json_char_newline
    by (auto dest!: join_chars simp: json_string_def split: prod.splits)
qed auto

lemma compact_json_line: "CHR 0x0A \<notin> set (compact_json v)" "compact_json v \<noteq> []"
  using raw_json_newline raw_json_kind by (simp_all add: compact_json_norm)

lemma join_lines_inj:
  assumes "join [c] xs = join [c] ys"
    and "\<And>x. x \<in> set xs \<union> set ys \<Longrightarrow> c \<notin> set x \<and> x \<noteq> []"
  shows "xs = ys"
  using assms
proof (induction xs arbitrary: ys)
  case Nil
  then show ?case by (cases ys) (auto simp: join_tail)
next
  case (Cons x xs)
  show ?case
  proof (cases ys)
    case Nil
    with Cons.prems show ?thesis by (auto simp: join_tail)
  next
    case ys: (Cons y ys')
    have tw: "takeWhile (\<lambda>d. d \<noteq> c) (join [c] (z # zs)) = z" if "c \<notin> set z" for z zs
    proof -
      have tz: "takeWhile (\<lambda>d. d \<noteq> c) (z @ r) = z @ takeWhile (\<lambda>d. d \<noteq> c) r" for r
        using that by (intro takeWhile_append2) auto
      show ?thesis
      proof (cases zs)
        case Nil
        then show ?thesis using tz[of "[]"] by simp
      next
        case (Cons y ys)
        then have "join [c] (z # zs) = z @ c # join [c] zs" by simp
        then show ?thesis using tz[of "c # join [c] zs"] by simp
      qed
    qed
    have "x = y" using Cons.prems tw[of x xs] tw[of y ys'] ys by simp
    moreover from this Cons.prems(1) ys have "join [c] xs = join [c] ys'"
      using Cons.prems(2) by (cases xs; cases ys') (auto simp: join_tail)
    with Cons.IH[of ys'] Cons.prems(2) ys have "xs = ys'" by simp
    ultimately show ?thesis using ys by simp
  qed
qed

text \<open>What an accepted example stands for: its inputs and its expected value, up to key
  order and tuples.\<close>

definition example_norm :: "val \<Rightarrow> val" where
  "example_norm ex = (case ex of VDict kvs \<Rightarrow>
     json_norm (VDict [(''inputs'', the (dget kvs ''inputs'')), (''expected'', the (dget kvs ''expected''))])
     | _ \<Rightarrow> VNone)"

lemma canonical_example_Inr:
  assumes "canonical_example ex = Inr t"
  shows "t = raw_json (example_norm ex)"
  using assms unfolding canonical_example_def example_norm_def
  by (auto split: val.splits if_splits option.splits simp del: json_norm.simps simp: compact_json_norm
      simp del: compact_json.simps)

lemma canonical_training_texts:
  assumes "emap canonical_example ts = Inr texts"
  shows "texts = map (raw_json \<circ> example_norm) ts"
  using assms canonical_example_Inr
  by (induction ts arbitrary: texts) (auto simp: ebind_Inr_iff)

lemma no_tuple_example: "no_tuple (example_norm ex)"
  unfolding example_norm_def by (auto split: val.splits simp: no_tuple_norm simp del: json_norm.simps)

lemma sorted_texts_inj:
  assumes "sort (map (raw_json \<circ> example_norm) ts) = sort (map (raw_json \<circ> example_norm) us)"
  shows "image_mset example_norm (mset ts) = image_mset example_norm (mset us)"
proof -
  have inj: "inj_on raw_json (Collect no_tuple)"
    using raw_json_prefix_ok unfolding prefix_ok_def
    by (intro inj_onI) (metis append_Nil2 ends_simps(1) mem_Collect_eq)
  from assms have "mset (map (raw_json \<circ> example_norm) ts) = mset (map (raw_json \<circ> example_norm) us)"
    by (metis mset_sort)
  then have eq: "image_mset raw_json (image_mset example_norm (mset ts)) =
      image_mset raw_json (image_mset example_norm (mset us))"
    by (simp add: image_mset.compositionality)
  have inv: "image_mset (the_inv_into (Collect no_tuple) raw_json)
      (image_mset raw_json (image_mset example_norm M)) = image_mset example_norm M" for M
    unfolding image_mset.compositionality
    by (rule image_mset_cong) (simp add: the_inv_into_f_f[OF inj] no_tuple_example)
  from arg_cong[OF eq, of "image_mset (the_inv_into (Collect no_tuple) raw_json)"] show ?thesis
    unfolding inv .
qed

text \<open>The training-set hash identifies the multiset of examples: two accepted training
  sets have the same hash exactly when they hold the same examples with the same
  multiplicities in any order, key order and tuple/list differences inside an example
  aside (for a digest that does not collide on the two texts).\<close>

lemma training_hash_multiset:
  assumes "canonicalize_training_set sha ts = Inr h" "canonicalize_training_set sha us = Inr h'"
    and "inj_on sha ((\<lambda>xs. join [CHR 0x0A] (sort (map (raw_json \<circ> example_norm) xs))) ` {ts, us})"
  shows "h = h' \<longleftrightarrow> image_mset example_norm (mset ts) = image_mset example_norm (mset us)"
proof -
  let ?p = "\<lambda>xs. join [CHR 0x0A] (sort (map (raw_json \<circ> example_norm) xs))"
  from assms(1,2) have h: "h = sha (?p ts)" "h' = sha (?p us)"
    unfolding canonicalize_training_set_def by (auto simp: ebind_Inr_iff dest: canonical_training_texts)
  have "h = h' \<longleftrightarrow> ?p ts = ?p us"
    unfolding h using inj_on_eq_iff[OF assms(3), of "?p ts" "?p us"] by blast
  also have "\<dots> \<longleftrightarrow> sort (map (raw_json \<circ> example_norm) ts) = sort (map (raw_json \<circ> example_norm) us)"
  proof
    assume "?p ts = ?p us"
    then show "sort (map (raw_json \<circ> example_norm) ts) = sort (map (raw_json \<circ> example_norm) us)"
    proof (rule join_lines_inj)
      fix t
      assume "t \<in> set (sort (map (raw_json \<circ> example_norm) ts)) \<union> set (sort (map (raw_json \<circ> example_norm) us))"
      then obtain ex where "t = raw_json (example_norm ex)" by auto
      then show "CHR 0x0A \<notin> set t \<and> t \<noteq> []" using raw_json_newline raw_json_kind by simp
    qed
  qed simp
  also have "\<dots> \<longleftrightarrow> image_mset example_norm (mset ts) = image_mset example_norm (mset us)"
  proof
    assume "image_mset example_norm (mset ts) = image_mset example_norm (mset us)"
    then have "mset (map (raw_json \<circ> example_norm) ts) = mset (map (raw_json \<circ> example_norm) us)"
      by (metis image_mset.compositionality mset_map)
    then show "sort (map (raw_json \<circ> example_norm) ts) = sort (map (raw_json \<circ> example_norm) us)"
      by (metis sorted_list_of_multiset_mset)
  qed (rule sorted_texts_inj)
  finally show ?thesis .
qed

definition demo_examples :: "val list" where
  "demo_examples = [VDict [(''inputs'', VDict [(''q'', VInt 1)]), (''expected'', VStr ''a'')],
     VDict [(''expected'', VInt 2), (''inputs'', VDict [])]]"

end
