(* ===== verification/PlanEdit.thy ===== *)
theory PlanEdit
  imports PlanAst Txn
begin

text \<open>
  \<open>persistence.plan._edit\<close>: replacing, inserting and deleting steps of a plan inside a
  transaction, each edit queueing one \<open>:plan/edit\<close> intent; and the path addressing of
  \<open>persistence.plan._mcts\<close> (\<open>_resolve_path\<close>, \<open>_replace_at_path\<close>) that says where an
  edit takes place. Nodes are values that have passed their constructor's checks, so
  rebuilding one with other children cannot fail.
\<close>

section \<open>Paths\<close>

fun resolve_node :: "node \<Rightarrow> int list \<Rightarrow> err + node" where
  "resolve_node n [] = Inr n"
| "resolve_node n (i # p) =
     (if i < 0 \<or> i \<ge> int (length (n_children n)) then Inl IndexError
      else resolve_node (n_children n ! nat i) p)"

fun replace_at_path :: "node \<Rightarrow> int list \<Rightarrow> node \<Rightarrow> err + node" where
  "replace_at_path n [] r = Inr r"
| "replace_at_path n (i # p) r =
     (if i < 0 \<or> i \<ge> int (length (n_children n)) then Inl IndexError
      else ebind (replace_at_path (n_children n ! nat i) p r) (\<lambda>c.
        Inr (Node (n_tag n) (n_attrs n)
          (take (nat i) (n_children n) @ [c] @ drop (Suc (nat i)) (n_children n)))))"

section \<open>Searching for a step\<close>

text \<open>The loop over the children: the first one in which the search succeeds is replaced.\<close>

fun first_child :: "(node \<Rightarrow> node \<times> node option) \<Rightarrow> node list \<Rightarrow> node list \<times> node option" where
  "first_child f [] = ([], None)"
| "first_child f (c # cs) =
     (case f c of (c', Some m) \<Rightarrow> (c' # cs, Some m)
      | (_, None) \<Rightarrow> (case first_child f cs of (cs', m) \<Rightarrow> (c # cs', m)))"

lemma first_child_cong [fundef_cong]:
  assumes "cs = ds" and "\<And>c. c \<in> set ds \<Longrightarrow> f c = g c"
  shows "first_child f cs = first_child g ds"
  using assms by (induction cs arbitrary: ds) auto

definition with_children :: "node \<Rightarrow> node list \<times> node option \<Rightarrow> node \<times> node option" where
  "with_children n r = (case r of (_, None) \<Rightarrow> (n, None)
     | (cs, Some m) \<Rightarrow> (Node (n_tag n) (n_attrs n) cs, Some m))"

fun replace_first ::
  "(string \<Rightarrow> string) \<Rightarrow> string \<Rightarrow> (node \<Rightarrow> node) \<Rightarrow> node \<Rightarrow> node \<times> node option" where
  "replace_first sha step_id builder (Node tag attrs children) =
     (if node_id sha (Node tag attrs children) = step_id
      then (builder (Node tag attrs children), Some (Node tag attrs children))
      else with_children (Node tag attrs children)
        (first_child (replace_first sha step_id builder) children))"

definition child_index :: "(string \<Rightarrow> string) \<Rightarrow> string \<Rightarrow> node list \<Rightarrow> nat" where
  "child_index sha step_id children = length (takeWhile (\<lambda>c. node_id sha c \<noteq> step_id) children)"

fun splice_first ::
  "(string \<Rightarrow> string) \<Rightarrow> string \<Rightarrow> (node list \<Rightarrow> nat \<Rightarrow> node list) \<Rightarrow> node \<Rightarrow> node \<times> node option" where
  "splice_first sha step_id splicer (Node tag attrs children) =
     (let idx = child_index sha step_id children in
      if idx < length children
      then (Node tag attrs (splicer children idx), Some (children ! idx))
      else with_children (Node tag attrs children)
        (first_child (splice_first sha step_id splicer) children))"

section \<open>The edits\<close>

definition emit_edit_datom :: "txn \<Rightarrow> string \<Rightarrow> string \<Rightarrow> string \<Rightarrow> string \<Rightarrow> txn" where
  "emit_edit_datom tx plan_id step_id before_op_hash after_op_hash =
     tx_effect tx '':plan/edit'' [(''plan_id'', VStr plan_id), (''step_id'', VStr step_id),
       (''before_op_hash'', VStr before_op_hash), (''after_op_hash'', VStr after_op_hash)]"

definition edit_step ::
  "(string \<Rightarrow> string) \<Rightarrow> bool \<Rightarrow> node \<Rightarrow> string \<Rightarrow> node \<Rightarrow> txn \<Rightarrow> err + node \<times> txn" where
  "edit_step sha in_dosync plan step_id new_op tx =
     (if \<not> in_dosync then Inl PlanEditOutsideDosync
      else case replace_first sha step_id (\<lambda>_. new_op) plan of
          (_, None) \<Rightarrow> Inl StepIdNotFound
        | (new_tree, Some matched) \<Rightarrow>
            Inr (new_tree, emit_edit_datom tx (node_id sha plan) step_id
              (node_id sha matched) (node_id sha new_op)))"

text \<open>The splicing edits record the ids of the old and of the new root.\<close>

definition splice_edit ::
  "(string \<Rightarrow> string) \<Rightarrow> bool \<Rightarrow> (node list \<Rightarrow> nat \<Rightarrow> node list) \<Rightarrow> node \<Rightarrow> string \<Rightarrow> txn \<Rightarrow>
   err + node \<times> txn" where
  "splice_edit sha in_dosync splicer plan step_id tx =
     (if \<not> in_dosync then Inl PlanEditOutsideDosync
      else case splice_first sha step_id splicer plan of
          (_, None) \<Rightarrow> Inl StepIdNotFound
        | (new_tree, Some matched) \<Rightarrow>
            Inr (new_tree, emit_edit_datom tx (node_id sha plan) step_id
              (node_id sha plan) (node_id sha new_tree)))"

definition insert_step_after ::
  "(string \<Rightarrow> string) \<Rightarrow> bool \<Rightarrow> node \<Rightarrow> string \<Rightarrow> node \<Rightarrow> txn \<Rightarrow> err + node \<times> txn" where
  "insert_step_after sha in_dosync plan step_id new_step tx =
     splice_edit sha in_dosync
       (\<lambda>siblings idx. take (idx + 1) siblings @ [new_step] @ drop (idx + 1) siblings) plan step_id tx"

definition insert_step_before ::
  "(string \<Rightarrow> string) \<Rightarrow> bool \<Rightarrow> node \<Rightarrow> string \<Rightarrow> node \<Rightarrow> txn \<Rightarrow> err + node \<times> txn" where
  "insert_step_before sha in_dosync plan step_id new_step tx =
     splice_edit sha in_dosync
       (\<lambda>siblings idx. take idx siblings @ [new_step] @ drop idx siblings) plan step_id tx"

definition delete_step ::
  "(string \<Rightarrow> string) \<Rightarrow> bool \<Rightarrow> node \<Rightarrow> string \<Rightarrow> txn \<Rightarrow> err + node \<times> txn" where
  "delete_step sha in_dosync plan step_id tx =
     splice_edit sha in_dosync (\<lambda>siblings idx. take idx siblings @ drop (idx + 1) siblings) plan step_id tx"

section \<open>Path laws\<close>

lemma replace_resolve:
  "resolve_node n p = Inr m \<Longrightarrow> \<exists>n'. replace_at_path n p r = Inr n' \<and> resolve_node n' p = Inr r"
proof (induction p arbitrary: n)
  case Nil
  then show ?case by simp
next
  case (Cons i p)
  then obtain c where "replace_at_path (n_children n ! nat i) p r = Inr c" "resolve_node c p = Inr r"
    by (auto split: if_splits)
  with Cons.prems show ?case by (auto simp: nth_append split: if_splits)
qed

lemma replace_error_iff:
  "replace_at_path n p r = Inl e \<longleftrightarrow> resolve_node n p = Inl e"
  by (induction p arbitrary: n) (auto simp: ebind_Inl_iff)

lemma replace_replace:
  "replace_at_path n p r = Inr n' \<Longrightarrow> replace_at_path n' p s = replace_at_path n p s"
proof (induction p arbitrary: n n')
  case Nil
  then show ?case by simp
next
  case (Cons i p)
  then obtain c where c: "replace_at_path (n_children n ! nat i) p r = Inr c" and i: "\<not> i < 0" "i < int (length (n_children n))"
    and n': "n' = Node (n_tag n) (n_attrs n) (take (nat i) (n_children n) @ [c] @ drop (Suc (nat i)) (n_children n))"
    by (auto simp: ebind_Inr_iff split: if_splits)
  from i have l: "nat i < length (n_children n)" by linarith
  then have "n_children n' ! nat i = c" "length (n_children n') = length (n_children n)"
    "take (nat i) (n_children n') = take (nat i) (n_children n)"
    "drop (Suc (nat i)) (n_children n') = drop (Suc (nat i)) (n_children n)"
    by (simp_all add: n' nth_append)
  with i n' Cons.IH[OF c] show ?case by simp
qed

lemma replace_same: "resolve_node n p = Inr m \<Longrightarrow> replace_at_path n p m = Inr n"
proof (induction p arbitrary: n)
  case (Cons i p)
  then have "replace_at_path (n_children n ! nat i) p m = Inr (n_children n ! nat i)"
    by (auto split: if_splits)
  with Cons.prems show ?case by (cases n) (auto simp: id_take_nth_drop[symmetric] split: if_splits)
qed simp

end
