(* ===== verification/PlanEditProps.thy ===== *)
theory PlanEditProps
  imports PlanEdit
begin

text \<open>
  Where the plan edits take place, in terms of paths listed in pre-order: replacement hits
  the first occurrence in pre-order, the splicing edits the first one level by level, and a
  deletion undoes an insertion.
\<close>

section \<open>Positions in pre-order\<close>

definition below :: "int \<Rightarrow> (int list \<times> node) list \<Rightarrow> (int list \<times> node) list" where
  "below i qs = map (\<lambda>(p, m). (i # p, m)) qs"

fun child_positions :: "(node \<Rightarrow> (int list \<times> node) list) \<Rightarrow> int \<Rightarrow> node list \<Rightarrow> (int list \<times> node) list" where
  "child_positions f i [] = []"
| "child_positions f i (c # cs) = below i (f c) @ child_positions f (i + 1) cs"

lemma child_positions_cong [fundef_cong]:
  assumes "i = j" "cs = ds" and "\<And>c. c \<in> set ds \<Longrightarrow> f c = g c"
  shows "child_positions f i cs = child_positions g j ds"
  using assms by (induction cs arbitrary: ds i j) auto

fun positions :: "node \<Rightarrow> (int list \<times> node) list" where
  "positions (Node tag attrs children) =
     ([], Node tag attrs children) # child_positions positions 0 children"

lemma in_below: "(q, m) \<in> set (below i qs) \<longleftrightarrow> (\<exists>p. q = i # p \<and> (p, m) \<in> set qs)"
  by (auto simp: below_def)

lemma in_child_positions:
  "(q, m) \<in> set (child_positions f i cs) \<longleftrightarrow>
     (\<exists>k p. k < length cs \<and> q = (i + int k) # p \<and> (p, m) \<in> set (f (cs ! k)))"
proof (induction cs arbitrary: i)
  case Nil
  then show ?case by simp
next
  case (Cons c cs)
  show ?case
  proof
    assume "(q, m) \<in> set (child_positions f i (c # cs))"
    then consider "(q, m) \<in> set (below i (f c))" | "(q, m) \<in> set (child_positions f (i + 1) cs)"
      by auto
    then show "\<exists>k p. k < length (c # cs) \<and> q = (i + int k) # p \<and> (p, m) \<in> set (f ((c # cs) ! k))"
    proof cases
      case 1
      then show ?thesis by (auto simp: in_below intro!: exI[of _ 0])
    next
      case 2
      with Cons obtain k p where "k < length cs" "q = (i + 1 + int k) # p" "(p, m) \<in> set (f (cs ! k))"
        by blast
      then show ?thesis by (intro exI[of _ "Suc k"]) auto
    qed
  next
    assume "\<exists>k p. k < length (c # cs) \<and> q = (i + int k) # p \<and> (p, m) \<in> set (f ((c # cs) ! k))"
    then obtain k p where k: "k < length (c # cs)" "q = (i + int k) # p" "(p, m) \<in> set (f ((c # cs) ! k))"
      by blast
    then show "(q, m) \<in> set (child_positions f i (c # cs))"
    proof (cases k)
      case 0
      with k show ?thesis by (auto simp: in_below)
    next
      case (Suc k')
      with k have "\<exists>k p. k < length cs \<and> q = (i + 1 + int k) # p \<and> (p, m) \<in> set (f (cs ! k))" by auto
      with Cons show ?thesis by auto
    qed
  qed
qed

lemma in_positions: "(p, m) \<in> set (positions n) \<longleftrightarrow> resolve_node n p = Inr m"
proof (induction p arbitrary: n)
  case Nil
  show ?case by (cases n) (auto simp: in_child_positions)
next
  case (Cons i p)
  obtain t a cs where n: "n = Node t a cs" by (cases n)
  have "(i # p, m) \<in> set (positions n) \<longleftrightarrow>
      (\<exists>k < length cs. i = int k \<and> (p, m) \<in> set (positions (cs ! k)))"
    by (auto simp: n in_child_positions)
  also have "\<dots> \<longleftrightarrow> resolve_node n (i # p) = Inr m"
    by (auto simp: n Cons intro!: exI[of _ "nat i"])
  finally show ?case .
qed

section \<open>Replacement\<close>

definition hit :: "(string \<Rightarrow> string) \<Rightarrow> string \<Rightarrow> int list \<times> node \<Rightarrow> bool" where
  "hit sha step_id = (\<lambda>(p, m). node_id sha m = step_id)"

lemma find_below:
  "find (hit sha step_id) (below i qs) =
     map_option (\<lambda>(p, m). (i # p, m)) (find (hit sha step_id) qs)"
  by (induction qs) (auto simp: below_def hit_def)

definition replaced_at :: "node \<Rightarrow> (node \<Rightarrow> node) \<Rightarrow> (int list \<times> node) option \<Rightarrow> node \<times> node option \<Rightarrow> bool" where
  "replaced_at n b found res = (case found of None \<Rightarrow> res = (n, None)
     | Some (p, m) \<Rightarrow> snd res = Some m \<and> replace_at_path n p (b m) = Inr (fst res))"

lemma first_child_replaced:
  assumes "\<And>c. c \<in> set cs \<Longrightarrow> replaced_at c b (find (hit sha step_id) (positions c)) (f c)"
  shows "case find (hit sha step_id) (child_positions positions i cs) of
      None \<Rightarrow> first_child f cs = (cs, None)
    | Some (q, m) \<Rightarrow> \<exists>k p c. k < length cs \<and> q = (i + int k) # p \<and>
        replace_at_path (cs ! k) p (b m) = Inr c \<and> first_child f cs = (cs[k := c], Some m)"
  using assms
proof (induction cs arbitrary: i)
  case Nil
  then show ?case by simp
next
  case (Cons c cs)
  have here: "replaced_at c b (find (hit sha step_id) (positions c)) (f c)" using Cons.prems by simp
  show ?case
  proof (cases "find (hit sha step_id) (positions c)")
    case (Some pm)
    obtain p m where pm: "pm = (p, m)" by (cases pm)
    from here Some pm have "f c = (fst (f c), Some m)" "replace_at_path c p (b m) = Inr (fst (f c))"
      by (auto simp: replaced_at_def prod_eq_iff)
    then show ?thesis
      by (auto simp: find_append find_below Some pm split: prod.splits intro!: exI[of _ 0])
  next
    case None
    with here have fc: "f c = (c, None)" by (simp add: replaced_at_def)
    from Cons have IH: "case find (hit sha step_id) (child_positions positions (i + 1) cs) of
      None \<Rightarrow> first_child f cs = (cs, None)
    | Some (q, m) \<Rightarrow> \<exists>k p c. k < length cs \<and> q = (i + 1 + int k) # p \<and>
        replace_at_path (cs ! k) p (b m) = Inr c \<and> first_child f cs = (cs[k := c], Some m)" by simp
    show ?thesis
    proof (cases "find (hit sha step_id) (child_positions positions (i + 1) cs)")
      case n2: None
      with IH fc None show ?thesis by (simp add: find_append find_below)
    next
      case (Some qm)
      obtain q m where qm: "qm = (q, m)" by (cases qm)
      from IH Some qm obtain k p d where "k < length cs" "q = (i + 1 + int k) # p"
        "replace_at_path (cs ! k) p (b m) = Inr d" "first_child f cs = (cs[k := d], Some m)" by auto
      then show ?thesis
        by (auto simp: find_append find_below None Some qm fc intro!: exI[of _ "Suc k"])
    qed
  qed
qed

lemma replace_first_at:
  "replaced_at n b (find (hit sha step_id) (positions n)) (replace_first sha step_id b n)"
proof (induction n)
  case (Node tag attrs children)
  show ?case
  proof (cases "node_id sha (Node tag attrs children) = step_id")
    case True
    then show ?thesis by (simp add: replaced_at_def hit_def)
  next
    case False
    note ch = first_child_replaced[of children b sha step_id "replace_first sha step_id b" 0, OF Node]
    show ?thesis
    proof (cases "find (hit sha step_id) (child_positions positions 0 children)")
      case None
      with ch False show ?thesis by (simp add: replaced_at_def hit_def with_children_def)
    next
      case (Some qm)
      obtain q m where qm: "qm = (q, m)" by (cases qm)
      from ch Some qm obtain k p c where "k < length children" "q = int k # p"
        "replace_at_path (children ! k) p (b m) = Inr c"
        "first_child (replace_first sha step_id b) children = (children[k := c], Some m)" by auto
      with False Some qm show ?thesis
        by (simp add: replaced_at_def hit_def with_children_def upd_conv_take_nth_drop)
    qed
  qed
qed

text \<open>\<open>edit_step\<close> replaces the first node in pre-order whose content address is the
  step id, leaves every other part of the tree as it is, and queues one \<open>:plan/edit\<close>
  intent naming the plan, the step and the ids of the old and new operation; it fails
  exactly outside a transaction body or when no node has the id, and then queues nothing.\<close>

lemma edit_step_hits_first:
  "edit_step sha in_dosync plan step_id new_op tx =
     (if \<not> in_dosync then Inl PlanEditOutsideDosync
      else case find (hit sha step_id) (positions plan) of
          None \<Rightarrow> Inl StepIdNotFound
        | Some (p, m) \<Rightarrow> ebind (replace_at_path plan p new_op) (\<lambda>plan'.
            Inr (plan', tx\<lparr>tx_intents := tx_intents tx @ [\<lparr>i_op = '':plan/edit'', i_kwargs =
              [(''plan_id'', VStr (node_id sha plan)), (''step_id'', VStr step_id),
               (''before_op_hash'', VStr step_id), (''after_op_hash'', VStr (node_id sha new_op))]\<rparr>]\<rparr>)))"
proof (cases "find (hit sha step_id) (positions plan)")
  case None
  with replace_first_at[of plan "\<lambda>_. new_op" sha step_id] show ?thesis
    by (simp add: edit_step_def replaced_at_def)
next
  case (Some pm)
  obtain p m where pm: "pm = (p, m)" by (cases pm)
  from Some pm have "node_id sha m = step_id" by (auto dest: find_SomeD simp: hit_def)
  moreover obtain t where "replace_first sha step_id (\<lambda>_. new_op) plan = (t, Some m)"
    "replace_at_path plan p new_op = Inr t"
    using replace_first_at[of plan "\<lambda>_. new_op" sha step_id] Some pm
    by (cases "replace_first sha step_id (\<lambda>_. new_op) plan") (auto simp: replaced_at_def)
  ultimately show ?thesis
    by (simp add: edit_step_def Some pm emit_edit_datom_def tx_effect_def)
qed

section \<open>Splicing\<close>

lemma first_child_cases:
  obtains "first_child f cs = (cs, None)" "\<And>c. c \<in> set cs \<Longrightarrow> snd (f c) = None"
  | k c' m where "k < length cs" "f (cs ! k) = (c', Some m)" "first_child f cs = (cs[k := c'], Some m)"
proof (induction cs arbitrary: thesis)
  case Nil
  then show ?case by simp
next
  case (Cons c cs)
  show ?case
  proof (cases "f c")
    case (Pair c' r)
    show ?thesis
    proof (cases r)
      case (Some m)
      with Pair show ?thesis by (intro Cons.prems(2)[of 0 c' m]) simp_all
    next
      case None
      show ?thesis
      proof (rule Cons.IH)
        assume "first_child f cs = (cs, None)" "\<And>c. c \<in> set cs \<Longrightarrow> snd (f c) = None"
        with Pair None show ?thesis by (intro Cons.prems(1)) auto
      next
        fix k c'' m
        assume "k < length cs" "f (cs ! k) = (c'', Some m)" "first_child f cs = (cs[k := c''], Some m)"
        with Pair None show ?thesis by (intro Cons.prems(2)[of "Suc k" c'' m]) simp_all
      qed
    qed
  qed
qed

lemma child_index_less:
  "child_index sha step_id cs < length cs \<Longrightarrow> node_id sha (cs ! child_index sha step_id cs) = step_id"
  unfolding child_index_def by (drule nth_length_takeWhile) simp

lemma child_index_none:
  "\<not> child_index sha step_id cs < length cs \<Longrightarrow> c \<in> set cs \<Longrightarrow> node_id sha c \<noteq> step_id"
proof -
  assume a: "\<not> child_index sha step_id cs < length cs" and c: "c \<in> set cs"
  let ?P = "\<lambda>c. node_id sha c \<noteq> step_id"
  have "takeWhile ?P cs = take (length (takeWhile ?P cs)) cs" by (rule takeWhile_eq_take)
  also have "\<dots> = cs" using a unfolding child_index_def by simp
  finally show "node_id sha c \<noteq> step_id" using c set_takeWhileD[of c ?P cs] by simp
qed

text \<open>Where a splice took place, or that the id occurs nowhere below the root.\<close>

definition spliced_at ::
  "(string \<Rightarrow> string) \<Rightarrow> string \<Rightarrow> (node list \<Rightarrow> nat \<Rightarrow> node list) \<Rightarrow> node \<Rightarrow> node \<times> node option \<Rightarrow> bool" where
  "spliced_at sha step_id splicer n res =
     (case snd res of
        None \<Rightarrow> fst res = n \<and> (\<forall>p m. resolve_node n p = Inr m \<longrightarrow> p \<noteq> [] \<longrightarrow> node_id sha m \<noteq> step_id)
      | Some m \<Rightarrow> (\<exists>p q idx. resolve_node n p = Inr q \<and> idx < length (n_children q) \<and>
          n_children q ! idx = m \<and> node_id sha m = step_id \<and>
          replace_at_path n p (Node (n_tag q) (n_attrs q) (splicer (n_children q) idx)) = Inr (fst res)))"

lemma splice_first_at: "spliced_at sha step_id splicer n (splice_first sha step_id splicer n)"
proof (induction n)
  case (Node tag attrs children)
  let ?n = "Node tag attrs children" and ?i = "child_index sha step_id children"
  show ?case
  proof (cases "?i < length children")
    case True
    then show ?thesis
      using child_index_less[OF True]
      by (auto simp: spliced_at_def Let_def intro!: exI[of _ "[]"] exI[of _ ?n] exI[of _ ?i])
  next
    case False
    show ?thesis
    proof (rule first_child_cases[of "splice_first sha step_id splicer" children])
      assume none: "first_child (splice_first sha step_id splicer) children = (children, None)"
        and all: "\<And>c. c \<in> set children \<Longrightarrow> snd (splice_first sha step_id splicer c) = None"
      have "node_id sha m \<noteq> step_id" if r: "resolve_node ?n p = Inr m" "p \<noteq> []" for p m
      proof (cases p)
        case (Cons i p')
        with r have i: "nat i < length children" and r': "resolve_node (children ! nat i) p' = Inr m"
          by (auto split: if_splits)
        then have c: "children ! nat i \<in> set children" by simp
        from Node[OF c] all[OF c] have "p' \<noteq> [] \<Longrightarrow> node_id sha m \<noteq> step_id"
          using r' by (auto simp: spliced_at_def)
        moreover from r' child_index_none[OF False c] have "p' = [] \<Longrightarrow> node_id sha m \<noteq> step_id" by simp
        ultimately show ?thesis by blast
      qed (use r in simp)
      with False none show ?thesis by (simp add: spliced_at_def with_children_def)
    next
      fix k c' m
      assume k: "k < length children" and f: "splice_first sha step_id splicer (children ! k) = (c', Some m)"
        and fc: "first_child (splice_first sha step_id splicer) children = (children[k := c'], Some m)"
      from Node[of "children ! k"] k f obtain p q idx where
        "resolve_node (children ! k) p = Inr q" "idx < length (n_children q)" "n_children q ! idx = m"
        "node_id sha m = step_id"
        "replace_at_path (children ! k) p (Node (n_tag q) (n_attrs q) (splicer (n_children q) idx)) = Inr c'"
        by (auto simp: spliced_at_def)
      with k have "resolve_node ?n (int k # p) = Inr q"
        "replace_at_path ?n (int k # p) (Node (n_tag q) (n_attrs q) (splicer (n_children q) idx)) =
           Inr (Node tag attrs (children[k := c']))"
        by (simp_all add: upd_conv_take_nth_drop)
      then have "\<exists>p q idx. resolve_node ?n p = Inr q \<and> idx < length (n_children q) \<and>
          n_children q ! idx = m \<and> node_id sha m = step_id \<and>
          replace_at_path ?n p (Node (n_tag q) (n_attrs q) (splicer (n_children q) idx)) =
            Inr (Node tag attrs (children[k := c']))"
        using \<open>idx < _\<close> \<open>_ ! idx = m\<close> \<open>node_id sha m = step_id\<close> by blast
      moreover have "splice_first sha step_id splicer ?n = (Node tag attrs (children[k := c']), Some m)"
        using False by (simp add: fc with_children_def)
      ultimately show ?thesis by (simp add: spliced_at_def)
    qed
  qed
qed

text \<open>The position a splice uses is the only one when the id occurs only once.\<close>

definition occurs_once :: "(string \<Rightarrow> string) \<Rightarrow> string \<Rightarrow> node \<Rightarrow> bool" where
  "occurs_once sha step_id n \<longleftrightarrow> length (filter (hit sha step_id) (positions n)) = 1"

lemma occurs_onceD:
  assumes "occurs_once sha step_id n" "resolve_node n p = Inr m" "node_id sha m = step_id"
    and "resolve_node n q = Inr k" "node_id sha k = step_id"
  shows "p = q"
proof -
  from assms(1) obtain x where x: "filter (hit sha step_id) (positions n) = [x]"
    unfolding occurs_once_def by (auto simp: length_Suc_conv)
  have "(p, m) \<in> set (filter (hit sha step_id) (positions n))"
    "(q, k) \<in> set (filter (hit sha step_id) (positions n))"
    using assms by (simp_all add: in_positions hit_def)
  then have "(p, m) = x" "(q, k) = x" unfolding x by simp_all
  then show ?thesis by auto
qed

lemma resolve_append:
  "resolve_node n (p @ q) = ebind (resolve_node n p) (\<lambda>m. resolve_node m q)"
  by (induction p arbitrary: n) auto

lemma resolve_child:
  assumes "resolve_node n p = Inr q" "idx < length (n_children q)"
  shows "resolve_node n (p @ [int idx]) = Inr (n_children q ! idx)"
  using assms by (simp add: resolve_append)

lemma splice_edit_Inr:
  assumes "splice_edit sha in_dosync splicer plan step_id tx = Inr (plan', tx')"
  obtains p q idx where "resolve_node plan p = Inr q" "idx < length (n_children q)"
    "node_id sha (n_children q ! idx) = step_id"
    "replace_at_path plan p (Node (n_tag q) (n_attrs q) (splicer (n_children q) idx)) = Inr plan'"
    "tx' = emit_edit_datom tx (node_id sha plan) step_id (node_id sha plan) (node_id sha plan')"
  using assms splice_first_at[of sha step_id splicer plan]
  unfolding splice_edit_def spliced_at_def
  by (fastforce split: if_splits prod.splits option.splits)

lemma deletes_inserted:
  assumes q: "resolve_node plan p = Inr q" and j: "j \<le> length (n_children q)"
    and plan': "replace_at_path plan p (Node (n_tag q) (n_attrs q)
      (take j (n_children q) @ [new] @ drop j (n_children q))) = Inr plan'"
    and once: "occurs_once sha (node_id sha new) plan'"
  shows "splice_first sha (node_id sha new) (\<lambda>siblings idx. take idx siblings @ drop (idx + 1) siblings) plan' =
    (plan, Some new)"
proof -
  let ?cs = "take j (n_children q) @ [new] @ drop j (n_children q)"
  let ?q = "Node (n_tag q) (n_attrs q) ?cs"
  let ?del = "\<lambda>siblings idx. take idx siblings @ drop (idx + 1) siblings"
  let ?res = "splice_first sha (node_id sha new) ?del plan'"
  from replace_resolve[OF q, of ?q] plan' have q': "resolve_node plan' p = Inr ?q" by auto
  from j have new: "n_children ?q ! j = new" "j < length (n_children ?q)" by (simp_all add: nth_append)
  from resolve_child[OF q' new(2)] new(1) have at: "resolve_node plan' (p @ [int j]) = Inr new" by simp
  from splice_first_at[of sha "node_id sha new" ?del plan'] at obtain m where "snd ?res = Some m"
    by (auto simp: spliced_at_def split: option.splits)
  with splice_first_at[of sha "node_id sha new" ?del plan'] obtain p2 q2 idx where
    s: "resolve_node plan' p2 = Inr q2" "idx < length (n_children q2)" "n_children q2 ! idx = m"
      "node_id sha m = node_id sha new"
      "replace_at_path plan' p2 (Node (n_tag q2) (n_attrs q2) (?del (n_children q2) idx)) = Inr (fst ?res)"
    by (auto simp: spliced_at_def)
  from resolve_child[OF s(1,2)] s(3,4) occurs_onceD[OF once at refl] have "p @ [int j] = p2 @ [int idx]"
    by metis
  then have "p2 = p" "idx = j" by simp_all
  with s(1) q' have q2: "q2 = ?q" by simp
  have "?del (n_children q2) idx = n_children q" using j by (simp add: q2 \<open>idx = j\<close>)
  with s(5) have "replace_at_path plan' p q = Inr (fst ?res)"
    by (simp add: q2 \<open>p2 = p\<close>)
  with replace_replace[OF plan'] replace_same[OF q] have "fst ?res = plan" by simp
  moreover have "m = new" using s(3) q2 \<open>idx = j\<close> new(1) by simp
  ultimately show ?thesis using \<open>snd ?res = Some m\<close> by (simp add: prod_eq_iff)
qed

text \<open>A deletion undoes an insertion: inserting a new step after (or before) an anchor and
  deleting it again gives back the plan, when the id of the new step is not already used in
  the result. The two edits queue two intents, the second starting from the root id the first
  one ended with.\<close>

lemma delete_undoes_insert:
  assumes "insert_step_after sha True plan step_id new_step tx = Inr (plan', tx') \<or>
      insert_step_before sha True plan step_id new_step tx = Inr (plan', tx')"
    and "occurs_once sha (node_id sha new_step) plan'"
  shows "delete_step sha True plan' (node_id sha new_step) tx' =
    Inr (plan, emit_edit_datom (emit_edit_datom tx (node_id sha plan) step_id (node_id sha plan) (node_id sha plan'))
      (node_id sha plan') (node_id sha new_step) (node_id sha plan') (node_id sha plan))"
proof -
  obtain p q j where pq: "resolve_node plan p = Inr q" "j \<le> length (n_children q)"
    "replace_at_path plan p (Node (n_tag q) (n_attrs q)
      (take j (n_children q) @ [new_step] @ drop j (n_children q))) = Inr plan'"
    and tx': "tx' = emit_edit_datom tx (node_id sha plan) step_id (node_id sha plan) (node_id sha plan')"
    using assms(1)
  proof
    assume a: "insert_step_after sha True plan step_id new_step tx = Inr (plan', tx')"
    show thesis
      by (rule splice_edit_Inr[OF a[unfolded insert_step_after_def]], rule that) auto
  next
    assume a: "insert_step_before sha True plan step_id new_step tx = Inr (plan', tx')"
    show thesis
      by (rule splice_edit_Inr[OF a[unfolded insert_step_before_def]], rule that) auto
  qed
  from deletes_inserted[OF pq assms(2)] show ?thesis
    by (simp add: delete_step_def splice_edit_def tx')
qed

text \<open>A digest for concrete runs: the reversed text, whose first 32 characters hold the
  tag and what precedes it.\<close>

definition demo_sha :: "string \<Rightarrow> string" where
  "demo_sha s = rev s"

definition leaf :: "string \<Rightarrow> node" where
  "leaf tag = Node tag [] []"

definition demo_tx :: txn where
  "demo_tx = new_txn ''db'' 6 0 False"

text \<open>C26. An insertion goes right after its anchor and can be taken back. When
  \<open>insert_step_after\<close> succeeds in a transaction, some node of the plan has a child with the
  given id, the new plan is the old one with the new step right after that child and nothing
  else changed, and one edit intent is queued; if the id of the new step occurs only once in
  the new plan, deleting it gives exactly the old plan back and queues a second intent that
  starts from the root id the first one ended with.\<close>

theorem insert_then_delete:
  assumes "insert_step_after sha True plan step_id new_step tx = Inr (plan', tx')"
  shows "(\<exists>p q i. resolve_node plan p = Inr q \<and> i < length (n_children q) \<and>
      node_id sha (n_children q ! i) = step_id \<and>
      replace_at_path plan p (Node (n_tag q) (n_attrs q)
        (take (Suc i) (n_children q) @ [new_step] @ drop (Suc i) (n_children q))) = Inr plan') \<and>
    tx' = emit_edit_datom tx (node_id sha plan) step_id (node_id sha plan) (node_id sha plan') \<and>
    (occurs_once sha (node_id sha new_step) plan' \<longrightarrow>
      delete_step sha True plan' (node_id sha new_step) tx' =
        Inr (plan, emit_edit_datom tx' (node_id sha plan') (node_id sha new_step)
          (node_id sha plan') (node_id sha plan)))"
proof -
  obtain p q i where "resolve_node plan p = Inr q" "i < length (n_children q)"
    "node_id sha (n_children q ! i) = step_id"
    "replace_at_path plan p (Node (n_tag q) (n_attrs q)
      (take (Suc i) (n_children q) @ [new_step] @ drop (Suc i) (n_children q))) = Inr plan'"
    and tx': "tx' = emit_edit_datom tx (node_id sha plan) step_id (node_id sha plan) (node_id sha plan')"
    using assms unfolding insert_step_after_def Suc_eq_plus1 by (rule splice_edit_Inr)
  moreover have "delete_step sha True plan' (node_id sha new_step) tx' =
      Inr (plan, emit_edit_datom tx' (node_id sha plan') (node_id sha new_step) (node_id sha plan') (node_id sha plan))"
    if "occurs_once sha (node_id sha new_step) plan'"
    using delete_undoes_insert[OF disjI1[OF assms] that] tx' by simp
  ultimately show ?thesis by blast
qed

lemma demo_insert:
  "case insert_step_after demo_sha True (Node ''t'' [] [leaf ''x'', leaf ''y'']) (node_id demo_sha (leaf ''x''))
      (leaf ''z'') demo_tx of
    Inr (plan', tx') \<Rightarrow> plan' = Node ''t'' [] [leaf ''x'', leaf ''z'', leaf ''y''] \<and>
      occurs_once demo_sha (node_id demo_sha (leaf ''z'')) plan'
  | _ \<Rightarrow> False"
  by code_simp

theorem insert_then_delete_witness:
  "\<exists>tx' tx''. insert_step_after demo_sha True (Node ''t'' [] [leaf ''x'', leaf ''y'']) (node_id demo_sha (leaf ''x''))
      (leaf ''z'') demo_tx = Inr (Node ''t'' [] [leaf ''x'', leaf ''z'', leaf ''y''], tx') \<and>
    delete_step demo_sha True (Node ''t'' [] [leaf ''x'', leaf ''z'', leaf ''y'']) (node_id demo_sha (leaf ''z'')) tx' =
      Inr (Node ''t'' [] [leaf ''x'', leaf ''y''], tx'')"
proof -
  from demo_insert obtain tx' where
    i: "insert_step_after demo_sha True (Node ''t'' [] [leaf ''x'', leaf ''y'']) (node_id demo_sha (leaf ''x''))
      (leaf ''z'') demo_tx = Inr (Node ''t'' [] [leaf ''x'', leaf ''z'', leaf ''y''], tx')"
    and "occurs_once demo_sha (node_id demo_sha (leaf ''z'')) (Node ''t'' [] [leaf ''x'', leaf ''z'', leaf ''y''])"
    by (auto split: sum.splits prod.splits)
  with insert_then_delete[OF i] show ?thesis by blast
qed

section \<open>The two searches disagree\<close>

text \<open>The module documents that every edit targets the first occurrence in pre-order. The
  splicing edits look at all direct children before they descend: with the target nested under
  the first child and repeated beside it, \<open>edit_step\<close> replaces the nested one and
  \<open>delete_step\<close> removes the later sibling.\<close>

lemma splice_not_preorder:
  assumes "node_id sha (Node t [] [Node a [] [x], x]) \<noteq> node_id sha x"
    and "node_id sha (Node a [] [x]) \<noteq> node_id sha x"
  shows "map_sum id fst (edit_step sha True (Node t [] [Node a [] [x], x]) (node_id sha x) y tx) =
      Inr (Node t [] [Node a [] [y], x]) \<and>
    map_sum id fst (delete_step sha True (Node t [] [Node a [] [x], x]) (node_id sha x) tx) =
      Inr (Node t [] [Node a [] [x]])"
proof -
  have "replace_first sha (node_id sha x) (\<lambda>_. y) x = (y, Some x)" by (cases x) simp
  then have "replace_first sha (node_id sha x) (\<lambda>_. y) (Node t [] [Node a [] [x], x]) =
      (Node t [] [Node a [] [y], x], Some x)"
    using assms by (simp add: with_children_def)
  moreover have "child_index sha (node_id sha x) [Node a [] [x], x] = 1"
    using assms(2) by (simp add: child_index_def)
  ultimately show ?thesis by (simp add: edit_step_def delete_step_def splice_edit_def)
qed

end
