(* ===== verification/PlanParse.thy ===== *)
theory PlanParse
  imports PlanAst
begin

text \<open>
  \<open>persistence.plan._parse\<close>: from the values an EDN reader returns to plans, tag aliases,
  the vector form the spec layer validates, and the printer. The reader (\<open>edn_format\<close>, a
  third-party package) is a parameter: a text is mapped to an EDN value or refused. EDN
  values without a JSON counterpart (floats, instants, sets, tagged literals) are left out.
\<close>

section \<open>EDN values\<close>

datatype edn = EKeyword string | ESymbol string | EMap "(edn \<times> edn) list" | EVector "edn list"
  | EStr string | EInt int | EBool bool | ENil

text \<open>Keys lose the colon of a keyword; other keys go through \<open>str\<close>, which for the
  composite ones is the reader's own.\<close>

definition edn_key_to_str :: "(edn \<Rightarrow> string) \<Rightarrow> edn \<Rightarrow> string" where
  "edn_key_to_str py_str k =
     (case k of EKeyword n \<Rightarrow> n | ESymbol s \<Rightarrow> s | EStr s \<Rightarrow> s | EInt i \<Rightarrow> int_str i
      | EBool b \<Rightarrow> (if b then ''True'' else ''False'') | ENil \<Rightarrow> ''None'' | _ \<Rightarrow> py_str k)"

definition dict_of :: "(string \<times> 'v) list \<Rightarrow> 'v dict" where
  "dict_of kvs = dmerge [] kvs"

fun edn_to_python :: "(edn \<Rightarrow> string) \<Rightarrow> edn \<Rightarrow> val" where
  "edn_to_python py_str (EKeyword n) = VStr ('':'' @ n)"
| "edn_to_python py_str (ESymbol s) = VStr s"
| "edn_to_python py_str (EMap kvs) =
     VDict (dict_of (map (\<lambda>(k, v). (edn_key_to_str py_str k, edn_to_python py_str v)) kvs))"
| "edn_to_python py_str (EVector xs) = VList (map (edn_to_python py_str) xs)"
| "edn_to_python py_str (EStr s) = VStr s"
| "edn_to_python py_str (EInt i) = VInt i"
| "edn_to_python py_str (EBool b) = VBool b"
| "edn_to_python py_str ENil = VNone"

section \<open>From vectors to plans\<close>

text \<open>The attribute map may be left out when the second element is a child; ids written by
  the author are dropped. Every other shape is refused.\<close>

fun python_to_node :: "val \<Rightarrow> err + node" where
  "python_to_node (VList (VStr tag # VList c # rest)) =
     (if \<not> startswith '':'' tag then Inl ParseError
      else ebind (emap python_to_node (VList c # rest)) (\<lambda>cs. mk_node tag [] cs))"
| "python_to_node (VList (VStr tag # VDict attrs # rest)) =
     (if \<not> startswith '':'' tag then Inl ParseError
      else ebind (emap python_to_node rest) (\<lambda>cs.
        mk_node tag (filter (\<lambda>(k, v). k \<noteq> ''id'' \<and> k \<noteq> '':id'') attrs) cs))"
| "python_to_node _ = Inl ParseError"

fun apply_aliases :: "string dict \<Rightarrow> node \<Rightarrow> err + node" where
  "apply_aliases aliases (Node tag attrs children) =
     (let new_tag = (case dget aliases tag of Some t \<Rightarrow> t | None \<Rightarrow> tag);
        new_attrs = (if new_tag \<noteq> tag \<and> dget attrs ''original-tag'' = None
          then dset ''original-tag'' (VStr tag) attrs else attrs) in
      ebind (emap (apply_aliases aliases) children) (\<lambda>cs. mk_node new_tag new_attrs cs))"

fun to_vector_form :: "(string \<Rightarrow> string) \<Rightarrow> node \<Rightarrow> val" where
  "to_vector_form sha (Node tag attrs children) =
     VList (VStr tag
       # VDict (('':id'', VStr (''sha256:'' @ node_id sha (Node tag attrs children)))
           # map (\<lambda>(k, v). ('':'' @ k, v)) attrs)
       # map (to_vector_form sha) children)"

record parse_env =
  pe_loads :: "string \<Rightarrow> edn option"
  pe_str :: "edn \<Rightarrow> string"
  pe_sha :: "string \<Rightarrow> string"
  pe_conforms :: "val \<Rightarrow> bool"

definition validate_spec :: "parse_env \<Rightarrow> node \<Rightarrow> err + unit" where
  "validate_spec env node =
     (if pe_conforms env (to_vector_form (pe_sha env) node) then Inr () else Inl PlanSpecError)"

definition parse_plan :: "parse_env \<Rightarrow> string dict \<Rightarrow> bool \<Rightarrow> string \<Rightarrow> err + node" where
  "parse_plan env lower_aliases strict edn_text =
     (case pe_loads env edn_text of None \<Rightarrow> Inl ParseError
      | Some raw \<Rightarrow>
          (case python_to_node (edn_to_python (pe_str env) raw) of Inl e \<Rightarrow> Inl ParseError
           | Inr node \<Rightarrow>
               ebind (if lower_aliases \<noteq> [] then apply_aliases lower_aliases node else Inr node) (\<lambda>node.
               ebind (if strict then validate_spec env node else Inr ()) (\<lambda>_. Inr node))))"

section \<open>Printing\<close>

definition escape_string :: "string \<Rightarrow> string" where
  "escape_string s = concat (map (\<lambda>c. if c = CHR 0x5C then [CHR 0x5C, CHR 0x5C]
     else if c = CHR 0x22 then [CHR 0x5C, CHR 0x22] else [c]) s)"

definition emit_key :: "string \<Rightarrow> string" where
  "emit_key k = (if startswith '':'' k then k else '':'' @ k)"

definition emit_map :: "(string \<times> string) list \<Rightarrow> string" where
  "emit_map kss = CHR 0x7B # join '' '' (map (\<lambda>(k, s). emit_key k @ '' '' @ s) (sort_key fst kss)) @ [CHR 0x7D]"

fun emit_value :: "val \<Rightarrow> string" where
  "emit_value VNone = ''nil''"
| "emit_value (VBool b) = (if b then ''true'' else ''false'')"
| "emit_value (VInt i) = int_str i"
| "emit_value (VStr s) = (if startswith '':'' s then s else [CHR 0x22] @ escape_string s @ [CHR 0x22])"
| "emit_value (VDict kvs) = emit_map (map (\<lambda>(k, v). (k, emit_value v)) kvs)"
| "emit_value (VList xs) = ''['' @ join '' '' (map emit_value xs) @ '']''"
| "emit_value (VTuple xs) = ''['' @ join '' '' (map emit_value xs) @ '']''"

definition emit_attrs :: "val dict \<Rightarrow> string" where
  "emit_attrs attrs = emit_value (VDict attrs)"

fun emit_node :: "node \<Rightarrow> string" where
  "emit_node (Node tag attrs children) =
     ''['' @ join '' '' (tag # emit_attrs attrs # map emit_node children) @ '']''"

definition unparse :: "node \<Rightarrow> string" where
  "unparse node = emit_node node"

section \<open>The text as EDN\<close>

text \<open>The standard text of an EDN value, and the EDN value of a plan.\<close>

fun edn_print :: "edn \<Rightarrow> string" where
  "edn_print (EKeyword n) = '':'' @ n"
| "edn_print (ESymbol s) = s"
| "edn_print (EMap kvs) = CHR 0x7B # join '' '' (map (\<lambda>(k, v). edn_print k @ '' '' @ edn_print v) kvs) @ [CHR 0x7D]"
| "edn_print (EVector xs) = ''['' @ join '' '' (map edn_print xs) @ '']''"
| "edn_print (EStr s) = [CHR 0x22] @ escape_string s @ [CHR 0x22]"
| "edn_print (EInt i) = int_str i"
| "edn_print (EBool b) = (if b then ''true'' else ''false'')"
| "edn_print ENil = ''nil''"

fun val_edn :: "val \<Rightarrow> edn" where
  "val_edn VNone = ENil"
| "val_edn (VBool b) = EBool b"
| "val_edn (VInt i) = EInt i"
| "val_edn (VStr s) = (if startswith '':'' s then EKeyword (tl s) else EStr s)"
| "val_edn (VDict kvs) = EMap (map (\<lambda>(k, e). (EKeyword k, e)) (sort_key fst (map (\<lambda>(k, v). (k, val_edn v)) kvs)))"
| "val_edn (VList xs) = EVector (map val_edn xs)"
| "val_edn (VTuple xs) = EVector (map val_edn xs)"

fun node_edn :: "node \<Rightarrow> edn" where
  "node_edn (Node tag attrs children) =
     EVector (EKeyword (tl tag) # val_edn (VDict attrs) # map node_edn children)"

text \<open>Dictionary keys without a leading colon and without repetitions, at every level.\<close>

fun plain_keys :: "val \<Rightarrow> bool" where
  "plain_keys (VDict kvs) \<longleftrightarrow> distinct (map fst kvs) \<and> list_all (\<lambda>(k, v). \<not> startswith '':'' k \<and> plain_keys v) kvs"
| "plain_keys (VList xs) = list_all plain_keys xs"
| "plain_keys (VTuple xs) = list_all plain_keys xs"
| "plain_keys _ = True"

fun plain_plan :: "node \<Rightarrow> bool" where
  "plain_plan (Node tag attrs children) \<longleftrightarrow> plain_keys (VDict attrs) \<and> list_all plain_plan children"

end
