(* ===== verification/PlanParseProps.thy ===== *)
theory PlanParseProps
  imports PlanParse
begin

text \<open>
  Printing and reading a plan: the round trip up to the canonical form, which has the same
  content address, and the plans for which the printed text is ambiguous.
\<close>

section \<open>Round trip\<close>

lemma dmerge_distinct:
  "distinct (map fst (d @ e)) \<Longrightarrow> dmerge d e = d @ e"
proof (induction e arbitrary: d)
  case Nil
  then show ?case by (simp add: dmerge_def)
next
  case (Cons kv e)
  obtain k v where kv: "kv = (k, v)" by (cases kv)
  from Cons.prems kv have "dget d k = None" by (auto simp: map_of_eq_None_iff)
  then have "dset k v d = d @ [(k, v)]" by (rule dset_notin)
  then have "dmerge d (kv # e) = dmerge (d @ [(k, v)]) e" by (simp add: dmerge_def kv)
  with Cons.IH[of "d @ [(k, v)]"] Cons.prems kv show ?case by simp
qed

lemma dict_of_distinct [simp]: "distinct (map fst kvs) \<Longrightarrow> dict_of kvs = kvs"
  using dmerge_distinct[of "[]" kvs] by (simp add: dict_of_def)

lemma map_fst_val [simp]: "map fst (map (\<lambda>(k, v). (k, f v)) kvs) = map fst kvs"
  by (induction kvs) auto

lemma distinct_map_sort: "distinct (map f (sort_key g xs)) \<longleftrightarrow> distinct (map f xs)"
  by (simp add: distinct_map)

lemma startswith_colon: "startswith '':'' s \<longleftrightarrow> (\<exists>t. s = CHR '':'' # t)"
  by (auto simp: startswith_iff)

lemma emit_value_edn: "plain_keys v \<Longrightarrow> emit_value v = edn_print (val_edn v)"
proof (induction v rule: emit_value.induct)
  case (4 s)
  then show ?case by (auto simp: startswith_colon)
next
  case (5 kvs)
  then have "map (\<lambda>(k, v). (k, emit_value v)) kvs =
      map (\<lambda>(k, e). (k, edn_print e)) (map (\<lambda>(k, v). (k, val_edn v)) kvs)"
    by (auto simp: list_all_iff split: prod.splits)
  then have eq: "sort_key fst (map (\<lambda>(k, v). (k, emit_value v)) kvs) =
      map (\<lambda>(k, e). (k, edn_print e)) (sort_key fst (map (\<lambda>(k, v). (k, val_edn v)) kvs))"
    by (simp only: sort_key_map_snd)
  have keys: "startswith '':'' k \<Longrightarrow> False" if "(k, v) \<in> set kvs" for k v
  proof -
    have "list_all (\<lambda>(k, v). \<not> startswith '':'' k \<and> plain_keys v) kvs" using "5.prems" by simp
    with that show "startswith '':'' k \<Longrightarrow> False" unfolding list_all_iff by blast
  qed
  have "emit_value (VDict kvs) = CHR 0x7B # join '' '' (map ((\<lambda>(k, s). emit_key k @ '' '' @ s) \<circ> (\<lambda>(k, e). (k, edn_print e)))
      (sort_key fst (map (\<lambda>(k, v). (k, val_edn v)) kvs))) @ [CHR 0x7D]"
    by (simp only: emit_value.simps emit_map_def eq map_map)
  also have "map ((\<lambda>(k, s). emit_key k @ '' '' @ s) \<circ> (\<lambda>(k, e). (k, edn_print e)))
      (sort_key fst (map (\<lambda>(k, v). (k, val_edn v)) kvs)) =
      map ((\<lambda>(k, v). edn_print k @ '' '' @ edn_print v) \<circ> (\<lambda>(k, e). (EKeyword k, e)))
      (sort_key fst (map (\<lambda>(k, v). (k, val_edn v)) kvs))"
    by (rule map_cong[OF refl]) (auto simp: emit_key_def dest: keys)
  finally show ?case by (simp only: val_edn.simps edn_print.simps map_map)
next
  case (6 xs)
  then have "map emit_value xs = map (\<lambda>x. edn_print (val_edn x)) xs" by (simp add: list_all_iff)
  then show ?case by (simp only: emit_value.simps val_edn.simps edn_print.simps map_map comp_def)
next
  case (7 xs)
  then have "map emit_value xs = map (\<lambda>x. edn_print (val_edn x)) xs" by (simp add: list_all_iff)
  then show ?case by (simp only: emit_value.simps val_edn.simps edn_print.simps map_map comp_def)
qed auto

lemma unparse_edn: "node_ok n \<Longrightarrow> plain_plan n \<Longrightarrow> unparse n = edn_print (node_edn n)"
  unfolding unparse_def
proof (induction n)
  case (Node tag attrs children)
  then have "map emit_node children = map (\<lambda>c. edn_print (node_edn c)) children"
    by (auto simp: list_all_iff)
  moreover have "tag = CHR '':'' # tl tag" using Node.prems(1) by (auto simp: startswith_colon)
  moreover have "emit_attrs attrs = edn_print (val_edn (VDict attrs))"
    unfolding emit_attrs_def using Node.prems(2) by (intro emit_value_edn) simp
  ultimately show ?case
    by (simp only: emit_node.simps node_edn.simps edn_print.simps list.map map_map comp_def) simp
qed

lemma map_fst_keyword: "map (\<lambda>(k, v). (edn_key_to_str f k, g v)) (map (\<lambda>(k, e). (EKeyword k, e)) kes) =
    map (\<lambda>(k, e). (k, g e)) kes"
  by (auto simp: edn_key_to_str_def)

lemma edn_to_python_val: "plain_keys v \<Longrightarrow> edn_to_python f (val_edn v) = json_norm v"
proof (induction v rule: val_edn.induct)
  case (4 s)
  then show ?case by (auto simp: startswith_colon)
next
  case (5 kvs)
  let ?ks = "sort_key fst (map (\<lambda>(k, v). (k, val_edn v)) kvs)"
  have "map (\<lambda>(k, e). (k, edn_to_python f e)) ?ks =
      sort_key fst (map (\<lambda>(k, e). (k, edn_to_python f e)) (map (\<lambda>(k, v). (k, val_edn v)) kvs))"
    by (simp only: sort_key_map_snd)
  also have "map (\<lambda>(k, e). (k, edn_to_python f e)) (map (\<lambda>(k, v). (k, val_edn v)) kvs) =
      map (\<lambda>(k, v). (k, json_norm v)) kvs"
    using 5 by (auto simp: list_all_iff split: prod.splits)
  finally have eq: "map (\<lambda>(k, e). (k, edn_to_python f e)) ?ks =
      sort_key fst (map (\<lambda>(k, v). (k, json_norm v)) kvs)" .
  have "distinct (map fst kvs)" using "5.prems" by simp
  then have "distinct (map fst (map (\<lambda>(k, e). (k, edn_to_python f e)) ?ks))"
    unfolding map_fst_val distinct_map_sort by simp
  then show ?case
    by (simp only: val_edn.simps edn_to_python.simps map_fst_keyword dict_of_distinct json_norm.simps eq)
qed (auto simp: list_all_iff)

lemma python_to_node_edn:
  assumes "node_ok n" "plain_plan n"
  shows "python_to_node (edn_to_python f (node_edn n)) = Inr (node_norm n)"
  using assms
proof (induction n)
  case (Node tag attrs children)
  let ?attrs = "sort_key fst (map (\<lambda>(k, v). (k, json_norm v)) attrs)"
  obtain t where tag: "tag = CHR '':'' # t" using Node.prems(1) by (auto simp: startswith_colon)
  have keys: "attr_key_ok k" if "(k, v) \<in> set ?attrs" for k v
    using that Node.prems(1) by (force simp: list_all_iff)
  have r: "edn_to_python f (node_edn (Node tag attrs children)) =
      VList (VStr tag # VDict ?attrs # map (\<lambda>c. edn_to_python f (node_edn c)) children)"
    using edn_to_python_val[of "VDict attrs" f] Node.prems(2)
    by (simp add: tag del: val_edn.simps)
  have cs: "emap python_to_node (map (\<lambda>c. edn_to_python f (node_edn c)) children) = Inr (map node_norm children)"
  proof -
    have "emap python_to_node (map g cs) = Inr (map h cs)"
      if "\<And>c. c \<in> set cs \<Longrightarrow> python_to_node (g c) = Inr (h c)" for g h and cs :: "node list"
      using that by (induction cs) auto
    with Node show ?thesis by (auto simp: list_all_iff)
  qed
  have fl: "filter (\<lambda>(k, v). k \<noteq> ''id'' \<and> k \<noteq> '':id'') ?attrs = ?attrs"
    unfolding filter_id_conv using keys unfolding attr_key_ok_def by blast
  have mk: "mk_node tag ?attrs (map node_norm children) = Inr (Node tag ?attrs (map node_norm children))"
    using keys Node.prems(1) by (auto simp: mk_node_Inr list_all_iff)
  show ?case unfolding r python_to_node.simps fl cs ebind_simps mk
    by (simp add: tag startswith_colon)
qed

lemma node_norm_idem: "node_norm (node_norm n) = node_norm n"
proof (induction n)
  case (Node tag attrs children)
  have "json_norm (json_norm (VDict attrs)) = json_norm (VDict attrs)" by (rule json_norm_idem)
  with Node show ?case by auto
qed

lemma node_id_norm: "node_id sha (node_norm n) = node_id sha n"
proof -
  have "json_norm (canonical_dict (node_norm n)) = json_norm (canonical_dict n)"
    by (simp add: canonical_dict_eq_iff node_norm_idem)
  then show ?thesis unfolding node_id_def compact_json_eq_iff[symmetric] by (rule arg_cong)
qed

text \<open>C16. Printing and parsing a plan keeps its content address: if the reader returns the EDN
  value whose standard text it is given, parsing the printed plan gives its canonical form
  (attribute keys sorted, tuples as lists), which has the plan's id. Nested dictionary keys
  must not begin with a colon.\<close>

theorem unparse_parse:
  assumes "node_ok n" "plain_plan n"
    and "pe_loads env (edn_print (node_edn n)) = Some (node_edn n)"
  shows "parse_plan env [] False (unparse n) = Inr (node_norm n) \<and>
    node_id (pe_sha env) (node_norm n) = node_id (pe_sha env) n"
  using assms by (simp add: parse_plan_def unparse_edn python_to_node_edn node_id_norm)

definition demo_plan :: node where
  "demo_plan = Node '':seq'' [(''name'', VStr ''a b''), (''kind'', VStr '':fast''), (''args'', VDict [(''n'', VInt 3), (''f'', VTuple [VNone])])]
     [Node '':llm-call'' [(''q'', VBool True)] []]"

definition demo_parse_env :: "edn \<Rightarrow> parse_env" where
  "demo_parse_env e = \<lparr>pe_loads = (\<lambda>s. if s = edn_print e then Some e else None), pe_str = (\<lambda>_. []),
     pe_sha = id, pe_conforms = (\<lambda>_. True)\<rparr>"

theorem unparse_parse_witness:
  "parse_plan (demo_parse_env (node_edn demo_plan)) [] False (unparse demo_plan) = Inr (node_norm demo_plan)"
proof -
  have "node_ok demo_plan" "plain_plan demo_plan" by code_simp+
  moreover have "pe_loads (demo_parse_env (node_edn demo_plan)) (edn_print (node_edn demo_plan)) = Some (node_edn demo_plan)"
    by (simp add: demo_parse_env_def)
  ultimately show ?thesis by (rule unparse_parse[THEN conjunct1])
qed

section \<open>Ambiguous texts\<close>

text \<open>Strings that begin with a colon are printed bare, with no check that they are one
  keyword: a plan with one attribute prints the same text as a plan with two, so the text
  does not determine the plan, although the two have different content addresses.\<close>

lemma unparse_ambiguous:
  "unparse (Node '':t'' [(''k'', VStr '':x :y 1'')] []) = unparse (Node '':t'' [(''k'', VStr '':x''), (''y'', VInt 1)] []) \<and>
   compact_json (canonical_dict (Node '':t'' [(''k'', VStr '':x :y 1'')] [])) \<noteq>
   compact_json (canonical_dict (Node '':t'' [(''k'', VStr '':x''), (''y'', VInt 1)] []))"
  by (rule conjI) code_simp+

end
