(* ===== verification/MctsActions.thy ===== *)
theory MctsActions
  imports PlanEdit
begin

text \<open>
  \<open>persistence.plan._mcts\<close>, first half: the three rewriting actions of the plan search,
  their applicator with the depth cap and the cycle guard, their hashes, and the search
  configuration. Python floats are an abstract type with the operations the code uses on
  them, so that what is proved holds for any arithmetic, the IEEE one included.
\<close>

section \<open>Float operations\<close>

record 'f arith =
  fa_of_int :: "int \<Rightarrow> 'f"
  fa_add :: "'f \<Rightarrow> 'f \<Rightarrow> 'f"
  fa_sub :: "'f \<Rightarrow> 'f \<Rightarrow> 'f"
  fa_mul :: "'f \<Rightarrow> 'f \<Rightarrow> 'f"
  fa_div :: "'f \<Rightarrow> 'f \<Rightarrow> 'f"
  fa_sqrt :: "'f \<Rightarrow> 'f"
  fa_abs :: "'f \<Rightarrow> 'f"
  fa_less :: "'f \<Rightarrow> 'f \<Rightarrow> bool"
  fa_le :: "'f \<Rightarrow> 'f \<Rightarrow> bool"
  fa_eq :: "'f \<Rightarrow> 'f \<Rightarrow> bool"
  fa_neg_inf :: 'f
  fa_prior_tol :: 'f
  fa_val :: "'f \<Rightarrow> val"

section \<open>Actions\<close>

datatype action =
    SubstituteLeafAction "int list" node
  | AddStepAction "int list" int node
  | ComposeWithSkillAction "int list" string

fun target_path :: "action \<Rightarrow> int list" where
  "target_path (SubstituteLeafAction p _) = p"
| "target_path (AddStepAction p _ _) = p"
| "target_path (ComposeWithSkillAction p _) = p"

fun action_kind :: "action \<Rightarrow> string" where
  "action_kind (SubstituteLeafAction _ _) = ''SubstituteLeafAction''"
| "action_kind (AddStepAction _ _ _) = ''AddStepAction''"
| "action_kind (ComposeWithSkillAction _ _) = ''ComposeWithSkillAction''"

definition path_val :: "int list \<Rightarrow> val" where
  "path_val p = VList (map VInt p)"

definition action_hash :: "(string \<Rightarrow> string) \<Rightarrow> action \<Rightarrow> string" where
  "action_hash sha act = sha (compact_json (VDict
     ([(''kind'', VStr (action_kind act)), (''target_path'', path_val (target_path act))] @
      (case act of
         SubstituteLeafAction _ new_leaf \<Rightarrow> [(''new_leaf_id'', VStr (node_id sha new_leaf))]
       | AddStepAction _ at new_child \<Rightarrow> [(''at'', VInt at), (''new_child_id'', VStr (node_id sha new_child))]
       | ComposeWithSkillAction _ skill_id \<Rightarrow> [(''skill_id'', VStr skill_id)]))))"

definition MAX_PLAN_DEPTH :: nat where
  "MAX_PLAN_DEPTH = 32"

fun plan_depth :: "node \<Rightarrow> nat" where
  "plan_depth (Node _ _ children) = 1 + foldr max (map plan_depth children) 0"

definition apply_add_step :: "node \<Rightarrow> int list \<Rightarrow> int \<Rightarrow> node \<Rightarrow> err + node" where
  "apply_add_step plan path at new_child =
     ebind (resolve_node plan path) (\<lambda>parent.
       if at < 0 \<or> at > int (length (n_children parent)) then Inl IndexError
       else replace_at_path plan path (Node (n_tag parent) (n_attrs parent)
         (take (nat at) (n_children parent) @ [new_child] @ drop (nat at) (n_children parent))))"

text \<open>The skill library is a lookup by skill id; without one every composition fails.\<close>

type_synonym skill_lookup = "(string \<Rightarrow> node option) option"

fun collect_node_ids :: "(string \<Rightarrow> string) \<Rightarrow> node \<Rightarrow> string set" where
  "collect_node_ids sha (Node tag attrs children) =
     {node_id sha (Node tag attrs children)} \<union> \<Union> (set (map (collect_node_ids sha) children))"

definition apply_compose_with_skill ::
  "(string \<Rightarrow> string) \<Rightarrow> skill_lookup \<Rightarrow> node \<Rightarrow> int list \<Rightarrow> string \<Rightarrow> err + node" where
  "apply_compose_with_skill sha lib plan path skill_id =
     (case lib of None \<Rightarrow> Inl SkillNotRegistered
      | Some lookup \<Rightarrow>
          (case lookup skill_id of None \<Rightarrow> Inl SkillNotRegistered
           | Some skill_plan \<Rightarrow>
               if plan_depth skill_plan > MAX_PLAN_DEPTH div 2 then Inl PlanDepthExceeded
               else if node_id sha plan \<in> collect_node_ids sha skill_plan then Inl PlanCycleDetected
               else ebind (resolve_node plan path) (\<lambda>subtree.
                 replace_at_path plan path (Node (n_tag skill_plan) (n_attrs skill_plan)
                   (subtree # n_children skill_plan)))))"

definition apply_action ::
  "(string \<Rightarrow> string) \<Rightarrow> skill_lookup \<Rightarrow> node \<Rightarrow> action \<Rightarrow> err + node" where
  "apply_action sha lib plan act =
     ebind (case act of
         SubstituteLeafAction p new_leaf \<Rightarrow> replace_at_path plan p new_leaf
       | AddStepAction p at new_child \<Rightarrow> apply_add_step plan p at new_child
       | ComposeWithSkillAction p skill_id \<Rightarrow> apply_compose_with_skill sha lib plan p skill_id)
     (\<lambda>new_plan. if plan_depth new_plan > MAX_PLAN_DEPTH then Inl PlanDepthExceeded else Inr new_plan)"

definition classify_apply_failure :: "err \<Rightarrow> string" where
  "classify_apply_failure e =
     (if e = PlanDepthExceeded then ''plan_too_deep''
      else if e = PlanCycleDetected then ''compose_creates_cycle''
      else if e = SkillNotRegistered then ''skill_not_registered''
      else ''plan_construction_raised'')"

section \<open>Configuration\<close>

record 'f mcts_config =
  mc_max_iter :: int
  mc_max_unique_plans :: int
  mc_simple_regret_threshold :: "'f option"
  mc_simple_regret_window :: int
  mc_wall_clock_budget_ms :: "int option"
  mc_c_puct :: 'f
  mc_expander_k :: int
  mc_seed :: int

text \<open>The checks of the constructor; counts are integers here.\<close>

definition mk_mcts_config :: "'f arith \<Rightarrow> 'f mcts_config \<Rightarrow> err + 'f mcts_config" where
  "mk_mcts_config ar c =
     (if fa_le ar (mc_c_puct c) (fa_of_int ar 0) \<or> mc_max_iter c \<le> 0 \<or> mc_max_unique_plans c \<le> 0 \<or>
         mc_expander_k c \<le> 0 \<or> mc_simple_regret_window c \<le> 0 then Inl ValueError
      else if (case mc_simple_regret_threshold c of None \<Rightarrow> False | Some t \<Rightarrow> fa_less ar t (fa_of_int ar 0))
      then Inl ValueError
      else if (case mc_wall_clock_budget_ms c of None \<Rightarrow> False | Some b \<Rightarrow> b \<le> 0) then Inl ValueError
      else Inr c)"

definition opt_float :: "'f arith \<Rightarrow> 'f option \<Rightarrow> val" where
  "opt_float ar x = (case x of None \<Rightarrow> VNone | Some v \<Rightarrow> fa_val ar v)"

definition hash_config :: "(string \<Rightarrow> string) \<Rightarrow> 'f arith \<Rightarrow> 'f mcts_config \<Rightarrow> string" where
  "hash_config sha ar c = sha (compact_json (VDict
     [(''max_iter'', VInt (mc_max_iter c)), (''max_unique_plans'', VInt (mc_max_unique_plans c)),
      (''simple_regret_threshold'', opt_float ar (mc_simple_regret_threshold c)),
      (''simple_regret_window'', VInt (mc_simple_regret_window c)),
      (''wall_clock_budget_ms'', case mc_wall_clock_budget_ms c of None \<Rightarrow> VNone | Some b \<Rightarrow> VInt b),
      (''c_puct'', fa_val ar (mc_c_puct c)), (''expander_k'', VInt (mc_expander_k c)),
      (''seed'', VInt (mc_seed c))]))"

definition derive_search_id :: "(string \<Rightarrow> string) \<Rightarrow> 'f arith \<Rightarrow> string \<Rightarrow> 'f mcts_config \<Rightarrow> int \<Rightarrow> string" where
  "derive_search_id sha ar initial_plan_id config started_at_ms =
     ''mcts/'' @ take 16 (sha (compact_json (VDict
       [(''initial_plan_id'', VStr initial_plan_id), (''config_hash'', VStr (hash_config sha ar config)),
        (''started_at'', VInt started_at_ms)])))"

section \<open>What an action can do\<close>

lemma apply_action_depth: "apply_action sha lib plan act = Inr plan' \<Longrightarrow> plan_depth plan' \<le> MAX_PLAN_DEPTH"
  by (auto simp: apply_action_def ebind_Inr_iff split: if_splits)

lemma resolve_node_error: "resolve_node n p = Inl e \<Longrightarrow> e = IndexError"
  by (induction p arbitrary: n) (auto split: if_splits)

lemma apply_action_error:
  assumes "apply_action sha lib plan act = Inl e"
  shows "e \<in> {IndexError, PlanDepthExceeded, PlanCycleDetected, SkillNotRegistered}"
  using assms unfolding apply_action_def apply_add_step_def apply_compose_with_skill_def
  by (auto simp: ebind_Inl_iff replace_error_iff split: action.splits option.splits if_splits
      dest!: resolve_node_error)

end
