(* ===== verification/Mcts.thy ===== *)
theory Mcts
  imports MctsActions PlanExec "HOL-Library.Product_Lexorder"
begin

text \<open>
  \<open>persistence.plan._mcts\<close>, second half, and \<open>_mcts_datoms\<close>: the PUCT search over
  content-addressed plans with its provenance datoms. The expander and the evaluator are
  computations over a world; the database is a log that every iteration extends by one
  transaction. A run that does not return is the value \<open>None\<close>.
\<close>

section \<open>Provenance records\<close>

definition payload_hash :: "(string \<Rightarrow> string) \<Rightarrow> val dict \<Rightarrow> string" where
  "payload_hash sha kvs = sha (compact_json (VDict kvs))"

definition opt_str :: "string option \<Rightarrow> val" where
  "opt_str x = (case x of None \<Rightarrow> VNone | Some s \<Rightarrow> VStr s)"

definition iter_id :: "(string \<Rightarrow> string) \<Rightarrow> string \<Rightarrow> int \<Rightarrow> string \<Rightarrow> string \<Rightarrow> string option \<Rightarrow> string" where
  "iter_id sha search_id iter_index phase plan_id act_hash =
     ''mcts-iter/'' @ take 16 (payload_hash sha
       [(''search_id'', VStr search_id), (''iter_index'', VInt iter_index), (''phase'', VStr phase),
        (''plan_id'', VStr plan_id), (''action_hash'', opt_str act_hash)])"

definition action_payload :: "(string \<Rightarrow> string) \<Rightarrow> action \<Rightarrow> val" where
  "action_payload sha act = VDict ((''target_path'', path_val (target_path act)) #
     (case act of
        SubstituteLeafAction _ new_leaf \<Rightarrow>
          [(''new_leaf_id'', VStr (node_id sha new_leaf)), (''new_leaf_canonical'', canonical_dict new_leaf)]
      | AddStepAction _ at new_child \<Rightarrow>
          [(''at'', VInt at), (''new_child_id'', VStr (node_id sha new_child)),
           (''new_child_canonical'', canonical_dict new_child)]
      | ComposeWithSkillAction _ skill_id \<Rightarrow> [(''skill_id'', VStr skill_id)]))"

definition expand_proposal_record :: "(string \<Rightarrow> string) \<Rightarrow> 'f arith \<Rightarrow> action \<times> 'f \<Rightarrow> val" where
  "expand_proposal_record sha ar ap =
     VDict [(''action_hash'', VStr (action_hash sha (fst ap))), (''action_kind'', VStr (action_kind (fst ap))),
       (''prior'', fa_val ar (snd ap)), (''action_payload'', action_payload sha (fst ap))]"

definition reject_record ::
  "(string \<Rightarrow> string) \<Rightarrow> exc_text \<Rightarrow> action option \<Rightarrow> string \<Rightarrow> string \<Rightarrow> err option \<Rightarrow> string option \<Rightarrow> val" where
  "reject_record sha xt act plan_id reason error raw_score =
     VDict ([(''plan_id'', VStr plan_id), (''reason'', VStr reason)] @
       (case act of
          Some a \<Rightarrow> [(''action_hash'', VStr (action_hash sha a)), (''action_kind'', VStr (action_kind a)),
            (''action_payload'', action_payload sha a), (''target_path'', path_val (target_path a))]
        | None \<Rightarrow> [(''action_hash'', VNone), (''action_kind'', VNone), (''action_payload'', VNone),
            (''target_path'', VNone)]) @
       (case error of None \<Rightarrow> []
        | Some e \<Rightarrow> [(''error_class'', VStr (xt_class xt e)), (''error_repr'', VStr (xt_repr xt e))]) @
       (case raw_score of None \<Rightarrow> [] | Some r \<Rightarrow> [(''raw_score_repr'', VStr r)]))"

definition expand_inputs_hash :: "(string \<Rightarrow> string) \<Rightarrow> string \<Rightarrow> int \<Rightarrow> string" where
  "expand_inputs_hash sha plan_id expander_k =
     payload_hash sha [(''plan_id'', VStr plan_id), (''expander_k'', VInt expander_k)]"

definition evaluate_inputs_hash :: "(string \<Rightarrow> string) \<Rightarrow> string \<Rightarrow> string" where
  "evaluate_inputs_hash sha plan_id = payload_hash sha [(''plan_id'', VStr plan_id)]"

definition hash_search_summary :: "(string \<Rightarrow> string) \<Rightarrow> string \<Rightarrow> string \<Rightarrow> int \<Rightarrow> string" where
  "hash_search_summary sha initial_plan_id config_hash started_at_ms =
     payload_hash sha [(''initial_plan_id'', VStr initial_plan_id), (''config_hash'', VStr config_hash),
       (''started_at'', VInt started_at_ms), (''schema_version'', VStr ''v0.6.5'')]"

definition hash_iter_content ::
  "(string \<Rightarrow> string) \<Rightarrow> string \<Rightarrow> int \<Rightarrow> string \<Rightarrow> string \<Rightarrow> string \<Rightarrow> val \<Rightarrow> string option \<Rightarrow> string option \<Rightarrow> string" where
  "hash_iter_content sha search_id iter_index phase plan_id inputs_hash output_value error_class error_repr =
     payload_hash sha
       [(''mcts/search-id'', VStr search_id), (''mcts/iter-index'', VInt iter_index), (''mcts/phase'', VStr phase),
        (''mcts/plan-id'', VStr plan_id), (''mcts/inputs-hash'', VStr inputs_hash), (''mcts/output'', output_value),
        (''mcts/error-class'', opt_str error_class), (''mcts/error-repr'', opt_str error_repr)]"

text \<open>Milliseconds since the epoch as an instant.\<close>

definition synthetic_valid_from :: "int \<Rightarrow> int \<Rightarrow> dtarg" where
  "synthetic_valid_from started_at_ms iter_index = DtVal (Aware ((started_at_ms + iter_index) * 1000))"

definition mcts_fact :: "string \<Rightarrow> dtarg \<Rightarrow> string \<times> val \<Rightarrow> fact" where
  "mcts_fact e vf av = \<lparr>f_e = e, f_a = fst av, f_v = snd av, f_valid_from = Some vf, f_valid_to = None, f_op = None\<rparr>"

definition search_start_facts :: "string \<Rightarrow> string \<Rightarrow> string \<Rightarrow> int \<Rightarrow> fact list" where
  "search_start_facts search_id initial_plan_id config_hash started_at_ms =
     map (mcts_fact search_id (synthetic_valid_from started_at_ms 0))
       [(''mcts/initial-plan-id'', VStr initial_plan_id), (''mcts/config-hash'', VStr config_hash),
        (''mcts/started-at'', VInt started_at_ms), (''mcts/schema-version'', VStr ''v0.6.5'')]"

definition search_finish_facts :: "string \<Rightarrow> int \<Rightarrow> int \<Rightarrow> string \<Rightarrow> string \<Rightarrow> fact list" where
  "search_finish_facts search_id started_at_ms iter_count winner_plan_id terminated_by =
     map (mcts_fact search_id (synthetic_valid_from started_at_ms iter_count))
       [(''mcts/winner-plan-id'', VStr winner_plan_id), (''mcts/iter-count'', VInt iter_count),
        (''mcts/terminated-by'', VStr terminated_by), (''mcts/finished-at'', VInt (started_at_ms + iter_count))]"

text \<open>The facts of one phase and the hash the next phase chains to.\<close>

definition make_iter_facts ::
  "(string \<Rightarrow> string) \<Rightarrow> exc_text \<Rightarrow> string \<Rightarrow> int \<Rightarrow> string \<Rightarrow> string \<Rightarrow> string \<Rightarrow> val \<Rightarrow> string \<Rightarrow> int \<Rightarrow>
   string option \<Rightarrow> err option \<Rightarrow> fact list \<times> string" where
  "make_iter_facts sha xt search_id iter_index phase plan_id inputs_hash output_value prev_hash started_at_ms
     act_hash error =
     (let iter_entity = iter_id sha search_id iter_index phase plan_id act_hash;
        error_class = map_option (xt_class xt) error; error_repr = map_option (xt_repr xt) error;
        vf = synthetic_valid_from started_at_ms iter_index in
      (map (mcts_fact iter_entity vf)
         ([(''mcts/search-id'', VStr search_id), (''mcts/iter-index'', VInt iter_index), (''mcts/phase'', VStr phase),
           (''mcts/plan-id'', VStr plan_id), (''mcts/inputs-hash'', VStr inputs_hash), (''mcts/output'', output_value),
           (''mcts/prev-hash'', VStr prev_hash)] @
          (case error of None \<Rightarrow> []
           | Some e \<Rightarrow> [(''mcts/error-class'', VStr (xt_class xt e)), (''mcts/error-repr'', VStr (xt_repr xt e))])),
       hash_iter_content sha search_id iter_index phase plan_id inputs_hash output_value error_class error_repr))"

definition iter_provenance :: "string \<Rightarrow> int \<Rightarrow> prov" where
  "iter_provenance search_id iter_index =
     [(''source'', VStr ''mcts-search''), (''mcts/search-id'', VStr search_id), (''mcts/iter-index'', VInt iter_index)]"

section \<open>The search tree\<close>

record 'f mcts_edge =
  me_action_hash :: string
  me_action :: action
  me_child :: string
  me_prior :: 'f
  me_visits :: nat
  me_total :: 'f

record 'f mcts_node =
  mn_plan_id :: string
  mn_visits :: nat
  mn_total :: 'f
  mn_children :: "'f mcts_edge dict"
  mn_terminal :: bool

definition new_mcts_node :: "'f arith \<Rightarrow> string \<Rightarrow> 'f mcts_node" where
  "new_mcts_node ar pid = \<lparr>mn_plan_id = pid, mn_visits = 0, mn_total = fa_of_int ar 0, mn_children = [],
     mn_terminal = False\<rparr>"

definition edge_q :: "'f arith \<Rightarrow> 'f mcts_edge \<Rightarrow> 'f" where
  "edge_q ar e = (if me_visits e > 0 then fa_div ar (me_total e) (fa_of_int ar (int (me_visits e)))
     else fa_of_int ar 0)"

definition puct_score :: "'f arith \<Rightarrow> 'f \<Rightarrow> 'f \<Rightarrow> 'f mcts_edge \<Rightarrow> 'f" where
  "puct_score ar c_puct sqrt_parent e =
     fa_add ar (edge_q ar e)
       (fa_div ar (fa_mul ar (fa_mul ar c_puct (me_prior e)) sqrt_parent) (fa_of_int ar (1 + int (me_visits e))))"

fun best_edge :: "'f arith \<Rightarrow> ('f mcts_edge \<Rightarrow> 'f) \<Rightarrow> 'f \<Rightarrow> 'f mcts_edge option \<Rightarrow> 'f mcts_edge list \<Rightarrow> 'f mcts_edge option" where
  "best_edge ar score best_score best [] = best"
| "best_edge ar score best_score best (e # es) =
     (if fa_less ar best_score (score e) then best_edge ar score (score e) (Some e) es
      else best_edge ar score best_score best es)"

definition select_child :: "'f arith \<Rightarrow> 'f mcts_node \<Rightarrow> 'f \<Rightarrow> 'f mcts_edge option" where
  "select_child ar node c_puct =
     (let sqrt_parent = (if mn_visits node > 0 then fa_sqrt ar (fa_of_int ar (int (mn_visits node)))
        else fa_of_int ar 1) in
      best_edge ar (puct_score ar c_puct sqrt_parent) (fa_neg_inf ar) None (map snd (mn_children node)))"

text \<open>The transposition table maps a plan id to its node. A step of the descent.\<close>

type_synonym 'f table = "'f mcts_node dict"

definition descend :: "'f arith \<Rightarrow> 'f \<Rightarrow> 'f table \<Rightarrow> string \<Rightarrow> (string \<times> string) option" where
  "descend ar c_puct tbl pid =
     (case dget tbl pid of None \<Rightarrow> None
      | Some node \<Rightarrow>
          if mn_children node \<noteq> [] \<and> \<not> mn_terminal node
          then map_option (\<lambda>e. (me_action_hash e, me_child e)) (select_child ar node c_puct)
          else None)"

text \<open>SELECT: descend until a node without children, a terminal one, or one without a best
  edge. Nothing changes on the way, so a descent that comes back to a node never ends.\<close>

partial_function (option) select_path ::
  "'f arith \<Rightarrow> 'f \<Rightarrow> 'f table \<Rightarrow> (string \<times> string) list \<Rightarrow> string \<Rightarrow> (string \<times> (string \<times> string) list) option" where
  "select_path ar c_puct tbl path pid =
     (case descend ar c_puct tbl pid of
        None \<Rightarrow> Some (pid, path)
      | Some (ah, child) \<Rightarrow> select_path ar c_puct tbl (path @ [(pid, ah)]) child)"

declare select_path.simps [code]

section \<open>The state of a search\<close>

datatype 'f raw_score = RawNone | RawFinite 'f | RawOther string

record ('f, 'w) mcts_env =
  mx_sha :: "string \<Rightarrow> string"
  mx_arith :: "'f arith"
  mx_xt :: exc_text
  mx_lib :: skill_lookup
  mx_propose :: "node \<Rightarrow> int \<Rightarrow> ('w, (action \<times> 'f) list) io"
  mx_evaluate :: "node \<Rightarrow> ('w, 'f raw_score) io"
  mx_db_env :: "nat \<Rightarrow> env"

record ('f, 'w) mcts_state =
  ms_table :: "'f table"
  ms_expander_cache :: "(action \<times> 'f) list dict"
  ms_evaluator_cache :: "'f dict"
  ms_plans :: "node dict"
  ms_prev_hash :: string
  ms_iter :: nat
  ms_attempts :: nat
  ms_failures :: nat
  ms_summary :: bool
  ms_streak :: int
  ms_db :: "log option"
  ms_world :: 'w

record mcts_run =
  mr_search_id :: string
  mr_config_hash :: string
  mr_initial_id :: string
  mr_started :: int

definition transact_pending ::
  "('f, 'w) mcts_env \<Rightarrow> prov \<Rightarrow> fact list \<Rightarrow> ('f, 'w) mcts_state \<Rightarrow> err + ('f, 'w) mcts_state" where
  "transact_pending env prov facts st =
     (case ms_db st of None \<Rightarrow> Inr st
      | Some l \<Rightarrow> if facts = [] then Inr st
          else ebind (transact (mx_db_env env (ms_iter st)) l facts prov False) (\<lambda>l'.
            Inr (st\<lparr>ms_db := Some l'\<rparr>)))"

definition phase_facts ::
  "('f, 'w) mcts_env \<Rightarrow> mcts_run \<Rightarrow> ('f, 'w) mcts_state \<Rightarrow> string \<Rightarrow> string \<Rightarrow> string \<Rightarrow> val \<Rightarrow> string option \<Rightarrow> err option \<Rightarrow>
   fact list \<times> string" where
  "phase_facts env run st phase plan_id inputs_hash output_value act_hash error =
     make_iter_facts (mx_sha env) (mx_xt env) (mr_search_id run) (int (ms_iter st)) phase plan_id inputs_hash
       output_value (ms_prev_hash st) (mr_started run) act_hash error"

section \<open>EXPAND\<close>

definition put_node :: "string \<Rightarrow> 'f mcts_node \<Rightarrow> ('f, 'w) mcts_state \<Rightarrow> ('f, 'w) mcts_state" where
  "put_node pid node st = st\<lparr>ms_table := dset pid node (ms_table st)\<rparr>"

text \<open>One proposal: an action that cannot be applied becomes a reject record and is skipped;
  an action already present is skipped; otherwise the child plan and the edge are added.\<close>

definition populate_step ::
  "('f, 'w) mcts_env \<Rightarrow> mcts_run \<Rightarrow> node \<Rightarrow> string \<Rightarrow> action \<times> 'f \<Rightarrow> fact list \<times> ('f, 'w) mcts_state \<Rightarrow>
   fact list \<times> ('f, 'w) mcts_state" where
  "populate_step env run plan pid ap acc =
     (case acc of (pending, st) \<Rightarrow>
        case apply_action (mx_sha env) (mx_lib env) plan (fst ap) of
          Inl e \<Rightarrow>
            (case phase_facts env run st ''reject'' pid
                (payload_hash (mx_sha env) [(''plan_id'', VStr pid), (''action_hash'', VStr (action_hash (mx_sha env) (fst ap)))])
                (reject_record (mx_sha env) (mx_xt env) (Some (fst ap)) pid (classify_apply_failure e) (Some e) None)
                (Some (action_hash (mx_sha env) (fst ap))) (Some e) of
              (facts, h) \<Rightarrow> (pending @ facts, st\<lparr>ms_prev_hash := h\<rparr>))
        | Inr new_plan \<Rightarrow>
            (case dget (ms_table st) pid of None \<Rightarrow> (pending, st)
             | Some node \<Rightarrow>
                 (let ah = action_hash (mx_sha env) (fst ap); cid = node_id (mx_sha env) new_plan in
                  if dget (mn_children node) ah \<noteq> None then (pending, st)
                  else
                    (let plans = (if dget (ms_plans st) cid = None then dset cid new_plan (ms_plans st) else ms_plans st);
                       tbl = (if dget (ms_table st) cid = None
                         then dset cid (new_mcts_node (mx_arith env) cid) (ms_table st) else ms_table st);
                       edge = \<lparr>me_action_hash = ah, me_action = fst ap, me_child = cid, me_prior = snd ap,
                         me_visits = 0, me_total = fa_of_int (mx_arith env) 0\<rparr> in
                     (pending, st\<lparr>ms_plans := plans,
                        ms_table := dset pid (node\<lparr>mn_children := dset ah edge (mn_children node)\<rparr>) tbl\<rparr>)))))"

definition populate_children ::
  "('f, 'w) mcts_env \<Rightarrow> mcts_run \<Rightarrow> node \<Rightarrow> string \<Rightarrow> (action \<times> 'f) list \<Rightarrow> fact list \<times> ('f, 'w) mcts_state \<Rightarrow>
   fact list \<times> ('f, 'w) mcts_state" where
  "populate_children env run plan pid proposals acc = fold (populate_step env run plan pid) proposals acc"

definition prior_sum_ok :: "'f arith \<Rightarrow> (action \<times> 'f) list \<Rightarrow> bool" where
  "prior_sum_ok ar proposals \<longleftrightarrow> \<not> fa_le ar (fa_prior_tol ar)
     (fa_abs ar (fa_sub ar (foldl (fa_add ar) (fa_of_int ar 0) (map snd proposals)) (fa_of_int ar 1)))"

text \<open>The proposals of a plan: cached, or asked of the expander, whose priors must sum to one.\<close>

definition propose ::
  "('f, 'w) mcts_env \<Rightarrow> 'f mcts_config \<Rightarrow> mcts_run \<Rightarrow> node \<Rightarrow> string \<Rightarrow> fact list \<Rightarrow> ('f, 'w) mcts_state \<Rightarrow>
   err + (action \<times> 'f) list \<times> fact list \<times> ('f, 'w) mcts_state" where
  "propose env cfg run plan pid pending st =
     (case dget (ms_expander_cache st) pid of
        Some proposals \<Rightarrow> Inr (proposals, pending, st)
      | None \<Rightarrow>
          (case mx_propose env plan (mc_expander_k cfg) (ms_world st) of
             (Inl e, w) \<Rightarrow> Inl e
           | (Inr proposals, w) \<Rightarrow>
               if proposals \<noteq> [] \<and> \<not> prior_sum_ok (mx_arith env) proposals then Inl ExpanderContractError
               else (case phase_facts env run st ''expand'' pid
                   (expand_inputs_hash (mx_sha env) pid (mc_expander_k cfg))
                   (VList (map (expand_proposal_record (mx_sha env) (mx_arith env)) proposals)) None None of
                 (facts, h) \<Rightarrow> Inr (proposals, pending @ facts,
                   st\<lparr>ms_world := w, ms_expander_cache := dset pid proposals (ms_expander_cache st),
                      ms_prev_hash := h\<rparr>))))"

definition mark_terminal :: "string \<Rightarrow> ('f, 'w) mcts_state \<Rightarrow> ('f, 'w) mcts_state" where
  "mark_terminal pid st = (case dget (ms_table st) pid of None \<Rightarrow> st
     | Some node \<Rightarrow> put_node pid (node\<lparr>mn_terminal := True\<rparr>) st)"

definition childless :: "string \<Rightarrow> ('f, 'w) mcts_state \<Rightarrow> bool" where
  "childless pid st \<longleftrightarrow> (case dget (ms_table st) pid of None \<Rightarrow> False | Some node \<Rightarrow> mn_children node = [])"

definition is_terminal :: "string \<Rightarrow> ('f, 'w) mcts_state \<Rightarrow> bool" where
  "is_terminal pid st \<longleftrightarrow> (case dget (ms_table st) pid of None \<Rightarrow> False | Some node \<Rightarrow> mn_terminal node)"

definition expand_phase ::
  "('f, 'w) mcts_env \<Rightarrow> 'f mcts_config \<Rightarrow> mcts_run \<Rightarrow> string \<Rightarrow> fact list \<times> ('f, 'w) mcts_state \<Rightarrow>
   err + fact list \<times> ('f, 'w) mcts_state" where
  "expand_phase env cfg run pid acc =
     (case acc of (pending, st) \<Rightarrow>
        if is_terminal pid st \<or> \<not> childless pid st then Inr (pending, st)
        else case dget (ms_plans st) pid of None \<Rightarrow> Inl KeyError
          | Some plan \<Rightarrow>
              ebind (propose env cfg run plan pid pending st) (\<lambda>(proposals, pending, st).
                if proposals = [] then Inr (pending, mark_terminal pid st)
                else (case populate_children env run plan pid proposals (pending, st) of (pending, st) \<Rightarrow>
                  Inr (pending, if childless pid st then mark_terminal pid st else st))))"

section \<open>EVALUATE and BACKUP\<close>

datatype ('f, 'w) evaluated =
    Scored 'f "fact list" "('f, 'w) mcts_state"
  | Rejected "('f, 'w) mcts_state"

text \<open>A failed evaluation writes its record with the iteration's other facts at once.\<close>

definition emit_eval_reject ::
  "('f, 'w) mcts_env \<Rightarrow> mcts_run \<Rightarrow> string \<Rightarrow> string \<Rightarrow> string \<Rightarrow> err option \<Rightarrow> string option \<Rightarrow> fact list \<Rightarrow>
   ('f, 'w) mcts_state \<Rightarrow> err + ('f, 'w) evaluated" where
  "emit_eval_reject env run pid inputs_hash reason error raw_score pending st =
     (case phase_facts env run st ''reject'' pid inputs_hash
         (reject_record (mx_sha env) (mx_xt env) None pid reason error raw_score) None error of
       (facts, h) \<Rightarrow>
         ebind (transact_pending env (iter_provenance (mr_search_id run) (int (ms_iter st))) (pending @ facts) st) (\<lambda>st'.
           Inr (Rejected (st'\<lparr>ms_prev_hash := h, ms_failures := Suc (ms_failures st'),
             ms_iter := Suc (ms_iter st')\<rparr>))))"

definition evaluate_phase ::
  "('f, 'w) mcts_env \<Rightarrow> mcts_run \<Rightarrow> string \<Rightarrow> fact list \<times> ('f, 'w) mcts_state \<Rightarrow> err + ('f, 'w) evaluated" where
  "evaluate_phase env run pid acc =
     (case acc of (pending, st) \<Rightarrow>
        case dget (ms_evaluator_cache st) pid of
          Some score \<Rightarrow> Inr (Scored score pending st)
        | None \<Rightarrow>
            (case dget (ms_plans st) pid of None \<Rightarrow> Inl KeyError
             | Some plan \<Rightarrow>
                 (case mx_evaluate env plan (ms_world st) of (raw, w) \<Rightarrow>
                    (let st = st\<lparr>ms_world := w, ms_attempts := Suc (ms_attempts st)\<rparr>;
                       ih = evaluate_inputs_hash (mx_sha env) pid in
                     case raw of
                       Inl e \<Rightarrow> emit_eval_reject env run pid ih ''evaluator_raised'' (Some e) None pending st
                     | Inr RawNone \<Rightarrow> emit_eval_reject env run pid ih ''evaluator_returned_none'' None None pending st
                     | Inr (RawOther r) \<Rightarrow>
                         emit_eval_reject env run pid ih ''evaluator_returned_non_finite'' None (Some r) pending st
                     | Inr (RawFinite score) \<Rightarrow>
                         (case phase_facts env run st ''evaluate'' pid ih (fa_val (mx_arith env) score) None None of
                           (facts, h) \<Rightarrow> Inr (Scored score (pending @ facts)
                             (st\<lparr>ms_evaluator_cache := dset pid score (ms_evaluator_cache st), ms_prev_hash := h\<rparr>)))))))"

definition visit_node :: "'f arith \<Rightarrow> 'f \<Rightarrow> 'f mcts_node \<Rightarrow> 'f mcts_node" where
  "visit_node ar score node = node\<lparr>mn_visits := Suc (mn_visits node), mn_total := fa_add ar (mn_total node) score\<rparr>"

definition visit_edge :: "'f arith \<Rightarrow> 'f \<Rightarrow> 'f mcts_edge \<Rightarrow> 'f mcts_edge" where
  "visit_edge ar score e = e\<lparr>me_visits := Suc (me_visits e), me_total := fa_add ar (me_total e) score\<rparr>"

definition backup_step :: "'f arith \<Rightarrow> 'f \<Rightarrow> string \<times> string \<Rightarrow> 'f table \<Rightarrow> 'f table" where
  "backup_step ar score pe tbl =
     (case dget tbl (fst pe) of None \<Rightarrow> tbl
      | Some node \<Rightarrow>
          (case dget (mn_children node) (snd pe) of None \<Rightarrow> tbl
           | Some e \<Rightarrow> dset (fst pe) ((visit_node ar score node)\<lparr>mn_children :=
               dset (snd pe) (visit_edge ar score e) (mn_children node)\<rparr>) tbl))"

definition backup :: "'f arith \<Rightarrow> 'f \<Rightarrow> (string \<times> string) list \<Rightarrow> string \<Rightarrow> 'f table \<Rightarrow> 'f table" where
  "backup ar score path pid tbl =
     (let tbl = fold (backup_step ar score) path tbl in
      case dget tbl pid of None \<Rightarrow> tbl | Some node \<Rightarrow> dset pid (visit_node ar score node) tbl)"

section \<open>The loop\<close>

definition simple_regret :: "'f arith \<Rightarrow> 'f mcts_config \<Rightarrow> string \<Rightarrow> ('f, 'w) mcts_state \<Rightarrow> bool \<times> int" where
  "simple_regret ar cfg root_id st =
     (case (mc_simple_regret_threshold cfg, dget (ms_table st) root_id) of
        (Some thr, Some root) \<Rightarrow>
          if int (ms_iter st) \<ge> mc_simple_regret_window cfg \<and> length (mn_children root) \<ge> 2
          then (let es = sort_key (\<lambda>e. - int (me_visits e)) (map snd (mn_children root));
                  gap = fa_sub ar (edge_q ar (es ! 0)) (edge_q ar (es ! 1)) in
                if fa_le ar thr gap
                then (ms_streak st + 1 \<ge> mc_simple_regret_window cfg, ms_streak st + 1) else (False, 0))
          else (False, ms_streak st)
      | _ \<Rightarrow> (False, ms_streak st))"

text \<open>The checks at the head of the loop: the reason to stop, if any, and the new streak.\<close>

definition loop_head :: "'f arith \<Rightarrow> 'f mcts_config \<Rightarrow> string \<Rightarrow> ('f, 'w) mcts_state \<Rightarrow> string option \<times> int" where
  "loop_head ar cfg root_id st =
     (if int (ms_iter st) \<ge> mc_max_iter cfg then (Some ''max_iter'', ms_streak st)
      else if int (length (ms_table st)) \<ge> mc_max_unique_plans cfg then (Some ''max_unique_plans'', ms_streak st)
      else case simple_regret ar cfg root_id st of (fire, streak) \<Rightarrow>
        if fire then (Some ''simple_regret'', streak)
        else if ms_attempts st > 0 \<and> ms_attempts st = ms_failures st then (Some ''all_evaluations_failed'', streak)
        else (None, streak))"

datatype ('f, 'w) iteration = Stop string "('f, 'w) mcts_state" | Next "('f, 'w) mcts_state"

text \<open>The body after the selection of a leaf.\<close>

definition after_select ::
  "('f, 'w) mcts_env \<Rightarrow> 'f mcts_config \<Rightarrow> mcts_run \<Rightarrow> string \<Rightarrow> (string \<times> string) list \<Rightarrow> fact list \<Rightarrow>
   ('f, 'w) mcts_state \<Rightarrow> err + ('f, 'w) iteration" where
  "after_select env cfg run pid path pending st =
     ebind (expand_phase env cfg run pid (pending, st)) (\<lambda>(pending, st).
       let prov = iter_provenance (mr_search_id run) (int (ms_iter st)) in
       if ms_iter st = 0 \<and> pid = mr_initial_id run \<and> is_terminal pid st \<and> childless pid st
       then ebind (transact_pending env prov pending st) (\<lambda>st.
         Inr (Stop ''exhausted'' (st\<lparr>ms_iter := Suc (ms_iter st)\<rparr>)))
       else ebind (evaluate_phase env run pid (pending, st)) (\<lambda>r.
         case r of
           Rejected st \<Rightarrow> Inr (Next st)
         | Scored score pending st \<Rightarrow>
             ebind (transact_pending env prov pending
                 (st\<lparr>ms_table := backup (mx_arith env) score path pid (ms_table st)\<rparr>)) (\<lambda>st.
               Inr (Next (st\<lparr>ms_iter := Suc (ms_iter st)\<rparr>)))))"

definition mcts_iteration ::
  "('f, 'w) mcts_env \<Rightarrow> 'f mcts_config \<Rightarrow> mcts_run \<Rightarrow> ('f, 'w) mcts_state \<Rightarrow> (err + ('f, 'w) iteration) option" where
  "mcts_iteration env cfg run st =
     (let pending = (if ms_summary st then []
        else search_start_facts (mr_search_id run) (mr_initial_id run) (mr_config_hash run) (mr_started run));
        st = st\<lparr>ms_summary := True\<rparr> in
      case select_path (mx_arith env) (mc_c_puct cfg) (ms_table st) [] (mr_initial_id run) of
        None \<Rightarrow> None
      | Some (pid, path) \<Rightarrow> Some (after_select env cfg run pid path pending st))"

lemma transact_pending_keeps:
  "transact_pending env prov facts st = Inr st' \<Longrightarrow>
     ms_iter st' = ms_iter st \<and> ms_attempts st' = ms_attempts st \<and> ms_failures st' = ms_failures st \<and>
     ms_table st' = ms_table st \<and> ms_plans st' = ms_plans st \<and> ms_evaluator_cache st' = ms_evaluator_cache st \<and>
     ms_expander_cache st' = ms_expander_cache st \<and> ms_prev_hash st' = ms_prev_hash st"
  by (auto simp: transact_pending_def ebind_Inr_iff split: option.splits if_splits)

lemma phase_facts_split:
  "(case phase_facts env run st a b c d e f of (facts, h) \<Rightarrow> g facts h) =
     g (fst (phase_facts env run st a b c d e f)) (snd (phase_facts env run st a b c d e f))"
  by (simp add: case_prod_beta)

lemma populate_iter:
  "ms_iter (snd (populate_children env run plan pid proposals acc)) = ms_iter (snd acc) \<and>
   ms_attempts (snd (populate_children env run plan pid proposals acc)) = ms_attempts (snd acc) \<and>
   ms_failures (snd (populate_children env run plan pid proposals acc)) = ms_failures (snd acc)"
  unfolding populate_children_def
proof (induction proposals arbitrary: acc)
  case (Cons ap proposals)
  have "ms_iter (snd (populate_step env run plan pid ap acc)) = ms_iter (snd acc) \<and>
    ms_attempts (snd (populate_step env run plan pid ap acc)) = ms_attempts (snd acc) \<and>
    ms_failures (snd (populate_step env run plan pid ap acc)) = ms_failures (snd acc)"
    by (auto simp: populate_step_def Let_def split: prod.splits sum.splits option.splits)
  with Cons.IH[of "populate_step env run plan pid ap acc"] show ?case by simp
qed simp

lemma mark_terminal_iter [simp]:
  "ms_iter (mark_terminal pid st) = ms_iter st" "ms_attempts (mark_terminal pid st) = ms_attempts st"
  "ms_failures (mark_terminal pid st) = ms_failures st"
  by (auto simp: mark_terminal_def put_node_def split: option.splits)

lemma propose_iter:
  "propose env cfg run plan pid pending st = Inr (ps, pending', st') \<Longrightarrow>
     ms_iter st' = ms_iter st \<and> ms_attempts st' = ms_attempts st \<and> ms_failures st' = ms_failures st"
  by (auto simp: propose_def phase_facts_split split: option.splits prod.splits sum.splits if_splits)

lemma expand_phase_cases:
  assumes "expand_phase env cfg run pid (pending, st) = Inr (pending', st')"
  obtains "pending' = pending" "st' = st"
  | plan proposals p2 st2 p3 st3 where "\<not> is_terminal pid st" "childless pid st" "dget (ms_plans st) pid = Some plan"
      "propose env cfg run plan pid pending st = Inr (proposals, p2, st2)"
      "(p3, st3) = (if proposals = [] then (p2, st2) else populate_children env run plan pid proposals (p2, st2))"
      "pending' = p3" "st' = (if childless pid st3 \<or> proposals = [] then mark_terminal pid st3 else st3)"
  using assms unfolding expand_phase_def
  by (auto simp: ebind_Inr_iff split: if_splits option.splits prod.splits)

lemma expand_phase_iter:
  assumes "expand_phase env cfg run pid (pending, st) = Inr (pending', st')"
  shows "ms_iter st' = ms_iter st \<and> ms_attempts st' = ms_attempts st \<and> ms_failures st' = ms_failures st"
  using assms
proof (cases rule: expand_phase_cases)
  case (2 plan proposals p2 st2 p3 st3)
  from propose_iter[OF 2(4)] populate_iter[of env run plan pid proposals "(p2, st2)"] 2(5)
  have "ms_iter st3 = ms_iter st \<and> ms_attempts st3 = ms_attempts st \<and> ms_failures st3 = ms_failures st"
    by (cases "proposals = []") (auto, (metis snd_conv)+)
  then show ?thesis by (simp add: 2(7))
qed simp

lemma emit_eval_reject_cases:
  assumes "emit_eval_reject env run pid ih rs e rw pn st = Inr r"
  obtains st' where "r = Rejected st'" "ms_iter st' = Suc (ms_iter st)" "ms_failures st' = Suc (ms_failures st)"
    "ms_attempts st' = ms_attempts st" "ms_table st' = ms_table st" "ms_plans st' = ms_plans st"
    "ms_evaluator_cache st' = ms_evaluator_cache st" "ms_expander_cache st' = ms_expander_cache st"
  using assms by (auto simp: emit_eval_reject_def phase_facts_split ebind_Inr_iff dest!: transact_pending_keeps)

lemma evaluate_phase_cases:
  assumes "evaluate_phase env run pid (pending, st) = Inr r"
  obtains st' where "r = Rejected st'" "ms_iter st' = Suc (ms_iter st)" "ms_failures st' = Suc (ms_failures st)"
      "ms_attempts st' = Suc (ms_attempts st)" "ms_table st' = ms_table st" "ms_plans st' = ms_plans st"
      "ms_evaluator_cache st' = ms_evaluator_cache st" "ms_expander_cache st' = ms_expander_cache st"
      "dget (ms_evaluator_cache st) pid = None"
  | score pending' st' where "r = Scored score pending' st'" "ms_iter st' = ms_iter st"
      "ms_failures st' = ms_failures st" "ms_attempts st' \<le> Suc (ms_attempts st)" "ms_attempts st \<le> ms_attempts st'"
      "ms_table st' = ms_table st" "ms_plans st' = ms_plans st" "ms_expander_cache st' = ms_expander_cache st"
      "dget (ms_evaluator_cache st') pid = Some score"
  using assms unfolding evaluate_phase_def
  by (auto simp: Let_def phase_facts_split elim!: emit_eval_reject_cases
      split: option.splits prod.splits sum.splits raw_score.splits)

lemma after_select_steps:
  assumes "after_select env cfg run pid path pending st = Inr r"
  obtains p2 st2 st3 where "expand_phase env cfg run pid (pending, st) = Inr (p2, st2)"
      "ms_iter st2 = 0" "pid = mr_initial_id run" "is_terminal pid st2" "childless pid st2"
      "transact_pending env (iter_provenance (mr_search_id run) (int (ms_iter st2))) p2 st2 = Inr st3"
      "r = Stop ''exhausted'' (st3\<lparr>ms_iter := Suc (ms_iter st3)\<rparr>)"
  | p2 st2 st3 where "expand_phase env cfg run pid (pending, st) = Inr (p2, st2)"
      "evaluate_phase env run pid (p2, st2) = Inr (Rejected st3)" "r = Next st3"
  | p2 st2 score p3 st3 st4 where "expand_phase env cfg run pid (pending, st) = Inr (p2, st2)"
      "evaluate_phase env run pid (p2, st2) = Inr (Scored score p3 st3)"
      "transact_pending env (iter_provenance (mr_search_id run) (int (ms_iter st2))) p3
         (st3\<lparr>ms_table := backup (mx_arith env) score path pid (ms_table st3)\<rparr>) = Inr st4"
      "r = Next (st4\<lparr>ms_iter := Suc (ms_iter st4)\<rparr>)"
proof (cases "expand_phase env cfg run pid (pending, st)")
  case (Inl e)
  with assms show ?thesis by (simp add: after_select_def)
next
  case (Inr ps)
  obtain p2 st2 where ps: "ps = (p2, st2)" by (cases ps)
  show ?thesis
  proof (cases "ms_iter st2 = 0 \<and> pid = mr_initial_id run \<and> is_terminal pid st2 \<and> childless pid st2")
    case True
    with assms Inr ps obtain st3 where
      "transact_pending env (iter_provenance (mr_search_id run) (int (ms_iter st2))) p2 st2 = Inr st3"
      "r = Stop ''exhausted'' (st3\<lparr>ms_iter := Suc (ms_iter st3)\<rparr>)"
      by (auto simp: after_select_def Let_def ebind_Inr_iff)
    with True Inr ps show ?thesis by (intro that(1)[of p2 st2 st3]) auto
  next
    case False
    from assms Inr ps have r: "ebind (evaluate_phase env run pid (p2, st2)) (\<lambda>r. case r of
         Rejected st \<Rightarrow> Inr (Next st)
       | Scored score pending st3 \<Rightarrow>
           ebind (transact_pending env (iter_provenance (mr_search_id run) (int (ms_iter st2))) pending
             (st3\<lparr>ms_table := backup (mx_arith env) score path pid (ms_table st3)\<rparr>)) (\<lambda>st.
             Inr (Next (st\<lparr>ms_iter := Suc (ms_iter st)\<rparr>)))) = Inr r"
      by (simp only: after_select_def Let_def if_not_P[OF False] ebind_simps prod.case)
    then obtain ev where ev: "evaluate_phase env run pid (p2, st2) = Inr ev" by (auto simp: ebind_Inr_iff)
    show ?thesis
    proof (cases ev)
      case (Rejected st3)
      with r ev Inr ps show ?thesis by (auto intro: that(2))
    next
      case (Scored score p3 st3)
      with r ev Inr ps show ?thesis by (auto simp: ebind_Inr_iff intro: that(3))
    qed
  qed
qed

lemma after_select_cases:
  assumes "after_select env cfg run pid path pending st = Inr r"
  obtains st' where "r = Stop ''exhausted'' st'" "ms_iter st = 0" "ms_iter st' = 1" "ms_failures st' = ms_failures st"
      "ms_attempts st' = ms_attempts st"
  | st' where "r = Next st'" "ms_iter st' = Suc (ms_iter st)"
  using assms
proof (cases rule: after_select_steps)
  case (1 p2 st2 st3)
  with expand_phase_iter[OF 1(1)] transact_pending_keeps[OF 1(6)] show ?thesis by (auto intro: that(1))
next
  case (2 p2 st2 st3)
  with expand_phase_iter[OF 2(1)] show ?thesis
    by - (rule evaluate_phase_cases[OF 2(2)], auto intro: that(2))
next
  case (3 p2 st2 score p3 st3 st4)
  with expand_phase_iter[OF 3(1)] transact_pending_keeps[OF 3(3)] show ?thesis
    by - (rule evaluate_phase_cases[OF 3(2)], auto intro: that(2))
qed

lemma mcts_iteration_next:
  assumes "mcts_iteration env cfg run st = Some (Inr (Next st'))"
  shows "ms_iter st' = Suc (ms_iter st)"
  using assms by (auto simp: mcts_iteration_def Let_def split: option.splits prod.splits elim!: after_select_cases)

function mcts_loop ::
  "('f, 'w) mcts_env \<Rightarrow> 'f mcts_config \<Rightarrow> mcts_run \<Rightarrow> ('f, 'w) mcts_state \<Rightarrow>
   (err + string \<times> ('f, 'w) mcts_state) option" where
  "mcts_loop env cfg run st =
     (case loop_head (mx_arith env) cfg (mr_initial_id run) st of
        (Some reason, streak) \<Rightarrow> Some (Inr (reason, st\<lparr>ms_streak := streak\<rparr>))
      | (None, streak) \<Rightarrow>
          (case mcts_iteration env cfg run (st\<lparr>ms_streak := streak\<rparr>) of
             None \<Rightarrow> None
           | Some (Inl e) \<Rightarrow> Some (Inl e)
           | Some (Inr (Stop reason st')) \<Rightarrow> Some (Inr (reason, st'))
           | Some (Inr (Next st')) \<Rightarrow> mcts_loop env cfg run st'))"
  by pat_completeness auto

termination
proof (relation "measure (\<lambda>(env, cfg, run, st). nat (mc_max_iter cfg - int (ms_iter st)))", goal_cases)
  case 2
  then show ?case by (auto simp: loop_head_def dest!: mcts_iteration_next split: if_splits)
qed simp

declare mcts_loop.simps [simp del]

section \<open>The result\<close>

record 'f mcts_result =
  mres_winner :: node
  mres_winner_plan_id :: string
  mres_initial_plan_id :: string
  mres_search_id :: string
  mres_iter_count :: int
  mres_unique_plans_visited :: int
  mres_terminated_by :: string
  mres_root_q :: 'f
  mres_tree_dump :: "(string \<times> string \<times> string \<times> nat \<times> 'f) list"

definition tree_dump :: "'f arith \<Rightarrow> 'f table \<Rightarrow> (string \<times> string \<times> string \<times> nat \<times> 'f) list" where
  "tree_dump ar tbl = sort_key (\<lambda>(p, c, h, n, q). (p, c, h))
     (concat (map (\<lambda>(p, node). map (\<lambda>(h, e). (p, me_child e, h, me_visits e, edge_q ar e)) (mn_children node)) tbl))"

definition better_edge :: "'f arith \<Rightarrow> 'f mcts_edge \<Rightarrow> 'f mcts_edge \<Rightarrow> bool" where
  "better_edge ar e best \<longleftrightarrow>
     me_visits e > me_visits best \<or>
     me_visits e = me_visits best \<and> \<not> fa_eq ar (edge_q ar e) (edge_q ar best) \<and> fa_less ar (edge_q ar best) (edge_q ar e) \<or>
     me_visits e = me_visits best \<and> fa_eq ar (edge_q ar e) (edge_q ar best) \<and> me_action_hash e < me_action_hash best"

definition pick_winner_edge :: "'f arith \<Rightarrow> 'f mcts_node \<Rightarrow> 'f mcts_edge option" where
  "pick_winner_edge ar root =
     (case map snd (mn_children root) of [] \<Rightarrow> None
      | e # es \<Rightarrow> Some (foldl (\<lambda>best e. if better_edge ar e best then e else best) e es))"

definition initial_state ::
  "('f, 'w) mcts_env \<Rightarrow> 'f mcts_config \<Rightarrow> node \<Rightarrow> int \<Rightarrow> log option \<Rightarrow> 'w \<Rightarrow> ('f, 'w) mcts_state" where
  "initial_state env cfg initial_plan started_at_ms db w =
     (let pid = node_id (mx_sha env) initial_plan in
      \<lparr>ms_table = [(pid, new_mcts_node (mx_arith env) pid)], ms_expander_cache = [], ms_evaluator_cache = [],
       ms_plans = [(pid, initial_plan)],
       ms_prev_hash = hash_search_summary (mx_sha env) pid (hash_config (mx_sha env) (mx_arith env) cfg) started_at_ms,
       ms_iter = 0, ms_attempts = 0, ms_failures = 0, ms_summary = False, ms_streak = 0, ms_db = db, ms_world = w\<rparr>)"

definition search_run :: "('f, 'w) mcts_env \<Rightarrow> 'f mcts_config \<Rightarrow> node \<Rightarrow> int \<Rightarrow> mcts_run" where
  "search_run env cfg initial_plan started_at_ms =
     \<lparr>mr_search_id = derive_search_id (mx_sha env) (mx_arith env) (node_id (mx_sha env) initial_plan) cfg started_at_ms,
      mr_config_hash = hash_config (mx_sha env) (mx_arith env) cfg,
      mr_initial_id = node_id (mx_sha env) initial_plan, mr_started = started_at_ms\<rparr>"

text \<open>The winner: the initial plan when nothing was evaluated or nothing was expanded.\<close>

definition search_winner ::
  "('f, 'w) mcts_env \<Rightarrow> node \<Rightarrow> string \<Rightarrow> ('f, 'w) mcts_state \<Rightarrow> err + node \<times> string \<times> 'f" where
  "search_winner env initial_plan reason st =
     (let pid = node_id (mx_sha env) initial_plan; zero = fa_of_int (mx_arith env) 0 in
      if reason = ''all_evaluations_failed'' then Inr (initial_plan, pid, zero)
      else case dget (ms_table st) pid of None \<Rightarrow> Inl KeyError
        | Some root \<Rightarrow>
            (case pick_winner_edge (mx_arith env) root of None \<Rightarrow> Inr (initial_plan, pid, zero)
             | Some e \<Rightarrow>
                 (case dget (ms_plans st) (me_child e) of None \<Rightarrow> Inl KeyError
                  | Some plan \<Rightarrow> Inr (plan, me_child e, edge_q (mx_arith env) e))))"

definition mcts_finish ::
  "('f, 'w) mcts_env \<Rightarrow> node \<Rightarrow> mcts_run \<Rightarrow> string \<Rightarrow> ('f, 'w) mcts_state \<Rightarrow> err + 'f mcts_result \<times> ('f, 'w) mcts_state" where
  "mcts_finish env initial_plan run reason st =
     ebind (search_winner env initial_plan reason st) (\<lambda>(winner, winner_id, root_q).
       ebind (transact_pending env
           [(''source'', VStr ''mcts-search''), (''mcts/search-id'', VStr (mr_search_id run)), (''phase'', VStr ''search-finish'')]
           ((if ms_summary st then []
             else search_start_facts (mr_search_id run) (mr_initial_id run) (mr_config_hash run) (mr_started run)) @
            search_finish_facts (mr_search_id run) (mr_started run) (int (ms_iter st)) winner_id reason) st) (\<lambda>st.
         Inr (\<lparr>mres_winner = winner, mres_winner_plan_id = winner_id, mres_initial_plan_id = mr_initial_id run,
           mres_search_id = mr_search_id run, mres_iter_count = int (ms_iter st),
           mres_unique_plans_visited = int (length (ms_table st)), mres_terminated_by = reason,
           mres_root_q = root_q, mres_tree_dump = tree_dump (mx_arith env) (ms_table st)\<rparr>, st)))"

definition mcts_search ::
  "('f, 'w) mcts_env \<Rightarrow> 'f mcts_config \<Rightarrow> node \<Rightarrow> int \<Rightarrow> log option \<Rightarrow> 'w \<Rightarrow>
   (err + 'f mcts_result \<times> ('f, 'w) mcts_state) option" where
  "mcts_search env cfg initial_plan started_at_ms db w =
     (if started_at_ms \<le> 0 then Some (Inl ValueError)
      else let run = search_run env cfg initial_plan started_at_ms in
        case mcts_loop env cfg run (initial_state env cfg initial_plan started_at_ms db w) of
          None \<Rightarrow> None
        | Some (Inl e) \<Rightarrow> Some (Inl e)
        | Some (Inr (reason, st)) \<Rightarrow> Some (mcts_finish env initial_plan run reason st))"

end
