(* ===== verification/MctsTable.thy ===== *)
theory MctsTable
  imports Mcts
begin

text \<open>
  The transposition table of a search: its edges and visit counts, the descent of SELECT
  through it, and what EXPAND and BACKUP do to them.
\<close>

section \<open>Dictionaries under update\<close>

lemma sum_list_dset:
  fixes f :: "string \<times> 'v \<Rightarrow> nat"
  shows "dget d k = Some old \<Longrightarrow> sum_list (map f (dset k v d)) + f (k, old) = sum_list (map f d) + f (k, v)"
  by (induction d) auto

lemma sum_list_dset_new:
  fixes f :: "string \<times> 'v \<Rightarrow> nat"
  shows "dget d k = None \<Longrightarrow> sum_list (map f (dset k v d)) = sum_list (map f d) + f (k, v)"
  by (simp add: dset_notin)

lemma count_list_distinct: "distinct xs \<Longrightarrow> x \<in> set xs \<Longrightarrow> count_list xs x = 1"
  by (induction xs) auto

section \<open>Visit counts\<close>

definition node_visits :: "'f table \<Rightarrow> string \<Rightarrow> nat" where
  "node_visits tbl n = (case dget tbl n of None \<Rightarrow> 0 | Some nd \<Rightarrow> mn_visits nd)"

definition edge_into :: "string \<Rightarrow> string \<times> 'f mcts_edge \<Rightarrow> nat" where
  "edge_into n he = (if me_child (snd he) = n then me_visits (snd he) else 0)"

definition node_into :: "string \<Rightarrow> string \<times> 'f mcts_node \<Rightarrow> nat" where
  "node_into n pn = sum_list (map (edge_into n) (mn_children (snd pn)))"

text \<open>The visits of all edges that lead to a plan.\<close>

definition incoming :: "'f table \<Rightarrow> string \<Rightarrow> nat" where
  "incoming tbl n = sum_list (map (node_into n) tbl)"

text \<open>What the statistics leave alone: the edges of a plan, with their keys and targets.\<close>

definition shape :: "'f table \<Rightarrow> string \<Rightarrow> (string \<times> string \<times> string) list option" where
  "shape tbl p = map_option (\<lambda>nd. map (\<lambda>(h, e). (h, me_action_hash e, me_child e)) (mn_children nd)) (dget tbl p)"

definition link :: "'f table \<Rightarrow> string \<Rightarrow> string \<Rightarrow> string option" where
  "link tbl p h = (case dget tbl p of None \<Rightarrow> None | Some nd \<Rightarrow> map_option me_child (dget (mn_children nd) h))"

lemma link_shape: "link tbl p h = Option.bind (shape tbl p) (\<lambda>s. map_option snd (map_of s h))"
proof (cases "dget tbl p")
  case (Some nd)
  have "map_option snd (map_of (map (\<lambda>(h, e). (h, me_action_hash e, me_child e)) cs) h) =
      map_option me_child (map_of cs h)" for cs :: "'a mcts_edge dict"
    by (induction cs) auto
  with Some show ?thesis by (simp add: link_def shape_def)
qed (simp add: link_def shape_def)

text \<open>Every child of an edge has a node, and edges are filed under their action hash.\<close>

definition wf_table :: "'f table \<Rightarrow> bool" where
  "wf_table tbl \<longleftrightarrow> (\<forall>p s. shape tbl p = Some s \<longrightarrow> distinct (map fst s) \<and>
     (\<forall>(h, a, c) \<in> set s. a = h \<and> shape tbl c \<noteq> None))"

lemma wf_tableD:
  "wf_table tbl \<Longrightarrow> shape tbl p = Some s \<Longrightarrow>
     distinct (map fst s) \<and> (\<forall>(h, a, c) \<in> set s. a = h \<and> shape tbl c \<noteq> None)"
  unfolding wf_table_def by blast

lemma wf_table_edge:
  assumes "wf_table tbl" "dget tbl p = Some nd" "e \<in> set (map snd (mn_children nd))"
  shows "dget (mn_children nd) (me_action_hash e) = Some e" "dget tbl (me_child e) \<noteq> None"
proof -
  let ?s = "map (\<lambda>(h, e). (h, me_action_hash e, me_child e)) (mn_children nd)"
  from assms(3) obtain h where he: "(h, e) \<in> set (mn_children nd)" by auto
  then have "(h, me_action_hash e, me_child e) \<in> set ?s" by force
  moreover have s: "shape tbl p = Some ?s" by (simp add: shape_def assms(2))
  ultimately have w: "me_action_hash e = h" "shape tbl (me_child e) \<noteq> None" "distinct (map fst ?s)"
    using assms(1) unfolding wf_table_def by blast+
  have "map fst (map (\<lambda>(h, e). (h, me_action_hash e, me_child e)) cs) = map fst cs" for cs :: "'a mcts_edge dict"
    by (induction cs) auto
  from w(3)[unfolded this] have "distinct (map fst (mn_children nd))" .
  with w(1,2) show "dget (mn_children nd) (me_action_hash e) = Some e" "dget tbl (me_child e) \<noteq> None"
    using he map_of_is_SomeI[of "mn_children nd" h e] by (auto simp: shape_def)
qed

section \<open>The descent\<close>

lemma best_edge_in: "best_edge ar score s best es = Some e \<Longrightarrow> best = Some e \<or> e \<in> set es"
  by (induction es arbitrary: s best) (auto split: if_splits)

lemma descend_link:
  assumes "wf_table tbl" "descend ar c tbl p = Some (h, child)"
  shows "link tbl p h = Some child" "dget tbl child \<noteq> None"
proof -
  from assms(2) obtain nd e where nd: "dget tbl p = Some nd" "select_child ar nd c = Some e"
    "h = me_action_hash e" "child = me_child e"
    by (auto simp: descend_def split: option.splits if_splits)
  then have "e \<in> set (map snd (mn_children nd))"
    by (auto simp: select_child_def Let_def dest!: best_edge_in)
  from wf_table_edge[OF assms(1) nd(1) this] nd
  show "link tbl p h = Some child" "dget tbl child \<noteq> None" by (auto simp: link_def)
qed

fun linked :: "'f table \<Rightarrow> string \<Rightarrow> (string \<times> string) list \<Rightarrow> string \<Rightarrow> bool" where
  "linked tbl p [] q \<longleftrightarrow> q = p"
| "linked tbl p ((p', h) # xs) q \<longleftrightarrow> p' = p \<and> (\<exists>child. link tbl p h = Some child \<and> linked tbl child xs q)"

text \<open>The descent as a relation with its length.\<close>

fun descent :: "'f arith \<Rightarrow> 'f \<Rightarrow> 'f table \<Rightarrow> string \<Rightarrow> (string \<times> string) list \<Rightarrow> string \<Rightarrow> bool" where
  "descent ar c tbl p [] q \<longleftrightarrow> q = p \<and> descend ar c tbl p = None"
| "descent ar c tbl p ((p', h) # xs) q \<longleftrightarrow> p' = p \<and> (\<exists>child. descend ar c tbl p = Some (h, child) \<and>
     descent ar c tbl child xs q)"

lemma select_path_descent:
  assumes "select_path ar c tbl path p = Some (q, path')"
  shows "\<exists>xs. path' = path @ xs \<and> descent ar c tbl p xs q"
proof -
  have "\<exists>xs. snd (q, path') = path @ xs \<and> descent ar c tbl p xs (fst (q, path'))"
  proof (rule select_path.raw_induct[where P = "\<lambda>ar c tbl path p r. \<exists>xs. snd r = path @ xs \<and> descent ar c tbl p xs (fst r)",
        OF _ assms])
    fix sp :: "'a arith \<Rightarrow> 'a \<Rightarrow> 'a table \<Rightarrow> (string \<times> string) list \<Rightarrow> string \<Rightarrow> (string \<times> (string \<times> string) list) option"
    fix ar c tbl path p r
    assume IH: "\<And>ar c tbl path p r. sp ar c tbl path p = Some r \<Longrightarrow> \<exists>xs. snd r = path @ xs \<and> descent ar c tbl p xs (fst r)"
      and eq: "(case descend ar c tbl p of None \<Rightarrow> Some (p, path)
          | Some (ah, child) \<Rightarrow> sp ar c tbl (path @ [(p, ah)]) child) = Some r"
    show "\<exists>xs. snd r = path @ xs \<and> descent ar c tbl p xs (fst r)"
    proof (cases "descend ar c tbl p")
      case None
      with eq show ?thesis by (intro exI[of _ "[]"]) auto
    next
      case (Some hc)
      obtain h child where hc: "hc = (h, child)" by (cases hc)
      with eq Some have "sp ar c tbl (path @ [(p, h)]) child = Some r" by simp
      from IH[OF this] obtain xs where "snd r = (path @ [(p, h)]) @ xs" "descent ar c tbl child xs (fst r)" by blast
      with Some hc show ?thesis by (intro exI[of _ "(p, h) # xs"]) auto
    qed
  qed
  then show ?thesis by simp
qed

lemma descent_select: "descent ar c tbl p xs q \<Longrightarrow> select_path ar c tbl path p = Some (q, path @ xs)"
proof (induction xs arbitrary: p path)
  case Nil
  then show ?case by (subst select_path.simps) simp
next
  case (Cons x xs)
  obtain p' h where x: "x = (p', h)" by (cases x)
  with Cons show ?case by (subst select_path.simps) auto
qed

lemma descent_unique:
  "descent ar c tbl p xs q \<Longrightarrow> descent ar c tbl p ys q' \<Longrightarrow> xs = ys \<and> q = q'"
proof (induction xs arbitrary: p ys)
  case Nil
  then show ?case by (cases ys) auto
next
  case (Cons x xs)
  then show ?case by (cases x; cases ys) auto
qed

lemma descent_suffix:
  "descent ar c tbl p (as @ (r, h) # bs) q \<Longrightarrow> descent ar c tbl r ((r, h) # bs) q"
proof (induction as arbitrary: p)
  case (Cons a as)
  then show ?case by (cases a) auto
qed auto

lemma descent_end: "descent ar c tbl p xs q \<Longrightarrow> descent ar c tbl q [] q"
  by (induction xs arbitrary: p) auto

lemma descent_linked: "wf_table tbl \<Longrightarrow> descent ar c tbl p xs q \<Longrightarrow> linked tbl p xs q"
proof (induction xs arbitrary: p)
  case (Cons x xs)
  obtain p' h where x: "x = (p', h)" by (cases x)
  with Cons.prems obtain child where d: "descend ar c tbl p = Some (h, child)" "descent ar c tbl child xs q" by auto
  from descend_link[OF Cons.prems(1) d(1)] x Cons.prems Cons.IH[OF Cons.prems(1) d(2)] show ?case by auto
qed auto

lemma descent_in_table:
  "wf_table tbl \<Longrightarrow> dget tbl p \<noteq> None \<Longrightarrow> descent ar c tbl p xs q \<Longrightarrow> dget tbl q \<noteq> None"
proof (induction xs arbitrary: p)
  case (Cons x xs)
  obtain p' h where x: "x = (p', h)" by (cases x)
  with Cons.prems obtain child where d: "descend ar c tbl p = Some (h, child)" "descent ar c tbl child xs q" by auto
  from descend_link[OF Cons.prems(1) d(1)] Cons.IH[OF Cons.prems(1) _ d(2)] show ?case by blast
qed auto

text \<open>A descent that ends never meets a plan twice.\<close>

lemma descent_distinct:
  assumes "descent ar c tbl p xs q"
  shows "distinct (map fst xs @ [q])"
proof -
  have no_repeat: "r \<notin> set (map fst bs @ [q])" if d: "descent ar c tbl r ((r, h) # bs) q" for r h bs
  proof
    assume "r \<in> set (map fst bs @ [q])"
    then consider "r = q" | h' where "(r, h') \<in> set bs" by auto
    then show False
    proof cases
      case 1
      from descent_end[OF d] have "descent ar c tbl r [] q" unfolding 1 .
      from descent_unique[OF d this] show False by simp
    next
      case 2
      from split_list[OF this] obtain as cs where bs: "bs = as @ (r, h') # cs" by blast
      with d have "descent ar c tbl r (((r, h) # as) @ (r, h') # cs) q" by simp
      from descent_unique[OF d descent_suffix[OF this]] have "bs = cs" by simp
      with arg_cong[OF bs, of length] show False by simp
    qed
  qed
  show ?thesis using assms
  proof (induction xs arbitrary: p)
    case (Cons x xs)
    obtain p' h where x: "x = (p', h)" by (cases x)
    with Cons.prems have "p' = p" and d: "\<exists>child. descent ar c tbl child xs q" by auto
    with Cons.prems x no_repeat[of p h xs] Cons.IH show ?case by auto
  qed simp
qed

section \<open>BACKUP\<close>

lemma link_edge:
  assumes "link tbl p h = Some child"
  obtains nd e where "dget tbl p = Some nd" "dget (mn_children nd) h = Some e" "me_child e = child"
  using assms by (auto simp: link_def split: option.splits)

lemma map_shape_dset:
  assumes "dget cs h = Some e" "me_action_hash e' = me_action_hash e" "me_child e' = me_child e"
  shows "map (\<lambda>(h, e). (h, me_action_hash e, me_child e)) (dset h e' cs) =
    map (\<lambda>(h, e). (h, me_action_hash e, me_child e)) cs"
  using assms by (induction cs) auto

lemma backup_step_effect:
  assumes "link tbl p h = Some child"
  shows "shape (backup_step ar score (p, h) tbl) = shape tbl"
    and "node_visits (backup_step ar score (p, h) tbl) n = node_visits tbl n + (if n = p then 1 else 0)"
    and "incoming (backup_step ar score (p, h) tbl) n = incoming tbl n + (if n = child then 1 else 0)"
proof -
  from assms obtain nd e where nd: "dget tbl p = Some nd" and e: "dget (mn_children nd) h = Some e" and ch: "me_child e = child"
    by (rule link_edge)
  let ?cs = "dset h (visit_edge ar score e) (mn_children nd)"
  let ?nd = "(visit_node ar score nd)\<lparr>mn_children := ?cs\<rparr>"
  have tbl: "backup_step ar score (p, h) tbl = dset p ?nd tbl"
    by (simp add: backup_step_def nd e)
  have ve: "me_action_hash (visit_edge ar score e) = me_action_hash e" "me_child (visit_edge ar score e) = me_child e"
    "me_visits (visit_edge ar score e) = Suc (me_visits e)" by (simp_all add: visit_edge_def)
  show "shape (backup_step ar score (p, h) tbl) = shape tbl"
    unfolding tbl using nd map_shape_dset[OF e ve(1,2)] by (auto simp: shape_def fun_eq_iff)
  show "node_visits (backup_step ar score (p, h) tbl) n = node_visits tbl n + (if n = p then 1 else 0)"
    unfolding tbl by (simp add: node_visits_def nd visit_node_def)
  have "sum_list (map (edge_into n) ?cs) + edge_into n (h, e) =
      sum_list (map (edge_into n) (mn_children nd)) + edge_into n (h, visit_edge ar score e)"
    by (rule sum_list_dset[OF e])
  then have "node_into n (p, ?nd) = node_into n (p, nd) + (if n = child then 1 else 0)"
    by (auto simp: node_into_def edge_into_def ve ch)
  moreover have "incoming (dset p ?nd tbl) n + node_into n (p, nd) = incoming tbl n + node_into n (p, ?nd)"
    unfolding incoming_def by (rule sum_list_dset[OF nd])
  ultimately show "incoming (backup_step ar score (p, h) tbl) n = incoming tbl n + (if n = child then 1 else 0)"
    unfolding tbl by simp
qed

lemma linked_shape: "shape tbl' = shape tbl \<Longrightarrow> linked tbl' p xs q = linked tbl p xs q"
  by (induction xs arbitrary: p) (auto simp: link_shape)

lemma shape_None: "shape tbl p = None \<longleftrightarrow> dget tbl p = None"
  by (simp add: shape_def)

lemma backup_effect:
  assumes "linked tbl p xs q" "dget tbl q \<noteq> None"
  shows "shape (backup ar score xs q tbl) = shape tbl"
    and "node_visits (backup ar score xs q tbl) n =
      node_visits tbl n + count_list (map fst xs @ [q]) n"
    and "incoming (backup ar score xs q tbl) n + (if n = p then 1 else 0) =
      incoming tbl n + count_list (map fst xs @ [q]) n"
proof -
  have "shape (backup ar score xs q tbl) = shape tbl \<and>
      node_visits (backup ar score xs q tbl) n = node_visits tbl n + count_list (map fst xs @ [q]) n \<and>
      incoming (backup ar score xs q tbl) n + (if n = p then 1 else 0) =
        incoming tbl n + count_list (map fst xs @ [q]) n"
    using assms
  proof (induction xs arbitrary: p tbl)
    case Nil
    then obtain nd where nd: "dget tbl q = Some nd" by auto
    have "incoming (dset q (visit_node ar score nd) tbl) n + node_into n (q, nd) =
        incoming tbl n + node_into n (q, visit_node ar score nd)"
      unfolding incoming_def by (rule sum_list_dset[OF nd])
    moreover have "node_into n (q, visit_node ar score nd) = node_into n (q, nd)"
      by (simp add: node_into_def visit_node_def)
    ultimately show ?case using Nil nd
      by (auto simp: backup_def shape_def node_visits_def visit_node_def fun_eq_iff)
  next
    case (Cons x xs)
    obtain p' h where x: "x = (p', h)" by (cases x)
    with Cons.prems obtain child where l: "link tbl p h = Some child" "linked tbl child xs q" "p' = p" by auto
    note eff = backup_step_effect[OF l(1), of ar score]
    let ?t = "backup_step ar score (p, h) tbl"
    have "linked ?t child xs q" using l(2) linked_shape[OF eff(1)] by simp
    moreover have "dget ?t q \<noteq> None" by (metis Cons.prems(2) shape_None eff(1))
    ultimately have IH: "shape (backup ar score xs q ?t) = shape ?t"
      "node_visits (backup ar score xs q ?t) n = node_visits ?t n + count_list (map fst xs @ [q]) n"
      "incoming (backup ar score xs q ?t) n + (if n = child then 1 else 0) =
        incoming ?t n + count_list (map fst xs @ [q]) n"
      using Cons.IH by blast+
    moreover have "backup ar score (x # xs) q tbl = backup ar score xs q ?t"
      by (simp add: backup_def x l(3))
    ultimately show ?case using eff(1) eff(2)[of n] eff(3)[of n] x l(3) by auto
  qed
  then show "shape (backup ar score xs q tbl) = shape tbl"
    "node_visits (backup ar score xs q tbl) n = node_visits tbl n + count_list (map fst xs @ [q]) n"
    "incoming (backup ar score xs q tbl) n + (if n = p then 1 else 0) = incoming tbl n + count_list (map fst xs @ [q]) n"
    by blast+
qed

section \<open>EXPAND\<close>

text \<open>Expansion only adds: links and nodes stay, the counts do not change.\<close>

definition table_grows :: "'f table \<Rightarrow> 'f table \<Rightarrow> bool" where
  "table_grows tbl tbl' \<longleftrightarrow> (wf_table tbl \<longrightarrow> wf_table tbl') \<and>
     (\<forall>p h c. link tbl p h = Some c \<longrightarrow> link tbl' p h = Some c) \<and>
     (\<forall>p. dget tbl p \<noteq> None \<longrightarrow> dget tbl' p \<noteq> None) \<and>
     (\<forall>n. node_visits tbl' n = node_visits tbl n \<and> incoming tbl' n = incoming tbl n)"

lemma table_grows_refl [simp]: "table_grows tbl tbl"
  by (simp add: table_grows_def)

lemma table_grows_trans [trans]: "table_grows a b \<Longrightarrow> table_grows b c \<Longrightarrow> table_grows a c"
  by (simp add: table_grows_def)

lemma table_grows_linked: "table_grows tbl tbl' \<Longrightarrow> linked tbl p xs q \<Longrightarrow> linked tbl' p xs q"
  by (induction xs arbitrary: p) (auto simp: table_grows_def)

lemma table_grows_same_shape:
  assumes "dget tbl p = Some nd" "mn_children nd' = mn_children nd" "mn_visits nd' = mn_visits nd"
  shows "table_grows tbl (dset p nd' tbl)"
proof -
  have sh: "shape (dset p nd' tbl) = shape tbl" using assms by (auto simp: shape_def fun_eq_iff)
  then have "wf_table (dset p nd' tbl) = wf_table tbl" "link (dset p nd' tbl) = link tbl"
    by (auto simp: wf_table_def link_shape fun_eq_iff)
  moreover have "node_visits (dset p nd' tbl) n = node_visits tbl n" for n
    using assms by (simp add: node_visits_def)
  moreover have "incoming (dset p nd' tbl) n = incoming tbl n" for n
  proof -
    have "incoming (dset p nd' tbl) n + node_into n (p, nd) = incoming tbl n + node_into n (p, nd')"
      unfolding incoming_def by (rule sum_list_dset[OF assms(1)])
    moreover have "node_into n (p, nd') = node_into n (p, nd)" by (simp add: node_into_def assms(2))
    ultimately show ?thesis by simp
  qed
  ultimately show ?thesis by (simp add: table_grows_def)
qed

lemma wf_table_update:
  assumes wf: "wf_table tbl" and sh: "\<And>q. shape t q = (if q = p then Some s else shape tbl q)"
    and d: "distinct (map fst s)" and c: "\<And>h a c. (h, a, c) \<in> set s \<Longrightarrow> a = h \<and> shape t c \<noteq> None"
  shows "wf_table t"
  unfolding wf_table_def
proof (intro allI impI)
  fix q u assume q: "shape t q = Some u"
  show "distinct (map fst u) \<and> (\<forall>(h, a, c) \<in> set u. a = h \<and> shape t c \<noteq> None)"
  proof (cases "q = p")
    case True
    with q sh[of p] have "u = s" by simp
    with d c show ?thesis by auto
  next
    case False
    with q sh[of q] have "shape tbl q = Some u" by simp
    with wf have *: "distinct (map fst u)" "\<forall>(h, a, c) \<in> set u. a = h \<and> shape tbl c \<noteq> None"
      unfolding wf_table_def by blast+
    have "shape t x \<noteq> None" if "shape tbl x \<noteq> None" for x using that sh[of x] by simp
    with * show ?thesis by fast
  qed
qed

lemma table_grows_new:
  assumes "dget tbl c = None"
  shows "table_grows tbl (dset c (new_mcts_node ar c) tbl)"
proof -
  let ?t = "dset c (new_mcts_node ar c) tbl"
  have sh: "shape ?t p = (if p = c then Some [] else shape tbl p)" for p
    by (simp add: shape_def new_mcts_node_def)
  have c: "shape tbl c = None" using assms by (simp add: shape_None)
  have "wf_table ?t" if "wf_table tbl"
    by (rule wf_table_update[OF that sh]) simp_all
  moreover have "link ?t p h = Some d" if "link tbl p h = Some d" for p h d
    using that c by (auto simp: link_shape sh)
  moreover have "node_visits ?t n = node_visits tbl n" for n
    using assms by (simp add: node_visits_def new_mcts_node_def)
  moreover have "incoming ?t n = incoming tbl n" for n
    unfolding incoming_def sum_list_dset_new[OF assms] by (simp add: node_into_def new_mcts_node_def)
  ultimately show ?thesis by (simp add: table_grows_def)
qed

lemma table_grows_edge:
  assumes nd: "dget tbl p = Some nd" and h: "dget (mn_children nd) h = None" and c: "dget tbl (me_child e) \<noteq> None"
    and e: "me_action_hash e = h" "me_visits e = 0"
  shows "table_grows tbl (dset p (nd\<lparr>mn_children := dset h e (mn_children nd)\<rparr>) tbl)"
proof -
  let ?nd = "nd\<lparr>mn_children := dset h e (mn_children nd)\<rparr>" and ?t = "dset p (nd\<lparr>mn_children := dset h e (mn_children nd)\<rparr>) tbl"
  let ?f = "\<lambda>(h, e). (h, me_action_hash e, me_child e)"
  have ch: "dset h e (mn_children nd) = mn_children nd @ [(h, e)]" using h by (rule dset_notin)
  have s0: "shape tbl p = Some (map ?f (mn_children nd))" by (simp add: shape_def nd)
  have sh: "shape ?t q = (if q = p then Some (map ?f (mn_children nd) @ [(h, h, me_child e)]) else shape tbl q)" for q
    by (simp add: shape_def ch e)
  have keys: "map fst (map ?f cs) = map fst cs" for cs :: "'a mcts_edge dict" by (induction cs) auto
  have "wf_table ?t" if wf: "wf_table tbl"
  proof -
    have d: "shape ?t d \<noteq> None" if "shape tbl d \<noteq> None" for d using that by (simp add: sh)
    have "shape tbl (me_child e) \<noteq> None" using c by (simp add: shape_None)
    moreover have "h \<notin> fst ` set (mn_children nd)" using h by (simp add: map_of_eq_None_iff)
    moreover note wf_tableD[OF wf s0]
    ultimately have p: "distinct (map fst (map ?f (mn_children nd) @ [(h, h, me_child e)])) \<and>
        (\<forall>(h, a, c) \<in> set (map ?f (mn_children nd) @ [(h, h, me_child e)]). a = h \<and> shape ?t c \<noteq> None)"
      unfolding map_append keys using d by (auto simp: e)
    show ?thesis by (rule wf_table_update[OF wf sh]) (use p in blast)+
  qed
  moreover have "link ?t q g = Some d" if "link tbl q g = Some d" for q g d
    using that by (cases "q = p") (auto simp: link_def nd ch map_add_def split: option.splits)
  moreover have "node_visits ?t n = node_visits tbl n" for n
    by (simp add: node_visits_def nd)
  moreover have "incoming ?t n = incoming tbl n" for n
  proof -
    have "incoming ?t n + node_into n (p, nd) = incoming tbl n + node_into n (p, ?nd)"
      unfolding incoming_def by (rule sum_list_dset[OF nd])
    moreover have "node_into n (p, ?nd) = node_into n (p, nd)"
      by (simp add: node_into_def ch edge_into_def e)
    ultimately show ?thesis by simp
  qed
  ultimately show ?thesis by (simp add: table_grows_def)
qed

lemma populate_step_grows: "table_grows (ms_table (snd acc)) (ms_table (snd (populate_step env run plan pid ap acc)))"
proof (cases "apply_action (mx_sha env) (mx_lib env) plan (fst ap)")
  case (Inl e)
  then show ?thesis by (simp add: populate_step_def phase_facts_split split: prod.splits)
next
  case (Inr new_plan)
  obtain pending st where acc: "acc = (pending, st)" by (cases acc)
  let ?ah = "action_hash (mx_sha env) (fst ap)" and ?cid = "node_id (mx_sha env) new_plan"
  show ?thesis
  proof (cases "dget (ms_table st) pid")
    case None
    with Inr acc show ?thesis by (simp add: populate_step_def)
  next
    case (Some nd)
    show ?thesis
    proof (cases "dget (mn_children nd) ?ah")
      case (Some e)
      with Inr acc \<open>dget (ms_table st) pid = Some nd\<close> show ?thesis by (simp add: populate_step_def)
    next
      case None
      define t where "t = (if dget (ms_table st) ?cid = None
        then dset ?cid (new_mcts_node (mx_arith env) ?cid) (ms_table st) else ms_table st)"
      define e where "e = \<lparr>me_action_hash = ?ah, me_action = fst ap, me_child = ?cid, me_prior = snd ap,
        me_visits = 0, me_total = fa_of_int (mx_arith env) 0\<rparr>"
      have t: "table_grows (ms_table st) t" using table_grows_new[of "ms_table st" ?cid] by (auto simp: t_def)
      have nd: "dget t pid = Some nd" using Some by (auto simp: t_def)
      have c: "dget t (me_child e) \<noteq> None" by (auto simp: t_def e_def)
      have "table_grows t (dset pid (nd\<lparr>mn_children := dset ?ah e (mn_children nd)\<rparr>) t)"
        by (rule table_grows_edge[OF nd None c]) (simp_all add: e_def)
      moreover have "ms_table (snd (populate_step env run plan pid ap acc)) =
          dset pid (nd\<lparr>mn_children := dset ?ah e (mn_children nd)\<rparr>) t"
        by (simp add: populate_step_def acc Inr Some None Let_def t_def e_def)
      ultimately show ?thesis using table_grows_trans[OF t] acc by simp
    qed
  qed
qed

lemma populate_grows: "table_grows (ms_table (snd acc)) (ms_table (snd (populate_children env run plan pid ps acc)))"
  unfolding populate_children_def
proof (induction ps arbitrary: acc)
  case (Cons ap ps)
  from table_grows_trans[OF populate_step_grows Cons.IH] show ?case by simp
qed simp

lemma mark_terminal_grows: "table_grows (ms_table st) (ms_table (mark_terminal pid st))"
  by (auto simp: mark_terminal_def put_node_def intro: table_grows_same_shape split: option.splits)

lemma propose_keeps:
  "propose env cfg run plan pid pending st = Inr (ps, pending', st') \<Longrightarrow>
     ms_table st' = ms_table st \<and> ms_plans st' = ms_plans st \<and> ms_evaluator_cache st' = ms_evaluator_cache st"
  by (auto simp: propose_def phase_facts_split split: option.splits prod.splits sum.splits if_splits)

lemma expand_phase_grows:
  assumes "expand_phase env cfg run pid (pending, st) = Inr (pending', st')"
  shows "table_grows (ms_table st) (ms_table st')"
  using assms
proof (cases rule: expand_phase_cases)
  case (2 plan proposals p2 st2 p3 st3)
  from propose_keeps[OF 2(4)] populate_grows[of "(p2, st2)" env run plan pid proposals] 2(5)
  have "table_grows (ms_table st) (ms_table st3)" by (cases "proposals = []") (auto, (metis snd_conv)+)
  with mark_terminal_grows[of st3 pid] 2(7) show ?thesis by (auto intro: table_grows_trans)
qed simp

section \<open>The balance of the counts\<close>

text \<open>After n completed evaluations: each one visited the root once, and every other plan is
  visited exactly as often as the edges that lead to it.\<close>

definition balanced :: "string \<Rightarrow> nat \<Rightarrow> 'f table \<Rightarrow> bool" where
  "balanced root n tbl \<longleftrightarrow> wf_table tbl \<and> dget tbl root \<noteq> None \<and> incoming tbl root = 0 \<and>
     (\<forall>p. node_visits tbl p = (if p = root then n else incoming tbl p))"

lemma balanced_grows: "balanced root n tbl \<Longrightarrow> table_grows tbl tbl' \<Longrightarrow> balanced root n tbl'"
  by (auto simp: balanced_def table_grows_def)

lemma balanced_new: "balanced root 0 [(root, new_mcts_node ar root)]"
  by (auto simp: balanced_def wf_table_def shape_def incoming_def node_into_def node_visits_def new_mcts_node_def)

lemma balanced_backup:
  assumes b: "balanced root n tbl" and d: "descent ar c tbl root xs q" and g: "table_grows tbl tbl'"
  shows "balanced root (Suc n) (backup ar' score xs q tbl')"
proof -
  have wf: "wf_table tbl" "dget tbl root \<noteq> None" using b by (simp_all add: balanced_def)
  have b': "balanced root n tbl'" using b g by (rule balanced_grows)
  have l: "linked tbl' root xs q" using table_grows_linked[OF g] descent_linked[OF wf(1) d] by blast
  have q: "dget tbl' q \<noteq> None" using descent_in_table[OF wf d] g by (simp add: table_grows_def)
  have root: "root \<in> set (map fst xs @ [q])" using d by (cases xs) auto
  note eff = backup_effect[OF l q, of ar' score]
  let ?t = "backup ar' score xs q tbl'"
  have "count_list (map fst xs @ [q]) root = 1"
    by (rule count_list_distinct[OF descent_distinct[OF d] root])
  then have "incoming ?t root = 0" "node_visits ?t root = Suc n"
    using eff(2,3)[of root] b' by (simp_all add: balanced_def)
  moreover have "node_visits ?t p = incoming ?t p" if "p \<noteq> root" for p
    using eff(2,3)[of p] b' that by (simp add: balanced_def)
  moreover have "wf_table ?t" using b' eff(1) by (simp add: balanced_def wf_table_def)
  moreover have "dget ?t root \<noteq> None" using b' eff(1) by (metis balanced_def shape_None)
  ultimately show ?thesis by (simp add: balanced_def)
qed

end
