(* ===== verification/MctsProps.thy ===== *)
theory MctsProps
  imports MctsTable
begin

text \<open>
  What holds of every plan search: the visit counts balance, attempts and failures are level
  only around a first evaluation that failed.
\<close>

section \<open>The balance of the counts over a whole search\<close>

definition accounted :: "string \<Rightarrow> nat \<Rightarrow> ('f, 'w) mcts_state \<Rightarrow> bool" where
  "accounted root k st \<longleftrightarrow> (\<exists>n. balanced root n (ms_table st) \<and> n + ms_failures st + k = ms_iter st)"

lemma after_select_accounted:
  assumes acc: "accounted root 0 st" and d: "descent ar c (ms_table st) root path pid"
    and r: "after_select env cfg run pid path pending st = Inr r"
  shows "case r of Next st' \<Rightarrow> accounted root 0 st'
    | Stop reason st' \<Rightarrow> reason = ''exhausted'' \<and> accounted root 1 st'"
proof -
  from acc obtain n where b: "balanced root n (ms_table st)" and n: "n + ms_failures st = ms_iter st"
    by (auto simp: accounted_def)
  from r show ?thesis
  proof (cases rule: after_select_steps)
    case (1 p2 st2 st3)
    from balanced_grows[OF b expand_phase_grows[OF 1(1)]] expand_phase_iter[OF 1(1)] transact_pending_keeps[OF 1(6)] n
    show ?thesis by (auto simp: 1(7) accounted_def)
  next
    case (2 p2 st2 st3)
    from balanced_grows[OF b expand_phase_grows[OF 2(1)]] expand_phase_iter[OF 2(1)] n 2(3)
    show ?thesis by - (rule evaluate_phase_cases[OF 2(2)], auto simp: accounted_def)
  next
    case (3 p2 st2 score p3 st3 st4)
    have t: "ms_table st3 = ms_table st2" "ms_iter st3 = ms_iter st2" "ms_failures st3 = ms_failures st2"
      by (rule evaluate_phase_cases[OF 3(2)], simp_all)+
    from balanced_backup[OF b d expand_phase_grows[OF 3(1)]]
    have "balanced root (Suc n) (ms_table st4)" using transact_pending_keeps[OF 3(3)] by (simp add: t)
    with expand_phase_iter[OF 3(1)] transact_pending_keeps[OF 3(3)] n t 3(4) show ?thesis
      by (auto simp: accounted_def intro!: exI[of _ "Suc n"])
  qed
qed

lemma mcts_iteration_accounted:
  assumes "accounted (mr_initial_id run) 0 st" "mcts_iteration env cfg run st = Some (Inr r)"
  shows "case r of Next st' \<Rightarrow> accounted (mr_initial_id run) 0 st'
    | Stop reason st' \<Rightarrow> reason = ''exhausted'' \<and> accounted (mr_initial_id run) 1 st'"
proof -
  let ?st = "st\<lparr>ms_summary := True\<rparr>"
  from assms(2) obtain pid path pending where
    s: "select_path (mx_arith env) (mc_c_puct cfg) (ms_table st) [] (mr_initial_id run) = Some (pid, path)"
    and r: "after_select env cfg run pid path pending ?st = Inr r"
    by (auto simp: mcts_iteration_def Let_def split: option.splits prod.splits)
  from select_path_descent[OF s] have d: "descent (mx_arith env) (mc_c_puct cfg) (ms_table ?st) (mr_initial_id run) path pid"
    by simp
  have "accounted (mr_initial_id run) 0 ?st" using assms(1) by (simp add: accounted_def)
  from after_select_accounted[OF this d r] show ?thesis .
qed

text \<open>The rule for the loop: an invariant of completed iterations holds where it stops.\<close>

lemma mcts_loop_stops [consumes 2, case_names step head stop]:
  assumes "mcts_loop env cfg run st = Some (Inr (reason, st'))" "P st"
    and "\<And>st streak st'. P st \<Longrightarrow> loop_head (mx_arith env) cfg (mr_initial_id run) st = (None, streak) \<Longrightarrow>
      mcts_iteration env cfg run (st\<lparr>ms_streak := streak\<rparr>) = Some (Inr (Next st')) \<Longrightarrow> P st'"
  obtains st1 streak where "P st1" "loop_head (mx_arith env) cfg (mr_initial_id run) st1 = (Some reason, streak)"
      "st' = st1\<lparr>ms_streak := streak\<rparr>"
  | st1 streak where "P st1" "loop_head (mx_arith env) cfg (mr_initial_id run) st1 = (None, streak)"
      "mcts_iteration env cfg run (st1\<lparr>ms_streak := streak\<rparr>) = Some (Inr (Stop reason st'))"
  using assms
proof (induction env cfg run st arbitrary: thesis rule: mcts_loop.induct)
  case (1 env cfg run st)
  obtain stop streak where h: "loop_head (mx_arith env) cfg (mr_initial_id run) st = (stop, streak)" by fastforce
  show ?case
  proof (cases stop)
    case (Some reason')
    with 1(4) h have "reason' = reason" "st' = st\<lparr>ms_streak := streak\<rparr>"
      by (simp_all add: mcts_loop.simps[of env cfg run st])
    with 1(2)[OF 1(5)] h Some show ?thesis by simp
  next
    case None
    with 1(4) h obtain r where it: "mcts_iteration env cfg run (st\<lparr>ms_streak := streak\<rparr>) = Some (Inr r)"
      and r: "(case r of Stop reason st' \<Rightarrow> Some (Inr (reason, st')) | Next st' \<Rightarrow> mcts_loop env cfg run st') =
        Some (Inr (reason, st'))"
      by (auto simp: mcts_loop.simps[of env cfg run st] split: option.splits sum.splits)
    show ?thesis
    proof (cases r)
      case (Next st2)
      have "P st2" using 1(6)[OF 1(5)] h None it Next by simp
      from 1(1)[OF h[symmetric] None it refl Next 1(2) 1(3) _ this 1(6)] r Next show ?thesis by simp
    next
      case (Stop re st2)
      with 1(3)[OF 1(5)] h None it r show ?thesis by simp
    qed
  qed
qed

lemma mcts_loop_accounted:
  assumes "mcts_loop env cfg run st = Some (Inr (reason, st'))" "accounted (mr_initial_id run) 0 st"
  shows "accounted (mr_initial_id run) (if reason = ''exhausted'' then 1 else 0) st'"
  using assms
proof (cases rule: mcts_loop_stops[where P = "accounted (mr_initial_id run) 0"])
  case (step st streak st')
  from mcts_iteration_accounted[OF _ step(3)] step(1) show ?case by (simp add: accounted_def)
next
  case (head st1 streak)
  then show ?thesis by (auto simp: accounted_def loop_head_def split: if_splits prod.splits)
next
  case (stop st1 streak)
  from mcts_iteration_accounted[OF _ stop(3)] stop(1) show ?thesis by (simp add: accounted_def)
qed

lemma mcts_search_run:
  assumes "mcts_search env cfg plan t db w = Some (Inr (res, st))"
  obtains reason st1 where "mcts_loop env cfg (search_run env cfg plan t) (initial_state env cfg plan t db w) = Some (Inr (reason, st1))"
    "mcts_finish env plan (search_run env cfg plan t) reason st1 = Inr (res, st)"
  using assms by (auto simp: mcts_search_def Let_def split: if_splits option.splits sum.splits)

lemma mcts_finish_result:
  assumes "mcts_finish env plan run reason st1 = Inr (res, st)"
  shows "mres_terminated_by res = reason \<and> mres_initial_plan_id res = mr_initial_id run \<and>
    mres_iter_count res = int (ms_iter st) \<and> mres_unique_plans_visited res = int (length (ms_table st)) \<and>
    ms_table st = ms_table st1 \<and> ms_iter st = ms_iter st1 \<and> ms_failures st = ms_failures st1"
  using assms by (auto simp: mcts_finish_def ebind_Inr_iff dest!: transact_pending_keeps)

lemma mcts_finish_attempts: "mcts_finish env plan run reason st1 = Inr (res, st) \<Longrightarrow> ms_attempts st = ms_attempts st1"
  by (auto simp: mcts_finish_def ebind_Inr_iff dest!: transact_pending_keeps)

section \<open>Attempts and failures\<close>

lemma populate_evaluator_cache:
  "ms_evaluator_cache (snd (populate_children env run plan pid ps acc)) = ms_evaluator_cache (snd acc)"
  unfolding populate_children_def
proof (induction ps arbitrary: acc)
  case (Cons ap ps)
  have "ms_evaluator_cache (snd (populate_step env run plan pid ap acc)) = ms_evaluator_cache (snd acc)"
    by (auto simp: populate_step_def Let_def split: prod.splits sum.splits option.splits)
  with Cons.IH[of "populate_step env run plan pid ap acc"] show ?case by simp
qed simp

lemma mark_terminal_evaluator_cache [simp]: "ms_evaluator_cache (mark_terminal pid st) = ms_evaluator_cache st"
  by (auto simp: mark_terminal_def put_node_def split: option.splits)

lemma expand_phase_evaluator_cache:
  assumes "expand_phase env cfg run pid (pending, st) = Inr (pending', st')"
  shows "ms_evaluator_cache st' = ms_evaluator_cache st"
  using assms
proof (cases rule: expand_phase_cases)
  case (2 plan proposals p2 st2 p3 st3)
  from propose_keeps[OF 2(4)] populate_evaluator_cache[of env run plan pid proposals "(p2, st2)"] 2(5)
  have "ms_evaluator_cache st3 = ms_evaluator_cache st" by (cases "proposals = []") (auto, (metis snd_conv)+)
  then show ?thesis by (simp add: 2(7))
qed simp

lemma evaluate_uncached:
  assumes "evaluate_phase env run pid (pending, st) = Inr (Scored score p' st')" "ms_evaluator_cache st = []"
  shows "ms_attempts st' = Suc (ms_attempts st)"
  using assms unfolding evaluate_phase_def
  by (auto simp: Let_def phase_facts_split elim!: emit_eval_reject_cases
      split: option.splits prod.splits sum.splits raw_score.splits)

text \<open>Attempts and failures are level only before the first evaluation and after a first one
  that failed.\<close>

definition attempts_ok :: "('f, 'w) mcts_state \<Rightarrow> bool" where
  "attempts_ok st \<longleftrightarrow>
     ms_iter st = 0 \<and> ms_attempts st = 0 \<and> ms_failures st = 0 \<and> ms_evaluator_cache st = [] \<or>
     ms_iter st = 1 \<and> ms_attempts st = 1 \<and> ms_failures st = 1 \<or>
     ms_iter st > 0 \<and> ms_failures st < ms_attempts st"

lemma mcts_iteration_attempts:
  assumes ok: "attempts_ok st" and level: "\<not> (ms_attempts st > 0 \<and> ms_attempts st = ms_failures st)"
    and it: "mcts_iteration env cfg run st = Some (Inr (Next st'))"
  shows "attempts_ok st'"
proof -
  from it obtain pid path pending where
    r: "after_select env cfg run pid path pending (st\<lparr>ms_summary := True\<rparr>) = Inr (Next st')"
    by (auto simp: mcts_iteration_def Let_def split: option.splits prod.splits)
  from r show ?thesis
  proof (cases rule: after_select_steps)
    case (1 p2 st2 st3)
    then show ?thesis by simp
  next
    case (2 p2 st2 st3)
    from expand_phase_iter[OF 2(1)] ok level 2(3) show ?thesis
      by - (rule evaluate_phase_cases[OF 2(2)], auto simp: attempts_ok_def)
  next
    case (3 p2 st2 score p3 st3 st4)
    have t: "ms_attempts st3 \<ge> ms_attempts st2" "ms_iter st3 = ms_iter st2" "ms_failures st3 = ms_failures st2"
      by (rule evaluate_phase_cases[OF 3(2)], simp_all)+
    have "ms_attempts st3 = Suc (ms_attempts st2)" if "ms_evaluator_cache st = []"
      using evaluate_uncached[OF 3(2)] expand_phase_evaluator_cache[OF 3(1)] that by simp
    with expand_phase_iter[OF 3(1)] ok level t transact_pending_keeps[OF 3(3)] 3(4) show ?thesis
      by (auto simp: attempts_ok_def)
  qed
qed

section \<open>Results of a search\<close>

text \<open>Integer arithmetic and a search that adds leaves, for concrete runs.\<close>

definition demo_arith :: "int arith" where
  "demo_arith = \<lparr>fa_of_int = (\<lambda>i. i), fa_add = (\<lambda>a b. a + b), fa_sub = (\<lambda>a b. a - b), fa_mul = (\<lambda>a b. a * b),
     fa_div = (\<lambda>a b. a div b), fa_sqrt = (\<lambda>a. a), fa_abs = abs, fa_less = (\<lambda>a b. a < b), fa_le = (\<lambda>a b. a \<le> b),
     fa_eq = (\<lambda>a b. a = b), fa_neg_inf = - 1000, fa_prior_tol = 1, fa_val = VInt\<rparr>"

definition demo_search_env :: "(node \<Rightarrow> (action \<times> int) list) \<Rightarrow> (node \<Rightarrow> int raw_score) \<Rightarrow> (int, unit) mcts_env" where
  "demo_search_env prop eval = \<lparr>mx_sha = (\<lambda>s. take 32 (rev s)), mx_arith = demo_arith,
     mx_xt = \<lparr>xt_class = (\<lambda>_. ''Error''), xt_repr = (\<lambda>_. ''Error()'')\<rparr>, mx_lib = None,
     mx_propose = (\<lambda>plan k w. (Inr (prop plan), w)), mx_evaluate = (\<lambda>plan w. (Inr (eval plan), w)),
     mx_db_env = (\<lambda>_. \<lparr>env_now = 0, env_digest = (\<lambda>_. []), env_iso = (\<lambda>_. None)\<rparr>)\<rparr>"

definition demo_config :: "int mcts_config" where
  "demo_config = \<lparr>mc_max_iter = 2, mc_max_unique_plans = 10, mc_simple_regret_threshold = None,
     mc_simple_regret_window = 5, mc_wall_clock_budget_ms = None, mc_c_puct = 1, mc_expander_k = 1, mc_seed = 0\<rparr>"

definition grow_leaf :: "node \<Rightarrow> (action \<times> int) list" where
  "grow_leaf plan = (if length (n_children plan) < 2 then [(AddStepAction [] 0 (Node '':b'' [] []), 1)] else [])"

lemma demo_search_runs:
  "case mcts_search (demo_search_env grow_leaf (\<lambda>_. RawFinite 1)) demo_config (Node '':a'' [] []) 1 None () of
     Some (Inr (res, st)) \<Rightarrow> mres_terminated_by res = ''max_iter'' \<and> ms_failures st = 0 \<and> ms_iter st = 2 | _ \<Rightarrow> False"
  by code_simp

lemma demo_search_fails:
  "case mcts_search (demo_search_env grow_leaf (\<lambda>_. RawNone)) demo_config (Node '':a'' [] []) 1 None () of
     Some (Inr (res, st)) \<Rightarrow> mres_terminated_by res = ''all_evaluations_failed'' | _ \<Rightarrow> False"
  by code_simp

lemma mcts_search_accounted:
  assumes "mcts_search env cfg plan t db w = Some (Inr (res, st))"
  shows "accounted (mres_initial_plan_id res) (if mres_terminated_by res = ''exhausted'' then 1 else 0) st"
proof -
  let ?run = "search_run env cfg plan t"
  from assms obtain reason st1 where
    l: "mcts_loop env cfg ?run (initial_state env cfg plan t db w) = Some (Inr (reason, st1))"
    and f: "mcts_finish env plan ?run reason st1 = Inr (res, st)" by (rule mcts_search_run)
  have "accounted (mr_initial_id ?run) 0 (initial_state env cfg plan t db w)"
    using balanced_new[of "node_id (mx_sha env) plan" "mx_arith env"]
    by (auto simp: accounted_def search_run_def initial_state_def Let_def)
  from mcts_loop_accounted[OF l this] mcts_finish_result[OF f] show ?thesis by (simp add: accounted_def)
qed

text \<open>C17. Visit conservation. When a search returns, every iteration is accounted for: the
  visits of the root and the failed evaluations (and the one iteration of an exhausted
  search) add up to the iteration count, and every other plan has been visited exactly as
  often as the edges that lead to it, however the plans share children.\<close>

theorem visit_conservation:
  assumes "mcts_search env cfg plan t db w = Some (Inr (res, st))"
  shows "node_visits (ms_table st) (mres_initial_plan_id res) + ms_failures st +
      (if mres_terminated_by res = ''exhausted'' then 1 else 0) = ms_iter st \<and>
    incoming (ms_table st) (mres_initial_plan_id res) = 0 \<and>
    (\<forall>p. node_visits (ms_table st) p =
      (if p = mres_initial_plan_id res then node_visits (ms_table st) p else incoming (ms_table st) p))"
  using mcts_search_accounted[OF assms] by (auto simp: accounted_def balanced_def)

theorem visit_conservation_witness:
  "\<exists>res st. mcts_search (demo_search_env grow_leaf (\<lambda>_. RawFinite 1)) demo_config (Node '':a'' [] []) 1 None () =
      Some (Inr (res, st)) \<and> node_visits (ms_table st) (mres_initial_plan_id res) = 2"
proof -
  from demo_search_runs obtain res st where
    r: "mcts_search (demo_search_env grow_leaf (\<lambda>_. RawFinite 1)) demo_config (Node '':a'' [] []) 1 None () = Some (Inr (res, st))"
    and m: "mres_terminated_by res = ''max_iter'' \<and> ms_failures st = 0 \<and> ms_iter st = 2"
    by (auto split: option.splits sum.splits prod.splits)
  from conjunct1[OF visit_conservation[OF r]] r m show ?thesis by auto
qed

end
