(* ===== verification/MctsLive.thy ===== *)
theory MctsLive
  imports MctsProps
begin

text \<open>
  When a plan search returns. SELECT follows the edges of a shared table until it meets a
  plan without children, so a search returns when its actions only lead forward, and never
  returns once an action leads back to the plan it started from.
\<close>

section \<open>Links that climb\<close>

definition climbs :: "(string \<Rightarrow> nat) \<Rightarrow> 'f table \<Rightarrow> bool" where
  "climbs rank tbl \<longleftrightarrow> (\<forall>p h c. link tbl p h = Some c \<longrightarrow> rank p < rank c)"

lemma climbs_link: "climbs rank tbl \<Longrightarrow> link tbl p h = Some c \<Longrightarrow> rank p < rank c"
  by (simp add: climbs_def)

lemma select_path_returns:
  assumes wf: "wf_table tbl" and up: "climbs rank tbl"
  shows "select_path ar c tbl path p \<noteq> None"
proof (induction "Max (insert 0 (rank ` set (map fst tbl))) - rank p" arbitrary: p path rule: less_induct)
  case less
  let ?m = "Max (insert 0 (rank ` set (map fst tbl)))"
  show ?case
  proof (cases "descend ar c tbl p")
    case None
    then show ?thesis by (subst select_path.simps) simp
  next
    case (Some hc)
    obtain h child where hc: "hc = (h, child)" by (cases hc)
    note d = descend_link[OF wf Some[unfolded hc]]
    have "rank p < rank child" using climbs_link[OF up d(1)] .
    moreover have "child \<in> set (map fst tbl)" using d(2) by (auto simp: map_of_eq_None_iff)
    then have "rank child \<le> ?m" by (intro Max_ge) auto
    ultimately have "select_path ar c tbl (path @ [(p, h)]) child \<noteq> None" by (intro less) simp
    then show ?thesis by (subst select_path.simps) (simp add: Some hc)
  qed
qed

section \<open>What expansion adds\<close>

definition leads :: "('f, 'w) mcts_env \<Rightarrow> node \<Rightarrow> (action \<times> 'f) list \<Rightarrow> string \<Rightarrow> bool" where
  "leads env plan ps c \<longleftrightarrow> (\<exists>ap \<in> set ps. \<exists>new. apply_action (mx_sha env) (mx_lib env) plan (fst ap) = Inr new \<and>
     c = node_id (mx_sha env) new)"

definition adds :: "('f, 'w) mcts_env \<Rightarrow> node \<Rightarrow> string \<Rightarrow> (action \<times> 'f) list \<Rightarrow>
    ('f, 'w) mcts_state \<Rightarrow> ('f, 'w) mcts_state \<Rightarrow> bool" where
  "adds env plan pid ps st st' \<longleftrightarrow>
     (\<forall>q h c. link (ms_table st') q h = Some c \<longrightarrow> link (ms_table st) q h = Some c \<or> q = pid \<and> leads env plan ps c) \<and>
     (\<forall>x pl. dget (ms_plans st') x = Some pl \<longrightarrow> dget (ms_plans st) x = Some pl \<or> x = node_id (mx_sha env) pl) \<and>
     (\<forall>x pl. dget (ms_plans st) x = Some pl \<longrightarrow> dget (ms_plans st') x = Some pl) \<and>
     ms_expander_cache st' = ms_expander_cache st"

lemma adds_refl [simp]: "adds env plan pid ps st st"
  by (simp add: adds_def)

lemma adds_trans: "adds env plan pid ps a b \<Longrightarrow> adds env plan pid ps b c \<Longrightarrow> adds env plan pid ps a c"
  by (simp add: adds_def) blast

lemma link_dset_same:
  assumes "dget tbl p = Some nd" "mn_children nd' = mn_children nd"
  shows "link (dset p nd' tbl) = link tbl"
  using assms by (auto simp: link_def fun_eq_iff)

lemma populate_step_adds:
  assumes "ap \<in> set ps"
  shows "adds env plan pid ps (snd acc) (snd (populate_step env run plan pid ap acc))"
proof -
  obtain pending st where acc: "acc = (pending, st)" by (cases acc)
  let ?ah = "action_hash (mx_sha env) (fst ap)"
  show ?thesis
  proof (cases "apply_action (mx_sha env) (mx_lib env) plan (fst ap)")
    case (Inl e)
    then show ?thesis by (simp add: populate_step_def phase_facts_split adds_def split: prod.splits)
  next
    case (Inr new)
    let ?cid = "node_id (mx_sha env) new"
    have lead: "leads env plan ps ?cid" using assms Inr by (auto simp: leads_def)
    show ?thesis
    proof (cases "\<exists>nd. dget (ms_table st) pid = Some nd \<and> dget (mn_children nd) ?ah = None")
      case False
      with Inr acc show ?thesis by (auto simp: populate_step_def split: option.splits)
    next
      case True
      then obtain nd where nd: "dget (ms_table st) pid = Some nd" "dget (mn_children nd) ?ah = None" by blast
      define t where "t = (if dget (ms_table st) ?cid = None
        then dset ?cid (new_mcts_node (mx_arith env) ?cid) (ms_table st) else ms_table st)"
      define e where "e = \<lparr>me_action_hash = ?ah, me_action = fst ap, me_child = ?cid, me_prior = snd ap,
        me_visits = 0, me_total = fa_of_int (mx_arith env) 0\<rparr>"
      define plans where "plans = (if dget (ms_plans st) ?cid = None then dset ?cid new (ms_plans st) else ms_plans st)"
      have st': "snd (populate_step env run plan pid ap acc) =
          st\<lparr>ms_plans := plans, ms_table := dset pid (nd\<lparr>mn_children := dset ?ah e (mn_children nd)\<rparr>) t\<rparr>"
        by (simp add: populate_step_def acc Inr nd Let_def t_def e_def plans_def)
      have "link t q h = link (ms_table st) q h" for q h
        by (auto simp: t_def link_def new_mcts_node_def)
      moreover have "dget t pid = Some nd" using nd by (auto simp: t_def)
      moreover have "link (ms_table st) pid h = map_option me_child (dget (mn_children nd) h)" for h
        using nd by (simp add: link_def)
      ultimately have "link (dset pid (nd\<lparr>mn_children := dset ?ah e (mn_children nd)\<rparr>) t) q h =
          (if q = pid \<and> h = ?ah then Some ?cid else link (ms_table st) q h)" for q h
        by (cases "q = pid") (simp_all add: link_def[of "dset _ _ _"] link_def[of t, symmetric] e_def)
      then show ?thesis unfolding st' using lead by (auto simp: adds_def acc plans_def split: if_splits)
    qed
  qed
qed

lemma populate_adds: "set ps \<subseteq> set ps' \<Longrightarrow>
    adds env plan pid ps' (snd acc) (snd (populate_children env run plan pid ps acc))"
  unfolding populate_children_def
proof (induction ps arbitrary: acc)
  case (Cons ap ps)
  then have "adds env plan pid ps' (snd acc) (snd (populate_step env run plan pid ap acc))"
    by (intro populate_step_adds) simp
  from adds_trans[OF this Cons.IH] Cons.prems show ?case by simp
qed simp

lemma mark_terminal_link:
  "link (ms_table (mark_terminal pid st)) = link (ms_table st)"
  "ms_plans (mark_terminal pid st) = ms_plans st"
  "ms_expander_cache (mark_terminal pid st) = ms_expander_cache st"
  by (auto simp: mark_terminal_def put_node_def intro!: link_dset_same split: option.splits)

section \<open>A search whose actions only lead forward\<close>

definition forward_only :: "('f, 'w) mcts_env \<Rightarrow> (string \<Rightarrow> nat) \<Rightarrow> bool" where
  "forward_only env rank \<longleftrightarrow> (\<forall>plan k w ps w' c. mx_propose env plan k w = (Inr ps, w') \<longrightarrow> leads env plan ps c \<longrightarrow>
     rank (node_id (mx_sha env) plan) < rank c)"

definition climbing :: "('f, 'w) mcts_env \<Rightarrow> (string \<Rightarrow> nat) \<Rightarrow> ('f, 'w) mcts_state \<Rightarrow> bool" where
  "climbing env rank st \<longleftrightarrow> wf_table (ms_table st) \<and> climbs rank (ms_table st) \<and>
     (\<forall>x pl. dget (ms_plans st) x = Some pl \<longrightarrow> x = node_id (mx_sha env) pl) \<and>
     (\<forall>x ps. dget (ms_expander_cache st) x = Some ps \<longrightarrow>
        (\<exists>pl. dget (ms_plans st) x = Some pl \<and> (\<forall>c. leads env pl ps c \<longrightarrow> rank x < rank c)))"

lemma climbing_adds:
  assumes "climbing env rank st" "adds env plan pid ps st st'" "table_grows (ms_table st) (ms_table st')"
    and "\<And>c. leads env plan ps c \<Longrightarrow> rank pid < rank c"
  shows "climbing env rank st'"
proof -
  have "climbs rank (ms_table st')"
    unfolding climbs_def
  proof (intro allI impI)
    fix p h c assume "link (ms_table st') p h = Some c"
    with assms(2) have "link (ms_table st) p h = Some c \<or> p = pid \<and> leads env plan ps c" by (simp add: adds_def)
    with assms(4)[of c] assms(1) show "rank p < rank c" by (auto simp: climbing_def dest: climbs_link)
  qed
  moreover have "wf_table (ms_table st')" using assms(1,3) by (simp add: climbing_def table_grows_def)
  moreover have "x = node_id (mx_sha env) pl" if "dget (ms_plans st') x = Some pl" for x pl
    using assms(1,2) that unfolding adds_def climbing_def by blast
  moreover have "\<exists>pl. dget (ms_plans st') x = Some pl \<and> (\<forall>c. leads env pl ps c \<longrightarrow> rank x < rank c)"
    if "dget (ms_expander_cache st') x = Some ps" for x ps
  proof -
    from that assms(2) have "dget (ms_expander_cache st) x = Some ps" by (simp add: adds_def)
    with assms(1) obtain pl where "dget (ms_plans st) x = Some pl" "\<forall>c. leads env pl ps c \<longrightarrow> rank x < rank c"
      unfolding climbing_def by blast
    with assms(2) show ?thesis unfolding adds_def by blast
  qed
  ultimately show ?thesis by (simp add: climbing_def)
qed

lemma propose_climbing:
  assumes "propose env cfg run plan pid pending st = Inr (ps, pending', st')" "dget (ms_plans st) pid = Some plan"
    and "climbing env rank st" "forward_only env rank"
  shows "climbing env rank st' \<and> (\<forall>c. leads env plan ps c \<longrightarrow> rank pid < rank c)"
proof (cases "dget (ms_expander_cache st) pid")
  case (Some ps')
  with assms(1) have eq: "ps' = ps" "st' = st" by (simp_all add: propose_def)
  from assms(3) Some have "\<exists>pl. dget (ms_plans st) pid = Some pl \<and> (\<forall>c. leads env pl ps c \<longrightarrow> rank pid < rank c)"
    unfolding climbing_def eq by blast
  with assms(2,3) show ?thesis by (auto simp: eq)
next
  case None
  with assms(1) obtain w where w: "mx_propose env plan (mc_expander_k cfg) (ms_world st) = (Inr ps, w)"
    and st': "ms_table st' = ms_table st" "ms_plans st' = ms_plans st"
      "ms_expander_cache st' = dset pid ps (ms_expander_cache st)"
    by (auto simp: propose_def phase_facts_split split: prod.splits sum.splits if_splits)
  have "pid = node_id (mx_sha env) plan" using assms(2,3) by (simp add: climbing_def)
  with assms(4) w have lead: "\<forall>c. leads env plan ps c \<longrightarrow> rank pid < rank c" unfolding forward_only_def by blast
  with assms(2,3) st' show ?thesis by (auto simp: climbing_def)
qed

lemma expand_climbing:
  assumes "expand_phase env cfg run pid (pending, st) = Inr (pending', st')"
    and "climbing env rank st" "forward_only env rank"
  shows "climbing env rank st'"
  using assms(1)
proof (cases rule: expand_phase_cases)
  case 1
  with assms(2) show ?thesis by simp
next
  case (2 plan ps p2 st2 p3 st3)
  from propose_climbing[OF 2(4,3) assms(2,3)]
  have c2: "climbing env rank st2" and lead: "\<And>c. leads env plan ps c \<Longrightarrow> rank pid < rank c" by blast+
  have "climbing env rank st3"
  proof (cases "ps = []")
    case True
    with 2(5) c2 show ?thesis by simp
  next
    case False
    with 2(5) have st3: "st3 = snd (populate_children env run plan pid ps (p2, st2))" by (metis snd_conv)
    from populate_adds[OF order_refl, of env plan pid ps "(p2, st2)" run]
      populate_grows[of "(p2, st2)" env run plan pid ps]
    have "adds env plan pid ps st2 st3" "table_grows (ms_table st2) (ms_table st3)" by (simp_all add: st3)
    from climbing_adds[OF c2 this lead] show ?thesis .
  qed
  then have "climbing env rank (mark_terminal pid st3)"
    using mark_terminal_grows[of st3 pid] by (simp add: climbing_def climbs_def mark_terminal_link table_grows_def)
  with \<open>climbing env rank st3\<close> show ?thesis by (simp add: 2(7))
qed

lemma climbing_same:
  assumes "climbing env rank st" "shape (ms_table st') = shape (ms_table st)" "ms_plans st' = ms_plans st"
    "ms_expander_cache st' = ms_expander_cache st"
  shows "climbing env rank st'"
proof -
  have "link (ms_table st') = link (ms_table st)" by (simp add: fun_eq_iff link_shape assms(2))
  then have "climbs rank (ms_table st') = climbs rank (ms_table st)" by (simp add: climbs_def)
  moreover have "wf_table (ms_table st') = wf_table (ms_table st)" by (simp add: wf_table_def assms(2))
  ultimately show ?thesis using assms(1,3,4) by (simp add: climbing_def)
qed

lemma after_select_climbing:
  assumes up: "climbing env rank st" and fw: "forward_only env rank" and root: "dget (ms_table st) root \<noteq> None"
    and d: "descent ar c (ms_table st) root path pid"
    and r: "after_select env cfg run pid path pending st = Inr (Next st')"
  shows "climbing env rank st' \<and> dget (ms_table st') root \<noteq> None"
  using r
proof (cases rule: after_select_steps)
  case (1 p2 st2 st3)
  then show ?thesis by simp
next
  case (2 p2 st2 st3)
  have t: "ms_table st3 = ms_table st2" "ms_plans st3 = ms_plans st2" "ms_expander_cache st3 = ms_expander_cache st2"
    by (rule evaluate_phase_cases[OF 2(2)], simp_all)+
  from climbing_same[OF expand_climbing[OF 2(1) up fw], of st3] expand_phase_grows[OF 2(1)] root 2(3)
  show ?thesis by (simp add: t table_grows_def)
next
  case (3 p2 st2 score p3 st3 st4)
  have t: "ms_table st3 = ms_table st2" "ms_plans st3 = ms_plans st2" "ms_expander_cache st3 = ms_expander_cache st2"
    by (rule evaluate_phase_cases[OF 3(2)], simp_all)+
  note g = expand_phase_grows[OF 3(1)]
  have wf: "wf_table (ms_table st)" using up by (simp add: climbing_def)
  have "linked (ms_table st2) root path pid" using table_grows_linked[OF g descent_linked[OF wf d]] .
  moreover have "dget (ms_table st2) pid \<noteq> None" using descent_in_table[OF wf root d] g by (simp add: table_grows_def)
  ultimately have sh: "shape (ms_table st4) = shape (ms_table st2)"
    using backup_effect(1) transact_pending_keeps[OF 3(3)] by (simp add: t)
  note keeps = transact_pending_keeps[OF 3(3)]
  have st': "st' = st4\<lparr>ms_iter := Suc (ms_iter st4)\<rparr>" using 3(4) by simp
  have "climbing env rank st'" unfolding st'
    by (rule climbing_same[OF expand_climbing[OF 3(1) up fw]]) (use keeps sh t in simp_all)
  moreover have "shape (ms_table st') root \<noteq> None"
    using g root sh by (simp add: st' shape_None table_grows_def)
  ultimately show ?thesis by (simp add: shape_None)
qed

lemma mcts_loop_returns:
  "climbing env rank st \<Longrightarrow> forward_only env rank \<Longrightarrow> dget (ms_table st) (mr_initial_id run) \<noteq> None \<Longrightarrow>
     mcts_loop env cfg run st \<noteq> None"
proof (induction env cfg run st rule: mcts_loop.induct)
  case (1 env cfg run st)
  obtain stop streak where h: "loop_head (mx_arith env) cfg (mr_initial_id run) st = (stop, streak)" by fastforce
  let ?st = "st\<lparr>ms_streak := streak\<rparr>"
  have up: "climbing env rank (?st\<lparr>ms_summary := True\<rparr>)" by (rule climbing_same[OF 1(2)]) simp_all
  then have "wf_table (ms_table ?st)" "climbs rank (ms_table ?st)" by (simp_all add: climbing_def)
  from select_path_returns[OF this, of "mx_arith env" "mc_c_puct cfg" "[]" "mr_initial_id run"]
  obtain pid path where s: "select_path (mx_arith env) (mc_c_puct cfg) (ms_table ?st) [] (mr_initial_id run) = Some (pid, path)"
    by auto
  then obtain pending where it: "mcts_iteration env cfg run ?st =
      Some (after_select env cfg run pid path pending (?st\<lparr>ms_summary := True\<rparr>))"
    by (simp add: mcts_iteration_def Let_def)
  show ?case
  proof (cases stop)
    case (Some reason)
    with h show ?thesis by (simp add: mcts_loop.simps[of env cfg run st])
  next
    case None
    show ?thesis
    proof (cases "\<exists>st'. after_select env cfg run pid path pending (?st\<lparr>ms_summary := True\<rparr>) = Inr (Next st')")
      case True
      then obtain st' where st': "after_select env cfg run pid path pending (?st\<lparr>ms_summary := True\<rparr>) = Inr (Next st')" by blast
      from select_path_descent[OF s] have "descent (mx_arith env) (mc_c_puct cfg) (ms_table (?st\<lparr>ms_summary := True\<rparr>)) (mr_initial_id run) path pid"
        by simp
      from after_select_climbing[OF up 1(3) _ this st'] 1(4) have "climbing env rank st'" "dget (ms_table st') (mr_initial_id run) \<noteq> None"
        by simp_all
      from 1(1)[OF h[symmetric] None it[unfolded st'] refl refl this(1) 1(3) this(2)]
      show ?thesis by (simp add: mcts_loop.simps[of env cfg run st] h None it st')
    next
      case False
      then show ?thesis
        by (auto simp: mcts_loop.simps[of env cfg run st] h None it split: sum.splits iteration.splits)
    qed
  qed
qed

text \<open>C19. A search whose expander only proposes actions that lead forward, along some rank
  of the plans, always returns: every descent ends, so the whole search does, within its
  iteration budget, whatever the scores, the priors and the arithmetic are.\<close>

theorem forward_search_returns:
  assumes "forward_only env rank"
  shows "mcts_search env cfg plan t db w \<noteq> None"
proof -
  let ?st = "initial_state env cfg plan t db w" and ?run = "search_run env cfg plan t"
  have "climbing env rank ?st"
    using balanced_new[of "node_id (mx_sha env) plan" "mx_arith env"]
    by (auto simp: climbing_def climbs_def initial_state_def Let_def balanced_def link_def new_mcts_node_def)
  from mcts_loop_returns[OF this assms, of ?run cfg]
  have "mcts_loop env cfg ?run ?st \<noteq> None" by (simp add: initial_state_def search_run_def Let_def)
  then show ?thesis by (auto simp: mcts_search_def Let_def split: sum.splits)
qed

definition grow_once :: "node \<Rightarrow> (action \<times> int) list" where
  "grow_once plan = (if plan = Node '':a'' [] [] then [(AddStepAction [] 0 (Node '':b'' [] []), 1)] else [])"

theorem forward_search_returns_witness:
  "mcts_search (demo_search_env grow_once (\<lambda>_. RawFinite 1)) demo_config (Node '':a'' [] []) 1 None () \<noteq> None"
proof -
  let ?env = "demo_search_env grow_once (\<lambda>_. RawFinite 1)"
  let ?id = "node_id (mx_sha ?env)"
  have ne: "?id (Node '':a'' [] [Node '':b'' [] []]) \<noteq> ?id (Node '':a'' [] [])" by code_simp
  have "c = ?id (Node '':a'' [] [Node '':b'' [] []])" if "leads ?env (Node '':a'' [] []) [(AddStepAction [] 0 (Node '':b'' [] []), 1)] c" for c
    using that by (auto simp: leads_def apply_action_def apply_add_step_def demo_search_env_def split: if_splits)
  then have "forward_only ?env (\<lambda>x. if x = ?id (Node '':a'' [] []) then 0 else 1)"
    using ne by (auto simp: forward_only_def demo_search_env_def grow_once_def leads_def split: if_splits)
  from forward_search_returns[OF this] show ?thesis .
qed

section \<open>A search that comes back\<close>

lemma descent_cycle:
  assumes "descend ar c tbl p = Some (h, p)"
  shows "select_path ar c tbl path p = None"
proof (rule ccontr)
  assume "select_path ar c tbl path p \<noteq> None"
  then obtain q path' where s: "select_path ar c tbl path p = Some (q, path')" by auto
  from select_path_descent[OF s] obtain xs where xs: "descent ar c tbl p xs q" by blast
  with assms obtain ys where ys: "xs = (p, h) # ys" "descent ar c tbl p ys q" by (cases xs) auto
  from descent_unique[OF xs ys(2)] ys(1) show False by simp
qed

lemma simple_regret_few:
  assumes "\<And>root. dget (ms_table st) root_id = Some root \<Longrightarrow> length (mn_children root) < 2"
  shows "simple_regret ar cfg root_id st = (False, ms_streak st)"
  using assms unfolding simple_regret_def by (auto split: option.splits)

lemma mcts_loop_go:
  assumes "loop_head (mx_arith env) cfg (mr_initial_id run) st = (None, streak)"
  shows "mcts_iteration env cfg run (st\<lparr>ms_streak := streak\<rparr>) = None \<Longrightarrow> mcts_loop env cfg run st = None"
    and "mcts_iteration env cfg run (st\<lparr>ms_streak := streak\<rparr>) = Some (Inr (Next st')) \<Longrightarrow>
      mcts_loop env cfg run st = mcts_loop env cfg run st'"
  using assms by (simp_all add: mcts_loop.simps[of env cfg run st])

text \<open>The edge that a single proposal gives the initial plan, when its child is the plan itself.\<close>

definition self_edge :: "('f, 'w) mcts_env \<Rightarrow> node \<Rightarrow> action \<Rightarrow> 'f \<Rightarrow> 'f mcts_edge" where
  "self_edge env plan act prior = \<lparr>me_action_hash = action_hash (mx_sha env) act, me_action = act,
     me_child = node_id (mx_sha env) plan, me_prior = prior, me_visits = 0, me_total = fa_of_int (mx_arith env) 0\<rparr>"

text \<open>The search never returns when an action leads back. If the expander proposes, as
  its only action on the initial plan, one whose result has the id of that plan (putting a
  leaf in place of an equal leaf is one), the initial plan becomes its own child; with a
  budget of two iterations, the second SELECT follows that edge for ever. Nothing of the
  budget is checked on the way.\<close>

lemma self_action_never_returns:
  assumes "0 < t" "2 \<le> mc_max_iter cfg" "2 \<le> mc_max_unique_plans cfg"
    and propose: "mx_propose env plan (mc_expander_k cfg) w = (Inr [(act, prior)], w1)" "prior_sum_ok (mx_arith env) [(act, prior)]"
    and apply_act: "apply_action (mx_sha env) (mx_lib env) plan act = Inr plan'"
    and same: "node_id (mx_sha env) plan' = node_id (mx_sha env) plan"
    and evaluate: "mx_evaluate env plan w1 = (Inr (RawFinite score), w2)"
    and taken: "fa_less (mx_arith env) (fa_neg_inf (mx_arith env))
      (puct_score (mx_arith env) (mc_c_puct cfg) (fa_sqrt (mx_arith env) (fa_of_int (mx_arith env) 1)) (self_edge env plan act prior))"
  shows "mcts_search env cfg plan t None w = None"
proof -
  let ?pid = "node_id (mx_sha env) plan" and ?run = "search_run env cfg plan t"
  let ?st = "initial_state env cfg plan t None w"
  have run: "mr_initial_id ?run = ?pid" by (simp add: search_run_def)
  have tbl: "ms_table ?st = [(?pid, new_mcts_node (mx_arith env) ?pid)]" "ms_plans ?st = [(?pid, plan)]"
    "ms_expander_cache ?st = []" "ms_evaluator_cache ?st = []" "ms_iter ?st = 0" "ms_db ?st = None" "ms_world ?st = w"
    "ms_attempts ?st = 0" "ms_failures ?st = 0"
    by (simp_all add: initial_state_def Let_def)
  have "simple_regret (mx_arith env) cfg ?pid ?st = (False, ms_streak ?st)"
    by (rule simple_regret_few) (auto simp: tbl new_mcts_node_def)
  with assms(2,3) have head: "loop_head (mx_arith env) cfg (mr_initial_id ?run) ?st = (None, ms_streak ?st)"
    by (simp add: loop_head_def tbl run)
  let ?st1 = "?st\<lparr>ms_streak := ms_streak ?st\<rparr>"
  have "select_path (mx_arith env) (mc_c_puct cfg) (ms_table ?st1) [] ?pid = Some (?pid, [])"
    by (subst select_path.simps) (simp add: tbl descend_def new_mcts_node_def)
  then obtain pending where it: "mcts_iteration env cfg ?run ?st1 =
      Some (after_select env cfg ?run ?pid [] pending (?st1\<lparr>ms_summary := True\<rparr>))"
    by (simp add: mcts_iteration_def Let_def run)
  let ?nd = "(new_mcts_node (mx_arith env) ?pid)\<lparr>mn_children := [(action_hash (mx_sha env) act, self_edge env plan act prior)]\<rparr>"
  obtain p2 st2 where ex: "expand_phase env cfg ?run ?pid (pending, ?st1\<lparr>ms_summary := True\<rparr>) = Inr (p2, st2)"
    and st2: "ms_table st2 = [(?pid, ?nd)]" "ms_plans st2 = [(?pid, plan)]" "ms_evaluator_cache st2 = []" "ms_world st2 = w1"
      "ms_iter st2 = 0" "ms_attempts st2 = 0" "ms_failures st2 = 0" "ms_db st2 = None"
    using propose apply_act same
    by (auto simp: expand_phase_def is_terminal_def childless_def tbl new_mcts_node_def propose_def phase_facts_split
        populate_children_def populate_step_def Let_def self_edge_def)
  let ?nd1 = "?nd\<lparr>mn_visits := 1, mn_total := fa_add (mx_arith env) (fa_of_int (mx_arith env) 0) score\<rparr>"
  obtain p3 st3 where ev: "evaluate_phase env ?run ?pid (p2, st2) = Inr (Scored score p3 st3)"
    and st3: "ms_table st3 = [(?pid, ?nd)]" "ms_iter st3 = 0" "ms_attempts st3 = 1" "ms_failures st3 = 0" "ms_db st3 = None"
    using evaluate by (auto simp: evaluate_phase_def st2 Let_def phase_facts_split)
  let ?st4 = "st3\<lparr>ms_table := backup (mx_arith env) score [] ?pid (ms_table st3), ms_iter := 1\<rparr>"
  have tbl4: "ms_table ?st4 = [(?pid, ?nd1)]" by (simp add: backup_def st3 visit_node_def new_mcts_node_def)
  have "after_select env cfg ?run ?pid [] pending (?st1\<lparr>ms_summary := True\<rparr>) = Inr (Next ?st4)"
    using ex ev by (simp add: after_select_def Let_def is_terminal_def childless_def st2 st3 transact_pending_def new_mcts_node_def)
  with it have it: "mcts_iteration env cfg ?run ?st1 = Some (Inr (Next ?st4))" by simp
  have "simple_regret (mx_arith env) cfg ?pid ?st4 = (False, ms_streak ?st4)"
    by (rule simple_regret_few) (use tbl4 in \<open>auto simp: new_mcts_node_def\<close>)
  with assms(2,3) have head4: "loop_head (mx_arith env) cfg (mr_initial_id ?run) ?st4 = (None, ms_streak ?st4)"
    using tbl4 by (simp add: loop_head_def st3 run)
  have "descend (mx_arith env) (mc_c_puct cfg) (ms_table ?st4) ?pid = Some (action_hash (mx_sha env) act, ?pid)"
    unfolding tbl4 using taken by (simp add: descend_def select_child_def new_mcts_node_def self_edge_def)
  from descent_cycle[OF this] have "mcts_iteration env cfg ?run (?st4\<lparr>ms_streak := ms_streak ?st4\<rparr>) = None"
    by (simp add: mcts_iteration_def Let_def run)
  from mcts_loop_go(1)[OF head4 this] mcts_loop_go(2)[OF head it] have "mcts_loop env cfg ?run ?st = None" by (rule trans[rotated])
  with assms(1) show ?thesis by (simp add: mcts_search_def Let_def)
qed

end
