(* ===== verification/MctsStop.thy ===== *)
theory MctsStop
  imports MctsProps
begin

text \<open>
  Why a plan search stops: each reason it gives is tied to the condition it stands for. For
  the regret test this is a statement about the history of the search: at each of the last
  iterations of the window the two most visited edges of the root were far enough apart.
\<close>

section \<open>The heads of the loop\<close>

text \<open>The states in which the loop of a search checks whether to stop.\<close>

inductive loop_reaches ::
  "('f, 'w) mcts_env \<Rightarrow> 'f mcts_config \<Rightarrow> mcts_run \<Rightarrow> ('f, 'w) mcts_state \<Rightarrow> ('f, 'w) mcts_state \<Rightarrow> bool"
  for env cfg run st0 where
  start: "loop_reaches env cfg run st0 st0"
| step: "loop_reaches env cfg run st0 st \<Longrightarrow> loop_head (mx_arith env) cfg (mr_initial_id run) st = (None, streak) \<Longrightarrow>
    mcts_iteration env cfg run (st\<lparr>ms_streak := streak\<rparr>) = Some (Inr (Next st')) \<Longrightarrow>
    loop_reaches env cfg run st0 st'"

text \<open>The gap between the mean values of the two most visited edges of the root is at least
  the configured threshold.\<close>

definition gap_reached :: "'f arith \<Rightarrow> 'f mcts_config \<Rightarrow> string \<Rightarrow> 'f table \<Rightarrow> bool" where
  "gap_reached ar cfg root tbl =
     (case (mc_simple_regret_threshold cfg, dget tbl root) of
        (Some thr, Some node) \<Rightarrow>
          (let es = sort_key (\<lambda>e. - int (me_visits e)) (map snd (mn_children node)) in
           length es \<ge> 2 \<and> fa_le ar thr (fa_sub ar (edge_q ar (es ! 0)) (edge_q ar (es ! 1))))
      | _ \<Rightarrow> False)"

definition two_edges :: "'f table \<Rightarrow> string \<Rightarrow> bool" where
  "two_edges tbl p \<longleftrightarrow> (\<exists>h g. h \<noteq> g \<and> link tbl p h \<noteq> None \<and> link tbl p g \<noteq> None)"

lemma two_edges_length:
  assumes "two_edges tbl p" "dget tbl p = Some nd"
  shows "length (mn_children nd) \<ge> 2"
proof -
  from assms obtain h g where "h \<noteq> g" "dget (mn_children nd) h \<noteq> None" "dget (mn_children nd) g \<noteq> None"
    by (auto simp: two_edges_def link_def split: option.splits)
  then show ?thesis by (cases "mn_children nd"; cases "tl (mn_children nd)") (auto split: if_splits)
qed

lemma length_two_edges:
  assumes "wf_table tbl" "dget tbl p = Some nd" "length (mn_children nd) \<ge> 2"
  shows "two_edges tbl p"
proof -
  obtain h e g e' cs where cs: "mn_children nd = (h, e) # (g, e') # cs"
    using assms(3) by (cases "mn_children nd"; cases "tl (mn_children nd)") auto
  from wf_tableD[OF assms(1), of p] assms(2) have "h \<noteq> g" by (auto simp: shape_def cs)
  with assms(2) show ?thesis by (auto simp: two_edges_def link_def cs)
qed

lemma simple_regret_cases:
  assumes "simple_regret ar cfg root st = (fire, streak)"
  obtains (gap) "gap_reached ar cfg root (ms_table st)" "mc_simple_regret_window cfg \<le> int (ms_iter st)"
      "streak = ms_streak st + 1" "fire \<longleftrightarrow> mc_simple_regret_window cfg \<le> streak"
  | (reset) "\<not> fire" "streak = 0"
  | (idle) "\<not> fire" "streak = ms_streak st"
      "mc_simple_regret_threshold cfg = None \<or> dget (ms_table st) root = None \<or>
       int (ms_iter st) < mc_simple_regret_window cfg \<or>
       (\<exists>nd. dget (ms_table st) root = Some nd \<and> length (mn_children nd) < 2)"
  using assms unfolding simple_regret_def gap_reached_def
  by (auto simp: Let_def split: option.splits if_splits)

section \<open>What an iteration keeps\<close>

lemma populate_streak:
  "ms_streak (snd (populate_children env run plan pid ps acc)) = ms_streak (snd acc)"
  unfolding populate_children_def
proof (induction ps arbitrary: acc)
  case (Cons ap ps)
  have "ms_streak (snd (populate_step env run plan pid ap acc)) = ms_streak (snd acc)"
    by (auto simp: populate_step_def put_node_def Let_def split: prod.splits sum.splits option.splits)
  with Cons.IH[of "populate_step env run plan pid ap acc"] show ?case by simp
qed simp

lemma mark_terminal_streak [simp]: "ms_streak (mark_terminal pid st) = ms_streak st"
  by (auto simp: mark_terminal_def put_node_def split: option.splits)

lemma propose_streak: "propose env cfg run plan pid pending st = Inr (ps, pending', st') \<Longrightarrow> ms_streak st' = ms_streak st"
  by (auto simp: propose_def phase_facts_split split: option.splits prod.splits sum.splits if_splits)

lemma expand_phase_streak:
  assumes "expand_phase env cfg run pid (pending, st) = Inr (pending', st')"
  shows "ms_streak st' = ms_streak st"
  using assms
proof (cases rule: expand_phase_cases)
  case (2 plan proposals p2 st2 p3 st3)
  from propose_streak[OF 2(4)] populate_streak[of env run plan pid proposals "(p2, st2)"] 2(5)
  have "ms_streak st3 = ms_streak st" by (cases "proposals = []") (auto, (metis snd_conv)+)
  then show ?thesis by (simp add: 2(7))
qed simp

lemma transact_pending_streak: "transact_pending env prov facts st = Inr st' \<Longrightarrow> ms_streak st' = ms_streak st"
  by (auto simp: transact_pending_def ebind_Inr_iff split: option.splits if_splits)

lemma evaluate_phase_streak:
  assumes "evaluate_phase env run pid (pending, st) = Inr r"
  shows "case r of Rejected st' \<Rightarrow> ms_streak st' = ms_streak st | Scored score p' st' \<Rightarrow> ms_streak st' = ms_streak st"
  using assms unfolding evaluate_phase_def
  by (auto simp: Let_def phase_facts_split emit_eval_reject_def ebind_Inr_iff dest!: transact_pending_streak
      split: option.splits prod.splits sum.splits raw_score.splits)

lemma after_select_keeps:
  assumes "balanced root n (ms_table st)" "descent ar c (ms_table st) root path pid"
    and "after_select env cfg run pid path pending st = Inr (Next st')"
  shows "ms_streak st' = ms_streak st \<and> (\<forall>p h d. link (ms_table st) p h = Some d \<longrightarrow> link (ms_table st') p h = Some d)"
  using assms(3)
proof (cases rule: after_select_steps)
  case (1 p2 st2 st3)
  then show ?thesis by simp
next
  case (2 p2 st2 st3)
  have "ms_table st3 = ms_table st2" by (rule evaluate_phase_cases[OF 2(2)]) simp_all
  with expand_phase_grows[OF 2(1)] expand_phase_streak[OF 2(1)] evaluate_phase_streak[OF 2(2)] 2(3)
  show ?thesis by (simp add: table_grows_def)
next
  case (3 p2 st2 score p3 st3 st4)
  have t: "ms_table st3 = ms_table st2" by (rule evaluate_phase_cases[OF 3(2)]) simp_all
  note g = expand_phase_grows[OF 3(1)]
  have wf: "wf_table (ms_table st)" "dget (ms_table st) root \<noteq> None" using assms(1) by (simp_all add: balanced_def)
  have l: "linked (ms_table st2) root path pid" using table_grows_linked[OF g] descent_linked[OF wf(1) assms(2)] by blast
  have q: "dget (ms_table st2) pid \<noteq> None" using descent_in_table[OF wf assms(2)] g by (simp add: table_grows_def)
  have "shape (ms_table st4) = shape (ms_table st2)"
    using transact_pending_keeps[OF 3(3)] backup_effect(1)[OF l q] by (simp add: t)
  then have "link (ms_table st4) = link (ms_table st2)" by (simp add: link_shape fun_eq_iff)
  with g expand_phase_streak[OF 3(1)] evaluate_phase_streak[OF 3(2)] transact_pending_streak[OF 3(3)] 3(4)
  show ?thesis by (simp add: table_grows_def)
qed

lemma mcts_iteration_keeps:
  assumes "accounted (mr_initial_id run) 0 st" "mcts_iteration env cfg run st = Some (Inr (Next st'))"
  shows "ms_streak st' = ms_streak st" "two_edges (ms_table st) p \<Longrightarrow> two_edges (ms_table st') p"
proof -
  from assms(2) obtain pid path pending where
    s: "select_path (mx_arith env) (mc_c_puct cfg) (ms_table st) [] (mr_initial_id run) = Some (pid, path)"
    and r: "after_select env cfg run pid path pending (st\<lparr>ms_summary := True\<rparr>) = Inr (Next st')"
    by (auto simp: mcts_iteration_def Let_def split: option.splits prod.splits)
  from select_path_descent[OF s] have d: "descent (mx_arith env) (mc_c_puct cfg) (ms_table (st\<lparr>ms_summary := True\<rparr>))
      (mr_initial_id run) path pid" by simp
  from assms(1) obtain n where "balanced (mr_initial_id run) n (ms_table (st\<lparr>ms_summary := True\<rparr>))"
    by (auto simp: accounted_def)
  from after_select_keeps[OF this d r] show "ms_streak st' = ms_streak st"
    "two_edges (ms_table st) p \<Longrightarrow> two_edges (ms_table st') p"
    unfolding two_edges_def by (simp, simp) (metis option.exhaust option.distinct(1))
qed

section \<open>The streak\<close>

text \<open>The streak counts the latest heads of the loop, one per iteration and without a break,
  at which the gap was reached.\<close>

definition streak_ok ::
  "('f, 'w) mcts_env \<Rightarrow> 'f mcts_config \<Rightarrow> mcts_run \<Rightarrow> ('f, 'w) mcts_state \<Rightarrow> int \<Rightarrow> int \<Rightarrow> bool" where
  "streak_ok env cfg run st0 streak until \<longleftrightarrow> 0 \<le> streak \<and> (\<forall>i. until - streak \<le> i \<and> i < until \<longrightarrow>
     (\<exists>h. loop_reaches env cfg run st0 h \<and> int (ms_iter h) = i \<and>
        gap_reached (mx_arith env) cfg (mr_initial_id run) (ms_table h)))"

definition loop_inv ::
  "('f, 'w) mcts_env \<Rightarrow> 'f mcts_config \<Rightarrow> mcts_run \<Rightarrow> ('f, 'w) mcts_state \<Rightarrow> ('f, 'w) mcts_state \<Rightarrow> bool" where
  "loop_inv env cfg run st0 st \<longleftrightarrow> loop_reaches env cfg run st0 st \<and> accounted (mr_initial_id run) 0 st \<and>
     attempts_ok st \<and> int (ms_iter st) \<le> mc_max_iter cfg \<and>
     streak_ok env cfg run st0 (ms_streak st) (int (ms_iter st)) \<and>
     (0 < ms_streak st \<longrightarrow> mc_simple_regret_threshold cfg \<noteq> None \<and>
        mc_simple_regret_window cfg \<le> int (ms_iter st) \<and> two_edges (ms_table st) (mr_initial_id run))"

lemma gap_reachedD:
  assumes "gap_reached ar cfg root tbl" "wf_table tbl"
  shows "mc_simple_regret_threshold cfg \<noteq> None" "two_edges tbl root"
proof -
  from assms(1) obtain nd where "dget tbl root = Some nd" "length (mn_children nd) \<ge> 2"
    and "mc_simple_regret_threshold cfg \<noteq> None"
    by (auto simp: gap_reached_def Let_def split: option.splits)
  with length_two_edges[OF assms(2)] show "mc_simple_regret_threshold cfg \<noteq> None" "two_edges tbl root"
    by blast+
qed

lemma streak_step:
  assumes inv: "loop_inv env cfg run st0 st"
    and sr: "simple_regret (mx_arith env) cfg (mr_initial_id run) st = (fire, streak)"
  shows "streak_ok env cfg run st0 streak (int (ms_iter st) + 1)"
    and "0 < streak \<Longrightarrow> mc_simple_regret_threshold cfg \<noteq> None \<and>
      mc_simple_regret_window cfg \<le> int (ms_iter st) \<and> two_edges (ms_table st) (mr_initial_id run)"
    and "fire \<Longrightarrow> gap_reached (mx_arith env) cfg (mr_initial_id run) (ms_table st) \<and> mc_simple_regret_window cfg \<le> streak"
proof -
  let ?root = "mr_initial_id run"
  have r: "loop_reaches env cfg run st0 st" and ok: "streak_ok env cfg run st0 (ms_streak st) (int (ms_iter st))"
    and wf: "wf_table (ms_table st)" and root: "dget (ms_table st) ?root \<noteq> None"
    using inv by (auto simp: loop_inv_def accounted_def balanced_def)
  have "streak_ok env cfg run st0 streak (int (ms_iter st) + 1) \<and>
      (0 < streak \<longrightarrow> mc_simple_regret_threshold cfg \<noteq> None \<and>
        mc_simple_regret_window cfg \<le> int (ms_iter st) \<and> two_edges (ms_table st) ?root) \<and>
      (fire \<longrightarrow> gap_reached (mx_arith env) cfg ?root (ms_table st) \<and> mc_simple_regret_window cfg \<le> streak)"
    using sr
  proof (cases rule: simple_regret_cases)
    case gap
    have "\<exists>h. loop_reaches env cfg run st0 h \<and> int (ms_iter h) = i \<and> gap_reached (mx_arith env) cfg ?root (ms_table h)"
      if "int (ms_iter st) + 1 - streak \<le> i" "i < int (ms_iter st) + 1" for i
    proof (cases "i = int (ms_iter st)")
      case True
      with r gap(1) show ?thesis by blast
    next
      case False
      with ok that show ?thesis by (simp add: streak_ok_def gap(3))
    qed
    with ok gap gap_reachedD[OF gap(1) wf] show ?thesis by (simp add: streak_ok_def)
  next
    case idle
    have "\<not> 0 < ms_streak st"
    proof
      assume "0 < ms_streak st"
      then have k: "mc_simple_regret_threshold cfg \<noteq> None" "mc_simple_regret_window cfg \<le> int (ms_iter st)"
        "two_edges (ms_table st) ?root" using inv by (simp_all add: loop_inv_def)
      with idle(3) root two_edges_length[OF k(3)] show False by force
    qed
    with ok idle show ?thesis by (simp add: streak_ok_def)
  qed (auto simp: streak_ok_def)
  then show "streak_ok env cfg run st0 streak (int (ms_iter st) + 1)"
    "0 < streak \<Longrightarrow> mc_simple_regret_threshold cfg \<noteq> None \<and>
      mc_simple_regret_window cfg \<le> int (ms_iter st) \<and> two_edges (ms_table st) ?root"
    "fire \<Longrightarrow> gap_reached (mx_arith env) cfg ?root (ms_table st) \<and> mc_simple_regret_window cfg \<le> streak"
    by blast+
qed

lemma loop_head_cases:
  assumes "loop_head ar cfg root st = (stop, streak)"
  obtains (max_iter) "stop = Some ''max_iter''" "int (ms_iter st) \<ge> mc_max_iter cfg"
  | (max_plans) "stop = Some ''max_unique_plans''" "int (length (ms_table st)) \<ge> mc_max_unique_plans cfg"
  | (regret) "stop = Some ''simple_regret''" "simple_regret ar cfg root st = (True, streak)"
  | (failed) "stop = Some ''all_evaluations_failed''" "ms_attempts st > 0" "ms_attempts st = ms_failures st"
  | (go) "stop = None" "simple_regret ar cfg root st = (False, streak)"
      "int (ms_iter st) < mc_max_iter cfg" "\<not> (ms_attempts st > 0 \<and> ms_attempts st = ms_failures st)"
proof -
  obtain fire sk where sr: "simple_regret ar cfg root st = (fire, sk)" by fastforce
  consider "int (ms_iter st) \<ge> mc_max_iter cfg"
    | "int (ms_iter st) < mc_max_iter cfg" "int (length (ms_table st)) \<ge> mc_max_unique_plans cfg"
    | "int (ms_iter st) < mc_max_iter cfg" "int (length (ms_table st)) < mc_max_unique_plans cfg" fire
    | "int (ms_iter st) < mc_max_iter cfg" "int (length (ms_table st)) < mc_max_unique_plans cfg" "\<not> fire"
    by linarith
  then show ?thesis
  proof cases
    case 3
    with assms sr show ?thesis by (intro regret) (simp_all add: loop_head_def)
  next
    case 4
    show ?thesis
    proof (cases "ms_attempts st > 0 \<and> ms_attempts st = ms_failures st")
      case True
      with 4 assms sr show ?thesis by (intro failed) (simp_all add: loop_head_def)
    next
      case False
      with 4 assms sr show ?thesis by (intro go) (simp_all add: loop_head_def)
    qed
  qed (use assms in \<open>simp add: loop_head_def max_iter max_plans\<close>)+
qed

lemma loop_inv_step:
  assumes inv: "loop_inv env cfg run st0 st" and head: "loop_head (mx_arith env) cfg (mr_initial_id run) st = (None, streak)"
    and it: "mcts_iteration env cfg run (st\<lparr>ms_streak := streak\<rparr>) = Some (Inr (Next st'))"
  shows "loop_inv env cfg run st0 st'"
proof -
  have sr: "simple_regret (mx_arith env) cfg (mr_initial_id run) st = (False, streak)"
    and go: "int (ms_iter st) < mc_max_iter cfg" "\<not> (ms_attempts st > 0 \<and> ms_attempts st = ms_failures st)"
    using head by (auto elim: loop_head_cases)
  have acc: "accounted (mr_initial_id run) 0 (st\<lparr>ms_streak := streak\<rparr>)" "attempts_ok (st\<lparr>ms_streak := streak\<rparr>)"
    using inv by (auto simp: loop_inv_def accounted_def attempts_ok_def)
  have iter: "ms_iter st' = Suc (ms_iter st)" using mcts_iteration_next[OF it] by simp
  have "loop_reaches env cfg run st0 st'"
    using inv head it by (auto simp: loop_inv_def intro: loop_reaches.step)
  moreover have "accounted (mr_initial_id run) 0 st'" using mcts_iteration_accounted[OF acc(1) it] by simp
  moreover have "attempts_ok st'" using mcts_iteration_attempts[OF acc(2) _ it] go(2) by simp
  moreover have "ms_streak st' = streak" "two_edges (ms_table st) p \<Longrightarrow> two_edges (ms_table st') p" for p
    using mcts_iteration_keeps[OF acc(1) it] by simp_all
  ultimately show ?thesis
    using streak_step(1,2)[OF inv sr] go(1) by (auto simp: loop_inv_def iter algebra_simps)
qed

lemma mcts_iteration_stop:
  assumes "mcts_iteration env cfg run st = Some (Inr (Stop reason st'))"
  shows "reason = ''exhausted'' \<and> ms_iter st' = 1 \<and>
    is_terminal (mr_initial_id run) st' \<and> childless (mr_initial_id run) st'"
proof -
  from assms obtain pid path pending where
    "after_select env cfg run pid path pending (st\<lparr>ms_summary := True\<rparr>) = Inr (Stop reason st')"
    by (auto simp: mcts_iteration_def Let_def split: option.splits prod.splits)
  then show ?thesis
    by (cases rule: after_select_steps)
      (auto simp: is_terminal_def childless_def dest!: transact_pending_keeps)
qed

section \<open>The reason\<close>

text \<open>What each reason stands for, at the end of a search.\<close>

definition reason_holds ::
  "('f, 'w) mcts_env \<Rightarrow> 'f mcts_config \<Rightarrow> mcts_run \<Rightarrow> ('f, 'w) mcts_state \<Rightarrow> string \<Rightarrow> ('f, 'w) mcts_state \<Rightarrow> bool" where
  "reason_holds env cfg run st0 reason st \<longleftrightarrow>
     reason = ''max_iter'' \<and> int (ms_iter st) = mc_max_iter cfg \<or>
     reason = ''max_unique_plans'' \<and> mc_max_unique_plans cfg \<le> int (length (ms_table st)) \<or>
     reason = ''simple_regret'' \<and> gap_reached (mx_arith env) cfg (mr_initial_id run) (ms_table st) \<and>
       (\<forall>k. int k < mc_simple_regret_window cfg \<longrightarrow>
         (\<exists>h. loop_reaches env cfg run st0 h \<and> int (ms_iter h) = int (ms_iter st) - int k \<and>
            gap_reached (mx_arith env) cfg (mr_initial_id run) (ms_table h))) \<or>
     reason = ''all_evaluations_failed'' \<and> ms_iter st = 1 \<and> ms_attempts st = 1 \<and> ms_failures st = 1 \<or>
     reason = ''exhausted'' \<and> ms_iter st = 1 \<and>
       is_terminal (mr_initial_id run) st \<and> childless (mr_initial_id run) st"

lemma reason_holds_cong:
  assumes "ms_table st' = ms_table st" "ms_iter st' = ms_iter st" "ms_attempts st' = ms_attempts st"
    "ms_failures st' = ms_failures st"
  shows "reason_holds env cfg run st0 reason st' = reason_holds env cfg run st0 reason st"
  using assms by (simp add: reason_holds_def is_terminal_def childless_def)

lemma loop_inv_stop:
  assumes inv: "loop_inv env cfg run st0 st"
    and head: "loop_head (mx_arith env) cfg (mr_initial_id run) st = (Some reason, streak)"
  shows "reason_holds env cfg run st0 reason st"
  using head
proof (cases rule: loop_head_cases)
  case max_iter
  with inv show ?thesis by (simp add: reason_holds_def loop_inv_def)
next
  case regret
  note r = streak_step[OF inv regret(2)]
  have gap: "gap_reached (mx_arith env) cfg (mr_initial_id run) (ms_table st)" "mc_simple_regret_window cfg \<le> streak"
    using r(3) by simp_all
  have "\<exists>h. loop_reaches env cfg run st0 h \<and> int (ms_iter h) = int (ms_iter st) - int k \<and>
      gap_reached (mx_arith env) cfg (mr_initial_id run) (ms_table h)"
    if "int k < mc_simple_regret_window cfg" for k
    using r(1) gap(2) that by (auto simp: streak_ok_def)
  with gap(1) regret(1) show ?thesis by (simp add: reason_holds_def)
next
  case failed
  with inv have "ms_iter st = 1 \<and> ms_attempts st = 1 \<and> ms_failures st = 1"
    by (auto simp: loop_inv_def attempts_ok_def)
  with failed(1) show ?thesis by (simp add: reason_holds_def)
qed (simp_all add: reason_holds_def)

lemma mcts_loop_reason:
  assumes "mcts_loop env cfg run st0 = Some (Inr (reason, st))" "loop_inv env cfg run st0 st0"
  shows "int (ms_iter st) \<le> mc_max_iter cfg \<and> reason_holds env cfg run st0 reason st"
  using assms
proof (cases rule: mcts_loop_stops[where P = "loop_inv env cfg run st0"])
  case (step st1 streak st')
  then show ?case by (rule loop_inv_step)
next
  case (head st1 streak)
  have "reason_holds env cfg run st0 reason st = reason_holds env cfg run st0 reason st1"
    by (rule reason_holds_cong) (simp_all add: head(3))
  with loop_inv_stop[OF head(1,2)] head show ?thesis by (simp add: loop_inv_def)
next
  case (stop st1 streak)
  have "int (ms_iter st1) < mc_max_iter cfg" "0 \<le> int (ms_iter st1)"
    using stop(2) by (auto elim: loop_head_cases)
  with mcts_iteration_stop[OF stop(3)] show ?thesis by (simp add: reason_holds_def)
qed

lemma loop_inv_start:
  assumes "0 \<le> mc_max_iter cfg"
  shows "loop_inv env cfg (search_run env cfg plan t) (initial_state env cfg plan t db w) (initial_state env cfg plan t db w)"
  using assms balanced_new[of "node_id (mx_sha env) plan" "mx_arith env"]
  by (auto simp: loop_inv_def accounted_def attempts_ok_def streak_ok_def search_run_def initial_state_def Let_def
      intro: loop_reaches.start)

text \<open>C18. A search stays within its budget and the reason it gives for stopping is true.
  \<open>max_iter\<close>: the budget of iterations is used up. \<open>max_unique_plans\<close>: the table holds that
  many plans. \<open>simple_regret\<close>: at every one of the last iterations of the configured window,
  the current one included, the loop found the mean values of the two most visited edges of
  the root at least the threshold apart. \<open>all_evaluations_failed\<close>: one evaluation was
  attempted, the first, and it failed (whatever the children would score).
  \<open>exhausted\<close>: the first iteration left the root terminal and without children.\<close>

theorem search_stop_reason:
  assumes "mk_mcts_config (mx_arith env) cfg = Inr cfg" "mcts_search env cfg plan t db w = Some (Inr (res, st))"
  shows "mres_iter_count res = int (ms_iter st) \<and> mres_unique_plans_visited res = int (length (ms_table st)) \<and>
    mres_iter_count res \<le> mc_max_iter cfg \<and>
    reason_holds env cfg (search_run env cfg plan t) (initial_state env cfg plan t db w) (mres_terminated_by res) st"
proof -
  let ?run = "search_run env cfg plan t"
  from assms(2) obtain reason st1 where
    l: "mcts_loop env cfg ?run (initial_state env cfg plan t db w) = Some (Inr (reason, st1))"
    and f: "mcts_finish env plan ?run reason st1 = Inr (res, st)" by (rule mcts_search_run)
  have "0 \<le> mc_max_iter cfg" using assms(1) by (simp add: mk_mcts_config_def split: if_splits)
  note r = mcts_loop_reason[OF l loop_inv_start[OF this]]
  note eq = mcts_finish_result[OF f]
  have "reason_holds env cfg ?run (initial_state env cfg plan t db w) reason st =
      reason_holds env cfg ?run (initial_state env cfg plan t db w) reason st1"
    by (rule reason_holds_cong) (use eq mcts_finish_attempts[OF f] in simp_all)
  with r eq show ?thesis by simp
qed

text \<open>Two children of the root, level from the start, and a threshold of nothing.\<close>

definition two_leaves :: "node \<Rightarrow> (action \<times> int) list" where
  "two_leaves plan = (if n_children plan = [] then
     [(AddStepAction [] 0 (Node '':b'' [] []), 1), (AddStepAction [] 0 (Node '':c'' [] []), 0)] else [])"

definition regret_env :: "(int, unit) mcts_env" where
  "regret_env = (demo_search_env two_leaves (\<lambda>_. RawFinite 1))\<lparr>mx_sha := rev\<rparr>"

definition regret_config :: "int mcts_config" where
  "regret_config = demo_config\<lparr>mc_simple_regret_threshold := Some 0, mc_simple_regret_window := 1, mc_max_iter := 9\<rparr>"

lemma demo_search_regret:
  "case mcts_search regret_env regret_config (Node '':a'' [] []) 1 None () of
     Some (Inr (res, st)) \<Rightarrow> mres_terminated_by res = ''simple_regret'' \<and> ms_iter st = 1 | _ \<Rightarrow> False"
  by code_simp

theorem search_stop_reason_witness:
  "\<exists>res st. mcts_search regret_env regret_config (Node '':a'' [] []) 1 None () =
      Some (Inr (res, st)) \<and> mres_terminated_by res = ''simple_regret'' \<and>
    gap_reached demo_arith regret_config (mres_initial_plan_id res) (ms_table st)"
proof -
  let ?env = regret_env
  from demo_search_regret obtain res st where
    r: "mcts_search ?env regret_config (Node '':a'' [] []) 1 None () = Some (Inr (res, st))"
    and m: "mres_terminated_by res = ''simple_regret''"
    by (auto split: option.splits sum.splits prod.splits)
  have c: "mk_mcts_config (mx_arith ?env) regret_config = Inr regret_config" by code_simp
  have a: "mx_arith ?env = demo_arith" by (simp add: regret_env_def demo_search_env_def)
  have i: "mres_initial_plan_id res = mr_initial_id (search_run ?env regret_config (Node '':a'' [] []) 1)"
    using r by (elim mcts_search_run) (simp add: mcts_finish_result)
  from search_stop_reason[OF c r, unfolded m reason_holds_def a] r m show ?thesis by (simp add: i)
qed

end
