(* ===== verification/MctsStore.thy ===== *)
theory MctsStore
  imports MctsProps BatchReads
begin

text \<open>
  What a plan search does to the fact store: it only appends, and only under entities of its
  own, so everything else the store holds reads as before.
\<close>

section \<open>Facts of a search\<close>

definition own_entity :: "string \<Rightarrow> bool" where
  "own_entity e \<longleftrightarrow> take 4 e = ''mcts''"

definition own_facts :: "fact list \<Rightarrow> bool" where
  "own_facts fs \<longleftrightarrow> (\<forall>f \<in> set fs. own_entity (f_e f))"

lemma own_facts_simps [simp]: "own_facts []" "own_facts (fs @ gs) \<longleftrightarrow> own_facts fs \<and> own_facts gs"
  by (auto simp: own_facts_def)

lemma own_phase_facts [simp]: "own_facts (fst (phase_facts env run st a b c d e f))"
  by (auto simp: phase_facts_def make_iter_facts_def Let_def own_facts_def mcts_fact_def iter_id_def own_entity_def)

lemma own_phase_pair: "phase_facts env run st a b c d e f = (fs, h) \<Longrightarrow> own_facts fs"
  using own_phase_facts[of env run st a b c d e f] by simp

lemma own_search_facts:
  assumes "own_entity sid"
  shows "own_facts (search_start_facts sid p c t)" "own_facts (search_finish_facts sid t n w r)"
  using assms by (simp_all add: search_start_facts_def search_finish_facts_def own_facts_def mcts_fact_def)

section \<open>Extension of a log\<close>

definition extends_own :: "log \<Rightarrow> log option \<Rightarrow> bool" where
  "extends_own l0 r \<longleftrightarrow> (\<exists>l new. r = Some l \<and> wf_log l \<and> map erase l = map erase l0 @ map erase new \<and>
     (\<forall>d \<in> set new. own_entity (d_e d)))"

lemma extends_own_refl: "wf_log l \<Longrightarrow> extends_own l (Some l)"
  by (auto simp: extends_own_def intro!: exI[of _ "[]"])

lemma transact_pending_extends:
  assumes "transact_pending env p facts st = Inr st'" "extends_own l0 (ms_db st)" "own_facts facts"
  shows "extends_own l0 (ms_db st')"
proof -
  from assms(2) obtain l new where l: "ms_db st = Some l" "wf_log l" "map erase l = map erase l0 @ map erase new"
    "\<forall>d \<in> set new. own_entity (d_e d)" by (auto simp: extends_own_def)
  show ?thesis
  proof (cases "facts = []")
    case True
    with assms(1,2) l(1) show ?thesis by (simp add: transact_pending_def)
  next
    case False
    with assms(1) l(1) obtain l' where t: "transact (mx_db_env env (ms_iter st)) l facts p False = Inr l'"
      and st': "st' = st\<lparr>ms_db := Some l'\<rparr>"
      by (auto simp: transact_pending_def ebind_Inr_iff)
    from transact_erased[OF l(2) t] obtain more where
      m: "map erase l' = map erase l @ map erase more" "keys_in (written facts) more" by metis
    have "\<forall>d \<in> set more. own_entity (d_e d)"
      using m(2) assms(3) by (auto simp: keys_in_def written_def datom_key_def own_facts_def)
    with l(3,4) m(1) transact_laws[OF l(2) t] show ?thesis
      unfolding extends_own_def st' by (intro exI[of _ l'] exI[of _ "new @ more"]) auto
  qed
qed

section \<open>Over the phases\<close>

lemma populate_db:
  "own_facts (fst acc) \<Longrightarrow> own_facts (fst (populate_children env run plan pid ps acc)) \<and>
     ms_db (snd (populate_children env run plan pid ps acc)) = ms_db (snd acc)"
  unfolding populate_children_def
proof (induction ps arbitrary: acc)
  case (Cons ap ps)
  obtain pending st where acc: "acc = (pending, st)" by (cases acc)
  have "own_facts (fst (populate_step env run plan pid ap acc)) \<and> ms_db (snd (populate_step env run plan pid ap acc)) = ms_db (snd acc)"
    using Cons.prems by (simp add: acc populate_step_def Let_def phase_facts_split split: sum.splits option.splits)
  with Cons.IH[of "populate_step env run plan pid ap acc"] show ?case by simp
qed simp

lemma mark_terminal_db [simp]: "ms_db (mark_terminal pid st) = ms_db st"
  by (auto simp: mark_terminal_def put_node_def split: option.splits)

lemma propose_db:
  "propose env cfg run plan pid pending st = Inr (ps, pending', st') \<Longrightarrow> own_facts pending \<Longrightarrow>
     own_facts pending' \<and> ms_db st' = ms_db st"
  by (auto simp: propose_def dest: own_phase_pair split: option.splits prod.splits sum.splits if_splits)

lemma expand_phase_db:
  assumes "expand_phase env cfg run pid (pending, st) = Inr (pending', st')" "own_facts pending"
  shows "own_facts pending' \<and> ms_db st' = ms_db st"
  using assms(1)
proof (cases rule: expand_phase_cases)
  case (2 plan ps p2 st2 p3 st3)
  note p = propose_db[OF 2(4) assms(2)]
  from populate_db[of "(p2, st2)" env run plan pid ps] p 2(5)
  have "own_facts p3 \<and> ms_db st3 = ms_db st" by (cases "ps = []") (auto, (metis fst_conv snd_conv)+)
  then show ?thesis by (simp add: 2(6,7))
qed (use assms(2) in simp)

lemma evaluate_phase_db:
  assumes "evaluate_phase env run pid (pending, st) = Inr r" "own_facts pending" "extends_own l0 (ms_db st)"
  shows "case r of Rejected st' \<Rightarrow> extends_own l0 (ms_db st')
    | Scored score pending' st' \<Rightarrow> own_facts pending' \<and> extends_own l0 (ms_db st')"
proof -
  have rej: "case r of Rejected st' \<Rightarrow> extends_own l0 (ms_db st') | Scored score pending' st' \<Rightarrow> False"
    if "emit_eval_reject env run pid ih rs e rw pending st2 = Inr r" "ms_db st2 = ms_db st" for ih rs e rw st2
  proof -
    from that(1) obtain st3 where
      t: "transact_pending env (iter_provenance (mr_search_id run) (int (ms_iter st2)))
        (pending @ fst (phase_facts env run st2 ''reject'' pid ih
          (reject_record (mx_sha env) (mx_xt env) None pid rs e rw) None e)) st2 = Inr st3"
      and r: "\<exists>h n m. r = Rejected (st3\<lparr>ms_prev_hash := h, ms_failures := n, ms_iter := m\<rparr>)"
      unfolding emit_eval_reject_def phase_facts_split ebind_Inr_iff by blast
    from transact_pending_extends[OF t] assms(2,3) that(2) r show ?thesis by auto
  qed
  show ?thesis
  proof (cases "dget (ms_evaluator_cache st) pid")
    case (Some score)
    with assms show ?thesis by (auto simp: evaluate_phase_def)
  next
    case None
    with assms(1) obtain plan where plan: "dget (ms_plans st) pid = Some plan"
      by (auto simp: evaluate_phase_def split: option.splits)
    obtain raw w where ev: "mx_evaluate env plan (ms_world st) = (raw, w)" by (cases "mx_evaluate env plan (ms_world st)")
    let ?st = "st\<lparr>ms_world := w, ms_attempts := Suc (ms_attempts st)\<rparr>"
    note u = assms(1)[unfolded evaluate_phase_def prod.case None option.case plan ev Let_def]
    show ?thesis
    proof (cases raw)
      case (Inl e)
      with u have "emit_eval_reject env run pid (evaluate_inputs_hash (mx_sha env) pid) ''evaluator_raised'' (Some e) None pending ?st = Inr r"
        by simp
      from rej[OF this] show ?thesis by (auto split: evaluated.splits)
    next
      case (Inr x)
      show ?thesis
      proof (cases x)
        case RawNone
        with u Inr have "emit_eval_reject env run pid (evaluate_inputs_hash (mx_sha env) pid) ''evaluator_returned_none'' None None pending ?st = Inr r"
          by simp
        from rej[OF this] show ?thesis by (auto split: evaluated.splits)
      next
        case (RawOther rr)
        with u Inr have "emit_eval_reject env run pid (evaluate_inputs_hash (mx_sha env) pid) ''evaluator_returned_non_finite'' None (Some rr) pending ?st = Inr r"
          by simp
        from rej[OF this] show ?thesis by (auto split: evaluated.splits)
      next
        case (RawFinite score)
        with u Inr assms show ?thesis by (auto simp: phase_facts_split)
      qed
    qed
  qed
qed

lemma after_select_db:
  assumes "after_select env cfg run pid path pending st = Inr r" "own_facts pending" "extends_own l0 (ms_db st)"
  shows "case r of Next st' \<Rightarrow> extends_own l0 (ms_db st') | Stop reason st' \<Rightarrow> extends_own l0 (ms_db st')"
  using assms(1)
proof (cases rule: after_select_steps)
  case (1 p2 st2 st3)
  from expand_phase_db[OF 1(1) assms(2)] transact_pending_extends[OF 1(6)] assms(3) 1(7) show ?thesis by simp
next
  case (2 p2 st2 st3)
  from expand_phase_db[OF 2(1) assms(2)] evaluate_phase_db[OF 2(2), of l0] assms(3) 2(3) show ?thesis by simp
next
  case (3 p2 st2 score p3 st3 st4)
  from expand_phase_db[OF 3(1) assms(2)] evaluate_phase_db[OF 3(2), of l0] assms(3)
  have "own_facts p3" "extends_own l0 (ms_db st3)" by simp_all
  with transact_pending_extends[OF 3(3), of l0] 3(4) show ?thesis by simp
qed

lemma mcts_iteration_db:
  assumes "mcts_iteration env cfg run st = Some (Inr r)" "own_entity (mr_search_id run)" "extends_own l0 (ms_db st)"
  shows "case r of Next st' \<Rightarrow> extends_own l0 (ms_db st') | Stop reason st' \<Rightarrow> extends_own l0 (ms_db st')"
proof -
  let ?pending = "if ms_summary st then []
    else search_start_facts (mr_search_id run) (mr_initial_id run) (mr_config_hash run) (mr_started run)"
  from assms(1) obtain pid path where
    r: "after_select env cfg run pid path ?pending (st\<lparr>ms_summary := True\<rparr>) = Inr r"
    by (auto simp: mcts_iteration_def Let_def split: option.splits prod.splits)
  from after_select_db[OF r, of l0] assms(2,3) show ?thesis by (simp add: own_search_facts)
qed

lemma mcts_loop_db:
  assumes "mcts_loop env cfg run st = Some (Inr (reason, st'))" "extends_own l0 (ms_db st)" "own_entity (mr_search_id run)"
  shows "extends_own l0 (ms_db st')"
  using assms(1,2)
proof (cases rule: mcts_loop_stops[where P = "\<lambda>st. extends_own l0 (ms_db st)"])
  case (step st streak st')
  with mcts_iteration_db[OF step(3) assms(3), of l0] show ?case by simp
next
  case (stop st1 streak)
  with mcts_iteration_db[OF stop(3) assms(3), of l0] show ?thesis by simp
qed simp

lemma mcts_search_extends:
  assumes "mcts_search env cfg plan t (Some l0) w = Some (Inr (res, st))" "wf_log l0"
  shows "extends_own l0 (ms_db st)"
proof -
  let ?run = "search_run env cfg plan t"
  have own: "own_entity (mr_search_id ?run)"
    by (simp add: search_run_def derive_search_id_def own_entity_def)
  from assms(1) obtain reason st1 where
    l: "mcts_loop env cfg ?run (initial_state env cfg plan t (Some l0) w) = Some (Inr (reason, st1))"
    and f: "mcts_finish env plan ?run reason st1 = Inr (res, st)" by (rule mcts_search_run)
  have "extends_own l0 (ms_db st1)"
    using mcts_loop_db[OF l _ own] extends_own_refl[OF assms(2)] by (simp add: initial_state_def Let_def)
  moreover from f obtain p where "transact_pending env p
      ((if ms_summary st1 then []
        else search_start_facts (mr_search_id ?run) (mr_initial_id ?run) (mr_config_hash ?run) (mr_started ?run)) @
       search_finish_facts (mr_search_id ?run) (mr_started ?run) (int (ms_iter st1)) (mres_winner_plan_id res) reason) st1 = Inr st"
    by (auto simp: mcts_finish_def ebind_Inr_iff)
  ultimately show ?thesis using transact_pending_extends own by (fastforce simp: own_search_facts)
qed

section \<open>What else is in the store\<close>

text \<open>A search writes to the store only under its own entities: whatever it expands,
  evaluates, rejects and records, every datom of the store is kept (but for filled
  invalidation pointers) and every entity whose name does not begin with mcts reads as before
  the search.\<close>

lemma search_keeps_other_entities:
  assumes "mcts_search env cfg plan t (Some l) w = Some (Inr (res, st))" "wf_log l"
  shows "\<exists>l' new. ms_db st = Some l' \<and> map erase l' = map erase l @ new \<and>
    entity l' = (\<lambda>e. if own_entity e then entity l' e else entity l e)"
proof -
  from mcts_search_extends[OF assms] obtain l' new where
    l': "ms_db st = Some l'" "map erase l' = map erase l @ map erase new" "\<forall>d \<in> set new. own_entity (d_e d)"
    by (auto simp: extends_own_def)
  have "entity l' e = entity l e" if "\<not> own_entity e" for e
  proof
    fix a
    have "filter (\<lambda>d. d_e d = e \<and> d_a d = a) (map erase new) = []"
      using l'(3) that by (auto simp: filter_empty_conv)
    then have f: "filter (\<lambda>d. d_e d = e \<and> d_a d = a) (map erase l') = filter (\<lambda>d. d_e d = e \<and> d_a d = a) (map erase l)"
      by (simp add: l'(2))
    show "entity l' e a = entity l e a"
      using entity_local[of "map erase l'" e a] entity_local[of "map erase l" e a] by (simp only: f entity_erase)
  qed
  then show ?thesis using l'(1,2) by (intro exI[of _ l'] exI[of _ "map erase new"]) (auto simp: fun_eq_iff)
qed

lemma demo_search_stores:
  "case mcts_search (demo_search_env (\<lambda>_. []) (\<lambda>_. RawFinite 1)) demo_config (Node '':a'' [] []) 1 (Some []) () of
     Some (Inr (res, st)) \<Rightarrow> map_option length (ms_db st) = Some 15 | _ \<Rightarrow> False"
  by code_simp

end
