(* ===== verification/Skills.thy ===== *)
theory Skills
  imports PlanAst TransactEffects
begin

text \<open>
  \<open>persistence.plan._skill_library\<close>: promoted plans as facts of the store, with two caches
  that hold the plans and the promotion records themselves. The library writes through a
  \<open>DB\<close> over the shared store, so the log is passed along with the caches. A promotion
  record is anything with a promotion id.
\<close>

section \<open>The library\<close>

record 'r skill_lib =
  sk_plans :: "node dict"
  sk_records :: "'r dict"

definition empty_lib :: "'r skill_lib" where
  "empty_lib = \<lparr>sk_plans = [], sk_records = []\<rparr>"

definition A_PLAN :: string where "A_PLAN = ''skill/plan''"

definition A_PROMOTION_RECORD :: string where "A_PROMOTION_RECORD = ''skill/promotion-record''"

definition A_REGISTERED_AT :: string where "A_REGISTERED_AT = ''skill/registered-at''"

definition derive_skill_id :: "(string \<Rightarrow> string) \<Rightarrow> node \<Rightarrow> string" where
  "derive_skill_id sha plan = ''skill/'' @ take 16 (node_id sha plan)"

definition skill_fact :: "string \<Rightarrow> string \<Rightarrow> val \<Rightarrow> fact" where
  "skill_fact skill_id a v = \<lparr>f_e = skill_id, f_a = a, f_v = v, f_valid_from = Some (DtVal (Aware 0)),
     f_valid_to = None, f_op = None\<rparr>"

definition skill_facts :: "(string \<Rightarrow> string) \<Rightarrow> node \<Rightarrow> string \<Rightarrow> int \<Rightarrow> fact list" where
  "skill_facts sha plan promotion_id registered_at_ms =
     (let sid = derive_skill_id sha plan in
      [skill_fact sid A_PLAN (VStr (node_id sha plan)), skill_fact sid A_PROMOTION_RECORD (VStr promotion_id),
       skill_fact sid A_REGISTERED_AT (VInt registered_at_ms)])"

definition skill_asserts :: "string \<Rightarrow> string \<Rightarrow> log \<Rightarrow> datom list" where
  "skill_asserts skill_id a l = filter (\<lambda>d. d_e d = skill_id \<and> d_a d = a \<and> d_op d = Assert) l"

definition register ::
  "(string \<Rightarrow> string) \<Rightarrow> env \<Rightarrow> ('r \<Rightarrow> string) \<Rightarrow> log \<Rightarrow> 'r skill_lib \<Rightarrow> node \<Rightarrow> 'r \<Rightarrow> int \<Rightarrow>
   err + string \<times> log \<times> 'r skill_lib" where
  "register sha env rid l lib plan promotion_record registered_at_ms =
     (let sid = derive_skill_id sha plan in
      if dget (sk_plans lib) sid \<noteq> None then Inr (sid, l, lib)
      else if skill_asserts sid A_PLAN l \<noteq> [] then Inr (sid, l, lib\<lparr>sk_plans := dset sid plan (sk_plans lib)\<rparr>)
      else ebind (transact env l (skill_facts sha plan (rid promotion_record) registered_at_ms)
             [(''source'', VStr ''skill-library'')] False) (\<lambda>l'.
        Inr (sid, l', \<lparr>sk_plans = dset sid plan (sk_plans lib),
          sk_records = dset (rid promotion_record) promotion_record (sk_records lib)\<rparr>)))"

text \<open>\<open>lookup\<close> takes the first promotion record datom of the skill.\<close>

definition lookup_skill :: "log \<Rightarrow> 'r skill_lib \<Rightarrow> string \<Rightarrow> err + (node \<times> 'r) option" where
  "lookup_skill l lib skill_id =
     (case dget (sk_plans lib) skill_id of None \<Rightarrow> Inr None
      | Some plan \<Rightarrow>
          (case skill_asserts skill_id A_PROMOTION_RECORD l of [] \<Rightarrow> Inr None
           | d # _ \<Rightarrow> if \<not> hashable (d_v d) then Inl TypeError
               else (case d_v d of
                   VStr promotion_id \<Rightarrow> Inr (map_option (\<lambda>r. (plan, r)) (dget (sk_records lib) promotion_id))
                 | _ \<Rightarrow> Inr None)))"

definition list_skills :: "log \<Rightarrow> 'r skill_lib \<Rightarrow> string option \<Rightarrow> string list" where
  "list_skills l lib tag_filter =
     filter (\<lambda>sid. case tag_filter of None \<Rightarrow> True
         | Some tag \<Rightarrow> (case dget (sk_plans lib) sid of None \<Rightarrow> False | Some plan \<Rightarrow> n_tag plan = tag))
       (rev (remdups (rev (map d_e (filter (\<lambda>d. d_a d = A_PLAN \<and> d_op d = Assert) l)))))"

section \<open>A registration in closed form\<close>

lemma skill_attrs [simp]:
  "A_PLAN \<noteq> A_PROMOTION_RECORD" "A_PLAN \<noteq> A_REGISTERED_AT" "A_PROMOTION_RECORD \<noteq> A_REGISTERED_AT"
  "A_PROMOTION_RECORD \<noteq> A_PLAN" "A_REGISTERED_AT \<noteq> A_PLAN" "A_REGISTERED_AT \<noteq> A_PROMOTION_RECORD"
  "lstrip_colon A_PLAN = A_PLAN" "lstrip_colon A_PROMOTION_RECORD = A_PROMOTION_RECORD"
  "lstrip_colon A_REGISTERED_AT = A_REGISTERED_AT"
  by (simp_all add: A_PLAN_def A_PROMOTION_RECORD_def A_REGISTERED_AT_def lstrip_colon_def)

definition skill_datom :: "env \<Rightarrow> prov \<Rightarrow> string \<Rightarrow> string \<Rightarrow> val \<Rightarrow> datom" where
  "skill_datom env p skill_id a v = projr (fact_datom env p (skill_fact skill_id a v) (Aware 0) None)"

lemma fact_datom_skill: "fact_datom env p (skill_fact skill_id a v) (Aware 0) None = Inr (skill_datom env p skill_id a v)"
  by (simp add: skill_datom_def fact_datom_def mk_datom_def skill_fact_def fact_op_def)

lemma skill_datom_sel [simp]:
  "d_e (skill_datom env p skill_id a v) = skill_id" "d_a (skill_datom env p skill_id a v) = lstrip_colon a"
  "d_v (skill_datom env p skill_id a v) = v" "d_op (skill_datom env p skill_id a v) = Assert"
  by (simp_all add: skill_datom_def fact_datom_def mk_datom_def skill_fact_def fact_op_def)

lemma fresh_step:
  assumes "\<forall>d \<in> set (l @ fst s). \<not> (d_e d = skill_id \<and> d_a d = a)"
  shows "transact_step env p False l (skill_fact skill_id a v) s = Inr (fst s @ [skill_datom env p skill_id a v], snd s)"
proof -
  have "find_prior_assert (l @ fst s) skill_id a = None"
    using assms by (auto simp: find_prior_assert_def find_None_iff)
  then show ?thesis
    using fact_datom_skill[of env p skill_id a v]
    by (simp add: transact_step_def skill_fact_def fact_vf_def fact_vt_def fact_op_def)
qed

lemma register_transact:
  fixes sha plan
  defines "sid \<equiv> derive_skill_id sha plan"
  assumes "\<forall>d \<in> set l. d_e d \<noteq> sid"
  obtains l' d1 d2 where "transact env l (skill_facts sha plan pid t) p False = Inr l'" "length l' = length l + 3"
    "skill_asserts sid A_PLAN l' = [d1]" "skill_asserts sid A_PROMOTION_RECORD l' = [d2]" "d_v d2 = VStr pid"
proof -
  let ?d1 = "skill_datom env p sid A_PLAN (VStr (node_id sha plan))"
  let ?d2 = "skill_datom env p sid A_PROMOTION_RECORD (VStr pid)"
  let ?d3 = "skill_datom env p sid A_REGISTERED_AT (VInt t)"
  let ?w = "with_tx (next_tx l)"
  have s1: "transact_step env p False l (skill_fact sid A_PLAN (VStr (node_id sha plan))) ([], []) = Inr ([?d1], [])"
    using fresh_step[of l "([], [])" sid A_PLAN env p] assms by simp
  have s2: "transact_step env p False l (skill_fact sid A_PROMOTION_RECORD (VStr pid)) ([?d1], []) = Inr ([?d1, ?d2], [])"
    using fresh_step[of l "([?d1], [])" sid A_PROMOTION_RECORD env p] assms by simp
  have s3: "transact_step env p False l (skill_fact sid A_REGISTERED_AT (VInt t)) ([?d1, ?d2], []) = Inr ([?d1, ?d2, ?d3], [])"
    using fresh_step[of l "([?d1, ?d2], [])" sid A_REGISTERED_AT env p] assms by simp
  have "efold (transact_step env p False l) (skill_facts sha plan pid t) ([], []) = Inr ([?d1, ?d2, ?d3], [])"
    by (simp add: skill_facts_def Let_def s1 s2 s3 sid_def[symmetric])
  then have "transact env l (skill_facts sha plan pid t) p False = Inr (l @ map ?w [?d1, ?d2, ?d3])"
    by (simp add: transact_def skill_facts_def Let_def commit_shaped_def allocate_and_append_def)
  moreover have old: "filter (\<lambda>d. d_e d = sid \<and> P d) l = []" for P using assms by (simp add: filter_empty_conv)
  have "skill_asserts sid A_PLAN (l @ map ?w [?d1, ?d2, ?d3]) = [?w ?d1]"
    "skill_asserts sid A_PROMOTION_RECORD (l @ map ?w [?d1, ?d2, ?d3]) = [?w ?d2]"
    by (simp_all add: skill_asserts_def old)
  ultimately show ?thesis by (intro that[of _ "?w ?d1" "?w ?d2"]) simp_all
qed

section \<open>Registering and looking up\<close>

lemma in_list_skills:
  "skill_asserts sid A_PLAN l = [d] \<Longrightarrow> sid \<in> set (list_skills l lib None)"
  "skill_asserts sid A_PLAN l = [d] \<Longrightarrow> dget (sk_plans lib) sid = Some plan \<Longrightarrow> sid \<in> set (list_skills l lib (Some (n_tag plan)))"
proof -
  have "sid \<in> d_e ` {d \<in> set l. d_a d = A_PLAN \<and> d_op d = Assert}" if "skill_asserts sid A_PLAN l = [d]"
    using arg_cong[OF that, of set] by (auto simp: skill_asserts_def)
  then show "skill_asserts sid A_PLAN l = [d] \<Longrightarrow> sid \<in> set (list_skills l lib None)"
    "skill_asserts sid A_PLAN l = [d] \<Longrightarrow> dget (sk_plans lib) sid = Some plan \<Longrightarrow> sid \<in> set (list_skills l lib (Some (n_tag plan)))"
    by (simp_all add: list_skills_def)
qed

lemma register_new:
  fixes sha plan
  defines "sid \<equiv> derive_skill_id sha plan"
  assumes fresh: "\<forall>d \<in> set l. d_e d \<noteq> sid" "dget (sk_plans lib) sid = None"
  obtains l' d1 d2 where "register sha env rid l lib plan prec t = Inr (sid, l',
        \<lparr>sk_plans = dset sid plan (sk_plans lib), sk_records = dset (rid prec) prec (sk_records lib)\<rparr>)"
    "length l' = length l + 3" "skill_asserts sid A_PLAN l' = [d1]"
    "skill_asserts sid A_PROMOTION_RECORD l' = [d2]" "d_v d2 = VStr (rid prec)"
proof -
  have "skill_asserts sid A_PLAN l = []" using fresh(1) by (auto simp: skill_asserts_def filter_empty_conv)
  with fresh(2) show ?thesis
    using that by - (rule register_transact[OF fresh(1)[unfolded sid_def], of env "rid prec" t "[(''source'', VStr ''skill-library'')]"],
      auto simp: register_def sid_def Let_def)
qed

lemma register_new_lookup:
  assumes "\<forall>d \<in> set l. d_e d \<noteq> derive_skill_id sha plan" "dget (sk_plans lib) (derive_skill_id sha plan) = None"
    and "register sha env rid l lib plan prec t = Inr (sid, l', lib')"
  shows "lookup_skill l' lib' sid = Inr (Some (plan, prec))"
  by (rule register_new[OF assms(1,2), of env rid prec t]) (use assms(3) in \<open>simp add: lookup_skill_def\<close>)

text \<open>Registering a plan of which the store knows nothing writes three facts; from then on
  the library returns the plan with its promotion record and lists the skill, and registering
  the plan again, whatever record and time come with it, changes neither the store nor the
  library.\<close>

lemma skill_registered_once:
  assumes fresh: "\<forall>d \<in> set l. d_e d \<noteq> derive_skill_id sha plan" "dget (sk_plans lib) (derive_skill_id sha plan) = None"
  shows "\<exists>l' lib'. register sha env rid l lib plan prec t = Inr (derive_skill_id sha plan, l', lib') \<and>
    length l' = length l + 3 \<and>
    lookup_skill l' lib' (derive_skill_id sha plan) = Inr (Some (plan, prec)) \<and>
    derive_skill_id sha plan \<in> set (list_skills l' lib' (Some (n_tag plan))) \<and>
    (\<forall>env2 prec2 t2. register sha env2 rid l' lib' plan prec2 t2 = Inr (derive_skill_id sha plan, l', lib'))"
proof (rule register_new[OF fresh, of env rid prec t])
  let ?sid = "derive_skill_id sha plan"
  let ?lib = "\<lparr>sk_plans = dset ?sid plan (sk_plans lib), sk_records = dset (rid prec) prec (sk_records lib)\<rparr>"
  fix l' d1 d2
  assume r: "register sha env rid l lib plan prec t = Inr (?sid, l', ?lib)" "length l' = length l + 3"
    and d: "skill_asserts ?sid A_PLAN l' = [d1]" "skill_asserts ?sid A_PROMOTION_RECORD l' = [d2]" "d_v d2 = VStr (rid prec)"
  have "lookup_skill l' ?lib ?sid = Inr (Some (plan, prec))" by (simp add: lookup_skill_def d)
  moreover have "?sid \<in> set (list_skills l' ?lib (Some (n_tag plan)))" by (rule in_list_skills(2)[OF d(1)]) simp
  moreover have "register sha env2 rid l' ?lib plan prec2 t2 = Inr (?sid, l', ?lib)" for env2 prec2 t2
    by (simp add: register_def Let_def)
  ultimately show ?thesis using r by (intro exI[of _ l'] exI[of _ ?lib]) simp
qed

text \<open>A skill is lost to a new library over the same store. When the store already holds
  its facts but the caches are empty, as after a restart, registering the plan again writes
  nothing and is accepted, and the skill is listed, but looking it up still finds nothing:
  the registration fills the plan cache and not the record cache.\<close>

lemma skill_lost_after_restart:
  assumes fresh: "\<forall>d \<in> set l. d_e d \<noteq> derive_skill_id sha plan" "dget (sk_plans lib) (derive_skill_id sha plan) = None"
    and "register sha env rid l lib plan prec t = Inr (sid, l', lib')"
  shows "\<exists>lib2. register sha env2 rid l' empty_lib plan prec2 t2 = Inr (sid, l', lib2) \<and>
    sid \<in> set (list_skills l' lib2 None) \<and> lookup_skill l' lib2 sid = Inr None"
proof (rule register_new[OF fresh, of env rid prec t])
  let ?lib2 = "empty_lib\<lparr>sk_plans := [(sid, plan)]\<rparr>"
  fix l2 d1 d2
  assume r: "register sha env rid l lib plan prec t = Inr (derive_skill_id sha plan, l2,
      \<lparr>sk_plans = dset (derive_skill_id sha plan) plan (sk_plans lib), sk_records = dset (rid prec) prec (sk_records lib)\<rparr>)"
    and d: "skill_asserts (derive_skill_id sha plan) A_PLAN l2 = [d1]"
      "skill_asserts (derive_skill_id sha plan) A_PROMOTION_RECORD l2 = [d2]" "d_v d2 = VStr (rid prec)"
  from r assms(3) have eq: "sid = derive_skill_id sha plan" "l' = l2" by simp_all
  have "register sha env2 rid l' empty_lib plan prec2 t2 = Inr (sid, l', ?lib2)"
    by (simp add: register_def empty_lib_def eq d Let_def)
  moreover have "lookup_skill l' ?lib2 sid = Inr None"
    by (simp add: lookup_skill_def eq d empty_lib_def)
  moreover have "sid \<in> set (list_skills l' ?lib2 None)" using in_list_skills(1)[OF d(1)] by (simp add: eq)
  ultimately show ?thesis by blast
qed

end
