(* ===== verification/Promotion.thy ===== *)
theory Promotion
  imports Skills Mcts AuditLog
begin

text \<open>
  \<open>persistence.plan._promotion\<close> and \<open>persistence.plan._mcts_promote\<close>: the four gates a
  plan passes before it becomes a skill (replay identity, audit chain, score gain, approval),
  the record of a promotion, and the pipeline from search to registration. The replay engine
  and the approval are callbacks; trajectories are opaque. Scores are floats of an abstract
  arithmetic.
\<close>

section \<open>G1: replay byte identity\<close>

record ('w, 't) replay_engine =
  re_replay :: "node \<Rightarrow> 't \<Rightarrow> ('w, 't) io"
  re_compare :: "'t \<Rightarrow> 't \<Rightarrow> ('w, val dict) io"

fun g1_loop :: "('w, 't) replay_engine \<Rightarrow> node \<Rightarrow> 't list \<Rightarrow> ('w, bool) io" where
  "g1_loop eng plan [] = io_return True"
| "g1_loop eng plan (t # ts) =
     io_bind (re_replay eng plan t) (\<lambda>counterfactual.
     io_bind (re_compare eng t counterfactual) (\<lambda>diff.
       case dget diff ''divergence_step'' of
         None \<Rightarrow> io_raise TypeError
       | Some v \<Rightarrow> if v \<noteq> VNone then io_return False else g1_loop eng plan ts))"

definition gate_g1_replay_byte_identity ::
  "('w, 't) replay_engine \<Rightarrow> node \<Rightarrow> 't list \<Rightarrow> int \<Rightarrow> ('w, bool) io" where
  "gate_g1_replay_byte_identity eng plan held_out min_count =
     (if held_out = [] then io_return False
      else if int (length held_out) < min_count then io_return False
      else g1_loop eng plan held_out)"

section \<open>G2: the audit chain\<close>

text \<open>The wire form of an audit datom, with the signature as its transaction id. Instants stay
  integers; \<open>to_val\<close> says how they appear in the wire form.\<close>

definition datom_to_wire_for_audit :: "(int \<Rightarrow> val) \<Rightarrow> datom \<Rightarrow> err + val dict" where
  "datom_to_wire_for_audit to_val d =
     (case dget (d_provenance d) '':signature'' of None \<Rightarrow> Inl ValueError
      | Some audit_id \<Rightarrow> Inr
          [('':datom/e'', VStr (d_e d)), ('':datom/a'', VStr (CHR '':'' # d_a d)), ('':datom/v'', d_v d),
           ('':datom/tx'', audit_id), ('':datom/tx-time'', to_val (d_tx_time d)),
           ('':datom/valid-from'', to_val (d_valid_from d)),
           ('':datom/valid-to'', case d_valid_to d of None \<Rightarrow> VNone | Some t \<Rightarrow> to_val t),
           ('':datom/op'', VStr (case d_op d of Assert \<Rightarrow> '':assert'' | Retract \<Rightarrow> '':retract'')),
           ('':datom/provenance'', VDict (d_provenance d)),
           ('':datom/invalidated-by'', case d_invalidated_by d of None \<Rightarrow> VNone | Some t \<Rightarrow> VInt t)])"

text \<open>
  The entries of the window, in log order. Milliseconds are a function of the instant (a float
  product in Python). \<open>read_wire\<close> reads the fields of a wire dictionary into the typed record
  that \<open>datom_to_audit_entry\<close> works on.
\<close>

record g2_env =
  g2_digests :: digests
  g2_ms :: "int \<Rightarrow> int"
  g2_time :: "int \<Rightarrow> val"
  g2_read_wire :: "val dict \<Rightarrow> err + audit_datom"

definition in_audit_window :: "g2_env \<Rightarrow> int \<Rightarrow> int \<Rightarrow> datom \<Rightarrow> bool" where
  "in_audit_window ge start_ms end_ms d \<longleftrightarrow> startswith ''audit/'' (d_a d) \<and>
     \<not> (g2_ms ge (d_tx_time d) < start_ms \<or> g2_ms ge (d_tx_time d) > end_ms)"

definition audit_entry_of :: "g2_env \<Rightarrow> datom \<Rightarrow> err + audit_entry" where
  "audit_entry_of ge d =
     ebind (datom_to_wire_for_audit (g2_time ge) d) (\<lambda>wire.
     ebind (g2_read_wire ge wire) datom_to_audit_entry)"

definition audit_entries_in_window :: "g2_env \<Rightarrow> log \<Rightarrow> int \<Rightarrow> int \<Rightarrow> err + audit_entry list" where
  "audit_entries_in_window ge l start_ms end_ms =
     emap (audit_entry_of ge) (filter (in_audit_window ge start_ms end_ms) l)"

definition gate_g2_audit_chain :: "g2_env \<Rightarrow> log \<Rightarrow> int \<Rightarrow> int \<Rightarrow> err + bool" where
  "gate_g2_audit_chain ge l window_start window_end =
     ebind (audit_entries_in_window ge l window_start window_end) (\<lambda>entries.
       if entries = [] then Inr False else Inr (verify_chain (g2_digests ge) entries))"

section \<open>G3 and G4\<close>

definition gate_g3_score_delta :: "'f arith \<Rightarrow> 'f \<Rightarrow> 'f \<Rightarrow> 'f \<Rightarrow> bool" where
  "gate_g3_score_delta ar optimized_score baseline_score epsilon =
     fa_le ar epsilon (fa_sub ar optimized_score baseline_score)"

text \<open>The rationale of the stub holds a character beyond 8 bits, so its text is an argument.\<close>

definition gate_g4_stub :: "string \<Rightarrow> ('w, val dict) io" where
  "gate_g4_stub stub_rationale = io_return [(''approved'', VBool True), (''approver'', VStr ''stub''),
     (''rationale'', VStr stub_rationale)]"

section \<open>The record\<close>

record 'f promotion_record =
  pr_candidate_plan_id :: string
  pr_g1 :: bool
  pr_held_out_count :: int
  pr_g2 :: bool
  pr_g3_delta :: 'f
  pr_g3_threshold :: 'f
  pr_g4_approver :: string
  pr_g4_approved :: bool
  pr_g4_rationale :: string
  pr_promoted_at :: int
  pr_id :: string

definition compute_promotion_id :: "(string \<Rightarrow> string) \<Rightarrow> 'f arith \<Rightarrow> 'f promotion_record \<Rightarrow> string" where
  "compute_promotion_id sha ar r = sha (compact_json (VDict
     [(''candidate_plan_id'', VStr (pr_candidate_plan_id r)), (''g1_replay_byte_identity'', VBool (pr_g1 r)),
      (''g1_held_out_count'', VInt (pr_held_out_count r)), (''g2_audit_chain_verified'', VBool (pr_g2 r)),
      (''g3_score_delta'', fa_val ar (pr_g3_delta r)), (''g3_score_threshold'', fa_val ar (pr_g3_threshold r)),
      (''g4_approver'', VStr (pr_g4_approver r)), (''g4_approved'', VBool (pr_g4_approved r)),
      (''g4_rationale'', VStr (pr_g4_rationale r)), (''promoted_at'', VInt (pr_promoted_at r))]))"

definition build_promotion_record :: "(string \<Rightarrow> string) \<Rightarrow> 'f arith \<Rightarrow> 'f promotion_record \<Rightarrow> 'f promotion_record" where
  "build_promotion_record sha ar r = r\<lparr>pr_id := compute_promotion_id sha ar r\<rparr>"

section \<open>promote\<close>

record ('f, 'w, 't) promote_args =
  pm_optimized_score :: 'f
  pm_baseline_score :: 'f
  pm_held_out :: "'t list"
  pm_engine :: "('w, 't) replay_engine"
  pm_window :: "int \<times> int"
  pm_epsilon :: 'f
  pm_min_g1_count :: int
  pm_promoted_at :: int
  pm_g4 :: "('w, val dict) io"

record 'f promote_env =
  pe_sha :: "string \<Rightarrow> string"
  pe_arith :: "'f arith"
  pe_g2 :: g2_env
  pe_py_str :: "val \<Rightarrow> string"

text \<open>\<open>GateFailure\<close> carries its message and the partial record.\<close>

datatype 'f promotion = Promoted "'f promotion_record" | GateFailed string "'f promotion_record"

definition promote ::
  "'f promote_env \<Rightarrow> ('f, 'w, 't) promote_args \<Rightarrow> log \<Rightarrow> node \<Rightarrow> ('w, 'f promotion) io" where
  "promote env a l candidate_plan =
     (let ar = pe_arith env;
        base = \<lparr>pr_candidate_plan_id = node_id (pe_sha env) candidate_plan, pr_g1 = False,
          pr_held_out_count = int (length (pm_held_out a)), pr_g2 = False, pr_g3_delta = fa_of_int ar 0,
          pr_g3_threshold = pm_epsilon a, pr_g4_approver = [], pr_g4_approved = False, pr_g4_rationale = [],
          pr_promoted_at = pm_promoted_at a, pr_id = []\<rparr>;
        build = build_promotion_record (pe_sha env) ar in
      io_bind (gate_g1_replay_byte_identity (pm_engine a) candidate_plan (pm_held_out a) (pm_min_g1_count a)) (\<lambda>g1_pass.
      if \<not> g1_pass then io_return (GateFailed ''G1 replay byte-identity failed'' (build base))
      else let base = base\<lparr>pr_g1 := True\<rparr> in
      io_bind (io_lift (gate_g2_audit_chain (pe_g2 env) l (fst (pm_window a)) (snd (pm_window a)))) (\<lambda>g2_pass.
      if \<not> g2_pass then io_return (GateFailed ''G2 audit chain failed'' (build base))
      else let base = base\<lparr>pr_g2 := True, pr_g3_delta := fa_sub ar (pm_optimized_score a) (pm_baseline_score a)\<rparr> in
      if \<not> gate_g3_score_delta ar (pm_optimized_score a) (pm_baseline_score a) (pm_epsilon a)
      then io_return (GateFailed ''G3 score delta below threshold'' (build base))
      else io_bind (pm_g4 a) (\<lambda>g4.
      case dget g4 ''approved'' of None \<Rightarrow> io_raise KeyError
      | Some (VBool approved) \<Rightarrow>
          (case dget g4 ''approver'' of None \<Rightarrow> io_raise KeyError
           | Some approver \<Rightarrow>
               (case dget g4 ''rationale'' of None \<Rightarrow> io_raise KeyError
                | Some rationale \<Rightarrow>
                    (let r = build (base\<lparr>pr_g4_approver := pe_py_str env approver, pr_g4_approved := approved,
                         pr_g4_rationale := pe_py_str env rationale\<rparr>) in
                     io_return (if \<not> approved then GateFailed ''G4 not approved'' r else Promoted r))))
      | Some _ \<Rightarrow> io_raise TypeError))))"

section \<open>From search to skill\<close>

record ('f, 'w, 't) promotion_result =
  mp_search :: "'f mcts_result"
  mp_promotion :: "'f promotion_record"
  mp_skill_id :: string
  mp_winner :: node

text \<open>The library as the search sees it, the store it reads from included.\<close>

definition library_lookup :: "log \<Rightarrow> 'r skill_lib \<Rightarrow> string \<Rightarrow> node option" where
  "library_lookup l lib sid = (case lookup_skill l lib sid of Inr (Some (plan, r)) \<Rightarrow> Some plan | _ \<Rightarrow> None)"

text \<open>\<open>mcts_promote\<close>: search, promote the winner, register it. A search that never returns is
  \<open>None\<close>; a failed gate ends the pipeline with its partial record.\<close>

definition mcts_promote ::
  "('f, 'w) mcts_env \<Rightarrow> 'f promote_env \<Rightarrow> env \<Rightarrow> 'f mcts_config \<Rightarrow> ('f, 'w, 't) promote_args \<Rightarrow> node \<Rightarrow> int \<Rightarrow> int \<Rightarrow>
   log \<Rightarrow> 'f promotion_record skill_lib \<Rightarrow> 'w \<Rightarrow>
   (err + (('f, 'w, 't) promotion_result + string \<times> 'f promotion_record) \<times> log \<times> 'f promotion_record skill_lib \<times> 'w) option" where
  "mcts_promote menv penv renv cfg a initial_plan started_at_ms registered_at_ms l lib w =
     (case mcts_search (menv\<lparr>mx_lib := Some (library_lookup l lib)\<rparr>) cfg initial_plan started_at_ms (Some l) w of
        None \<Rightarrow> None
      | Some (Inl e) \<Rightarrow> Some (Inl e)
      | Some (Inr (result, st)) \<Rightarrow>
          (let l1 = (case ms_db st of None \<Rightarrow> l | Some l1 \<Rightarrow> l1) in
           case promote penv a l1 (mres_winner result) (ms_world st) of
             (Inl e, w') \<Rightarrow> Some (Inl e)
           | (Inr (GateFailed msg r), w') \<Rightarrow> Some (Inr (Inr (msg, r), l1, lib, w'))
           | (Inr (Promoted r), w') \<Rightarrow>
               Some (ebind (register (pe_sha penv) renv pr_id l1 lib (mres_winner result) r registered_at_ms)
                 (\<lambda>(sid, l2, lib2). Inr (Inl \<lparr>mp_search = result, mp_promotion = r, mp_skill_id = sid,
                    mp_winner = mres_winner result\<rparr>, l2, lib2, w')))))"

end
