(* ===== verification/PromotionProps.thy ===== *)
theory PromotionProps
  imports Promotion MctsStore AuditProps
begin

text \<open>
  What holds of a promotion: a promoted plan passed all four gates and a refused one tells
  how far it got; the audit gate only accepts a window that begins where the chain does; and
  the pipeline from search to registration ends with a skill that can be looked up.
\<close>

section \<open>The gates\<close>

text \<open>G1 passes: there are enough held-out trajectories, and replaying the plan against each
  one in turn gave a counterfactual that was found not to diverge.\<close>

fun no_divergence :: "('w, 't) replay_engine \<Rightarrow> node \<Rightarrow> 't list \<Rightarrow> 'w \<Rightarrow> 'w \<Rightarrow> bool" where
  "no_divergence eng plan [] w w' \<longleftrightarrow> w' = w"
| "no_divergence eng plan (t # ts) w w' \<longleftrightarrow> (\<exists>cf w1 diff w2. re_replay eng plan t w = (Inr cf, w1) \<and>
     re_compare eng t cf w1 = (Inr diff, w2) \<and> dget diff ''divergence_step'' = Some VNone \<and>
     no_divergence eng plan ts w2 w')"

definition diverges :: "('w, 't) replay_engine \<Rightarrow> node \<Rightarrow> 't \<Rightarrow> 'w \<Rightarrow> 'w \<Rightarrow> bool" where
  "diverges eng plan t w w' \<longleftrightarrow> (\<exists>cf w1 diff v. re_replay eng plan t w = (Inr cf, w1) \<and>
     re_compare eng t cf w1 = (Inr diff, w') \<and> dget diff ''divergence_step'' = Some v \<and> v \<noteq> VNone)"

definition g1_passed :: "('f, 'w, 't) promote_args \<Rightarrow> node \<Rightarrow> 'w \<Rightarrow> 'w \<Rightarrow> bool" where
  "g1_passed a plan w w' \<longleftrightarrow> pm_held_out a \<noteq> [] \<and> pm_min_g1_count a \<le> int (length (pm_held_out a)) \<and>
     no_divergence (pm_engine a) plan (pm_held_out a) w w'"

text \<open>G1 refuses: too few trajectories, or the first that diverged.\<close>

definition g1_refused :: "('f, 'w, 't) promote_args \<Rightarrow> node \<Rightarrow> 'w \<Rightarrow> 'w \<Rightarrow> bool" where
  "g1_refused a plan w w' \<longleftrightarrow>
     (pm_held_out a = [] \<or> int (length (pm_held_out a)) < pm_min_g1_count a) \<and> w' = w \<or>
     pm_min_g1_count a \<le> int (length (pm_held_out a)) \<and>
     (\<exists>us t vs w1. pm_held_out a = us @ t # vs \<and> no_divergence (pm_engine a) plan us w w1 \<and>
        diverges (pm_engine a) plan t w1 w')"

definition g2_passed :: "'f promote_env \<Rightarrow> ('f, 'w, 't) promote_args \<Rightarrow> log \<Rightarrow> bool" where
  "g2_passed env a l \<longleftrightarrow> (\<exists>es. audit_entries_in_window (pe_g2 env) l (fst (pm_window a)) (snd (pm_window a)) = Inr es \<and>
     es \<noteq> [] \<and> verify_chain (g2_digests (pe_g2 env)) es)"

definition g2_refused :: "'f promote_env \<Rightarrow> ('f, 'w, 't) promote_args \<Rightarrow> log \<Rightarrow> bool" where
  "g2_refused env a l \<longleftrightarrow> (\<exists>es. audit_entries_in_window (pe_g2 env) l (fst (pm_window a)) (snd (pm_window a)) = Inr es \<and>
     (es = [] \<or> \<not> verify_chain (g2_digests (pe_g2 env)) es))"

definition score_gain :: "'f promote_env \<Rightarrow> ('f, 'w, 't) promote_args \<Rightarrow> 'f" where
  "score_gain env a = fa_sub (pe_arith env) (pm_optimized_score a) (pm_baseline_score a)"

definition g3_passed :: "'f promote_env \<Rightarrow> ('f, 'w, 't) promote_args \<Rightarrow> bool" where
  "g3_passed env a \<longleftrightarrow> fa_le (pe_arith env) (pm_epsilon a) (score_gain env a)"

text \<open>What the approval callback answered, with the approver and the rationale as text.\<close>

definition g4_answers ::
  "'f promote_env \<Rightarrow> ('f, 'w, 't) promote_args \<Rightarrow> 'w \<Rightarrow> bool \<Rightarrow> string \<Rightarrow> string \<Rightarrow> 'w \<Rightarrow> bool" where
  "g4_answers env a w approved approver rationale w' \<longleftrightarrow> (\<exists>g4 x y. pm_g4 a w = (Inr g4, w') \<and>
     dget g4 ''approved'' = Some (VBool approved) \<and>
     dget g4 ''approver'' = Some x \<and> approver = pe_py_str env x \<and>
     dget g4 ''rationale'' = Some y \<and> rationale = pe_py_str env y)"

text \<open>A record with the given verdicts, filed under the hash of its other fields.\<close>

definition verdict_record ::
  "'f promote_env \<Rightarrow> ('f, 'w, 't) promote_args \<Rightarrow> node \<Rightarrow> bool \<Rightarrow> bool \<Rightarrow> 'f \<Rightarrow> string \<Rightarrow> bool \<Rightarrow> string \<Rightarrow>
   'f promotion_record" where
  "verdict_record env a plan g1 g2 delta approver approved rationale =
     (let r = \<lparr>pr_candidate_plan_id = node_id (pe_sha env) plan, pr_g1 = g1,
        pr_held_out_count = int (length (pm_held_out a)), pr_g2 = g2, pr_g3_delta = delta,
        pr_g3_threshold = pm_epsilon a, pr_g4_approver = approver, pr_g4_approved = approved,
        pr_g4_rationale = rationale, pr_promoted_at = pm_promoted_at a, pr_id = []\<rparr> in
      r\<lparr>pr_id := compute_promotion_id (pe_sha env) (pe_arith env) r\<rparr>)"

lemma verdict_record_sel [simp]:
  "pr_g1 (verdict_record env a plan g1 g2 d x b y) = g1" "pr_g2 (verdict_record env a plan g1 g2 d x b y) = g2"
  "pr_g4_approved (verdict_record env a plan g1 g2 d x b y) = b"
  "pr_candidate_plan_id (verdict_record env a plan g1 g2 d x b y) = node_id (pe_sha env) plan"
  by (simp_all add: verdict_record_def Let_def)

lemma g1_loop_True: "g1_loop eng plan ts w = (Inr True, w') \<longleftrightarrow> no_divergence eng plan ts w w'"
proof (induction ts arbitrary: w)
  case (Cons t ts)
  show ?case
    by (auto simp: io_bind_def Cons[symmetric] split: prod.splits sum.splits option.splits if_splits)
qed (auto)

lemma g1_loop_False:
  "g1_loop eng plan ts w = (Inr False, w') \<Longrightarrow>
     \<exists>us t vs w1. ts = us @ t # vs \<and> no_divergence eng plan us w w1 \<and> diverges eng plan t w1 w'"
proof (induction ts arbitrary: w)
  case (Cons t ts)
  then obtain cf w1 diff w2 v where c: "re_replay eng plan t w = (Inr cf, w1)"
      "re_compare eng t cf w1 = (Inr diff, w2)" "dget diff ''divergence_step'' = Some v"
    and f: "(if v \<noteq> VNone then io_return False else g1_loop eng plan ts) w2 = (Inr False, w')"
    by (auto simp: io_bind_def split: prod.splits sum.splits option.splits)
  show ?case
  proof (cases "v = VNone")
    case True
    with f Cons.IH[of w2] obtain us u vs w3 where
      d: "ts = us @ u # vs" "no_divergence eng plan us w2 w3" "diverges eng plan u w3 w'" by auto
    have "no_divergence eng plan (t # us) w w3" using c True d(2) by auto
    with d(1,3) show ?thesis by (intro exI[of _ "t # us"]) auto
  next
    case False
    with c f have "diverges eng plan t w w'" by (auto simp: diverges_def)
    then show ?thesis by (intro exI[of _ "[]"]) auto
  qed
qed simp

lemma gate_g1_True:
  "gate_g1_replay_byte_identity (pm_engine a) plan (pm_held_out a) (pm_min_g1_count a) w = (Inr True, w') \<Longrightarrow>
     g1_passed a plan w w'"
  by (auto simp: gate_g1_replay_byte_identity_def g1_passed_def g1_loop_True split: if_splits)

lemma gate_g1_False:
  assumes "gate_g1_replay_byte_identity (pm_engine a) plan (pm_held_out a) (pm_min_g1_count a) w = (Inr False, w')"
  shows "g1_refused a plan w w'"
proof (cases "pm_held_out a = [] \<or> int (length (pm_held_out a)) < pm_min_g1_count a")
  case True
  with assms show ?thesis by (auto simp: gate_g1_replay_byte_identity_def g1_refused_def split: if_splits)
next
  case False
  with assms have "g1_loop (pm_engine a) plan (pm_held_out a) w = (Inr False, w')"
    by (simp add: gate_g1_replay_byte_identity_def)
  from g1_loop_False[OF this] False show ?thesis unfolding g1_refused_def by force
qed

lemma gate_g2_iff:
  "gate_g2_audit_chain (pe_g2 env) l (fst (pm_window a)) (snd (pm_window a)) = Inr b \<Longrightarrow>
     if b then g2_passed env a l else g2_refused env a l"
  by (auto simp: gate_g2_audit_chain_def g2_passed_def g2_refused_def ebind_Inr_iff split: if_splits)

lemma gate_g3_iff:
  "gate_g3_score_delta (pe_arith env) (pm_optimized_score a) (pm_baseline_score a) (pm_epsilon a) = g3_passed env a"
  by (simp add: gate_g3_score_delta_def g3_passed_def score_gain_def)

lemma promote_cases:
  assumes "promote env a l plan w = (Inr res, w')"
  shows "case res of
      Promoted r \<Rightarrow> \<exists>w1 x y. g1_passed a plan w w1 \<and> g2_passed env a l \<and> g3_passed env a \<and>
        g4_answers env a w1 True x y w' \<and>
        r = verdict_record env a plan True True (score_gain env a) x True y
    | GateFailed msg r \<Rightarrow>
        msg = ''G1 replay byte-identity failed'' \<and> g1_refused a plan w w' \<and>
          r = verdict_record env a plan False False (fa_of_int (pe_arith env) 0) [] False [] \<or>
        msg = ''G2 audit chain failed'' \<and> g1_passed a plan w w' \<and> g2_refused env a l \<and>
          r = verdict_record env a plan True False (fa_of_int (pe_arith env) 0) [] False [] \<or>
        msg = ''G3 score delta below threshold'' \<and> g1_passed a plan w w' \<and> g2_passed env a l \<and>
          \<not> g3_passed env a \<and> r = verdict_record env a plan True True (score_gain env a) [] False [] \<or>
        msg = ''G4 not approved'' \<and> (\<exists>w1 x y. g1_passed a plan w w1 \<and> g2_passed env a l \<and>
          g3_passed env a \<and> g4_answers env a w1 False x y w' \<and>
          r = verdict_record env a plan True True (score_gain env a) x False y)"
proof -
  obtain r1 w1 where g1: "gate_g1_replay_byte_identity (pm_engine a) plan (pm_held_out a) (pm_min_g1_count a) w = (r1, w1)"
    by fastforce
  note u = assms[unfolded promote_def Let_def]
  note rec = verdict_record_def build_promotion_record_def compute_promotion_id_def score_gain_def
  show ?thesis
  proof (cases r1)
    case (Inl e)
    with u g1 show ?thesis by (simp add: io_bind_def)
  next
    case (Inr p1)
    show ?thesis
    proof (cases p1)
      case False
      with u g1 Inr have "res = GateFailed ''G1 replay byte-identity failed''
          (verdict_record env a plan False False (fa_of_int (pe_arith env) 0) [] False [])" "w' = w1"
        by (auto simp: io_bind_def rec Let_def)
      with gate_g1_False g1 Inr False show ?thesis by simp
    next
      case True
      then have G1: "gate_g1_replay_byte_identity (pm_engine a) plan (pm_held_out a) (pm_min_g1_count a) w = (Inr True, w1)"
        using g1 Inr by simp
      obtain p2 where g2: "gate_g2_audit_chain (pe_g2 env) l (fst (pm_window a)) (snd (pm_window a)) = Inr p2"
        using u G1 by (cases "gate_g2_audit_chain (pe_g2 env) l (fst (pm_window a)) (snd (pm_window a))") (auto simp: io_bind_def)
      note G2 = gate_g2_iff[OF g2]
      consider "\<not> p2" | "p2" "\<not> g3_passed env a" | "p2" "g3_passed env a" by blast
      then show ?thesis
      proof cases
        case 1
        with u G1 g2 have "res = GateFailed ''G2 audit chain failed''
            (verdict_record env a plan True False (fa_of_int (pe_arith env) 0) [] False [])" "w' = w1"
          by (auto simp: io_bind_def rec Let_def)
        with gate_g1_True[OF G1] G2 1 show ?thesis by simp
      next
        case 2
        with u G1 g2 have "res = GateFailed ''G3 score delta below threshold''
            (verdict_record env a plan True True (score_gain env a) [] False [])" "w' = w1"
          by (auto simp: io_bind_def rec Let_def gate_g3_iff)
        with gate_g1_True[OF G1] G2 2 show ?thesis by simp
      next
        case 3
        from u G1 g2 3 obtain g4 w4 where g4: "pm_g4 a w1 = (Inr g4, w4)"
          by (cases "pm_g4 a w1") (auto simp: io_bind_def gate_g3_iff split: sum.splits)
        obtain approved x y where v: "dget g4 ''approved'' = Some (VBool approved)" "dget g4 ''approver'' = Some x"
            "dget g4 ''rationale'' = Some y"
          using u G1 g2 3 g4 by (auto simp: io_bind_def gate_g3_iff split: option.splits val.splits)
        let ?r = "verdict_record env a plan True True (score_gain env a) (pe_py_str env x) approved (pe_py_str env y)"
        have r: "res = (if approved then Promoted ?r else GateFailed ''G4 not approved'' ?r)" "w4 = w'"
          using u G1 g2 3 g4 v by (auto simp: io_bind_def gate_g3_iff rec Let_def)
        have "g4_answers env a w1 approved (pe_py_str env x) (pe_py_str env y) w'"
          using g4 v r(2) by (auto simp: g4_answers_def)
        with gate_g1_True[OF G1] G2 3 r(1) show ?thesis by (cases approved) auto
      qed
    qed
  qed
qed

text \<open>C20. The gates of a promotion. A plan is promoted only when there were enough held-out
  trajectories and replaying each of them showed no divergence, the audit entries of the
  window were there and verified, the score gain reached the threshold and the approval
  callback answered yes; the record is exactly that, with the approver's own words. A refusal
  names the first gate that did not pass, each gate before it did pass, the later ones were
  not asked, and its record shows just that.\<close>

theorem promotion_gates:
  assumes "promote env a l plan w = (Inr res, w')"
  shows "case res of
      Promoted r \<Rightarrow> \<exists>w1 x y. g1_passed a plan w w1 \<and> g2_passed env a l \<and> g3_passed env a \<and>
        g4_answers env a w1 True x y w' \<and>
        r = verdict_record env a plan True True (score_gain env a) x True y
    | GateFailed msg r \<Rightarrow>
        msg = ''G1 replay byte-identity failed'' \<and> g1_refused a plan w w' \<and>
          r = verdict_record env a plan False False (fa_of_int (pe_arith env) 0) [] False [] \<or>
        msg = ''G2 audit chain failed'' \<and> g1_passed a plan w w' \<and> g2_refused env a l \<and>
          r = verdict_record env a plan True False (fa_of_int (pe_arith env) 0) [] False [] \<or>
        msg = ''G3 score delta below threshold'' \<and> g1_passed a plan w w' \<and> g2_passed env a l \<and>
          \<not> g3_passed env a \<and> r = verdict_record env a plan True True (score_gain env a) [] False [] \<or>
        msg = ''G4 not approved'' \<and> (\<exists>w1 x y. g1_passed a plan w w1 \<and> g2_passed env a l \<and>
          g3_passed env a \<and> g4_answers env a w1 False x y w' \<and>
          r = verdict_record env a plan True True (score_gain env a) x False y)"
  using promote_cases[OF assms] .

text \<open>A promotion of a plan over a store with one audit datom.\<close>

definition demo_audit_datom :: datom where
  "demo_audit_datom = \<lparr>d_e = ''run'', d_a = ''audit/plan.edit'', d_v = VDict [], d_tx = 1, d_tx_time = 100,
     d_valid_from = 100, d_valid_to = None, d_op = Assert, d_provenance = [('':signature'', VStr ''h'')],
     d_invalidated_by = None\<rparr>"

definition demo_chain_entry :: "string option \<Rightarrow> audit_entry" where
  "demo_chain_entry prev = \<lparr>e_id = content_hash demo_digests
       \<lparr>e_id = [], e_prev_hash = prev, e_op = '':plan/edit'', e_args_hash = ''x'', e_verdict = ''allow'', e_latency_ms = 0,
        e_recorded_at = 100, e_result_hash = None, e_error = None, e_policy_id = None, e_handler_chain = [],
        e_principal = [], e_run_id = None, e_parent = prev, e_txn_commit = VNone\<rparr>,
     e_prev_hash = prev, e_op = '':plan/edit'', e_args_hash = ''x'', e_verdict = ''allow'', e_latency_ms = 0,
     e_recorded_at = 100, e_result_hash = None, e_error = None, e_policy_id = None, e_handler_chain = [],
     e_principal = [], e_run_id = None, e_parent = prev, e_txn_commit = VNone\<rparr>"

definition demo_g2 :: "string option \<Rightarrow> g2_env" where
  "demo_g2 prev = \<lparr>g2_digests = demo_digests, g2_ms = (\<lambda>t. t), g2_time = VInt,
     g2_read_wire = (\<lambda>_. audit_entry_to_datom (\<lambda>_. True) (demo_chain_entry prev))\<rparr>"

definition demo_promote_env :: "int promote_env" where
  "demo_promote_env = \<lparr>pe_sha = (\<lambda>s. take 32 (rev s)), pe_arith = demo_arith, pe_g2 = demo_g2 None,
     pe_py_str = (\<lambda>v. case v of VStr s \<Rightarrow> s | _ \<Rightarrow> [])\<rparr>"

definition demo_promote_args :: "(int, unit, unit) promote_args" where
  "demo_promote_args = \<lparr>pm_optimized_score = 3, pm_baseline_score = 1, pm_held_out = [(), ()],
     pm_engine = \<lparr>re_replay = (\<lambda>_ t. io_return t), re_compare = (\<lambda>_ _. io_return [(''divergence_step'', VNone)])\<rparr>,
     pm_window = (0, 1000), pm_epsilon = 1, pm_min_g1_count = 2, pm_promoted_at = 7, pm_g4 = gate_g4_stub ''ok''\<rparr>"

lemma demo_promotes:
  "case promote demo_promote_env demo_promote_args [demo_audit_datom] (Node '':a'' [] []) () of
     (Inr (Promoted r), w) \<Rightarrow> True | _ \<Rightarrow> False"
  by code_simp

theorem promotion_gates_witness:
  "\<exists>r. promote demo_promote_env demo_promote_args [demo_audit_datom] (Node '':a'' [] []) () = (Inr (Promoted r), ()) \<and>
    r = verdict_record demo_promote_env demo_promote_args (Node '':a'' [] []) True True 2 ''stub'' True ''ok''"
proof -
  from demo_promotes obtain r where
    p: "promote demo_promote_env demo_promote_args [demo_audit_datom] (Node '':a'' [] []) () = (Inr (Promoted r), ())"
    by (auto split: prod.splits sum.splits promotion.splits)
  have "score_gain demo_promote_env demo_promote_args = 2" by code_simp
  with promotion_gates[OF p] p show ?thesis
    by (auto simp: g4_answers_def demo_promote_args_def gate_g4_stub_def demo_promote_env_def)
qed

section \<open>The audit window\<close>

text \<open>The audit gate only accepts a window that begins at the beginning of the chain. It
  passes only if the first audit datom in the window has no previous hash, so a window that
  starts after the first entry is refused although every entry in it is intact and linked to
  the one before.\<close>

lemma g2_needs_genesis:
  assumes "gate_g2_audit_chain ge l start_ms end_ms = Inr True"
  shows "\<exists>d ds e. filter (in_audit_window ge start_ms end_ms) l = d # ds \<and> audit_entry_of ge d = Inr e \<and>
    e_prev_hash e = None \<and> e_id e = content_hash (g2_digests ge) e"
proof -
  from assms obtain entries where es: "audit_entries_in_window ge l start_ms end_ms = Inr entries" "entries \<noteq> []"
    "verify_chain (g2_digests ge) entries"
    by (auto simp: gate_g2_audit_chain_def ebind_Inr_iff split: if_splits)
  then obtain e es' where e: "entries = e # es'" by (cases entries) auto
  with es(1) obtain d ds where "filter (in_audit_window ge start_ms end_ms) l = d # ds" "audit_entry_of ge d = Inr e"
    unfolding audit_entries_in_window_def
    by (cases "filter (in_audit_window ge start_ms end_ms) l") (auto simp: ebind_Inr_iff)
  with es(3) e show ?thesis by (auto simp: verify_chain_def split: if_splits)
qed

section \<open>From search to skill\<close>

lemma extends_own_entities:
  assumes "extends_own l0 (Some l)" "\<forall>d \<in> set l0. d_e d \<noteq> e" "\<not> own_entity e"
  shows "\<forall>d \<in> set l. d_e d \<noteq> e"
proof -
  from assms(1) obtain new where new: "map erase l = map erase l0 @ map erase new" "\<forall>d \<in> set new. own_entity (d_e d)"
    by (auto simp: extends_own_def)
  have "d_e ` set l = d_e ` set (map erase l)" by (simp add: image_image)
  also have "\<dots> = d_e ` set l0 \<union> d_e ` set new" by (simp add: new(1) image_Un image_image)
  finally show ?thesis using new(2) assms(2,3) by (metis (no_types, lifting) UnE image_eqI image_iff)
qed

text \<open>From search to skill. When the pipeline over a store that knows nothing of the
  winner succeeds, the skill it names can be looked up and is the searched winner, with the
  promotion record that passed the gates; everything the search wrote on the way leaves the
  registration intact.\<close>

lemma mcts_promote_registers:
  assumes "mcts_promote menv penv renv cfg a plan t rt l lib w = Some (Inr (Inl r, l', lib', w'))" "wf_log l"
    and "\<forall>d \<in> set l. d_e d \<noteq> mp_skill_id r" "dget (sk_plans lib) (mp_skill_id r) = None"
  shows "lookup_skill l' lib' (mp_skill_id r) = Inr (Some (mp_winner r, mp_promotion r)) \<and>
    mp_winner r = mres_winner (mp_search r) \<and> pr_g1 (mp_promotion r) \<and> pr_g2 (mp_promotion r) \<and>
    pr_g4_approved (mp_promotion r) \<and> pr_candidate_plan_id (mp_promotion r) = node_id (pe_sha penv) (mp_winner r)"
proof -
  let ?menv = "menv\<lparr>mx_lib := Some (library_lookup l lib)\<rparr>"
  from assms(1) obtain res st where s: "mcts_search ?menv cfg plan t (Some l) w = Some (Inr (res, st))"
    by (auto simp: mcts_promote_def split: option.splits sum.splits)
  from mcts_search_extends[OF s assms(2)] obtain l1 where db: "ms_db st = Some l1" and ext: "extends_own l (Some l1)"
    by (auto simp: extends_own_def)
  from assms(1) s db obtain pr sid lib2 w2 l2 where
    p: "promote penv a l1 (mres_winner res) (ms_world st) = (Inr (Promoted pr), w2)"
    and g: "register (pe_sha penv) renv pr_id l1 lib (mres_winner res) pr rt = Inr (sid, l2, lib2)"
    and r: "r = \<lparr>mp_search = res, mp_promotion = pr, mp_skill_id = sid, mp_winner = mres_winner res\<rparr>" "l' = l2" "lib' = lib2"
    by (auto simp: mcts_promote_def Let_def ebind_Inr_iff split: prod.splits sum.splits promotion.splits)
  from g have sid: "sid = derive_skill_id (pe_sha penv) (mres_winner res)"
    by (auto simp: register_def Let_def ebind_Inr_iff split: if_splits)
  have "\<not> own_entity sid" by (simp add: sid derive_skill_id_def own_entity_def)
  with extends_own_entities[OF ext] assms(3) have fresh: "\<forall>d \<in> set l1. d_e d \<noteq> derive_skill_id (pe_sha penv) (mres_winner res)"
    by (simp add: r(1) sid)
  have "dget (sk_plans lib) (derive_skill_id (pe_sha penv) (mres_winner res)) = None" using assms(4) by (simp add: r(1) sid)
  from register_new_lookup[OF fresh this g] have "lookup_skill l2 lib2 sid = Inr (Some (mres_winner res, pr))" .
  with promote_cases[OF p] show ?thesis by (auto simp: r)
qed

end
