(* ===== verification/ReplCaps.thy ===== *)
theory ReplCaps
  imports Json BatchReads "HOL-Library.Product_Lexorder"
begin

text \<open>
  \<open>persistence.repl._caps\<close> and \<open>persistence.effect.canonical\<close>: the closed set of
  capabilities, capability sets with their expiry, and the tokens of the REPL server as
  facts of the store: issuing, validating, revoking and listing them.
\<close>

section \<open>effect/canonical.py\<close>

text \<open>Compact JSON with sorted keys; strings are ASCII here, where the escaping of other
  characters makes no difference.\<close>

definition canonical_dumps :: "val \<Rightarrow> string" where
  "canonical_dumps v = compact_json v"

definition canonical_hash :: "(string \<Rightarrow> string) \<Rightarrow> val \<Rightarrow> string" where
  "canonical_hash sha v = ''sha256:'' @ sha (canonical_dumps v)"

section \<open>Capabilities\<close>

definition OP_NAMES :: "string list" where
  "OP_NAMES = [''inspect'', ''edit'', ''rewind'', ''branch'', ''auth'']"

definition QUALIFIERS_BY_OP :: "(string \<times> string list) list" where
  "QUALIFIERS_BY_OP =
     [(''inspect'', [''read'', ''audit-tail'']), (''edit'', [''write'', ''propose-only'']),
      (''rewind'', [''any'', ''branch-only'']), (''branch'', [''fork'', ''fork-from-cursor'']),
      (''auth'', [''login''])]"

type_synonym capability = "string \<times> string"

definition ALL_CAPS :: "capability set" where
  "ALL_CAPS = set (concat (map (\<lambda>(op, qs). map (Pair op) qs) QUALIFIERS_BY_OP))"

definition mk_capability :: "string \<Rightarrow> string \<Rightarrow> err + capability" where
  "mk_capability op qualifier = (if (op, qualifier) \<in> ALL_CAPS then Inr (op, qualifier) else Inl UnknownCapability)"

record cap_set =
  cs_caps :: "capability set"
  cs_expires_at :: "pydt option"
  cs_label :: string

definition has :: "cap_set \<Rightarrow> string \<Rightarrow> string \<Rightarrow> err + bool" where
  "has cs op qualifier = ebind (mk_capability op qualifier) (\<lambda>c. Inr (c \<in> cs_caps cs))"

text \<open>The clock gives aware instants; comparing one with a naive expiry raises.\<close>

definition is_expired :: "cap_set \<Rightarrow> int \<Rightarrow> err + bool" where
  "is_expired cs now =
     (case cs_expires_at cs of None \<Rightarrow> Inr False
      | Some (Naive _) \<Rightarrow> Inl TypeError
      | Some (Aware t) \<Rightarrow> Inr (t \<le> now))"

text \<open>ISO text of instants and its reader, and the JSON reader.\<close>

record text_env =
  te_sha :: "string \<Rightarrow> string"
  te_iso :: "pydt \<Rightarrow> string"
  te_fromiso :: "string \<Rightarrow> pydt option"
  te_loads :: "string \<Rightarrow> err + val"

definition sorted_caps :: "cap_set \<Rightarrow> capability list" where
  "sorted_caps cs = sorted_list_of_set (cs_caps cs)"

definition to_canonical :: "text_env \<Rightarrow> cap_set \<Rightarrow> val" where
  "to_canonical te cs = VDict
     [(''caps'', VList (map (\<lambda>(op, q). VDict [(''op'', VStr op), (''qualifier'', VStr q)]) (sorted_caps cs))),
      (''expires_at_iso'', case cs_expires_at cs of None \<Rightarrow> VNone | Some t \<Rightarrow> VStr (te_iso te t)),
      (''label'', VStr (cs_label cs))]"

fun cap_of_val :: "val \<Rightarrow> err + capability" where
  "cap_of_val (VDict kvs) =
     (case (dget kvs ''op'', dget kvs ''qualifier'') of
        (Some (VStr op), Some (VStr q)) \<Rightarrow> mk_capability op q
      | (None, _) \<Rightarrow> Inl KeyError
      | (_, None) \<Rightarrow> Inl KeyError
      | (Some op, Some q) \<Rightarrow> if hashable op \<and> hashable q then Inl UnknownCapability else Inl TypeError)"
| "cap_of_val _ = Inl TypeError"

definition from_canonical_dict :: "text_env \<Rightarrow> val \<Rightarrow> err + cap_set" where
  "from_canonical_dict te v =
     (case v of
        VDict d \<Rightarrow>
          (case dget d ''caps'' of
             None \<Rightarrow> Inl KeyError
           | Some (VList cs) \<Rightarrow>
               ebind (emap cap_of_val cs) (\<lambda>caps.
               ebind (case dget d ''expires_at_iso'' of
                   Some (VStr s) \<Rightarrow> if s = [] then Inr None
                     else (case te_fromiso te s of None \<Rightarrow> Inl ValueError | Some t \<Rightarrow> Inr (Some t))
                 | Some x \<Rightarrow> if truthy x then Inl TypeError else Inr None
                 | None \<Rightarrow> Inr None) (\<lambda>expires.
               case dget d ''label'' of
                 None \<Rightarrow> Inr \<lparr>cs_caps = set caps, cs_expires_at = expires, cs_label = []\<rparr>
               | Some (VStr l) \<Rightarrow> Inr \<lparr>cs_caps = set caps, cs_expires_at = expires, cs_label = l\<rparr>
               | Some _ \<Rightarrow> Inl TypeError))
           | Some _ \<Rightarrow> Inl TypeError)
      | _ \<Rightarrow> Inl TypeError)"

section \<open>Tokens\<close>

definition token_id :: "text_env \<Rightarrow> string \<Rightarrow> string" where
  "token_id te token_str = take 16 (te_sha te token_str)"

record token =
  tk_str :: string
  tk_caps :: cap_set

text \<open>\<open>secrets.token_urlsafe\<close> gives the random part.\<close>

definition mint_token :: "string \<Rightarrow> capability set \<Rightarrow> pydt option \<Rightarrow> string \<Rightarrow> token" where
  "mint_token raw caps expires_at label =
     \<lparr>tk_str = ''persistence.repl/'' @ raw, tk_caps = \<lparr>cs_caps = caps, cs_expires_at = expires_at, cs_label = label\<rparr>\<rparr>"

definition CAP_SET_ATTR :: string where "CAP_SET_ATTR = ''repl/cap-set''"

definition REVOKED_ATTR :: string where "REVOKED_ATTR = ''repl/revoked''"

definition clocked_fact :: "text_env \<Rightarrow> string \<Rightarrow> string \<Rightarrow> val \<Rightarrow> int \<Rightarrow> fact" where
  "clocked_fact te e a v now = \<lparr>f_e = e, f_a = a, f_v = v, f_valid_from = Some (DtIso (te_iso te (Aware now))),
     f_valid_to = None, f_op = None\<rparr>"

definition store_token :: "text_env \<Rightarrow> env \<Rightarrow> log \<Rightarrow> token \<Rightarrow> int \<Rightarrow> err + log" where
  "store_token te env l tok now =
     transact env l [clocked_fact te (token_id te (tk_str tok)) CAP_SET_ATTR
       (VStr (canonical_dumps (to_canonical te (tk_caps tok)))) now] [] False"

definition revoke_token :: "text_env \<Rightarrow> env \<Rightarrow> log \<Rightarrow> string \<Rightarrow> int \<Rightarrow> err + log" where
  "revoke_token te env l tid now =
     transact env l [clocked_fact te tid REVOKED_ATTR (VBool True) now] [] False"

text \<open>The capability set an entity view holds for a token: none without one, and none once
  the token is revoked.\<close>

definition live_cap_set :: "text_env \<Rightarrow> (string \<Rightarrow> val option) \<Rightarrow> err + cap_set option" where
  "live_cap_set te attrs =
     (case attrs CAP_SET_ATTR of
        None \<Rightarrow> Inr None
      | Some VNone \<Rightarrow> Inr None
      | Some cap_json \<Rightarrow>
          if attrs REVOKED_ATTR = Some (VBool True) then Inr None
          else (case cap_json of
              VStr s \<Rightarrow> ebind (te_loads te s) (\<lambda>d. ebind (from_canonical_dict te d) (\<lambda>cs. Inr (Some cs)))
            | _ \<Rightarrow> Inl TypeError))"

definition validate_token :: "text_env \<Rightarrow> log \<Rightarrow> string \<Rightarrow> int \<Rightarrow> err + cap_set option" where
  "validate_token te l token_str now =
     ebind (live_cap_set te (entity (as_of l now) (token_id te token_str))) (\<lambda>r.
       case r of None \<Rightarrow> Inr None
       | Some cs \<Rightarrow> ebind (is_expired cs now) (\<lambda>x. Inr (if x then None else Some cs)))"

record token_row =
  tr_token_id :: string
  tr_label :: string
  tr_expires :: string
  tr_caps_summary :: string

definition token_row_of :: "text_env \<Rightarrow> string \<Rightarrow> cap_set \<Rightarrow> token_row" where
  "token_row_of te tid cs = \<lparr>tr_token_id = tid, tr_label = cs_label cs,
     tr_expires = (case cs_expires_at cs of None \<Rightarrow> ''never'' | Some t \<Rightarrow> te_iso te t),
     tr_caps_summary = join '','' (map (\<lambda>(op, q). op @ '':'' @ q) (sorted_caps cs))\<rparr>"

definition list_tokens :: "text_env \<Rightarrow> log \<Rightarrow> int \<Rightarrow> err + token_row list" where
  "list_tokens te l now =
     ebind (emap (\<lambda>tid. ebind (live_cap_set te (entity (as_of l now) tid)) (\<lambda>r. Inr (map_option (token_row_of te tid) r)))
         (rev (remdups (rev (map d_e (filter (\<lambda>d. d_a d = CAP_SET_ATTR) l))))))
       (\<lambda>rows. Inr (concat (map (\<lambda>r. case r of None \<Rightarrow> [] | Some x \<Rightarrow> [x]) rows)))"

end
