(* ===== verification/ReplAudit.thy ===== *)
theory ReplAudit
  imports AuditLog ReplCaps
begin

text \<open>
  \<open>persistence.repl._audit\<close>: one audit entry per operation of the REPL server, chained on the
  in-memory ring, its datom in the store, and the query over a window of those datoms.
  A float of epoch seconds is identified with its instant in microseconds, and the confidence
  \<open>1.0\<close> in the provenance is written as the equal integer.
\<close>

section \<open>Emission\<close>

text \<open>What the server reads besides its state: text and digests, the hash of an entry's content,
  the float arithmetic of the latency, conformance to the registered datom spec, Python's
  \<open>repr\<close>, the text of an exception and the iteration order of a set, the successive readings of the runtime clock, and
  the environment of \<open>db.transact\<close> at each of them.\<close>

record server_env =
  se_text :: text_env
  se_content :: "audit_entry \<Rightarrow> string"
  se_millis :: "int \<Rightarrow> int"
  se_conforms :: "audit_datom \<Rightarrow> bool"
  se_repr :: "val \<Rightarrow> string"
  se_show :: "err \<Rightarrow> string"
  se_set_order :: "capability set \<Rightarrow> capability list"
  se_time :: "nat \<Rightarrow> int"
  se_db :: "nat \<Rightarrow> env"

definition server_digests :: "server_env \<Rightarrow> digests" where
  "server_digests se = \<lparr>cd_content = se_content se, cd_value = canonical_hash (te_sha (se_text se))\<rparr>"

text \<open>The session fields an entry carries (of a session, or of the synthetic one of a failed
  login).\<close>

record audit_who =
  aw_token_id :: string
  aw_session_id :: string
  aw_cursor :: "string option"
  aw_vt :: "string option"

definition repl_principal :: "audit_who \<Rightarrow> string \<Rightarrow> val dict" where
  "repl_principal who op_kind =
     [(''token_id'', VStr (aw_token_id who)), (''session_id'', VStr (aw_session_id who)),
      (''op_kind'', VStr op_kind), (''view_cursor_tx_time_iso'', opt_val (aw_cursor who)),
      (''view_cursor_vt_iso'', opt_val (aw_vt who))]"

record op_outcome =
  oo_kind :: string
  oo_args :: "val dict"
  oo_verdict :: string
  oo_latency :: int
  oo_result_hash :: "string option"
  oo_error :: "string option"

definition repl_content :: "server_env \<Rightarrow> audit_who \<Rightarrow> op_outcome \<Rightarrow> int \<Rightarrow> string option \<Rightarrow> audit_entry" where
  "repl_content se who oo now prev_hash =
     \<lparr>e_id = [], e_prev_hash = prev_hash, e_op = '':repl/op'',
      e_args_hash = canonical_hash (te_sha (se_text se)) (VDict (oo_args oo)), e_verdict = oo_verdict oo,
      e_latency_ms = oo_latency oo, e_recorded_at = now, e_result_hash = oo_result_hash oo,
      e_error = oo_error oo, e_policy_id = None, e_handler_chain = [],
      e_principal = repl_principal who (oo_kind oo), e_run_id = None, e_parent = prev_hash,
      e_txn_commit = VNone\<rparr>"

definition emit_repl_op_audit ::
  "server_env \<Rightarrow> audit_entry list \<Rightarrow> audit_who \<Rightarrow> op_outcome \<Rightarrow> int \<Rightarrow> err + audit_entry" where
  "emit_repl_op_audit se entries who oo now =
     build_entry (server_digests se) (repl_content se who oo now (last_id entries))"

section \<open>Persistence\<close>

definition audit_value_val :: "audit_value \<Rightarrow> val" where
  "audit_value_val v = VDict
     [(''verdict'', VStr (av_verdict v)), (''args_hash'', VStr (av_args_hash v)),
      (''result_hash'', opt_val (av_result_hash v)), (''latency_ms'', VInt (av_latency_ms v)),
      (''error'', opt_val (av_error v))]"

definition audit_prov_dict :: "audit_prov \<Rightarrow> prov" where
  "audit_prov_dict p =
     [('':source'', VStr '':persistence.effect.audit''), ('':confidence'', VInt 1),
      ('':signature'', VStr (ap_signature p)), ('':prev-hash'', opt_val (ap_prev_hash p)),
      (''parent_provenance_hash'', opt_val (ap_parent_provenance_hash p)),
      ('':handler-chain'', VList (map VStr (ap_handler_chain p))),
      ('':policy-id'', opt_val (ap_policy_id p)), ('':principal'', VDict (ap_principal p))]
     @ (case ap_episode p of None \<Rightarrow> [] | Some r \<Rightarrow> [('':episode'', VStr r)])
     @ (if ap_txn_commit p = VNone then [] else [('':effect/txn-commit'', ap_txn_commit p)])"

definition repl_audit_datom :: "audit_datom \<Rightarrow> datom" where
  "repl_audit_datom ad = post_init
     \<lparr>d_e = ad_e ad, d_a = lstrip_colon (ad_a ad), d_v = audit_value_val (ad_v ad), d_tx = 0,
      d_tx_time = ad_tx_time ad, d_valid_from = ad_valid_from ad, d_valid_to = None, d_op = Assert,
      d_provenance = audit_prov_dict (ad_provenance ad), d_invalidated_by = None\<rparr>"

definition persist_repl_audit :: "(audit_datom \<Rightarrow> bool) \<Rightarrow> log \<Rightarrow> audit_entry \<Rightarrow> err + log" where
  "persist_repl_audit conforms l e =
     ebind (audit_entry_to_datom conforms e) (\<lambda>ad.
       Inr (fst (transact_serializable l [repl_audit_datom ad] (Some (ad_tx_time ad)))))"

section \<open>The audit window\<close>

text \<open>The datom read back as an entry and summarised; a datom nobody but the audit code wrote
  can hold any value under any key.\<close>

definition verdict_of_val :: "val \<Rightarrow> err + string" where
  "verdict_of_val v = (case v of VStr s \<Rightarrow> as_python s | _ \<Rightarrow> Inl AttributeError)"

definition field_of :: "val \<Rightarrow> string \<Rightarrow> err + val" where
  "field_of v k = (case v of VDict d \<Rightarrow> (case dget d k of None \<Rightarrow> Inl KeyError | Some x \<Rightarrow> Inr x) | _ \<Rightarrow> Inl TypeError)"

definition iterable :: "val \<Rightarrow> bool" where
  "iterable v = (case v of VTuple _ \<Rightarrow> True | VList _ \<Rightarrow> True | VStr _ \<Rightarrow> True | VDict _ \<Rightarrow> True | _ \<Rightarrow> False)"

definition get_or :: "val dict \<Rightarrow> string \<Rightarrow> val \<Rightarrow> val" where
  "get_or d k v = (case dget d k of None \<Rightarrow> v | Some x \<Rightarrow> x)"

definition principal_of_val :: "val \<Rightarrow> err + val dict" where
  "principal_of_val v = (case v of VDict p \<Rightarrow> Inr (keyword_map_to_principal p) | _ \<Rightarrow> Inl AttributeError)"

text \<open>The attribute is \<open>audit/\<close> and the operation with its slash written as a dot.\<close>

definition op_of_attr :: "string \<Rightarrow> string" where
  "op_of_attr a = CHR '':'' # replace_char (CHR ''.'') (CHR ''/'') (drop (length ''audit/'') a)"

definition summary_of_datom :: "datom \<Rightarrow> err + val" where
  "summary_of_datom d =
     (let p = d_provenance d; v = d_v d; op = op_of_attr (d_a d) in
      case dget p '':signature'' of None \<Rightarrow> Inl ValueError
      | Some audit_id \<Rightarrow>
          ebind (field_of v ''args_hash'') (\<lambda>args_hash.
          ebind (ebind (field_of v ''verdict'') verdict_of_val) (\<lambda>verdict.
          ebind (field_of v ''latency_ms'') (\<lambda>latency_ms.
          ebind (if iterable (get_or p '':handler-chain'' (VTuple [])) then Inr () else Inl TypeError) (\<lambda>_.
          ebind (principal_of_val (get_or p '':principal'' (VDict []))) (\<lambda>principal.
          ebind (check_op op) (\<lambda>_.
          case v of VDict vd \<Rightarrow> Inr (VDict
             [(''id'', audit_id), (''prev_hash'', get_or p '':prev-hash'' VNone), (''op'', VStr op),
              (''args_hash'', args_hash), (''verdict'', VStr verdict), (''latency_ms'', latency_ms),
              (''recorded_at'', VInt (d_tx_time d)), (''result_hash'', get_or vd ''result_hash'' VNone),
              (''error'', get_or vd ''error'' VNone), (''principal'', VDict (canon_principal principal))])
          | _ \<Rightarrow> Inl TypeError)))))))"

text \<open>The summary of an entry.\<close>

definition audit_entry_to_summary :: "audit_entry \<Rightarrow> val" where
  "audit_entry_to_summary e = VDict
     [(''id'', VStr (e_id e)), (''prev_hash'', opt_val (e_prev_hash e)), (''op'', VStr (e_op e)),
      (''args_hash'', VStr (e_args_hash e)), (''verdict'', VStr (e_verdict e)),
      (''latency_ms'', VInt (e_latency_ms e)), (''recorded_at'', VInt (e_recorded_at e)),
      (''result_hash'', opt_val (e_result_hash e)), (''error'', opt_val (e_error e)),
      (''principal'', VDict (e_principal e))]"

text \<open>Comparing an aware transaction time with a naive bound raises.\<close>

definition before_bound :: "datom \<Rightarrow> pydt option \<Rightarrow> err + bool" where
  "before_bound d from_dt = (case from_dt of None \<Rightarrow> Inr False | Some (Naive _) \<Rightarrow> Inl TypeError
     | Some (Aware t) \<Rightarrow> Inr (d_tx_time d < t))"

definition after_bound :: "datom \<Rightarrow> pydt option \<Rightarrow> err + bool" where
  "after_bound d to_dt = (case to_dt of None \<Rightarrow> Inr False | Some (Naive _) \<Rightarrow> Inl TypeError
     | Some (Aware t) \<Rightarrow> Inr (t < d_tx_time d))"

definition window_attr :: "string option \<Rightarrow> datom \<Rightarrow> bool" where
  "window_attr op_filter d \<longleftrightarrow> startswith ''audit/'' (d_a d) \<and>
     (case op_filter of None \<Rightarrow> True
      | Some f \<Rightarrow> d_a d = ''audit/'' @ replace_char (CHR ''/'') (CHR ''.'') (lstrip_colon f))"

text \<open>One datom of the loop: its summary if it is in the window; a datom that does not read
  back as an entry is skipped.\<close>

definition window_entry :: "pydt option \<Rightarrow> pydt option \<Rightarrow> string option \<Rightarrow> datom \<Rightarrow> err + val option" where
  "window_entry from_dt to_dt op_filter d =
     (if \<not> window_attr op_filter d then Inr None
      else ebind (before_bound d from_dt) (\<lambda>b. if b then Inr None
      else ebind (after_bound d to_dt) (\<lambda>a. if a then Inr None
      else case summary_of_datom d of
          Inr s \<Rightarrow> Inr (Some s)
        | Inl e \<Rightarrow> if e = ValueError \<or> e = KeyError then Inr None else Inl e)))"

fun window_loop :: "(datom \<Rightarrow> err + val option) \<Rightarrow> int \<Rightarrow> val list \<Rightarrow> datom list \<Rightarrow> err + val list" where
  "window_loop f limit out [] = Inr out"
| "window_loop f limit out (d # ds) =
     ebind (f d) (\<lambda>r. case r of
         None \<Rightarrow> window_loop f limit out ds
       | Some s \<Rightarrow> if limit \<le> int (length (out @ [s])) then Inr (out @ [s])
           else window_loop f limit (out @ [s]) ds)"

text \<open>Bounds that are not ISO text count as absent.\<close>

definition soft_iso :: "text_env \<Rightarrow> string option \<Rightarrow> pydt option" where
  "soft_iso te s = (case s of None \<Rightarrow> None | Some x \<Rightarrow> te_fromiso te x)"

definition audit_window_query ::
  "text_env \<Rightarrow> log \<Rightarrow> string option \<Rightarrow> string option \<Rightarrow> string option \<Rightarrow> int \<Rightarrow> err + val list" where
  "audit_window_query te l from_iso to_iso op_filter limit =
     window_loop (window_entry (soft_iso te from_iso) (soft_iso te to_iso) op_filter) limit [] l"

end
