(* ===== verification/ReplOps.thy ===== *)
theory ReplOps
  imports ReplAudit
begin

text \<open>
  \<open>persistence.repl._session\<close>, \<open>_protocol\<close> and \<open>_ops\<close>: the session of a connection, the
  JSON-RPC envelopes, and the four operations of the server. The server is a record: the log of
  its store, the registry of live sessions, the audit ring, the number of clock readings so
  far and the messages sent. An operation is a computation over it that may raise.
\<close>

section \<open>Sessions and the server\<close>

record session =
  ss_id :: string
  ss_token_id :: string
  ss_caps :: cap_set
  ss_auth_iso :: string
  ss_cursor :: "string option"
  ss_vt :: "string option"
  ss_depth :: nat

record server =
  sv_log :: log
  sv_sessions :: "session dict"
  sv_ring :: "audit_entry list"
  sv_ticks :: nat
  sv_sent :: "val list"

definition tick :: "server_env \<Rightarrow> (server, int) io" where
  "tick se s = (Inr (se_time se (sv_ticks s)), s\<lparr>sv_ticks := Suc (sv_ticks s)\<rparr>)"

definition put_session :: "session \<Rightarrow> (server, unit) io" where
  "put_session ss s = (Inr (), s\<lparr>sv_sessions := dset (ss_id ss) ss (sv_sessions s)\<rparr>)"

definition pop_session :: "string \<Rightarrow> server \<Rightarrow> server" where
  "pop_session i s = s\<lparr>sv_sessions := AList.delete i (sv_sessions s)\<rparr>"

definition get_log :: "(server, log) io" where
  "get_log s = (Inr (sv_log s), s)"

definition iso_now :: "server_env \<Rightarrow> int \<Rightarrow> string" where
  "iso_now se t = te_iso (se_text se) (Aware t)"

definition derive_session_id :: "server_env \<Rightarrow> string \<Rightarrow> string \<Rightarrow> string" where
  "derive_session_id se tid auth_clock_iso =
     take 16 (te_sha (se_text se) (tid @ '':'' @ auth_clock_iso))"

definition make_session :: "server_env \<Rightarrow> string \<Rightarrow> cap_set \<Rightarrow> (server, session) io" where
  "make_session se tid cs = io_bind (tick se) (\<lambda>t. io_return
     \<lparr>ss_id = derive_session_id se tid (iso_now se t), ss_token_id = tid, ss_caps = cs,
      ss_auth_iso = iso_now se t, ss_cursor = None, ss_vt = None, ss_depth = 0\<rparr>)"

section \<open>The protocol\<close>

definition ERR_PARSE_ERROR :: int where "ERR_PARSE_ERROR = -32700"
definition ERR_INVALID_REQUEST :: int where "ERR_INVALID_REQUEST = -32600"
definition ERR_METHOD_NOT_FOUND :: int where "ERR_METHOD_NOT_FOUND = -32601"
definition ERR_INVALID_PARAMS :: int where "ERR_INVALID_PARAMS = -32602"
definition ERR_INTERNAL_ERROR :: int where "ERR_INTERNAL_ERROR = -32603"
definition ERR_CAPABILITY_DENIED :: int where "ERR_CAPABILITY_DENIED = -32001"
definition ERR_AUTH_FAILED :: int where "ERR_AUTH_FAILED = -32002"
definition ERR_TOKEN_INVALID :: int where "ERR_TOKEN_INVALID = -32003"
definition ERR_REQUEST_HASH_MISMATCH :: int where "ERR_REQUEST_HASH_MISMATCH = -32005"
definition ERR_SESSION_EXPIRED :: int where "ERR_SESSION_EXPIRED = -32006"
definition ERR_BRANCH_DEPTH_EXCEEDED :: int where "ERR_BRANCH_DEPTH_EXCEEDED = -32007"
definition ERR_STALE_CURSOR_EDIT :: int where "ERR_STALE_CURSOR_EDIT = -32008"

lemmas err_codes = ERR_PARSE_ERROR_def ERR_INVALID_REQUEST_def ERR_METHOD_NOT_FOUND_def
  ERR_INVALID_PARAMS_def ERR_INTERNAL_ERROR_def ERR_CAPABILITY_DENIED_def ERR_AUTH_FAILED_def
  ERR_TOKEN_INVALID_def ERR_REQUEST_HASH_MISMATCH_def ERR_SESSION_EXPIRED_def
  ERR_BRANCH_DEPTH_EXCEEDED_def ERR_STALE_CURSOR_EDIT_def

record request =
  rq_method :: string
  rq_params :: "val dict"
  rq_id :: val

text \<open>A \<open>ValueError\<close> of the parser carries its message.\<close>

definition parse_request :: "val dict \<Rightarrow> string + request" where
  "parse_request payload =
     (if dget payload ''jsonrpc'' \<noteq> Some (VStr ''2.0'') then Inl ''missing or invalid jsonrpc field''
      else case dget payload ''method'' of
          Some (VStr meth) \<Rightarrow>
            (case get_or payload ''params'' (VDict []) of
               VDict params \<Rightarrow> Inr \<lparr>rq_method = meth, rq_params = params, rq_id = get_or payload ''id'' VNone\<rparr>
             | _ \<Rightarrow> Inl ''params must be an object'')
        | _ \<Rightarrow> Inl ''missing or invalid method'')"

definition make_response :: "val \<Rightarrow> val \<Rightarrow> val" where
  "make_response req_id result =
     VDict [(''jsonrpc'', VStr ''2.0''), (''id'', req_id), (''result'', result)]"

definition make_error_response :: "val \<Rightarrow> int \<Rightarrow> string \<Rightarrow> val \<Rightarrow> val" where
  "make_error_response req_id code message data =
     VDict [(''jsonrpc'', VStr ''2.0''), (''id'', req_id),
       (''error'', VDict ([(''code'', VInt code), (''message'', VStr message)]
          @ (if data = VNone then [] else [(''data'', data)])))]"

section \<open>Shared helpers of the operations\<close>

definition op_error :: "int \<Rightarrow> string \<Rightarrow> (server, 'a) io" where
  "op_error code message = io_raise (OpError code message)"

fun type_name :: "val \<Rightarrow> string" where
  "type_name VNone = ''NoneType''"
| "type_name (VBool _) = ''bool''"
| "type_name (VInt _) = ''int''"
| "type_name (VStr _) = ''str''"
| "type_name (VTuple _) = ''tuple''"
| "type_name (VList _) = ''list''"
| "type_name (VDict _) = ''dict''"

definition coerce_iso :: "server_env \<Rightarrow> val \<Rightarrow> string \<Rightarrow> (server, pydt option) io" where
  "coerce_iso se v field =
     (case v of
        VNone \<Rightarrow> io_return None
      | VStr s \<Rightarrow> (case te_fromiso (se_text se) s of
            Some t \<Rightarrow> io_return (Some t)
          | None \<Rightarrow> op_error ERR_INVALID_PARAMS
              (field @ '' must be ISO-8601: Invalid isoformat string: '' @ se_repr se v))
      | _ \<Rightarrow> op_error ERR_INVALID_PARAMS (field @ '' must be ISO-8601 string, got '' @ type_name v))"

text \<open>The text of a value that \<open>coerce_iso\<close> let pass.\<close>

definition iso_text :: "val \<Rightarrow> string option" where
  "iso_text v = (case v of VStr s \<Rightarrow> Some s | _ \<Rightarrow> None)"

definition require_cap :: "session \<Rightarrow> string \<Rightarrow> string \<Rightarrow> (server, unit) io" where
  "require_cap ss op qualifier = io_bind (io_lift (has (ss_caps ss) op qualifier)) (\<lambda>b.
     if b then io_return () else op_error ERR_CAPABILITY_DENIED (op @ '':'' @ qualifier @ '' required''))"

text \<open>The cursor of an inspection: the request's, else the session's, else the clock. A naive
  instant passes here and is refused by \<open>as_of\<close>.\<close>

definition resolve_cursor :: "server_env \<Rightarrow> val \<Rightarrow> session \<Rightarrow> (server, pydt \<times> string) io" where
  "resolve_cursor se sub_cursor ss =
     (case (if sub_cursor \<noteq> VNone then sub_cursor else opt_val (ss_cursor ss)) of
        VNone \<Rightarrow> io_bind (tick se) (\<lambda>t. io_return (Aware t, iso_now se t))
      | cur \<Rightarrow> io_bind (coerce_iso se cur ''view_cursor_tx_time_iso'') (\<lambda>t.
          case (t, iso_text cur) of (Some t', Some s) \<Rightarrow> io_return (t', s) | _ \<Rightarrow> io_raise AssertionError))"

text \<open>\<open>entity\<close> as the dictionary it builds: attributes in the order of their first open assert.\<close>

definition entity_dict :: "datom list \<Rightarrow> string \<Rightarrow> val dict" where
  "entity_dict ds e =
     map (\<lambda>a. (a, the (entity ds e a)))
       (rev (remdups (rev (map d_a (filter (\<lambda>d. rkey d \<notin> set (retracts_of e ds)) (candidates_of e ds))))))"

definition serialize_datom :: "server_env \<Rightarrow> datom \<Rightarrow> val" where
  "serialize_datom se d = VDict
     [(''e'', VStr (d_e d)), (''a'', VStr (d_a d)), (''v'', d_v d), (''tx'', VInt (d_tx d)),
      (''tx_time'', VStr (iso_now se (d_tx_time d))), (''valid_from'', VStr (iso_now se (d_valid_from d))),
      (''valid_to'', case d_valid_to d of None \<Rightarrow> VNone | Some t \<Rightarrow> VStr (iso_now se t)),
      (''op'', VStr (case d_op d of Assert \<Rightarrow> ''assert'' | Retract \<Rightarrow> ''retract'')),
      (''provenance'', VDict (d_provenance d)),
      (''invalidated_by'', case d_invalidated_by d of None \<Rightarrow> VNone | Some t \<Rightarrow> VInt t)]"

section \<open>inspect\<close>

definition INSPECT_DEFAULT_LIMIT :: int where "INSPECT_DEFAULT_LIMIT = 50"
definition INSPECT_MAX_LIMIT :: int where "INSPECT_MAX_LIMIT = 1000"

text \<open>The entity and the plan kind differ in the names of their keys only.\<close>

definition inspect_snapshot :: "string \<Rightarrow> string \<Rightarrow> server_env \<Rightarrow> session \<Rightarrow> val dict \<Rightarrow> (server, val) io" where
  "inspect_snapshot id_key out_key se ss sub =
     (case get_or sub id_key VNone of
        VStr (c # cs) \<Rightarrow>
          io_bind (resolve_cursor se (get_or sub ''view_cursor_tx_time_iso'' VNone) ss) (\<lambda>(t, cursor_iso).
          io_bind (io_lift (aware t)) (\<lambda>t'.
          io_bind get_log (\<lambda>l.
            let en = entity_dict (as_of l t') (c # cs) in
            io_return (VDict [(out_key, if en = [] then VNone else VDict en), (''cursor_iso'', VStr cursor_iso)]))))
      | _ \<Rightarrow> op_error ERR_INVALID_PARAMS (id_key @ '' (non-empty string) required''))"

definition inspect_entity :: "server_env \<Rightarrow> session \<Rightarrow> val dict \<Rightarrow> (server, val) io" where
  "inspect_entity = inspect_snapshot ''entity_id'' ''entity''"

definition inspect_plan :: "server_env \<Rightarrow> session \<Rightarrow> val dict \<Rightarrow> (server, val) io" where
  "inspect_plan = inspect_snapshot ''plan_id'' ''plan''"

definition check_limit :: "val \<Rightarrow> (server, int) io" where
  "check_limit v =
     (case v of
        VInt n \<Rightarrow> if n < 0 then op_error ERR_INVALID_PARAMS ''limit must be >= 0''
          else io_return (min n INSPECT_MAX_LIMIT)
      | _ \<Rightarrow> op_error ERR_INVALID_PARAMS ''limit must be int'')"

definition inspect_audit_window :: "server_env \<Rightarrow> session \<Rightarrow> val dict \<Rightarrow> (server, val) io" where
  "inspect_audit_window se ss sub =
     io_bind (coerce_iso se (get_or sub ''from_iso'' VNone) ''from_iso'') (\<lambda>_.
     io_bind (coerce_iso se (get_or sub ''to_iso'' VNone) ''to_iso'') (\<lambda>_.
     io_bind (case get_or sub ''op_filter'' VNone of
         VNone \<Rightarrow> io_return None
       | VStr f \<Rightarrow> io_return (Some f)
       | _ \<Rightarrow> op_error ERR_INVALID_PARAMS ''op_filter must be string or null'') (\<lambda>op_filter.
     io_bind (check_limit (get_or sub ''limit'' (VInt 100))) (\<lambda>limit.
     io_bind get_log (\<lambda>l.
     io_bind (io_lift (audit_window_query (se_text se) l (iso_text (get_or sub ''from_iso'' VNone))
         (iso_text (get_or sub ''to_iso'' VNone)) op_filter limit)) (\<lambda>entries.
       io_return (VDict [(''entries'', VList entries), (''limit'', VInt limit)])))))))"

definition inspect_causal_history :: "server_env \<Rightarrow> session \<Rightarrow> val dict \<Rightarrow> (server, val) io" where
  "inspect_causal_history se ss sub =
     (case get_or sub ''entity_id'' VNone of
        VStr (c # cs) \<Rightarrow>
          io_bind (check_limit (get_or sub ''limit'' (VInt INSPECT_DEFAULT_LIMIT))) (\<lambda>limit.
          io_bind get_log (\<lambda>l.
            case causal_history l (c # cs) 16 of (seeds, parents) \<Rightarrow>
            io_return (VDict [(''seeds'', VList (map (serialize_datom se) (take (nat limit) seeds))),
              (''parents'', VDict (map (\<lambda>(k, ps). (k, VList ps)) parents)), (''limit'', VInt limit)])))
      | _ \<Rightarrow> op_error ERR_INVALID_PARAMS ''entity_id (non-empty string) required'')"

definition INSPECT_KINDS :: "(string \<times> (server_env \<Rightarrow> session \<Rightarrow> val dict \<Rightarrow> (server, val) io)) list" where
  "INSPECT_KINDS = [(''entity'', inspect_entity), (''audit-window'', inspect_audit_window),
     (''plan'', inspect_plan), (''causal-history'', inspect_causal_history)]"

definition inspect_op :: "server_env \<Rightarrow> session \<Rightarrow> val dict \<Rightarrow> (server, val) io" where
  "inspect_op se ss params =
     io_bind (require_cap ss ''inspect'' ''read'') (\<lambda>_.
     case get_or params ''kind'' VNone of
        VStr kind \<Rightarrow>
          (case map_of INSPECT_KINDS kind of
             None \<Rightarrow> op_error ERR_INVALID_PARAMS (''unknown kind: '' @ se_repr se (VStr kind)
               @ ''; expected one of '' @ se_repr se (VList (map VStr (sort (map fst INSPECT_KINDS)))))
           | Some h \<Rightarrow> h se ss (filter (\<lambda>(k, v). k \<noteq> ''kind'') params))
      | _ \<Rightarrow> op_error ERR_INVALID_PARAMS ''kind (string) required'')"

section \<open>rewind\<close>

definition rewind_op :: "server_env \<Rightarrow> session \<Rightarrow> val dict \<Rightarrow> (server, val) io" where
  "rewind_op se ss params =
     (let tx_iso = get_or params ''tx_time_iso'' VNone; vt_iso = get_or params ''vt_iso'' VNone in
     io_bind (require_cap ss ''rewind'' ''any'') (\<lambda>_.
     io_bind (coerce_iso se tx_iso ''tx_time_iso'') (\<lambda>_.
     io_bind (coerce_iso se vt_iso ''vt_iso'') (\<lambda>_.
     io_bind (put_session (ss\<lparr>ss_cursor := iso_text tx_iso, ss_vt := iso_text vt_iso\<rparr>)) (\<lambda>_.
       io_return (VDict [(''view_cursor_tx_time_iso'', tx_iso), (''view_cursor_vt_iso'', vt_iso)]))))))"

section \<open>branch\<close>

definition MAX_BRANCH_DEPTH :: nat where "MAX_BRANCH_DEPTH = 16"

definition derive_branch_id :: "server_env \<Rightarrow> string \<Rightarrow> string \<Rightarrow> string" where
  "derive_branch_id se session_id tx_iso =
     ''branch:'' @ take 16 (te_sha (se_text se) (session_id @ '':'' @ tx_iso))"

definition branch_tx_iso :: "server_env \<Rightarrow> session \<Rightarrow> val \<Rightarrow> int \<Rightarrow> (server, string) io" where
  "branch_tx_iso se ss raw_tx_iso now =
     (if raw_tx_iso \<noteq> VNone then io_bind (coerce_iso se raw_tx_iso ''tx_time_iso'')
        (\<lambda>_. case iso_text raw_tx_iso of Some s \<Rightarrow> io_return s | None \<Rightarrow> io_raise AssertionError)
      else case ss_cursor ss of Some s \<Rightarrow> io_return s | None \<Rightarrow> io_return (iso_now se now))"

definition branch_op :: "server_env \<Rightarrow> session \<Rightarrow> val dict \<Rightarrow> (server, val) io" where
  "branch_op se ss params =
     io_bind (require_cap ss ''branch'' ''fork'') (\<lambda>_.
     io_bind (tick se) (\<lambda>now.
     io_bind (io_lift (is_expired (ss_caps ss) now)) (\<lambda>expired.
     if expired then op_error ERR_SESSION_EXPIRED ''session token expired; re-auth required''
     else if MAX_BRANCH_DEPTH \<le> ss_depth ss then op_error ERR_BRANCH_DEPTH_EXCEEDED
       (''max_branch_depth ('' @ nat_str MAX_BRANCH_DEPTH @ '') exceeded'')
     else io_bind (branch_tx_iso se ss (get_or params ''tx_time_iso'' VNone) now) (\<lambda>tx_iso.
     io_bind (case get_or params ''label'' (VStr []) of VStr label \<Rightarrow> io_return label
       | _ \<Rightarrow> op_error ERR_INVALID_PARAMS ''label must be string'') (\<lambda>label.
     io_bind (put_session (ss\<lparr>ss_cursor := Some tx_iso, ss_depth := ss_depth ss + 1\<rparr>)) (\<lambda>_.
       io_return (VDict [(''branch_id'', VStr (derive_branch_id se (ss_id ss) tx_iso)),
         (''tx_time_iso'', VStr tx_iso), (''parent_chain_depth'', VInt (int (ss_depth ss + 1))),
         (''label'', VStr label)])))))))"

section \<open>edit\<close>

definition compute_request_hash :: "server_env \<Rightarrow> val dict \<Rightarrow> string" where
  "compute_request_hash se params =
     canonical_hash (te_sha (se_text se)) (VDict (filter (\<lambda>(k, v). k \<notin> {''confirm'', ''request_hash''}) params))"

fun check_datoms :: "nat \<Rightarrow> val list \<Rightarrow> (server, unit) io" where
  "check_datoms i [] = io_return ()"
| "check_datoms i (VDict d # ds) =
     (case find (\<lambda>k. dget d k = None) [''e'', ''a'', ''v''] of
        Some k \<Rightarrow> op_error ERR_INVALID_PARAMS
          (''datoms['' @ nat_str i @ ''] missing required key '' @ [CHR 0x27] @ k @ [CHR 0x27])
      | None \<Rightarrow> check_datoms (Suc i) ds)"
| "check_datoms i (_ # ds) = op_error ERR_INVALID_PARAMS
     (''datoms['' @ nat_str i @ ''] must be a dict with e, a, v keys'')"

definition validate_datoms :: "val \<Rightarrow> (server, val list) io" where
  "validate_datoms v =
     (case v of
        VList (d # ds) \<Rightarrow> io_bind (check_datoms 0 (d # ds)) (\<lambda>_. io_return (d # ds))
      | _ \<Rightarrow> op_error ERR_INVALID_PARAMS ''datoms must be non-empty list'')"

text \<open>A fact dictionary as \<open>transact\<close> reads it. Ids and attributes are strings in the model;
  an operation that is no string is unknown to the constructor, like the empty one.\<close>

definition dtarg_of :: "val \<Rightarrow> dtarg" where
  "dtarg_of v = (case v of VStr s \<Rightarrow> DtIso s | _ \<Rightarrow> DtOther)"

definition fact_of_val :: "val \<Rightarrow> err + fact" where
  "fact_of_val v =
     (case v of
        VDict d \<Rightarrow>
          (case (dget d ''e'', dget d ''a'', dget d ''v'') of
             (Some (VStr e), Some (VStr a), Some x) \<Rightarrow>
               Inr \<lparr>f_e = e, f_a = a, f_v = x, f_valid_from = map_option dtarg_of (dget d ''valid_from''),
                 f_valid_to = (let t = get_or d ''valid_to'' VNone in if truthy t then Some (dtarg_of t) else None),
                 f_op = (case dget d ''op'' of None \<Rightarrow> None | Some (VStr s) \<Rightarrow> Some s | Some _ \<Rightarrow> Some [])\<rparr>
           | _ \<Rightarrow> Inl TypeError)
      | _ \<Rightarrow> Inl TypeError)"

definition db_transact :: "env \<Rightarrow> val list \<Rightarrow> (server, log) io" where
  "db_transact env datoms s =
     (case ebind (emap fact_of_val datoms) (\<lambda>fs. transact env (sv_log s) fs [] False) of
        Inl e \<Rightarrow> (Inl e, s)
      | Inr l \<Rightarrow> (Inr l, s\<lparr>sv_log := l\<rparr>))"

definition edit_commit :: "server_env \<Rightarrow> val list \<Rightarrow> (server, val) io" where
  "edit_commit se datoms =
     io_bind (tick se) (\<lambda>now s.
     io_bind (io_try (db_transact (se_db se (sv_ticks s)) datoms) (\<lambda>r.
         case r of Inl e \<Rightarrow> op_error ERR_INTERNAL_ERROR (''transact failed: '' @ se_show se e)
         | Inr l \<Rightarrow> io_return l)) (\<lambda>l.
       io_return (VDict [(''committed'', VBool True), (''tx_time_iso'', VStr (iso_now se now)),
         (''tx'', if l = [] then VNone else VInt (d_tx (last l))),
         (''datom_count'', VInt (int (length datoms)))])) s)"

definition PREVIEW_NOTE :: string where
  "PREVIEW_NOTE = ''No server-side auto-retract preview computed. '' @
     ''Re-issue with confirm:true and matching request_hash to commit.''"

definition edit_op :: "server_env \<Rightarrow> session \<Rightarrow> val dict \<Rightarrow> (server, val) io" where
  "edit_op se ss params =
     io_bind (io_lift (has (ss_caps ss) ''edit'' ''write'')) (\<lambda>has_write.
     io_bind (io_lift (has (ss_caps ss) ''edit'' ''propose-only'')) (\<lambda>has_propose.
     if \<not> (has_write \<or> has_propose)
     then op_error ERR_CAPABILITY_DENIED ''edit:write or edit:propose-only required''
     else io_bind (validate_datoms (get_or params ''datoms'' VNone)) (\<lambda>datoms.
     if \<not> truthy (get_or params ''confirm'' (VBool False))
     then io_return (VDict [(''requires_confirmation'', VBool True),
       (''request_hash'', VStr (compute_request_hash se params)),
       (''echo'', VDict [(''datoms'', VList datoms)]), (''preview_note'', VStr PREVIEW_NOTE)])
     else if \<not> has_write then op_error ERR_CAPABILITY_DENIED ''edit:write required for confirm step''
     else if ss_cursor ss \<noteq> None
     then op_error ERR_STALE_CURSOR_EDIT ''edit at past cursor not allowed; branch first''
     else if get_or params ''request_hash'' VNone \<noteq> VStr (compute_request_hash se params)
     then op_error ERR_REQUEST_HASH_MISMATCH ''request_hash mismatch; re-propose''
     else edit_commit se datoms)))"

end
