(* ===== verification/ReplServer.thy ===== *)
theory ReplServer
  imports ReplOps
begin

text \<open>
  \<open>persistence.repl._ws\<close>: how the server handles a message of a connection (parsing, login,
  dispatch to an operation, audit), and the connections as a step relation. A message is one
  step: the only points at which the coroutine of a connection can be suspended are its sends,
  after which it writes the audit entry.
\<close>

section \<open>Audit of an operation\<close>

definition DENY_ERROR_CODES :: "int set" where
  "DENY_ERROR_CODES = {ERR_AUTH_FAILED, ERR_BRANCH_DEPTH_EXCEEDED, ERR_CAPABILITY_DENIED,
     ERR_REQUEST_HASH_MISMATCH, ERR_SESSION_EXPIRED, ERR_STALE_CURSOR_EDIT, ERR_TOKEN_INVALID}"

definition verdict_for_op_error :: "int \<Rightarrow> string" where
  "verdict_for_op_error code = (if code \<in> DENY_ERROR_CODES then ''deny'' else ''error'')"

definition is_audit_window_poll :: "string \<Rightarrow> val dict \<Rightarrow> bool" where
  "is_audit_window_poll meth params \<longleftrightarrow>
     meth = ''repl/inspect'' \<and> dget params ''kind'' = Some (VStr ''audit-window'')"

definition latency_ms :: "server_env \<Rightarrow> int \<Rightarrow> int \<Rightarrow> int" where
  "latency_ms se start stop = max 0 (se_millis se (stop - start))"

definition send :: "val \<Rightarrow> (server, unit) io" where
  "send v s = (Inr (), s\<lparr>sv_sent := sv_sent s @ [v]\<rparr>)"

definition MAX_RING_SIZE :: nat where "MAX_RING_SIZE = 256"

definition trim_ring :: "audit_entry list \<Rightarrow> audit_entry list" where
  "trim_ring entries = (if MAX_RING_SIZE < length entries then drop (length entries - MAX_RING_SIZE) entries else entries)"

text \<open>A failure to persist is logged and swallowed.\<close>

definition persist_quietly :: "server_env \<Rightarrow> audit_entry \<Rightarrow> server \<Rightarrow> server" where
  "persist_quietly se e s =
     (case persist_repl_audit (se_conforms se) (sv_log s) e of Inl _ \<Rightarrow> s | Inr l \<Rightarrow> s\<lparr>sv_log := l\<rparr>)"

definition emit_audit_for_op :: "server_env \<Rightarrow> audit_who \<Rightarrow> op_outcome \<Rightarrow> (server, unit) io" where
  "emit_audit_for_op se who oo = io_bind (tick se) (\<lambda>now s.
     (case emit_repl_op_audit se (sv_ring s) who oo now of
        Inl e \<Rightarrow> (Inl e, s)
      | Inr e \<Rightarrow> (Inr (), persist_quietly se e (s\<lparr>sv_ring := trim_ring (sv_ring s @ [e])\<rparr>))))"

definition who_of :: "session \<Rightarrow> audit_who" where
  "who_of ss = \<lparr>aw_token_id = ss_token_id ss, aw_session_id = ss_id ss, aw_cursor = ss_cursor ss, aw_vt = ss_vt ss\<rparr>"

definition value_hash :: "server_env \<Rightarrow> val \<Rightarrow> string option" where
  "value_hash se v = (if v = VNone then None else Some (canonical_hash (te_sha (se_text se)) v))"

text \<open>The entry of an operation that started at \<open>start\<close>; the clock is read for its latency.\<close>

definition audit_op :: "server_env \<Rightarrow> audit_who \<Rightarrow> string \<Rightarrow> val dict \<Rightarrow> int \<Rightarrow> string \<Rightarrow> string option \<Rightarrow>
    string option \<Rightarrow> (server, unit) io" where
  "audit_op se who kind args start verdict result_hash error =
     io_bind (tick se) (\<lambda>stop. emit_audit_for_op se who
       \<lparr>oo_kind = kind, oo_args = args, oo_verdict = verdict, oo_latency = latency_ms se start stop,
        oo_result_hash = result_hash, oo_error = error\<rparr>)"

section \<open>Login\<close>

definition pre_auth :: "string \<Rightarrow> audit_who" where
  "pre_auth tid = \<lparr>aw_token_id = tid, aw_session_id = ''<pre-auth>'', aw_cursor = None, aw_vt = None\<rparr>"

definition BAD_TOKEN :: string where "BAD_TOKEN = ''token invalid, expired, or revoked''"

definition auth_result :: "server_env \<Rightarrow> session \<Rightarrow> val" where
  "auth_result se ss = VDict
     [(''session_id'', VStr (ss_id ss)), (''auth_clock_iso'', VStr (ss_auth_iso ss)),
      (''caps'', VList (map (\<lambda>(op, q). VDict [(''op'', VStr op), (''qualifier'', VStr q)])
         (se_set_order se (cs_caps (ss_caps ss)))))]"

definition open_session :: "server_env \<Rightarrow> request \<Rightarrow> session option \<Rightarrow> int \<Rightarrow> string \<Rightarrow> cap_set \<Rightarrow> (server, session) io" where
  "open_session se req prior start tid cs s =
     io_bind (make_session se tid cs) (\<lambda>ss.
     io_bind (put_session ss) (\<lambda>_.
     io_bind (send (make_response (rq_id req) (auth_result se ss))) (\<lambda>_.
     io_bind (audit_op se (who_of ss) ''auth'' (rq_params req) start ''ok'' (value_hash se (auth_result se ss)) None)
       (\<lambda>_. io_return ss))))
     (case prior of None \<Rightarrow> s | Some p \<Rightarrow> pop_session (ss_id p) s)"

definition handle_auth :: "server_env \<Rightarrow> request \<Rightarrow> session option \<Rightarrow> (server, session option) io" where
  "handle_auth se req prior =
     io_bind (tick se) (\<lambda>start.
     case get_or (rq_params req) ''token'' VNone of
        VStr token_str \<Rightarrow>
          io_bind (tick se) (\<lambda>now.
          io_bind get_log (\<lambda>l.
          io_bind (io_lift (validate_token (se_text se) l token_str now)) (\<lambda>r.
          case r of
            None \<Rightarrow>
              io_bind (send (make_error_response (rq_id req) ERR_TOKEN_INVALID BAD_TOKEN VNone)) (\<lambda>_.
              io_bind (audit_op se (pre_auth (token_id (se_text se) token_str)) ''auth'' (rq_params req) start
                ''deny'' None (Some BAD_TOKEN)) (\<lambda>_. io_return None))
          | Some cs \<Rightarrow> io_bind (open_session se req prior start (token_id (se_text se) token_str) cs)
              (\<lambda>ss. io_return (Some ss)))))
      | _ \<Rightarrow>
          io_bind (send (make_error_response (rq_id req) ERR_INVALID_REQUEST ''params.token required'' VNone)) (\<lambda>_.
          io_bind (audit_op se (pre_auth ''<unknown>'') ''auth'' (rq_params req) start ''error'' None
            (Some ''params.token required'')) (\<lambda>_. io_return None)))"

section \<open>Dispatch\<close>

definition DEFAULT_OPS :: "(string \<times> (server_env \<Rightarrow> session \<Rightarrow> val dict \<Rightarrow> (server, val) io)) list" where
  "DEFAULT_OPS = [(''repl/inspect'', inspect_op), (''repl/edit'', edit_op), (''repl/rewind'', rewind_op),
     (''repl/branch'', branch_op)]"

definition op_kind_of :: "string \<Rightarrow> string" where
  "op_kind_of meth = (if startswith ''repl/'' meth then drop 5 meth else meth)"

text \<open>The outcome of an operation, as the audit sees it: verdict, hash of the result, error.\<close>

type_synonym op_report = "string \<times> string option \<times> string option"

definition answer_op :: "server_env \<Rightarrow> request \<Rightarrow> err + val \<Rightarrow> (server, op_report) io" where
  "answer_op se req r =
     (case r of
        Inr v \<Rightarrow> io_bind (send (make_response (rq_id req) v)) (\<lambda>_. io_return (''ok'', value_hash se v, None))
      | Inl (OpError code message) \<Rightarrow>
          io_bind (send (make_error_response (rq_id req) code message VNone))
            (\<lambda>_. io_return (verdict_for_op_error code, None, Some message))
      | Inl e \<Rightarrow>
          io_bind (send (make_error_response (rq_id req) ERR_INTERNAL_ERROR (se_show se e) VNone))
            (\<lambda>_. io_return (''error'', None, Some (se_show se e))))"

definition audit_unless_poll :: "server_env \<Rightarrow> request \<Rightarrow> session \<Rightarrow> int \<Rightarrow> op_report \<Rightarrow> (server, unit) io" where
  "audit_unless_poll se req ss start report =
     (if is_audit_window_poll (rq_method req) (rq_params req) then io_return ()
      else case report of (verdict, result_hash, error) \<Rightarrow>
        audit_op se (who_of ss) (op_kind_of (rq_method req)) (rq_params req) start verdict result_hash error)"

definition latest_session :: "session \<Rightarrow> (server, session) io" where
  "latest_session ss s = (Inr (case dget (sv_sessions s) (ss_id ss) of None \<Rightarrow> ss | Some ss' \<Rightarrow> ss'), s)"

definition handle_op :: "server_env \<Rightarrow> request \<Rightarrow> session \<Rightarrow> (server, session) io" where
  "handle_op se req ss =
     io_bind (tick se) (\<lambda>start.
     case map_of DEFAULT_OPS (rq_method req) of
        None \<Rightarrow>
          (let message = ''unknown method: '' @ rq_method req in
           io_bind (send (make_error_response (rq_id req) ERR_METHOD_NOT_FOUND message VNone)) (\<lambda>_.
           io_bind (audit_unless_poll se req ss start (''error'', None, Some message)) (\<lambda>_. io_return ss)))
      | Some h \<Rightarrow>
          io_bind (io_try (h se ss (rq_params req)) (answer_op se req)) (\<lambda>report.
          io_bind (latest_session ss) (\<lambda>latest.
          io_bind (audit_unless_poll se req latest start report) (\<lambda>_. io_return latest))))"

definition handle_request :: "server_env \<Rightarrow> request \<Rightarrow> session option \<Rightarrow> (server, session option) io" where
  "handle_request se req so =
     (if rq_method req = ''repl/auth''
      then io_bind (handle_auth se req so) (\<lambda>r. io_return (if r \<noteq> None then r else so))
      else case so of
          None \<Rightarrow> io_bind (send (make_error_response (rq_id req) ERR_AUTH_FAILED ''must call repl/auth first'' VNone))
            (\<lambda>_. io_return None)
        | Some ss \<Rightarrow> io_bind (handle_op se req ss) (\<lambda>ss'. io_return (Some ss')))"

definition handle_message :: "server_env \<Rightarrow> string \<Rightarrow> session option \<Rightarrow> (server, session option) io" where
  "handle_message se raw so =
     (case te_loads (se_text se) raw of
        Inl e \<Rightarrow> io_bind (send (make_error_response VNone ERR_PARSE_ERROR (''parse error: '' @ se_show se e) VNone))
          (\<lambda>_. io_return so)
      | Inr (VDict payload) \<Rightarrow>
          (case parse_request payload of
             Inl message \<Rightarrow> io_bind (send (make_error_response (get_or payload ''id'' VNone) ERR_INVALID_REQUEST message VNone))
               (\<lambda>_. io_return so)
           | Inr req \<Rightarrow> handle_request se req so)
      | Inr _ \<Rightarrow> io_bind (send (make_error_response VNone ERR_INVALID_REQUEST ''request must be a JSON object'' VNone))
          (\<lambda>_. io_return so))"

section \<open>Connections\<close>

text \<open>A connection is closed, open without a session, or open with one. An exception that
  leaves the handler of a message ends its connection, whose session leaves the registry.\<close>

type_synonym conns = "nat \<Rightarrow> session option option"

definition drop_session :: "session option \<Rightarrow> server \<Rightarrow> server" where
  "drop_session so s = (case so of None \<Rightarrow> s | Some ss \<Rightarrow> pop_session (ss_id ss) s)"

definition start_server :: "log \<Rightarrow> nat \<Rightarrow> server" where
  "start_server l ticks = \<lparr>sv_log = l, sv_sessions = [], sv_ring = [], sv_ticks = ticks, sv_sent = []\<rparr>"

inductive srv_step :: "server_env \<Rightarrow> server \<times> conns \<Rightarrow> server \<times> conns \<Rightarrow> bool" for se where
  connect: "cs c = None \<Longrightarrow> srv_step se (s, cs) (s, cs(c \<mapsto> None))"
| message: "cs c = Some so \<Longrightarrow> handle_message se raw so s = (Inr so', s') \<Longrightarrow>
    srv_step se (s, cs) (s', cs(c \<mapsto> so'))"
| crash: "cs c = Some so \<Longrightarrow> handle_message se raw so s = (Inl e, s') \<Longrightarrow>
    srv_step se (s, cs) (drop_session so s', cs(c := None))"
| close: "cs c = Some so \<Longrightarrow> srv_step se (s, cs) (drop_session so s, cs(c := None))"
| restart: "srv_step se (s, cs) (start_server (sv_log s) (sv_ticks s), Map.empty)"
| writer: "transact env (sv_log s) facts prov force = Inr l \<Longrightarrow> srv_step se (s, cs) (s\<lparr>sv_log := l\<rparr>, cs)"

inductive srv_reach :: "server_env \<Rightarrow> log \<Rightarrow> server \<times> conns \<Rightarrow> bool" for se l where
  init: "srv_reach se l (start_server l 0, Map.empty)"
| step: "srv_reach se l x \<Longrightarrow> srv_step se x y \<Longrightarrow> srv_reach se l y"

end
