(* ===== verification/ReplLaws.thy ===== *)
theory ReplLaws
  imports ReplServer
begin

text \<open>
  What the operations of the REPL server can change: a contract for relations between the state
  before and after a computation (locale \<open>world_preorder\<close>), interpreted on the log, on the
  session registry and on the clock of the server.
\<close>

section \<open>Relations between the states before and after\<close>

definition io_moves :: "('w \<Rightarrow> 'w \<Rightarrow> bool) \<Rightarrow> ('w, 'a) io \<Rightarrow> bool" where
  "io_moves R m \<longleftrightarrow> (\<forall>w. R w (snd (m w)))"

lemma io_movesD: "io_moves R m \<Longrightarrow> m w = (r, w') \<Longrightarrow> R w w'"
  unfolding io_moves_def by (metis snd_conv)

locale world_preorder =
  fixes R :: "'w \<Rightarrow> 'w \<Rightarrow> bool"
  assumes refl: "R w w"
    and trans: "R u v \<Longrightarrow> R v w \<Longrightarrow> R u w"
begin

lemma moves_pure: "io_moves R (io_return x)" "io_moves R (io_raise e)" "io_moves R (io_lift r)" "io_moves R (Pair r)"
  by (simp_all add: io_moves_def refl)

lemma moves_bind:
  assumes "io_moves R m" "\<And>x. io_moves R (f x)"
  shows "io_moves R (io_bind m f)"
  unfolding io_moves_def io_bind_def
proof
  fix w
  obtain r w' where m: "m w = (r, w')" by (cases "m w")
  have R: "R w w'" using io_movesD[OF assms(1) m] .
  show "R w (snd (case m w of (Inl e, w') \<Rightarrow> (Inl e, w') | (Inr x, w') \<Rightarrow> f x w'))"
    using R assms(2) trans[OF R] by (auto simp: m io_moves_def split: sum.splits)
qed

lemma moves_try:
  assumes "io_moves R m" "\<And>r. io_moves R (f r)"
  shows "io_moves R (io_try m f)"
  using assms unfolding io_moves_def io_try_def by (auto split: prod.splits) (metis snd_conv trans)

lemma moves_if: "io_moves R m \<Longrightarrow> io_moves R n \<Longrightarrow> io_moves R (if b then m else n)"
  by simp

lemma moves_let: "(\<And>x. io_moves R (f x)) \<Longrightarrow> io_moves R (let x = t in f x)"
  by simp

lemma moves_prod: "(\<And>x y. io_moves R (f x y)) \<Longrightarrow> io_moves R (case p of (x, y) \<Rightarrow> f x y)"
  by (cases p) simp

lemmas moves = moves_pure moves_bind moves_try moves_if moves_let moves_prod

end

definition same_log :: "server \<Rightarrow> server \<Rightarrow> bool" where
  "same_log s s' \<longleftrightarrow> sv_log s' = sv_log s"

definition same_registry :: "server \<Rightarrow> server \<Rightarrow> bool" where
  "same_registry s s' \<longleftrightarrow> sv_sessions s' = sv_sessions s"

definition same_ring :: "server \<Rightarrow> server \<Rightarrow> bool" where
  "same_ring s s' \<longleftrightarrow> sv_ring s' = sv_ring s"

definition clock_on :: "server \<Rightarrow> server \<Rightarrow> bool" where
  "clock_on s s' \<longleftrightarrow> sv_ticks s \<le> sv_ticks s'"

lemmas rel_defs = same_log_def same_registry_def same_ring_def clock_on_def

text \<open>The primitives.\<close>

lemma tick_moves: "io_moves same_log (tick se)" "io_moves same_registry (tick se)" "io_moves same_ring (tick se)"
  "io_moves clock_on (tick se)"
  by (simp_all add: io_moves_def tick_def rel_defs)

lemma get_log_moves: "io_moves same_log get_log" "io_moves same_registry get_log" "io_moves same_ring get_log"
  "io_moves clock_on get_log"
  by (simp_all add: io_moves_def get_log_def rel_defs)

lemma put_session_moves: "io_moves same_log (put_session ss)" "io_moves same_ring (put_session ss)"
  "io_moves clock_on (put_session ss)"
  by (simp_all add: io_moves_def put_session_def rel_defs)

lemma send_moves: "io_moves same_log (send v)" "io_moves same_registry (send v)" "io_moves same_ring (send v)"
  "io_moves clock_on (send v)"
  by (simp_all add: io_moves_def send_def rel_defs)

lemma db_transact_moves: "io_moves same_registry (db_transact env ds)" "io_moves same_ring (db_transact env ds)"
  "io_moves clock_on (db_transact env ds)"
  by (auto simp: io_moves_def db_transact_def rel_defs split: sum.split)

lemmas prim_moves = put_session_moves send_moves db_transact_moves

section \<open>The helpers that read and check\<close>

text \<open>A preorder that clock readings and looking at the log respect holds across everything the
  operations do before they write.\<close>

locale server_preorder = world_preorder R for R :: "server \<Rightarrow> server \<Rightarrow> bool" +
  assumes tick: "io_moves R (tick se)"
    and get_log: "io_moves R get_log"
begin

lemma op_error: "io_moves R (op_error c m)"
  by (simp add: op_error_def moves_pure)

lemma coerce_iso: "io_moves R (coerce_iso se v field)"
  unfolding coerce_iso_def by (auto split: val.split option.split intro!: moves op_error)

lemma require_cap: "io_moves R (require_cap ss op q)"
  unfolding require_cap_def by (intro moves op_error)

lemma resolve_cursor: "io_moves R (resolve_cursor se v ss)"
  unfolding resolve_cursor_def by (auto split: val.split option.split intro!: moves tick coerce_iso)

lemma check_limit: "io_moves R (check_limit v)"
  unfolding check_limit_def by (auto split: val.split intro!: moves op_error)

lemma inspect_snapshot: "io_moves R (inspect_snapshot k out se ss sub)"
  unfolding inspect_snapshot_def
  by (auto split: val.split list.split intro!: moves op_error resolve_cursor get_log)

lemma inspect_audit_window: "io_moves R (inspect_audit_window se ss sub)"
  unfolding inspect_audit_window_def
  by (auto split: val.split intro!: moves coerce_iso op_error check_limit get_log)

lemma inspect_causal_history: "io_moves R (inspect_causal_history se ss sub)"
  unfolding inspect_causal_history_def
  by (auto split: val.split list.split intro!: moves op_error check_limit get_log)

lemma inspect_kind: "map_of INSPECT_KINDS kind = Some h \<Longrightarrow> io_moves R (h se ss sub)"
  by (auto simp: INSPECT_KINDS_def inspect_entity_def inspect_plan_def inspect_snapshot
      inspect_audit_window inspect_causal_history split: if_splits)

lemma inspect_op: "io_moves R (inspect_op se ss params)"
  unfolding inspect_op_def
  by (rule moves_bind[OF require_cap]) (auto split: val.split option.split simp: op_error inspect_kind)

lemma check_datoms: "io_moves R (check_datoms i ds)"
  by (induction i ds rule: check_datoms.induct) (auto split: option.split intro!: moves op_error)

lemma validate_datoms: "io_moves R (validate_datoms v)"
  unfolding validate_datoms_def by (auto split: val.split list.split intro!: moves op_error check_datoms)

lemma branch_tx_iso: "io_moves R (branch_tx_iso se ss v now)"
  unfolding branch_tx_iso_def by (auto split: option.split intro!: moves coerce_iso)

end

interpretation same_log: server_preorder same_log
  by unfold_locales (auto simp: same_log_def tick_moves get_log_moves)
interpretation same_registry: server_preorder same_registry
  by unfold_locales (auto simp: same_registry_def tick_moves get_log_moves)
interpretation same_ring: server_preorder same_ring
  by unfold_locales (auto simp: same_ring_def tick_moves get_log_moves)
interpretation clock_on: server_preorder clock_on
  by unfold_locales (auto simp: clock_on_def tick_moves get_log_moves)

end
