(* ===== verification/ReplOpLaws.thy ===== *)
theory ReplOpLaws
  imports ReplLaws AuditProps
begin

text \<open>
  Each operation and the audit of the server, characterised by what it writes: an edit commits
  one transaction or nothing, a rewind or a branch replaces the session of its caller, the audit
  appends one entry to the ring and at most one datom to the log.
\<close>

section \<open>Capabilities\<close>

lemma known_caps [simp]:
  "(''edit'', ''write'') \<in> ALL_CAPS" "(''edit'', ''propose-only'') \<in> ALL_CAPS"
  "(''inspect'', ''read'') \<in> ALL_CAPS" "(''rewind'', ''any'') \<in> ALL_CAPS" "(''branch'', ''fork'') \<in> ALL_CAPS"
  by (simp_all add: ALL_CAPS_def QUALIFIERS_BY_OP_def)

lemma has_known: "(op, q) \<in> ALL_CAPS \<Longrightarrow> has cs op q = Inr ((op, q) \<in> cs_caps cs)"
  by (simp add: has_def mk_capability_def)

definition allows :: "session \<Rightarrow> string \<Rightarrow> string \<Rightarrow> bool" where
  "allows ss op q \<longleftrightarrow> (op, q) \<in> cs_caps (ss_caps ss)"

lemma has_allows: "(op, q) \<in> ALL_CAPS \<Longrightarrow> has (ss_caps ss) op q = Inr (allows ss op q)"
  by (simp add: has_known allows_def)

lemma require_cap_run:
  "(op, q) \<in> ALL_CAPS \<Longrightarrow> require_cap ss op q s =
     (if allows ss op q then (Inr (), s) else (Inl (OpError ERR_CAPABILITY_DENIED (op @ '':'' @ q @ '' required'')), s))"
  by (simp add: require_cap_def io_bind_def has_allows op_error_def)

section \<open>Helpers that leave the server alone\<close>

lemma coerce_iso_state: "snd (coerce_iso se v field s) = s"
  by (simp add: coerce_iso_def op_error_def split: val.split option.split)

lemma check_datoms_state: "snd (check_datoms i ds s) = s"
  by (induction i ds rule: check_datoms.induct) (auto simp: op_error_def split: option.split)

lemma validate_datoms_run:
  "validate_datoms v s = (case v of
     VList (d # ds) \<Rightarrow> (case check_datoms 0 (d # ds) s of (Inl e, _) \<Rightarrow> (Inl e, s) | (Inr _, _) \<Rightarrow> (Inr (d # ds), s))
   | _ \<Rightarrow> (Inl (OpError ERR_INVALID_PARAMS ''datoms must be non-empty list''), s))"
proof (cases "\<exists>d ds. v = VList (d # ds)")
  case True
  then obtain d ds where v: "v = VList (d # ds)" by auto
  obtain r s' where r: "check_datoms 0 (d # ds) s = (r, s')" by (cases "check_datoms 0 (d # ds) s")
  then have "s' = s" using check_datoms_state[of 0 "d # ds" s] by simp
  then show ?thesis using r by (cases r) (simp_all add: validate_datoms_def v io_bind_def del: check_datoms.simps)
next
  case False
  then show ?thesis by (auto simp: validate_datoms_def op_error_def split: val.splits list.splits)
qed

section \<open>edit\<close>

text \<open>What lets an edit through: confirmed by a session with write access that looks at the head,
  under the hash of the very request.\<close>

definition edit_allowed :: "server_env \<Rightarrow> session \<Rightarrow> val dict \<Rightarrow> bool" where
  "edit_allowed se ss params \<longleftrightarrow> allows ss ''edit'' ''write'' \<and> ss_cursor ss = None \<and>
     truthy (get_or params ''confirm'' (VBool False)) \<and>
     get_or params ''request_hash'' VNone = VStr (compute_request_hash se params)"

text \<open>What a committed edit does to the log.\<close>

definition edit_commits :: "server_env \<Rightarrow> val list \<Rightarrow> log \<Rightarrow> log \<Rightarrow> bool" where
  "edit_commits se datoms l l' \<longleftrightarrow>
     (\<exists>t facts. emap fact_of_val datoms = Inr facts \<and> transact (se_db se t) l facts [] False = Inr l')"

lemma edit_commit_log:
  "sv_log (snd (edit_commit se datoms s)) = sv_log s \<or>
     edit_commits se datoms (sv_log s) (sv_log (snd (edit_commit se datoms s)))"
  by (auto simp: edit_commit_def io_bind_def io_try_def tick_def db_transact_def op_error_def edit_commits_def
      ebind_def split: sum.splits)

lemma edit_op_log:
  "sv_log (snd (edit_op se ss params s)) = sv_log s \<or>
     edit_allowed se ss params \<and> (\<exists>datoms. get_or params ''datoms'' VNone = VList datoms \<and>
       edit_commits se datoms (sv_log s) (sv_log (snd (edit_op se ss params s))))"
proof -
  obtain r where v: "validate_datoms (get_or params ''datoms'' VNone) s = (r, s)"
    by (cases "validate_datoms (get_or params ''datoms'' VNone) s")
      (auto simp: validate_datoms_run split: val.splits list.splits prod.splits sum.splits)
  show ?thesis
  proof (cases r)
    case (Inl e)
    then show ?thesis using v by (simp add: edit_op_def io_bind_def has_allows op_error_def)
  next
    case (Inr datoms)
    then have "get_or params ''datoms'' VNone = VList datoms"
      using v by (auto simp: validate_datoms_run split: val.splits list.splits prod.splits sum.splits)
    then show ?thesis using v Inr edit_commit_log[of se datoms s]
      by (auto simp: edit_op_def io_bind_def has_allows op_error_def edit_allowed_def)
  qed
qed

lemma edit_commit_registry: "io_moves same_registry (edit_commit se datoms)"
  unfolding io_moves_def edit_commit_def io_bind_def io_try_def same_registry_def tick_def db_transact_def op_error_def
  by (auto split: sum.splits)

lemma edit_commit_ring: "io_moves same_ring (edit_commit se datoms)"
  unfolding io_moves_def edit_commit_def io_bind_def io_try_def same_ring_def tick_def db_transact_def op_error_def
  by (auto split: sum.splits)

lemma edit_commit_clock: "io_moves clock_on (edit_commit se datoms)"
  unfolding io_moves_def edit_commit_def io_bind_def io_try_def clock_on_def tick_def db_transact_def op_error_def
  by (auto split: sum.splits)

lemma edit_op_registry: "io_moves same_registry (edit_op se ss params)"
  unfolding edit_op_def
  by (intro same_registry.moves same_registry.op_error same_registry.validate_datoms edit_commit_registry)

lemma edit_op_ring: "io_moves same_ring (edit_op se ss params)"
  unfolding edit_op_def
  by (intro same_ring.moves same_ring.op_error same_ring.validate_datoms edit_commit_ring)

lemma edit_op_clock: "io_moves clock_on (edit_op se ss params)"
  unfolding edit_op_def
  by (intro clock_on.moves clock_on.op_error clock_on.validate_datoms edit_commit_clock)

section \<open>rewind and branch\<close>

lemma coerce_iso_fst: obtains r where "coerce_iso se v field s = (r, s)"
  by (metis coerce_iso_state prod.collapse)

lemma rewind_op_run:
  "sv_sessions (snd (rewind_op se ss params s)) = sv_sessions s \<or>
     allows ss ''rewind'' ''any'' \<and> (\<exists>cur vt. sv_sessions (snd (rewind_op se ss params s)) =
       dset (ss_id ss) (ss\<lparr>ss_cursor := cur, ss_vt := vt\<rparr>) (sv_sessions s))"
proof -
  obtain r1 where 1: "coerce_iso se (get_or params ''tx_time_iso'' VNone) ''tx_time_iso'' s = (r1, s)"
    by (rule coerce_iso_fst)
  obtain r2 where 2: "coerce_iso se (get_or params ''vt_iso'' VNone) ''vt_iso'' s = (r2, s)"
    by (rule coerce_iso_fst)
  show ?thesis
    by (cases r1; cases r2) (auto simp: rewind_op_def Let_def io_bind_def require_cap_run 1 2 put_session_def)
qed

text \<open>A branch that succeeds leaves its session at a past cursor, one level deeper.\<close>

definition branched :: "session \<Rightarrow> session \<Rightarrow> bool" where
  "branched ss ss' \<longleftrightarrow> (\<exists>cur. ss' = ss\<lparr>ss_cursor := Some cur, ss_depth := ss_depth ss + 1\<rparr>)"

lemma branch_tx_iso_fst: obtains r where "branch_tx_iso se ss v now s = (r, s)"
proof -
  obtain r0 where r0: "coerce_iso se v ''tx_time_iso'' s = (r0, s)" by (rule coerce_iso_fst)
  have "snd (branch_tx_iso se ss v now s) = s"
    by (cases r0) (auto simp: branch_tx_iso_def io_bind_def r0 split: option.split)
  then show ?thesis using that by (metis prod.collapse)
qed

lemma branch_op_run:
  "(case branch_op se ss params s of
     (Inl e, s') \<Rightarrow> sv_sessions s' = sv_sessions s
   | (Inr v, s') \<Rightarrow> allows ss ''branch'' ''fork'' \<and> ss_depth ss < MAX_BRANCH_DEPTH \<and>
       (\<exists>ss'. branched ss ss' \<and> sv_sessions s' = dset (ss_id ss) ss' (sv_sessions s)))"
proof -
  define s1 where "s1 = s\<lparr>sv_ticks := Suc (sv_ticks s)\<rparr>"
  obtain r where r: "branch_tx_iso se ss (get_or params ''tx_time_iso'' VNone) (se_time se (sv_ticks s)) s1 = (r, s1)"
    by (rule branch_tx_iso_fst)
  have [simp]: "sv_sessions s1 = sv_sessions s" by (simp add: s1_def)
  have t: "tick se s = (Inr (se_time se (sv_ticks s)), s1)" by (simp add: tick_def s1_def)
  show ?thesis
    unfolding branch_op_def
    by (cases "is_expired (ss_caps ss) (se_time se (sv_ticks s))"; cases r)
      (auto simp: io_bind_def require_cap_run t r op_error_def put_session_def branched_def
        split: val.split)
qed

section \<open>The audit\<close>

text \<open>What the audit may do to the log: append the datom of one operation.\<close>

definition audit_ext :: "log \<Rightarrow> log \<Rightarrow> bool" where
  "audit_ext l l' \<longleftrightarrow> l' = l \<or> (\<exists>d. l' = l @ [d] \<and> d_a d = ''audit/repl.op'')"

lemma check_repl_op [simp]: "check_op '':repl/op'' = Inr ()"
  by (simp add: check_op_def startswith_def)

lemma build_entry_ok:
  assumes "check_op (e_op c) = Inr ()"
  obtains e where "build_entry cd c = Inr e" "e_op e = e_op c" "e_id e = content_hash cd e"
    "e_prev_hash e = e_prev_hash c"
proof -
  obtain e where e: "build_entry cd c = Inr e"
    using assms by (auto simp: build_entry_def Let_def mk_entry_Inr)
  have "e_op e = e_op c"
    using build_entry_Inr(2)[OF e] by simp
  then show ?thesis using that e build_entry_Inr(3,4)[OF e] by simp
qed

lemma emit_ok:
  obtains e where "emit_repl_op_audit se entries who oo now = Inr e" "e_op e = '':repl/op''"
    "e_id e = content_hash (server_digests se) e" "e_prev_hash e = last_id entries"
  unfolding emit_repl_op_audit_def
  by (rule build_entry_ok[of "repl_content se who oo now (last_id entries)" "server_digests se"])
    (simp_all add: repl_content_def)

lemma repl_op_attr:
  "e_op e = '':repl/op'' \<Longrightarrow> audit_entry_to_datom conforms e = Inr ad \<Longrightarrow> lstrip_colon (ad_a ad) = ''audit/repl.op''"
  by (auto simp: audit_entry_to_datom_def ebind_Inr_iff Let_def AUDIT_PREFIX_def replace_char_def lstrip_colon_def
      split: if_splits)

lemma persist_ext:
  "e_op e = '':repl/op'' \<Longrightarrow> persist_repl_audit conforms l e = Inr l' \<Longrightarrow> audit_ext l l'"
  by (auto simp: persist_repl_audit_def ebind_Inr_iff transact_serializable_def allocate_and_append_def Let_def
      audit_ext_def replace_tx_time_def repl_audit_datom_def repl_op_attr lstrip_colon_def[of "''audit/repl.op''"])

lemma persist_quietly_sel [simp]:
  "sv_sessions (persist_quietly se e s) = sv_sessions s" "sv_ring (persist_quietly se e s) = sv_ring s"
  "sv_ticks (persist_quietly se e s) = sv_ticks s" "sv_sent (persist_quietly se e s) = sv_sent s"
  by (simp_all add: persist_quietly_def split: sum.split)

lemma persist_quietly_log: "e_op e = '':repl/op'' \<Longrightarrow> audit_ext (sv_log s) (sv_log (persist_quietly se e s))"
  using persist_ext by (auto simp: persist_quietly_def audit_ext_def split: sum.split)

text \<open>The ring grows by an entry that is linked to its last one.\<close>

definition ring_step :: "server_env \<Rightarrow> audit_entry list \<Rightarrow> audit_entry list \<Rightarrow> bool" where
  "ring_step se es es' \<longleftrightarrow> (\<exists>e. es' = trim_ring (es @ [e]) \<and> e_prev_hash e = last_id es \<and>
     e_id e = content_hash (server_digests se) e)"

lemma audit_op_run:
  "\<exists>s'. audit_op se who kind args start verdict rh err s = (Inr (), s') \<and> sv_sessions s' = sv_sessions s \<and>
     sv_ticks s' = sv_ticks s + 2 \<and> audit_ext (sv_log s) (sv_log s') \<and> ring_step se (sv_ring s) (sv_ring s') \<and>
     sv_sent s' = sv_sent s"
proof -
  define s2 where "s2 = s\<lparr>sv_ticks := sv_ticks s + 2\<rparr>"
  obtain e where e: "emit_repl_op_audit se (sv_ring s) who
      \<lparr>oo_kind = kind, oo_args = args, oo_verdict = verdict,
        oo_latency = latency_ms se start (se_time se (sv_ticks s)), oo_result_hash = rh, oo_error = err\<rparr>
      (se_time se (Suc (sv_ticks s))) = Inr e"
    "e_op e = '':repl/op''" "e_id e = content_hash (server_digests se) e" "e_prev_hash e = last_id (sv_ring s)"
    by (rule emit_ok)
  let ?s = "persist_quietly se e (s2\<lparr>sv_ring := trim_ring (sv_ring s @ [e])\<rparr>)"
  have "audit_op se who kind args start verdict rh err s = (Inr (), ?s)"
    using e(1) by (simp add: audit_op_def io_bind_def tick_def emit_audit_for_op_def s2_def)
  moreover have "audit_ext (sv_log s) (sv_log ?s)"
    using persist_quietly_log[OF e(2), of "s2\<lparr>sv_ring := trim_ring (sv_ring s @ [e])\<rparr>" se] by (simp add: s2_def)
  moreover have "ring_step se (sv_ring s) (sv_ring ?s)"
    using e(3,4) by (auto simp: ring_step_def)
  ultimately show ?thesis by (auto simp: s2_def)
qed

end
