(* ===== verification/ReplMsgLaws.thy ===== *)
theory ReplMsgLaws
  imports ReplOpLaws
begin

text \<open>
  One message of a connection, split into what its operation did and the audit that follows:
  for the log, for the session registry and for the audit ring.
\<close>

text \<open>An audit step: the registry stays, the clock goes on, at most one datom and one entry.\<close>

definition audited :: "server_env \<Rightarrow> server \<Rightarrow> server \<Rightarrow> bool" where
  "audited se s s' \<longleftrightarrow> sv_sessions s' = sv_sessions s \<and> sv_ticks s \<le> sv_ticks s' \<and>
     audit_ext (sv_log s) (sv_log s') \<and> (sv_ring s' = sv_ring s \<or> ring_step se (sv_ring s) (sv_ring s'))"

lemma audit_ext_refl [simp]: "audit_ext l l"
  by (simp add: audit_ext_def)

lemma audited_quiet:
  "same_log s s' \<Longrightarrow> same_registry s s' \<Longrightarrow> same_ring s s' \<Longrightarrow> clock_on s s' \<Longrightarrow> audited se s s'"
  by (simp add: audited_def rel_defs)

lemma audit_op_audited: "\<exists>s'. audit_op se who kind args start verdict rh err s = (Inr (), s') \<and> audited se s s'"
  using audit_op_run[of se who kind args start verdict rh err s] by (auto simp: audited_def)

lemma audit_unless_poll_audited: "\<exists>s'. audit_unless_poll se req ss start report s = (Inr (), s') \<and> audited se s s'"
  using audit_op_audited by (cases report) (auto simp: audit_unless_poll_def audited_quiet rel_defs)

lemma send_run: "send v s = (Inr (), s\<lparr>sv_sent := sv_sent s @ [v]\<rparr>)"
  by (simp add: send_def)

lemma answer_op_run: "\<exists>report out. answer_op se req r s = (Inr report, s\<lparr>sv_sent := sv_sent s @ [out]\<rparr>)"
  by (auto simp: answer_op_def io_bind_def send_run split: sum.split err.split)

lemma audited_sent: "audited se s s' \<Longrightarrow> audited se s (s'\<lparr>sv_sent := x\<rparr>)" "audited se (s\<lparr>sv_sent := x\<rparr>) s' = audited se s s'"
  by (simp_all add: audited_def)

section \<open>An operation\<close>

definition latest_of_session :: "server \<Rightarrow> session \<Rightarrow> session" where
  "latest_of_session s ss = (case dget (sv_sessions s) (ss_id ss) of None \<Rightarrow> ss | Some ss' \<Rightarrow> ss')"

lemma handle_op_known:
  assumes "map_of DEFAULT_OPS (rq_method req) = Some h"
    and "h se ss (rq_params req) (s\<lparr>sv_ticks := Suc (sv_ticks s)\<rparr>) = (r, s2)"
  shows "\<exists>s'. handle_op se req ss s = (Inr (latest_of_session s2 ss), s') \<and> audited se s2 s'"
proof -
  obtain report out where a: "answer_op se req r s2 = (Inr report, s2\<lparr>sv_sent := sv_sent s2 @ [out]\<rparr>)"
    using answer_op_run by blast
  let ?s3 = "s2\<lparr>sv_sent := sv_sent s2 @ [out]\<rparr>"
  obtain s' where s': "audit_unless_poll se req (latest_of_session s2 ss) (se_time se (sv_ticks s)) report ?s3 = (Inr (), s')"
    "audited se ?s3 s'"
    using audit_unless_poll_audited by blast
  have "latest_session ss ?s3 = (Inr (latest_of_session s2 ss), ?s3)"
    by (simp add: latest_session_def latest_of_session_def)
  then show ?thesis
    using a s' assms by (auto simp: handle_op_def io_bind_def io_try_def tick_def audited_sent)
qed

lemma handle_op_unknown:
  assumes "map_of DEFAULT_OPS (rq_method req) = None"
  shows "\<exists>s'. handle_op se req ss s = (Inr ss, s') \<and> audited se s s'"
proof -
  let ?m = "''unknown method: '' @ rq_method req"
  let ?s1 = "s\<lparr>sv_ticks := Suc (sv_ticks s)\<rparr>"
  let ?s2 = "?s1\<lparr>sv_sent := sv_sent s @ [make_error_response (rq_id req) ERR_METHOD_NOT_FOUND ?m VNone]\<rparr>"
  obtain s' where s': "audit_unless_poll se req ss (se_time se (sv_ticks s)) (''error'', None, Some ?m) ?s2 = (Inr (), s')"
    "audited se ?s2 s'"
    using audit_unless_poll_audited by blast
  then have "handle_op se req ss s = (Inr ss, s')"
    using assms by (simp add: handle_op_def io_bind_def tick_def send_def Let_def)
  moreover have "audited se s s'" using s'(2) by (auto simp: audited_def)
  ultimately show ?thesis by blast
qed

section \<open>Login\<close>

text \<open>A login leaves the registry alone, or enters a session at the head, with the capabilities of
  a token that validates under the clock of the login. The id of the session is a digest of the
  token and of the next reading of the clock.\<close>

definition logged_in :: "server_env \<Rightarrow> session option \<Rightarrow> server \<Rightarrow> session \<Rightarrow> server \<Rightarrow> bool" where
  "logged_in se prior s ss s' \<longleftrightarrow>
     (\<exists>tok. validate_token (se_text se) (sv_log s) tok (se_time se (Suc (sv_ticks s))) = Inr (Some (ss_caps ss)) \<and>
       ss_id ss = derive_session_id se (token_id (se_text se) tok) (iso_now se (se_time se (Suc (Suc (sv_ticks s)))))) \<and>
     ss_cursor ss = None \<and> ss_depth ss = 0 \<and> audit_ext (sv_log s) (sv_log s') \<and>
     ring_step se (sv_ring s) (sv_ring s') \<and>
     sv_sessions s' = dset (ss_id ss) ss
       (case prior of None \<Rightarrow> sv_sessions s | Some p \<Rightarrow> AList.delete (ss_id p) (sv_sessions s))"

lemma open_session_run:
  "\<exists>ss s'. open_session se req prior start tid cs s = (Inr ss, s') \<and> ss_caps ss = cs \<and> ss_cursor ss = None \<and>
     ss_depth ss = 0 \<and> ss_id ss = derive_session_id se tid (iso_now se (se_time se (sv_ticks s))) \<and> sv_ticks s' = sv_ticks s + 3 \<and>
     audit_ext (sv_log s) (sv_log s') \<and> ring_step se (sv_ring s) (sv_ring s') \<and>
     sv_sessions s' = dset (ss_id ss) ss
       (case prior of None \<Rightarrow> sv_sessions s | Some p \<Rightarrow> AList.delete (ss_id p) (sv_sessions s))"
proof -
  let ?t = "se_time se (sv_ticks s)"
  define ss where "ss = \<lparr>ss_id = derive_session_id se tid (iso_now se ?t), ss_token_id = tid, ss_caps = cs,
      ss_auth_iso = iso_now se ?t, ss_cursor = None, ss_vt = None, ss_depth = 0\<rparr>"
  define s1 where "s1 = (case prior of None \<Rightarrow> s | Some p \<Rightarrow> pop_session (ss_id p) s)"
  define s2 where "s2 = s1\<lparr>sv_ticks := Suc (sv_ticks s1), sv_sessions := dset (ss_id ss) ss (sv_sessions s1),
      sv_sent := sv_sent s1 @ [make_response (rq_id req) (auth_result se ss)]\<rparr>"
  have s1 [simp]: "sv_ticks s1 = sv_ticks s" "sv_log s1 = sv_log s" "sv_ring s1 = sv_ring s"
    "sv_sessions s1 = (case prior of None \<Rightarrow> sv_sessions s | Some p \<Rightarrow> AList.delete (ss_id p) (sv_sessions s))"
    by (simp_all add: s1_def pop_session_def split: option.split)
  obtain s' where s': "audit_op se (who_of ss) ''auth'' (rq_params req) start ''ok'' (value_hash se (auth_result se ss))
      None s2 = (Inr (), s')"
    and a: "sv_sessions s' = sv_sessions s2" "sv_ticks s' = sv_ticks s2 + 2" "audit_ext (sv_log s2) (sv_log s')"
      "ring_step se (sv_ring s2) (sv_ring s')"
    using audit_op_run by blast
  have "make_session se tid cs s1 = (Inr ss, s1\<lparr>sv_ticks := Suc (sv_ticks s1)\<rparr>)"
    by (simp add: make_session_def io_bind_def tick_def ss_def)
  then have "open_session se req prior start tid cs s = (Inr ss, s')"
    using s' by (simp add: open_session_def io_bind_def s1_def[symmetric] put_session_def send_def s2_def)
  moreover have "ss_id ss = derive_session_id se tid (iso_now se ?t)" by (simp add: ss_def)
  ultimately show ?thesis using a by (intro exI[of _ ss] exI[of _ s']) (simp add: s2_def ss_def)
qed

text \<open>A login with a token that validates opens a session.\<close>

lemma handle_auth_opens:
  assumes tok: "get_or (rq_params req) ''token'' VNone = VStr tok"
    and v: "validate_token (se_text se) (sv_log s) tok (se_time se (Suc (sv_ticks s))) = Inr (Some cs)"
  obtains ss s' where "handle_auth se req prior s = (Inr (Some ss), s')" "logged_in se prior s ss s'"
    "ss_caps ss = cs" "sv_ticks s' = sv_ticks s + 5"
proof -
  let ?s1 = "s\<lparr>sv_ticks := Suc (Suc (sv_ticks s))\<rparr>"
  obtain ss s' where o: "open_session se req prior (se_time se (sv_ticks s)) (token_id (se_text se) tok) cs ?s1
      = (Inr ss, s')" "ss_caps ss = cs" "ss_cursor ss = None" "ss_depth ss = 0"
    "ss_id ss = derive_session_id se (token_id (se_text se) tok) (iso_now se (se_time se (sv_ticks ?s1)))" "sv_ticks s' = sv_ticks ?s1 + 3"
    "audit_ext (sv_log ?s1) (sv_log s')" "ring_step se (sv_ring ?s1) (sv_ring s')"
    "sv_sessions s' = dset (ss_id ss) ss
      (case prior of None \<Rightarrow> sv_sessions ?s1 | Some p \<Rightarrow> AList.delete (ss_id p) (sv_sessions ?s1))"
    using open_session_run by blast
  then have "logged_in se prior s ss s'"
    using v unfolding logged_in_def
    by (auto intro!: exI[of _ tok] split: option.splits)
  moreover have "handle_auth se req prior s = (Inr (Some ss), s')"
    using o(1) v by (simp add: handle_auth_def io_bind_def tick_def tok get_log_def)
  ultimately show ?thesis using that o(2,6) by simp
qed

lemma login_message:
  assumes "te_loads (se_text se) raw = Inr (VDict payload)" "parse_request payload = Inr req"
    "rq_method req = ''repl/auth''" "get_or (rq_params req) ''token'' VNone = VStr tok"
    "validate_token (se_text se) (sv_log s) tok (se_time se (Suc (sv_ticks s))) = Inr (Some cs)"
  obtains ss s' where "handle_message se raw so s = (Inr (Some ss), s')" "logged_in se so s ss s'"
    "ss_caps ss = cs" "sv_ticks s' = sv_ticks s + 5"
proof -
  obtain ss s' where "handle_auth se req so s = (Inr (Some ss), s')" "logged_in se so s ss s'"
    "ss_caps ss = cs" "sv_ticks s' = sv_ticks s + 5"
    by (rule handle_auth_opens[OF assms(4,5)])
  then show ?thesis using assms(1-3) that by (simp add: handle_message_def handle_request_def io_bind_def)
qed

lemma handle_auth_cases:
  obtains (raised) e s' where "handle_auth se req prior s = (Inl e, s')" "audited se s s'"
  | (refused) s' where "handle_auth se req prior s = (Inr None, s')" "audited se s s'"
  | (opened) ss s' where "handle_auth se req prior s = (Inr (Some ss), s')" "logged_in se prior s ss s'"
proof (cases "\<exists>tok. get_or (rq_params req) ''token'' VNone = VStr tok")
  case False
  let ?s2 = "s\<lparr>sv_ticks := Suc (sv_ticks s), sv_sent := sv_sent s @
    [make_error_response (rq_id req) ERR_INVALID_REQUEST ''params.token required'' VNone]\<rparr>"
  obtain s' where s': "audit_op se (pre_auth ''<unknown>'') ''auth'' (rq_params req) (se_time se (sv_ticks s)) ''error''
      None (Some ''params.token required'') ?s2 = (Inr (), s')" "audited se ?s2 s'"
    using audit_op_audited by blast
  have "handle_auth se req prior s = (Inr None, s')"
    using False s'(1) by (auto simp: handle_auth_def io_bind_def tick_def send_def split: val.split)
  moreover have "audited se s s'" using s'(2) by (auto simp: audited_def)
  ultimately show ?thesis by (rule refused)
next
  case True
  then obtain tok where tok: "get_or (rq_params req) ''token'' VNone = VStr tok" by blast
  let ?now = "se_time se (Suc (sv_ticks s))"
  let ?s1 = "s\<lparr>sv_ticks := Suc (Suc (sv_ticks s))\<rparr>"
  show ?thesis
  proof (cases "validate_token (se_text se) (sv_log s) tok ?now")
    case (Inl e)
    then have "handle_auth se req prior s = (Inl e, ?s1)"
      by (simp add: handle_auth_def io_bind_def tick_def tok get_log_def)
    moreover have "audited se s ?s1" by (simp add: audited_def)
    ultimately show ?thesis by (rule raised)
  next
    case (Inr r)
    show ?thesis
    proof (cases r)
      case None
      let ?s2 = "?s1\<lparr>sv_sent := sv_sent s @ [make_error_response (rq_id req) ERR_TOKEN_INVALID BAD_TOKEN VNone]\<rparr>"
      obtain s' where s': "audit_op se (pre_auth (token_id (se_text se) tok)) ''auth'' (rq_params req)
          (se_time se (sv_ticks s)) ''deny'' None (Some BAD_TOKEN) ?s2 = (Inr (), s')" "audited se ?s2 s'"
        using audit_op_audited by blast
      have "handle_auth se req prior s = (Inr None, s')"
        using s'(1) Inr None by (simp add: handle_auth_def io_bind_def tick_def tok get_log_def send_def)
      moreover have "audited se s s'" using s'(2) by (auto simp: audited_def)
      ultimately show ?thesis by (rule refused)
    next
      case (Some cs)
      then show ?thesis using handle_auth_opens[OF tok] Inr opened by metis
    qed
  qed
qed

section \<open>A message\<close>

text \<open>The operations and what each may do to the registry.\<close>

lemma default_ops_cases:
  assumes "map_of DEFAULT_OPS m = Some h"
  obtains "m = ''repl/inspect''" "h = inspect_op" | "m = ''repl/edit''" "h = edit_op"
  | "m = ''repl/rewind''" "h = rewind_op" | "m = ''repl/branch''" "h = branch_op"
  using assms by (auto simp: DEFAULT_OPS_def split: if_splits)

text \<open>Outside an edit the log stays while the operation runs.\<close>

lemma rewind_op_log: "io_moves same_log (rewind_op se ss params)"
  unfolding rewind_op_def by (intro same_log.moves same_log.require_cap same_log.coerce_iso prim_moves)

lemma rewind_op_clock: "io_moves clock_on (rewind_op se ss params)"
  unfolding rewind_op_def by (intro clock_on.moves clock_on.require_cap clock_on.coerce_iso prim_moves)

lemma rewind_op_ring: "io_moves same_ring (rewind_op se ss params)"
  unfolding rewind_op_def by (intro same_ring.moves same_ring.require_cap same_ring.coerce_iso prim_moves)

lemma branch_op_log: "io_moves same_log (branch_op se ss params)"
  unfolding branch_op_def
  by (auto split: val.split intro!: same_log.moves same_log.require_cap same_log.tick same_log.op_error
      same_log.branch_tx_iso prim_moves)

lemma branch_op_clock: "io_moves clock_on (branch_op se ss params)"
  unfolding branch_op_def
  by (auto split: val.split intro!: clock_on.moves clock_on.require_cap clock_on.tick clock_on.op_error
      clock_on.branch_tx_iso prim_moves)

lemma branch_op_ring: "io_moves same_ring (branch_op se ss params)"
  unfolding branch_op_def
  by (auto split: val.split intro!: same_ring.moves same_ring.require_cap same_ring.tick same_ring.op_error
      same_ring.branch_tx_iso prim_moves)

lemma ops_clock_ring:
  assumes "map_of DEFAULT_OPS m = Some h"
  shows "io_moves clock_on (h se ss params)" "io_moves same_ring (h se ss params)"
  using assms by (auto elim!: default_ops_cases simp: clock_on.inspect_op edit_op_clock rewind_op_clock branch_op_clock
      same_ring.inspect_op edit_op_ring rewind_op_ring branch_op_ring)

lemma op_log:
  assumes "map_of DEFAULT_OPS m = Some h"
  shows "sv_log (snd (h se ss params s)) = sv_log s \<or>
    m = ''repl/edit'' \<and> edit_allowed se ss params \<and> (\<exists>datoms. get_or params ''datoms'' VNone = VList datoms \<and>
      edit_commits se datoms (sv_log s) (sv_log (snd (h se ss params s))))"
proof (rule default_ops_cases[OF assms])
  assume "h = edit_op" "m = ''repl/edit''"
  then show ?thesis using edit_op_log[of se ss params s] by simp
next
  assume "h = inspect_op"
  then show ?thesis using same_log.inspect_op[of se ss params] by (simp add: io_moves_def same_log_def)
next
  assume "h = rewind_op"
  then show ?thesis using rewind_op_log[of se ss params] by (simp add: io_moves_def same_log_def)
next
  assume "h = branch_op"
  then show ?thesis using branch_op_log[of se ss params] by (simp add: io_moves_def same_log_def)
qed

text \<open>How a session may move: by a rewind, or one branch deeper.\<close>

definition session_moves :: "session \<Rightarrow> session \<Rightarrow> bool" where
  "session_moves ss ss' \<longleftrightarrow> allows ss ''rewind'' ''any'' \<and> (\<exists>cur vt. ss' = ss\<lparr>ss_cursor := cur, ss_vt := vt\<rparr>) \<or>
     allows ss ''branch'' ''fork'' \<and> ss_depth ss < MAX_BRANCH_DEPTH \<and> branched ss ss'"

lemma session_moves_id: "session_moves ss ss' \<Longrightarrow> ss_id ss' = ss_id ss"
  by (auto simp: session_moves_def branched_def)

lemma op_registry:
  assumes "map_of DEFAULT_OPS m = Some h"
  shows "sv_sessions (snd (h se ss params s)) = sv_sessions s \<or>
    (\<exists>ss'. session_moves ss ss' \<and> sv_sessions (snd (h se ss params s)) = dset (ss_id ss) ss' (sv_sessions s))"
proof (rule default_ops_cases[OF assms])
  assume "h = edit_op"
  then show ?thesis using edit_op_registry[of se ss params] by (simp add: io_moves_def same_registry_def)
next
  assume "h = inspect_op"
  then show ?thesis using same_registry.inspect_op[of se ss params] by (simp add: io_moves_def same_registry_def)
next
  assume "h = rewind_op"
  then show ?thesis using rewind_op_run[of se ss params s] by (auto simp: session_moves_def)
next
  assume "h = branch_op"
  then show ?thesis using branch_op_run[where se = se and ss = ss and params = params and s = s]
    by (auto simp: session_moves_def split: prod.splits sum.splits)
qed

text \<open>A message is refused (or the check of its token raises), logs in, or runs an operation.\<close>

lemma handle_message_cases:
  obtains (refused) r s' where "handle_message se raw so s = (r, s')" "audited se s s'" "\<And>x. r = Inr x \<Longrightarrow> x = so"
  | (login) ss s' where "handle_message se raw so s = (Inr (Some ss), s')" "logged_in se so s ss s'"
  | (operation) payload req ss h s2 s' where
      "te_loads (se_text se) raw = Inr (VDict payload)" "parse_request payload = Inr req" "so = Some ss"
      "map_of DEFAULT_OPS (rq_method req) = Some h"
      "s2 = snd (h se ss (rq_params req) (s\<lparr>sv_ticks := Suc (sv_ticks s)\<rparr>))"
      "handle_message se raw so s = (Inr (Some (latest_of_session s2 ss)), s')" "audited se s2 s'"
proof -
  have say: "audited se s (s\<lparr>sv_sent := x\<rparr>)" for x by (simp add: audited_def)
  show ?thesis
  proof (cases "\<exists>payload req. te_loads (se_text se) raw = Inr (VDict payload) \<and> parse_request payload = Inr req")
    case False
    then have "\<exists>out. handle_message se raw so s = (Inr so, s\<lparr>sv_sent := sv_sent s @ [out]\<rparr>)"
      by (auto simp: handle_message_def io_bind_def send_def split: sum.split val.split)
    then show ?thesis using refused say by auto
  next
    case True
    then obtain payload req where p: "te_loads (se_text se) raw = Inr (VDict payload)" "parse_request payload = Inr req"
      by blast
    then have m: "handle_message se raw so s = handle_request se req so s" by (simp add: handle_message_def)
    show ?thesis
    proof (cases "rq_method req = ''repl/auth''")
      case True
      show ?thesis
      proof (cases rule: handle_auth_cases[of se req so s])
        case (raised e s')
        then show ?thesis using m True by (intro refused[of "Inl e" s']) (auto simp: handle_request_def io_bind_def)
      next
        case (refused s')
        then show ?thesis using m True by (intro that(1)[of "Inr so" s']) (auto simp: handle_request_def io_bind_def)
      next
        case (opened ss s')
        then show ?thesis using m True by (intro login[of ss s']) (auto simp: handle_request_def io_bind_def)
      qed
    next
      case False
      show ?thesis
      proof (cases so)
        case None
        then show ?thesis using m False say
          by (intro refused[of "Inr None" "s\<lparr>sv_sent := sv_sent s @ [make_error_response (rq_id req) ERR_AUTH_FAILED
            ''must call repl/auth first'' VNone]\<rparr>"]) (auto simp: handle_request_def io_bind_def send_def)
      next
        case (Some ss)
        show ?thesis
        proof (cases "map_of DEFAULT_OPS (rq_method req)")
          case None
          then obtain s' where "handle_op se req ss s = (Inr ss, s')" "audited se s s'"
            using handle_op_unknown by blast
          then show ?thesis using m False Some
            by (intro refused[of "Inr so" s']) (auto simp: handle_request_def io_bind_def)
        next
          case h: (Some h)
          obtain r s2 where s2: "h se ss (rq_params req) (s\<lparr>sv_ticks := Suc (sv_ticks s)\<rparr>) = (r, s2)"
            by (cases "h se ss (rq_params req) (s\<lparr>sv_ticks := Suc (sv_ticks s)\<rparr>)")
          obtain s' where "handle_op se req ss s = (Inr (latest_of_session s2 ss), s')" "audited se s2 s'"
            using handle_op_known[OF h s2] by blast
          then show ?thesis using m False Some h s2 p
            by (intro operation[of payload req ss h s2 s']) (auto simp: handle_request_def io_bind_def)
        qed
      qed
    qed
  qed
qed

end
