(* ===== verification/ReplCapsProps.thy ===== *)
theory ReplCapsProps
  imports ReplCaps FactProps
begin

text \<open>
  The life of a token: a stored capability set is read back as it was until it expires, a
  revoked token is refused, and revoking it again at the same instant undoes the revocation.
\<close>

section \<open>Capability sets as text\<close>

text \<open>What the code relies on: reading back what was written, for instants and for JSON.\<close>

definition iso_roundtrip :: "text_env \<Rightarrow> env \<Rightarrow> bool" where
  "iso_roundtrip te env \<longleftrightarrow> env_iso env = te_fromiso te \<and>
     (\<forall>t. te_fromiso te (te_iso te t) = Some t \<and> te_iso te t \<noteq> [])"

definition loads_back :: "text_env \<Rightarrow> cap_set \<Rightarrow> bool" where
  "loads_back te cs \<longleftrightarrow> te_loads te (canonical_dumps (to_canonical te cs)) = Inr (to_canonical te cs)"

definition valid_cap_set :: "cap_set \<Rightarrow> bool" where
  "valid_cap_set cs \<longleftrightarrow> cs_caps cs \<subseteq> ALL_CAPS"

lemma finite_ALL_CAPS [simp]: "finite ALL_CAPS"
  unfolding ALL_CAPS_def by (rule finite_set)

lemma emap_cap_of_val:
  "set cs \<subseteq> ALL_CAPS \<Longrightarrow> emap cap_of_val (map (\<lambda>(op, q). VDict [(''op'', VStr op), (''qualifier'', VStr q)]) cs) = Inr cs"
  by (induction cs) (auto simp: mk_capability_def)

lemma cap_set_roundtrip:
  assumes "valid_cap_set cs" "iso_roundtrip te env"
  shows "from_canonical_dict te (to_canonical te cs) = Inr cs"
proof -
  have fin: "finite (cs_caps cs)" using assms(1) finite_subset[OF _ finite_ALL_CAPS] by (simp add: valid_cap_set_def)
  have "set (sorted_caps cs) = cs_caps cs" using fin by (simp add: sorted_caps_def)
  moreover from this have "emap cap_of_val (map (\<lambda>(op, q). VDict [(''op'', VStr op), (''qualifier'', VStr q)]) (sorted_caps cs)) = Inr (sorted_caps cs)"
    using assms(1) emap_cap_of_val by (simp add: valid_cap_set_def)
  ultimately show ?thesis
    using assms(2) by (cases "cs_expires_at cs") (simp_all add: from_canonical_dict_def to_canonical_def iso_roundtrip_def)
qed

section \<open>One clocked fact\<close>

lemma repl_attrs [simp]:
  "CAP_SET_ATTR \<noteq> REVOKED_ATTR" "REVOKED_ATTR \<noteq> CAP_SET_ATTR"
  "lstrip_colon CAP_SET_ATTR = CAP_SET_ATTR" "lstrip_colon REVOKED_ATTR = REVOKED_ATTR"
  by (simp_all add: CAP_SET_ATTR_def REVOKED_ATTR_def lstrip_colon_def)

definition fact_env :: "text_env \<Rightarrow> env \<Rightarrow> string \<Rightarrow> string \<Rightarrow> val \<Rightarrow> int \<Rightarrow> env" where
  "fact_env te env e a v now = env\<lparr>env_digest := (\<lambda>_. env_digest env (clocked_fact te e a v now))\<rparr>"

lemma env_now_fact_env [simp]: "env_now (fact_env te env e a v now) = env_now env"
  by (simp add: fact_env_def)

lemma transact_clocked:
  assumes "iso_roundtrip te env"
  shows "transact env l [clocked_fact te e a v now] pb force =
    transact (fact_env te env e a v now) l [assert_fact e a v now] pb force"
proof -
  let ?f = "clocked_fact te e a v now" and ?env = "fact_env te env e a v now"
  have f: "fact_vf env ?f = Inr (Aware now)" "fact_vt env ?f = Inr None" "fact_op ?f = ''assert''" "f_e ?f = e" "f_a ?f = a"
    using assms by (simp_all add: clocked_fact_def fact_vf_def fact_vt_def fact_op_def iso_roundtrip_def)
  have d: "fact_datom env pb ?f (Aware now) None = fact_datom ?env pb (assert_fact e a v now) (Aware now) None"
    by (simp add: fact_datom_def clocked_fact_def assert_fact_def fact_op_def fact_env_def)
  have s: "supersede env force (Aware now) p s = supersede ?env force (Aware now) p s" for p s
    by (simp add: supersede_def companion_def fact_env_def)
  have "transact_step env pb force l ?f ([], []) = transact_step ?env pb force l (assert_fact e a v now) ([], [])"
    unfolding transact_step_def f by (cases "find_prior_assert l e a") (simp_all add: d s)
  moreover have "efold g [] = Inr" for g :: "fact \<Rightarrow> shaped \<Rightarrow> err + shaped" by (simp add: fun_eq_iff)
  ultimately show ?thesis by (simp add: transact_def)
qed

definition fresh_attr :: "log \<Rightarrow> string \<Rightarrow> string \<Rightarrow> bool" where
  "fresh_attr l e a \<longleftrightarrow> (\<forall>d \<in> set l. \<not> (d_e d = e \<and> d_a d = a))"

definition known_by :: "log \<Rightarrow> int \<Rightarrow> bool" where
  "known_by l now \<longleftrightarrow> (\<forall>d \<in> set l. d_tx_time d \<le> now)"

lemma as_of_known: "known_by l now \<Longrightarrow> as_of l now = l"
  by (auto simp: as_of_def known_by_def filter_id_conv)

lemma transact_known:
  assumes "wf_log l" "transact env l facts pb force = Inr l'" "known_by l now" "env_now env \<le> now"
  shows "known_by l' now"
proof -
  from transact_erased[OF assms(1,2)] obtain new where
    n: "map erase l' = map erase l @ map erase new" "\<forall>d \<in> set new. d_tx_time d = env_now env" by metis
  have "d_tx_time ` set l' = d_tx_time ` set (map erase l')" by (simp add: image_image)
  also have "\<dots> = d_tx_time ` set l \<union> d_tx_time ` set new" by (simp add: n(1) image_Un image_image)
  finally have "d_tx_time d \<in> d_tx_time ` set l \<union> d_tx_time ` set new" if "d \<in> set l'" for d using that by blast
  then show ?thesis using n(2) assms(3,4) unfolding known_by_def by fastforce
qed

lemma fresh_no_prior:
  assumes "fresh_attr l e a"
  shows "find_prior_assert l e a = None"
  using assms by (auto simp: fresh_attr_def find_prior_assert_def find_None_iff)

lemma fresh_transact:
  assumes "fresh_attr l e a"
  shows "transact env l [assert_fact e a v t] pb force = Inr (l @ [with_tx (next_tx l) (new_assert env pb e a v t)])"
  using fresh_no_prior[OF assms] by (simp add: transact_assert commit_shaped_unfold)

lemma fresh_reads_back:
  assumes "wf_log l" "lstrip_colon a = a" "fresh_attr l e a"
    and "transact env l [assert_fact e a v t] pb force = Inr l'"
  shows "entity l' e a = Some v"
  by (rule assert_reads_back[OF assms(1,2,4)])
    (use assms(3) fresh_no_prior[OF assms(3)] in \<open>auto simp: fresh_attr_def rkey_def\<close>)

section \<open>Issuing and validating\<close>

lemma validate_reads:
  assumes "known_by l now" "entity l (token_id te s) CAP_SET_ATTR = Some (VStr (canonical_dumps (to_canonical te cs)))"
    and "entity l (token_id te s) REVOKED_ATTR \<noteq> Some (VBool True)"
    and "valid_cap_set cs" "iso_roundtrip te env" "loads_back te cs"
  shows "validate_token te l s now = ebind (is_expired cs now) (\<lambda>x. Inr (if x then None else Some cs))"
  using assms(2,3,6) cap_set_roundtrip[OF assms(4,5)]
  by (simp add: validate_token_def live_cap_set_def as_of_known[OF assms(1)] loads_back_def)

lemma live_cap_set_cong:
  assumes "attrs CAP_SET_ATTR = attrs' CAP_SET_ATTR"
    and "(attrs REVOKED_ATTR = Some (VBool True)) = (attrs' REVOKED_ATTR = Some (VBool True))"
  shows "live_cap_set te attrs = live_cap_set te attrs'"
  using assms unfolding live_cap_set_def by (simp only:)

lemma fresh_entity_none: "fresh_attr l e a \<Longrightarrow> entity l e a = None"
  using entity_local[of l e a] by (auto simp: fresh_attr_def filter_empty_conv entity_def latest_of_def candidates_of_def)

lemma store_token_reads:
  assumes "wf_log l" "iso_roundtrip te env" "fresh_attr l (token_id te (tk_str tok)) CAP_SET_ATTR"
    and "store_token te env l tok t = Inr l'"
  shows "entity l' (token_id te (tk_str tok)) CAP_SET_ATTR = Some (VStr (canonical_dumps (to_canonical te (tk_caps tok))))"
  using assms(4) unfolding store_token_def transact_clocked[OF assms(2)]
  by (intro fresh_reads_back[OF assms(1) _ assms(3)]) simp_all

text \<open>C21. A stored token is read back as it was. After a token with a valid capability set is
  stored under a new id, presenting it yields exactly its capability set until it expires,
  and nothing from then on.\<close>

theorem token_validates:
  assumes "wf_log l" "iso_roundtrip te env" "loads_back te (tk_caps tok)" "valid_cap_set (tk_caps tok)"
    and "\<forall>d \<in> set l. d_e d \<noteq> token_id te (tk_str tok)" "known_by l now" "env_now env \<le> now"
    and "store_token te env l tok t = Inr l'"
  shows "validate_token te l' (tk_str tok) now =
    ebind (is_expired (tk_caps tok) now) (\<lambda>x. Inr (if x then None else Some (tk_caps tok)))"
proof (rule validate_reads[OF _ _ _ assms(4,2,3)])
  let ?tid = "token_id te (tk_str tok)"
  have f: "fresh_attr l ?tid a" for a using assms(5) by (auto simp: fresh_attr_def)
  have t: "transact env l [clocked_fact te ?tid CAP_SET_ATTR (VStr (canonical_dumps (to_canonical te (tk_caps tok)))) t] [] False = Inr l'"
    using assms(8) by (simp add: store_token_def)
  show "known_by l' now" by (rule transact_known[OF assms(1) t assms(6,7)])
  show "entity l' ?tid CAP_SET_ATTR = Some (VStr (canonical_dumps (to_canonical te (tk_caps tok))))"
    by (rule store_token_reads[OF assms(1,2) f assms(8)])
  have "entity l' ?tid REVOKED_ATTR = entity l ?tid REVOKED_ATTR"
    by (rule entity_frame[OF assms(1) t]) (simp add: written_def clocked_fact_def)
  then show "entity l' ?tid REVOKED_ATTR \<noteq> Some (VBool True)" by (simp add: fresh_entity_none[OF f])
qed

section \<open>Revoking\<close>

lemma revoke_transact:
  assumes "iso_roundtrip te env" "fresh_attr l tid REVOKED_ATTR"
  shows "revoke_token te env l tid t = Inr (l @ [with_tx (next_tx l)
    (new_assert (fact_env te env tid REVOKED_ATTR (VBool True) t) [] tid REVOKED_ATTR (VBool True) t)])"
  unfolding revoke_token_def transact_clocked[OF assms(1)] by (rule fresh_transact[OF assms(2)])

text \<open>A revoked token is refused: after the first revocation of a token, presenting it
  yields nothing, whatever capability set it had and whenever it is presented.\<close>

lemma revoked_token_refused:
  assumes "wf_log l" "iso_roundtrip te env" "fresh_attr l (token_id te s) REVOKED_ATTR"
    and "known_by l now" "env_now env \<le> now" "revoke_token te env l (token_id te s) t = Inr l'"
  shows "validate_token te l' s now = Inr None"
proof -
  have t: "transact env l [clocked_fact te (token_id te s) REVOKED_ATTR (VBool True) t] [] False = Inr l'"
    using assms(6) by (simp add: revoke_token_def)
  have "entity l' (token_id te s) REVOKED_ATTR = Some (VBool True)"
    using t unfolding transact_clocked[OF assms(2)] by (intro fresh_reads_back[OF assms(1) _ assms(3)]) simp_all
  then show ?thesis
    by (simp add: validate_token_def live_cap_set_def as_of_known[OF transact_known[OF assms(1) t assms(4,5)]]
        split: option.splits val.splits)
qed

text \<open>Revoking a token twice at one instant revives it. The second revocation closes the
  first with a retract that also hides itself, the flag disappears from the token's entity,
  and the token validates exactly as if it had never been revoked.\<close>

lemma double_revoke_revives:
  assumes wf: "wf_log l" and te: "iso_roundtrip te env" "iso_roundtrip te env2"
    and fresh: "fresh_attr l (token_id te s) REVOKED_ATTR"
    and known: "known_by l now" "env_now env \<le> now" "env_now env2 \<le> now"
    and r1: "revoke_token te env l (token_id te s) t = Inr l1" and r2: "revoke_token te env2 l1 (token_id te s) t = Inr l2"
  shows "validate_token te l2 s now = validate_token te l s now"
proof -
  let ?tid = "token_id te s" and ?env = "fact_env te env (token_id te s) REVOKED_ATTR (VBool True) t"
  let ?n = "with_tx (next_tx l) (new_assert ?env [] ?tid REVOKED_ATTR (VBool True) t)"
  have l1: "l1 = l @ [?n]" using r1 revoke_transact[OF te(1) fresh] by simp
  have t1: "transact env l [clocked_fact te ?tid REVOKED_ATTR (VBool True) t] [] False = Inr l1"
    and t2: "transact env2 l1 [clocked_fact te ?tid REVOKED_ATTR (VBool True) t] [] False = Inr l2"
    using r1 r2 by (simp_all add: revoke_token_def)
  have wf1: "wf_log l1" using transact_laws[OF wf t1] by simp
  have p: "find_prior_assert l1 ?tid REVOKED_ATTR = Some ?n"
    by (simp add: l1 find_prior_assert_def is_open_def)
  have "rkey c = rkey ?n" if "live ?tid l1 c" "d_a c = REVOKED_ATTR" for c
    using that fresh by (auto simp: live_def l1 fresh_attr_def)
  then have hid: "entity l2 ?tid REVOKED_ATTR = None"
    using t2 unfolding transact_clocked[OF te(2)]
    by (intro reassert_hides_value[OF wf1 _ p]) simp_all
  have frame: "entity l2 ?tid CAP_SET_ATTR = entity l ?tid CAP_SET_ATTR"
    using entity_frame[OF wf t1, of ?tid CAP_SET_ATTR] entity_frame[OF wf1 t2, of ?tid CAP_SET_ATTR]
    by (simp add: written_def clocked_fact_def)
  have "known_by l2 now" by (rule transact_known[OF wf1 t2 transact_known[OF wf t1 known(1,2)] known(3)])
  moreover have "live_cap_set te (entity l2 ?tid) = live_cap_set te (entity l ?tid)"
    by (rule live_cap_set_cong) (use hid frame fresh_entity_none[OF fresh] in simp_all)
  ultimately show ?thesis by (simp add: validate_token_def as_of_known known(1))
qed

section \<open>Concrete tokens\<close>

text \<open>Instants as text, in unary.\<close>

definition demo_iso :: "pydt \<Rightarrow> string" where
  "demo_iso t = (case t of Aware i \<Rightarrow> CHR ''A'' # (if i < 0 then CHR ''m'' else CHR ''p'') # replicate (nat (abs i)) CHR ''1''
     | Naive i \<Rightarrow> CHR ''N'' # (if i < 0 then CHR ''m'' else CHR ''p'') # replicate (nat (abs i)) CHR ''1'')"

definition demo_fromiso :: "string \<Rightarrow> pydt option" where
  "demo_fromiso s = (case s of k # sign # ds \<Rightarrow>
     (let i = (if sign = CHR ''m'' then - int (length ds) else int (length ds)) in
      Some (if k = CHR ''A'' then Aware i else Naive i)) | _ \<Rightarrow> None)"

lemma demo_iso_roundtrip: "demo_fromiso (demo_iso t) = Some t" "demo_iso t \<noteq> []"
  by (cases t; simp add: demo_iso_def demo_fromiso_def)+

definition demo_token :: token where
  "demo_token = mint_token ''abc'' {(''inspect'', ''read''), (''edit'', ''write'')} (Some (Aware 50)) ''ops''"

definition demo_text :: text_env where
  "demo_text = \<lparr>te_sha = (\<lambda>s. rev s), te_iso = demo_iso, te_fromiso = demo_fromiso,
     te_loads = (\<lambda>s. Inr (VDict [(''caps'', VList [VDict [(''op'', VStr ''edit''), (''qualifier'', VStr ''write'')],
         VDict [(''op'', VStr ''inspect''), (''qualifier'', VStr ''read'')]]),
       (''expires_at_iso'', VStr (demo_iso (Aware 50))), (''label'', VStr ''ops'')]))\<rparr>"

definition repl_env_at :: "int \<Rightarrow> env" where
  "repl_env_at t = \<lparr>env_now = t, env_digest = (\<lambda>_. []), env_iso = demo_fromiso\<rparr>"

lemma demo_text_ok: "iso_roundtrip demo_text (repl_env_at t)" "loads_back demo_text (tk_caps demo_token)"
  "valid_cap_set (tk_caps demo_token)"
proof -
  show "iso_roundtrip demo_text (repl_env_at t)"
    by (simp add: iso_roundtrip_def demo_text_def repl_env_at_def demo_iso_roundtrip)
  show "loads_back demo_text (tk_caps demo_token)" unfolding loads_back_def by code_simp
  show "valid_cap_set (tk_caps demo_token)" unfolding valid_cap_set_def by code_simp
qed

definition token_log :: log where
  "token_log = projr (store_token demo_text (repl_env_at 10) [] demo_token 10)"

lemma token_log_run: "store_token demo_text (repl_env_at 10) [] demo_token 10 = Inr token_log"
  by code_simp

lemma wf_token_log: "wf_log token_log"
  using transact_laws[OF wf_log_Nil token_log_run[unfolded store_token_def]] by simp

lemma token_log_known: "known_by token_log 20" "fresh_attr token_log (token_id demo_text (tk_str demo_token)) REVOKED_ATTR"
  unfolding known_by_def fresh_attr_def by code_simp+

theorem token_validates_witness:
  "validate_token demo_text token_log (tk_str demo_token) 20 = Inr (Some (tk_caps demo_token)) \<and>
   validate_token demo_text token_log (tk_str demo_token) 50 = Inr None"
proof -
  have k: "known_by [] n" for n by (simp add: known_by_def)
  have v: "validate_token demo_text token_log (tk_str demo_token) n =
      ebind (is_expired (tk_caps demo_token) n) (\<lambda>x. Inr (if x then None else Some (tk_caps demo_token)))" if "10 \<le> n" for n
    by (rule token_validates[OF wf_log_Nil demo_text_ok _ k _ token_log_run]) (use that in \<open>simp_all add: repl_env_at_def\<close>)
  show ?thesis using v[of 20] v[of 50] by (simp add: is_expired_def demo_token_def mint_token_def)
qed

end
