(* ===== verification/ReplDemo.thy ===== *)
theory ReplDemo
  imports ReplMsgLaws ReplCapsProps
begin

text \<open>
  A concrete server for the witnesses of the REPL properties: a store that holds one token, a
  clock that counts, and a connection that logs in, proposes an edit and branches.
\<close>

definition srv_caps :: cap_set where
  "srv_caps = \<lparr>cs_caps = {(''inspect'', ''read''), (''edit'', ''write''), (''rewind'', ''any''), (''branch'', ''fork'')},
     cs_expires_at = None, cs_label = ''ops''\<rparr>"

definition srv_token :: token where
  "srv_token = \<lparr>tk_str = ''tok'', tk_caps = srv_caps\<rparr>"

definition rpc :: "string \<Rightarrow> val dict \<Rightarrow> val" where
  "rpc meth params = VDict [(''jsonrpc'', VStr ''2.0''), (''id'', VInt 1), (''method'', VStr meth), (''params'', VDict params)]"

definition srv_edit :: "val dict" where
  "srv_edit = [(''datoms'', VList [VDict [(''e'', VStr ''x''), (''a'', VStr ''n''), (''v'', VInt 5)]])]"

definition srv_text :: text_env where
  "srv_text = \<lparr>te_sha = (\<lambda>s. take 32 (rev s)), te_iso = demo_iso, te_fromiso = demo_fromiso,
     te_loads = (\<lambda>s. Inr (
       if s = ''login'' then rpc ''repl/auth'' [(''token'', VStr ''tok'')]
       else if s = ''branch'' then rpc ''repl/branch'' []
       else if s = ''propose'' then rpc ''repl/edit'' srv_edit
       else VDict [(''caps'', VList (map (\<lambda>(o1, q). VDict [(''op'', VStr o1), (''qualifier'', VStr q)])
           [(''branch'', ''fork''), (''edit'', ''write''), (''inspect'', ''read''), (''rewind'', ''any'')])),
         (''expires_at_iso'', VNone), (''label'', VStr ''ops'')]))\<rparr>"

definition srv_env :: server_env where
  "srv_env = \<lparr>se_text = srv_text, se_content = (\<lambda>e. take 32 (rev (e_args_hash e @ e_verdict e))),
     se_millis = (\<lambda>d. d div 1000), se_conforms = (\<lambda>_. True), se_repr = (\<lambda>_. ''?''), se_show = (\<lambda>_. ''error''),
     se_set_order = sorted_list_of_set, se_time = int, se_db = (\<lambda>n. repl_env_at (int n))\<rparr>"

definition srv_log :: log where
  "srv_log = projr (store_token srv_text (repl_env_at 0) [] srv_token 0)"

definition srv0 :: server where
  "srv0 = start_server srv_log 0"

definition login_request :: request where
  "login_request = \<lparr>rq_method = ''repl/auth'', rq_params = [(''token'', VStr ''tok'')], rq_id = VInt 1\<rparr>"

lemma srv0_sel [simp]: "sv_log srv0 = srv_log" "sv_ticks srv0 = 0" "sv_ring srv0 = []" "sv_sessions srv0 = []"
  by (simp_all add: srv0_def start_server_def)

lemma srv_env_sel [simp]: "se_text srv_env = srv_text" "se_time srv_env = int"
  by (simp_all add: srv_env_def)

lemma srv_token_valid: "validate_token srv_text srv_log ''tok'' 1 = Inr (Some srv_caps)"
  by code_simp

lemma srv_loads: "te_loads srv_text ''login'' = Inr (rpc ''repl/auth'' [(''token'', VStr ''tok'')])"
  by (simp add: srv_text_def)

lemma srv_parse: "parse_request [(''jsonrpc'', VStr ''2.0''), (''id'', VInt 1), (''method'', VStr ''repl/auth''),
    (''params'', VDict [(''token'', VStr ''tok'')])] = Inr login_request"
  by (simp add: parse_request_def get_or_def login_request_def)

lemma srv_login:
  obtains ss s' where "handle_message srv_env ''login'' None srv0 = (Inr (Some ss), s')" "logged_in srv_env None srv0 ss s'"
    "ss_caps ss = srv_caps" "sv_ticks s' = 5"
proof (rule login_message[of srv_env "''login''" _ login_request "''tok''" srv0 srv_caps None])
  show "te_loads (se_text srv_env) ''login'' = Inr (VDict [(''jsonrpc'', VStr ''2.0''), (''id'', VInt 1),
      (''method'', VStr ''repl/auth''), (''params'', VDict [(''token'', VStr ''tok'')])])"
    using srv_loads by (simp add: rpc_def)
  show "validate_token (se_text srv_env) (sv_log srv0) ''tok'' (se_time srv_env (Suc (sv_ticks srv0))) = Inr (Some srv_caps)"
    using srv_token_valid by simp
qed (use srv_parse that in \<open>simp_all add: login_request_def get_or_def\<close>)

definition open_conn :: conns where
  "open_conn = Map.empty(0 \<mapsto> None)"

lemma srv_reach_open: "srv_reach srv_env srv_log (srv0, open_conn)"
  using srv_reach.step[OF srv_reach.init[of srv_env srv_log] srv_step.connect[of Map.empty 0 srv_env]]
  by (simp add: srv0_def open_conn_def)

lemma srv_login_step:
  obtains ss s' where "srv_step srv_env (srv0, open_conn) (s', open_conn(0 \<mapsto> Some ss))" "ss_caps ss = srv_caps"
    "ss_cursor ss = None" "ss_depth ss = 0" "sv_ticks s' = 5" "sv_ring s' \<noteq> []"
proof -
  obtain ss s' where r: "handle_message srv_env ''login'' None srv0 = (Inr (Some ss), s')"
    and l: "logged_in srv_env None srv0 ss s'" and e: "ss_caps ss = srv_caps" "sv_ticks s' = 5"
    by (rule srv_login)
  have "srv_step srv_env (srv0, open_conn) (s', open_conn(0 \<mapsto> Some ss))"
    by (rule srv_step.message[OF _ r]) (simp add: open_conn_def)
  moreover have "sv_ring s' \<noteq> []"
    using l by (auto simp: logged_in_def ring_step_def trim_ring_def MAX_RING_SIZE_def)
  ultimately show ?thesis using that l e by (simp add: logged_in_def)
qed

definition srv_outcome :: op_outcome where
  "srv_outcome = \<lparr>oo_kind = ''auth'', oo_args = [], oo_verdict = ''ok'', oo_latency = 0, oo_result_hash = None, oo_error = None\<rparr>"

section \<open>Operations on a typed session\<close>

definition srv_session :: session where
  "srv_session = \<lparr>ss_id = ''s1'', ss_token_id = ''t1'', ss_caps = srv_caps, ss_auth_iso = ''A'', ss_cursor = None,
     ss_vt = None, ss_depth = 0\<rparr>"

lemma srv_session_caps: "allows srv_session ''edit'' ''write''" "allows srv_session ''branch'' ''fork''"
  "ss_cursor srv_session = None" "ss_depth srv_session = 0" "is_expired (ss_caps srv_session) t = Inr False"
  by (simp_all add: srv_session_def srv_caps_def allows_def is_expired_def)

lemma srv_validate: "validate_datoms (get_or srv_edit ''datoms'' VNone) s =
    (Inr [VDict [(''e'', VStr ''x''), (''a'', VStr ''n''), (''v'', VInt 5)]], s)"
  by (simp add: validate_datoms_run srv_edit_def get_or_def)

lemma srv_propose: "\<exists>v. edit_op srv_env srv_session srv_edit srv0 = (Inr v, srv0)"
  using srv_validate by (simp add: edit_op_def io_bind_def has_allows srv_session_caps)
    (simp add: srv_edit_def get_or_def)

lemma srv_branch: "\<exists>v s'. branch_op srv_env srv_session [] srv0 = (Inr v, s')"
  by (simp add: branch_op_def io_bind_def require_cap_run srv_session_caps tick_def branch_tx_iso_def get_or_def
      put_session_def MAX_BRANCH_DEPTH_def)

end
