(* ===== verification/ReplServerProps.thy ===== *)
theory ReplServerProps
  imports ReplDemo
begin

text \<open>
  Properties of the REPL server: which messages write, the invariants of reachable states
  (typed sessions, the audit ring), the refinement of a reference monitor, and the
  propose/confirm protocol of edits.
\<close>

section \<open>Writes\<close>

text \<open>C22. Whatever message arrives on whatever connection, the log stays except for one audit datom,
  unless the message is a confirmed edit of a session that holds edit:write, looks at the head and
  presents the hash of this very request; then one transaction with the request's datoms is
  committed (and possibly an audit datom). In particular nothing is written before a login.\<close>

theorem only_confirmed_edits_commit:
  "let s' = snd (handle_message se raw so s) in
   audit_ext (sv_log s) (sv_log s') \<or>
   (\<exists>ss payload req datoms l. so = Some ss \<and> te_loads (se_text se) raw = Inr (VDict payload) \<and>
      parse_request payload = Inr req \<and> rq_method req = ''repl/edit'' \<and>
      edit_allowed se ss (rq_params req) \<and> get_or (rq_params req) ''datoms'' VNone = VList datoms \<and>
      edit_commits se datoms (sv_log s) l \<and> audit_ext l (sv_log s'))"
proof (cases rule: handle_message_cases[of se raw so s])
  case (operation payload req ss h s2 s')
  have "audit_ext (sv_log s2) (sv_log s')" using operation(7) by (simp add: audited_def)
  then show ?thesis
    using operation op_log[OF operation(4), of se ss "rq_params req" "s\<lparr>sv_ticks := Suc (sv_ticks s)\<rparr>"]
    by auto
qed (simp_all add: audited_def logged_in_def)

section \<open>Typed sessions\<close>

definition session_typed :: "session \<Rightarrow> bool" where
  "session_typed ss \<longleftrightarrow> cs_caps (ss_caps ss) \<subseteq> ALL_CAPS \<and> ss_depth ss \<le> MAX_BRANCH_DEPTH"

definition registry_typed :: "session dict \<Rightarrow> bool" where
  "registry_typed d \<longleftrightarrow> (\<forall>ss \<in> snd ` set d. session_typed ss)"

definition server_typed :: "server \<times> conns \<Rightarrow> bool" where
  "server_typed x \<longleftrightarrow> registry_typed (sv_sessions (fst x)) \<and> (\<forall>c ss. snd x c = Some (Some ss) \<longrightarrow> session_typed ss)"

lemma registry_typed_dset: "registry_typed d \<Longrightarrow> session_typed v \<Longrightarrow> registry_typed (dset k v d)"
  by (induction d) (auto simp: registry_typed_def)

lemma registry_typed_delete: "registry_typed d \<Longrightarrow> registry_typed (AList.delete k d)"
  by (induction d) (auto simp: registry_typed_def)

lemma registry_typed_get: "registry_typed d \<Longrightarrow> dget d k = Some v \<Longrightarrow> session_typed v"
  unfolding registry_typed_def by (metis image_eqI map_of_SomeD snd_conv)

lemma registry_typed_drop: "registry_typed (sv_sessions s) \<Longrightarrow> registry_typed (sv_sessions (drop_session so s))"
  by (auto simp: drop_session_def pop_session_def registry_typed_delete split: option.split)

lemma emap_cap_typed: "emap cap_of_val cs = Inr caps \<Longrightarrow> set caps \<subseteq> ALL_CAPS"
proof (induction cs arbitrary: caps)
  case (Cons c cs)
  then obtain x xs where "cap_of_val c = Inr x" "emap cap_of_val cs = Inr xs" "caps = x # xs"
    by (auto simp: ebind_Inr_iff)
  then show ?case using Cons.IH
    by (auto elim!: cap_of_val.elims simp: mk_capability_def split: option.splits val.splits if_splits)
qed simp

lemma from_canonical_caps:
  assumes "from_canonical_dict te v = Inr cs"
  shows "cs_caps cs \<subseteq> ALL_CAPS"
proof -
  obtain d xs where v: "v = VDict d" and d: "dget d ''caps'' = Some (VList xs)"
    using assms by (auto simp: from_canonical_dict_def split: val.splits option.splits)
  obtain caps where caps: "emap cap_of_val xs = Inr caps"
    using assms by (auto simp: from_canonical_dict_def v d ebind_Inr_iff)
  obtain ex where "(case dget d ''label'' of
      None \<Rightarrow> Inr \<lparr>cs_caps = set caps, cs_expires_at = ex, cs_label = []\<rparr>
    | Some (VStr l) \<Rightarrow> Inr \<lparr>cs_caps = set caps, cs_expires_at = ex, cs_label = l\<rparr>
    | Some _ \<Rightarrow> Inl TypeError) = Inr cs"
    using assms by (simp only: from_canonical_dict_def v d caps val.case option.case ebind_simps) (simp only: ebind_Inr_iff, blast)
  then have "cs_caps cs = set caps" by (simp split: option.splits val.splits) auto
  then show ?thesis using emap_cap_typed[OF caps] by simp
qed

lemma live_cap_set_parsed:
  assumes "live_cap_set te attrs = Inr (Some cs)"
  obtains d where "from_canonical_dict te d = Inr cs"
  using assms by (auto simp: live_cap_set_def ebind_Inr_iff split: option.splits val.splits if_splits)

lemma validate_token_typed:
  assumes "validate_token te l tok now = Inr (Some cs)"
  shows "cs_caps cs \<subseteq> ALL_CAPS"
proof -
  have "live_cap_set te (entity (as_of l now) (token_id te tok)) = Inr (Some cs)"
    using assms by (auto simp: validate_token_def ebind_Inr_iff split: option.splits if_splits)
  then show ?thesis by (rule live_cap_set_parsed) (rule from_canonical_caps)
qed

lemma session_moves_typed: "session_moves ss ss' \<Longrightarrow> session_typed ss \<Longrightarrow> session_typed ss'"
  by (auto simp: session_moves_def session_typed_def branched_def MAX_BRANCH_DEPTH_def)

lemma logged_in_typed: "logged_in se prior s ss s' \<Longrightarrow> session_typed ss"
  unfolding logged_in_def session_typed_def using validate_token_typed by (metis bot_nat_0.extremum)

lemma logged_in_registry:
  "logged_in se prior s ss s' \<Longrightarrow> registry_typed (sv_sessions s) \<Longrightarrow> registry_typed (sv_sessions s')"
  using logged_in_typed[of se prior s ss s'] registry_typed_delete[of "sv_sessions s"]
  unfolding logged_in_def by (auto intro: registry_typed_dset split: option.splits)

lemma op_registry_typed:
  assumes "map_of DEFAULT_OPS m = Some h" "registry_typed (sv_sessions s)" "session_typed ss"
  shows "registry_typed (sv_sessions (snd (h se ss params s)))"
  using op_registry[OF assms(1), of se ss params s] assms(2,3)
  by (metis registry_typed_dset session_moves_typed)

lemma message_typed:
  assumes reg: "registry_typed (sv_sessions s)" and so: "\<And>ss. so = Some ss \<Longrightarrow> session_typed ss"
    and run: "handle_message se raw so s = (r, s')"
  shows "registry_typed (sv_sessions s') \<and> (\<forall>ss. r = Inr (Some ss) \<longrightarrow> session_typed ss)"
proof (cases rule: handle_message_cases[of se raw so s])
  case (refused r' s'')
  then show ?thesis using assms by (auto simp: audited_def)
next
  case (login ss s'')
  then show ?thesis using run reg logged_in_typed logged_in_registry by auto
next
  case (operation payload req ss h s2 s'')
  have ss: "session_typed ss" using so operation(3) by simp
  have s2: "registry_typed (sv_sessions s2)"
    unfolding operation(5) using op_registry_typed[OF operation(4)] reg ss by simp
  then have "session_typed (latest_of_session s2 ss)"
    using ss registry_typed_get by (auto simp: latest_of_session_def split: option.split)
  then show ?thesis using operation(6,7) run s2 by (auto simp: audited_def)
qed

lemma typed_step: "srv_step se x y \<Longrightarrow> server_typed x \<Longrightarrow> server_typed y"
proof (induction rule: srv_step.induct)
  case (message cs c so raw s so' s')
  then show ?case using message_typed[OF _ _ message(2)] by (auto simp: server_typed_def)
next
  case (crash cs c so raw s e s')
  then have "registry_typed (sv_sessions s')"
    using message_typed[OF _ _ crash(2)] by (auto simp: server_typed_def)
  then show ?case using crash by (auto simp: server_typed_def registry_typed_drop)
next
  case (close cs c so s)
  then show ?case by (auto simp: server_typed_def registry_typed_drop)
qed (auto simp: server_typed_def start_server_def registry_typed_def)

text \<open>C23. Every session of a reachable server, in the registry or held by a connection, is well
  typed: its capabilities belong to the closed set and it is at most sixteen branches deep.\<close>

theorem sessions_typed:
  assumes "srv_reach se l (s, cs)"
  shows "(\<forall>ss \<in> snd ` set (sv_sessions s). session_typed ss) \<and>
    (\<forall>c ss. cs c = Some (Some ss) \<longrightarrow> session_typed ss)"
proof -
  have "server_typed x" if "srv_reach se l x" for x
    using that
  proof induction
    case init
    then show ?case by (simp add: server_typed_def start_server_def registry_typed_def)
  qed (rule typed_step)
  from this[OF assms] show ?thesis by (simp add: server_typed_def registry_typed_def)
qed

theorem sessions_typed_witness:
  "\<exists>s ss. srv_reach srv_env srv_log (s, open_conn(0 \<mapsto> Some ss)) \<and> ss_caps ss = srv_caps \<and> session_typed ss"
proof -
  obtain ss s' where st: "srv_step srv_env (srv0, open_conn) (s', open_conn(0 \<mapsto> Some ss))" and c: "ss_caps ss = srv_caps"
    by (rule srv_login_step)
  have r: "srv_reach srv_env srv_log (s', open_conn(0 \<mapsto> Some ss))" by (rule srv_reach.step[OF srv_reach_open st])
  have "\<forall>c x. (open_conn(0 \<mapsto> Some ss)) c = Some (Some x) \<longrightarrow> session_typed x" using sessions_typed[OF r] by (rule conjunct2)
  then have "session_typed ss" by (metis fun_upd_same)
  then show ?thesis using r c by blast
qed

section \<open>The audit ring\<close>

definition ring_ok :: "server_env \<Rightarrow> audit_entry list \<Rightarrow> bool" where
  "ring_ok se es \<longleftrightarrow> length es \<le> MAX_RING_SIZE \<and>
     (es = [] \<or> verify_from (server_digests se) (e_prev_hash (hd es)) es)"

lemma verify_from_drop:
  assumes "verify_from cd p es" "n < length es"
  shows "verify_from cd (e_prev_hash (es ! n)) (drop n es)"
  using assms
proof (induction es arbitrary: p n)
  case (Cons e es)
  then show ?case by (cases n) (auto split: if_splits)
qed simp

lemma ring_ok_step:
  assumes "ring_ok se es" "ring_step se es es'"
  shows "ring_ok se es'"
proof -
  obtain e where e: "es' = trim_ring (es @ [e])" "e_prev_hash e = last_id es" "e_id e = content_hash (server_digests se) e"
    using assms(2) by (auto simp: ring_step_def)
  have v: "verify_from (server_digests se) (e_prev_hash (hd (es @ [e]))) (es @ [e])"
    using assms(1) e(2,3) by (auto simp: ring_ok_def verify_from_append last_id_def)
  show ?thesis
  proof (cases "MAX_RING_SIZE < length (es @ [e])")
    case True
    let ?n = "length (es @ [e]) - MAX_RING_SIZE"
    have n: "?n < length (es @ [e])" using True by (simp add: MAX_RING_SIZE_def)
    then have "hd (drop ?n (es @ [e])) = (es @ [e]) ! ?n" by (rule hd_drop_conv_nth)
    then show ?thesis using verify_from_drop[OF v n] True e(1) by (simp add: ring_ok_def trim_ring_def)
  next
    case False
    then show ?thesis using v e(1) by (simp add: ring_ok_def trim_ring_def)
  qed
qed

lemma audited_ring: "audited se s s' \<Longrightarrow> ring_ok se (sv_ring s) \<Longrightarrow> ring_ok se (sv_ring s')"
  using ring_ok_step by (auto simp: audited_def)

lemma message_ring:
  assumes "handle_message se raw so s = (r, s')" "ring_ok se (sv_ring s)"
  shows "ring_ok se (sv_ring s')"
proof (cases rule: handle_message_cases[of se raw so s])
  case (refused r' s'')
  then show ?thesis using assms audited_ring by auto
next
  case (login ss s'')
  then show ?thesis using assms ring_ok_step by (auto simp: logged_in_def)
next
  case (operation payload req ss h s2 s'')
  have "sv_ring s2 = sv_ring s"
    using ops_clock_ring(2)[OF operation(4), of se ss "rq_params req"]
    unfolding operation(5) io_moves_def same_ring_def by simp
  then show ?thesis using assms operation(6,7) audited_ring by auto
qed

lemma ring_srv_step: "srv_step se x y \<Longrightarrow> ring_ok se (sv_ring (fst x)) \<Longrightarrow> ring_ok se (sv_ring (fst y))"
proof (induction rule: srv_step.induct)
  case (crash cs c so raw s e s')
  then show ?case using message_ring[OF crash(2)] by (simp add: drop_session_def pop_session_def split: option.split)
qed (auto simp: start_server_def ring_ok_def drop_session_def pop_session_def dest: message_ring[unfolded ring_ok_def]
  split: option.split)

text \<open>C24. The audit ring of a reachable server holds at most 256 entries, and they are a verifying
  stretch of one chain, starting from the link of its oldest entry.\<close>

theorem ring_bounded_chain:
  assumes "srv_reach se l (s, cs)"
  shows "length (sv_ring s) \<le> 256 \<and>
    (sv_ring s = [] \<or> verify_from (server_digests se) (e_prev_hash (hd (sv_ring s))) (sv_ring s))"
proof -
  have "ring_ok se (sv_ring (fst x))" if "srv_reach se l x" for x
    using that
  proof induction
    case init
    then show ?case by (simp add: start_server_def ring_ok_def)
  next
    case (step x y)
    then show ?case using ring_srv_step by blast
  qed
  from this[OF assms] show ?thesis by (simp add: ring_ok_def MAX_RING_SIZE_def)
qed

theorem ring_bounded_chain_witness:
  "\<exists>s cs. srv_reach srv_env srv_log (s, cs) \<and> sv_ring s \<noteq> [] \<and> length (sv_ring s) \<le> 256 \<and>
    verify_from (server_digests srv_env) (e_prev_hash (hd (sv_ring s))) (sv_ring s)"
proof -
  obtain ss s' where st: "srv_step srv_env (srv0, open_conn) (s', open_conn(0 \<mapsto> Some ss))" and ne: "sv_ring s' \<noteq> []"
    by (rule srv_login_step)
  have r: "srv_reach srv_env srv_log (s', open_conn(0 \<mapsto> Some ss))" by (rule srv_reach.step[OF srv_reach_open st])
  then show ?thesis using ring_bounded_chain[OF r] ne by blast
qed

section \<open>The durable chain\<close>

text \<open>An entry emitted by a server whose ring is empty, as it is after a restart, does not
  continue the chain of the entries that are already in the store: the whole does not verify.\<close>

lemma restart_breaks_chain:
  assumes "es \<noteq> []" "emit_repl_op_audit se [] who oo now = Inr e"
  shows "\<not> verify_chain (server_digests se) (es @ [e])"
proof -
  have "e_prev_hash e = None"
    using build_entry_Inr(4)[of "server_digests se" "repl_content se who oo now (last_id [])" e] assms(2)
    by (simp add: emit_repl_op_audit_def repl_content_def last_id_def)
  then show ?thesis using assms(1) by (simp add: verify_chain_snoc last_id_def)
qed

section \<open>Proposing and confirming an edit\<close>

lemma filter_dset_out: "\<not> P k \<Longrightarrow> filter (\<lambda>(k, v). P k) (dset k x d) = filter (\<lambda>(k, v). P k) d"
  by (induction d) auto

lemma get_or_dset: "get_or (dset k v d) k' w = (if k' = k then v else get_or d k' w)"
  by (simp add: get_or_def)

definition confirm_request :: "string \<Rightarrow> val dict \<Rightarrow> val dict" where
  "confirm_request h params = dset ''confirm'' (VBool True) (dset ''request_hash'' (VStr h) params)"

lemma confirm_hash: "compute_request_hash se (confirm_request h params) = compute_request_hash se params"
  by (simp add: compute_request_hash_def confirm_request_def
      filter_dset_out[where P = "\<lambda>k. k \<notin> {''confirm'', ''request_hash''}", simplified])

text \<open>What sending the proposal back comes to, after one reading of the clock: all its datoms go
  to the transactor in one transaction, and the log is what that gives; if it raises, the
  caller gets an internal error and the log stays.\<close>

lemma edit_commit_run:
  "edit_commit se datoms s =
     (let t = s\<lparr>sv_ticks := Suc (sv_ticks s)\<rparr> in
      case ebind (emap fact_of_val datoms) (\<lambda>fs. transact (se_db se (sv_ticks t)) (sv_log s) fs [] False) of
        Inl e \<Rightarrow> (Inl (OpError ERR_INTERNAL_ERROR (''transact failed: '' @ se_show se e)), t)
      | Inr l \<Rightarrow> (Inr (VDict [(''committed'', VBool True),
          (''tx_time_iso'', VStr (iso_now se (se_time se (sv_ticks s)))),
          (''tx'', if l = [] then VNone else VInt (d_tx (last l))),
          (''datom_count'', VInt (int (length datoms)))]), t\<lparr>sv_log := l\<rparr>))"
  by (auto simp: edit_commit_def io_bind_def io_try_def tick_def db_transact_def op_error_def Let_def
      split: sum.splits)

text \<open>C25. A session with \<open>edit:write\<close> that looks at the head proposes an edit (a request that is
  not a confirmation): nothing changes, and the answer echoes the datoms and gives a hash. When
  it sends the same request back with that hash and \<open>confirm\<close>, the datoms of the proposal, all
  of them and in order, are transacted in one transaction: the log is then exactly what the
  transactor makes of it, nothing else changes but the reading of the clock, and the answer
  counts the datoms. If the transactor raises, the caller gets an internal error and the log
  is left as it was.\<close>

theorem propose_then_confirm:
  assumes "allows ss ''edit'' ''write''" "ss_cursor ss = None" "\<not> truthy (get_or params ''confirm'' (VBool False))"
    and "edit_op se ss params s = (Inr v, s')"
  shows "s' = s \<and> (\<exists>datoms h. get_or params ''datoms'' VNone = VList datoms \<and>
    field_of v ''echo'' = Inr (VDict [(''datoms'', VList datoms)]) \<and> field_of v ''request_hash'' = Inr (VStr h) \<and>
    (let t = s\<lparr>sv_ticks := Suc (sv_ticks s)\<rparr> in
     case ebind (emap fact_of_val datoms) (\<lambda>fs. transact (se_db se (sv_ticks t)) (sv_log s) fs [] False) of
       Inl e \<Rightarrow> edit_op se ss (confirm_request h params) s =
         (Inl (OpError ERR_INTERNAL_ERROR (''transact failed: '' @ se_show se e)), t)
     | Inr l \<Rightarrow> \<exists>u. edit_op se ss (confirm_request h params) s = (Inr u, t\<lparr>sv_log := l\<rparr>) \<and>
         field_of u ''committed'' = Inr (VBool True) \<and>
         field_of u ''datom_count'' = Inr (VInt (int (length datoms)))))"
proof -
  obtain r where v: "validate_datoms (get_or params ''datoms'' VNone) s = (r, s)"
    by (cases "validate_datoms (get_or params ''datoms'' VNone) s")
      (auto simp: validate_datoms_run split: val.splits list.splits prod.splits sum.splits)
  then obtain datoms where r: "r = Inr datoms"
    using assms by (cases r) (simp_all add: edit_op_def io_bind_def has_allows)
  then have d: "get_or params ''datoms'' VNone = VList datoms"
    using v by (auto simp: validate_datoms_run split: val.splits list.splits prod.splits sum.splits)
  have s': "s' = s" and val: "field_of v ''request_hash'' = Inr (VStr (compute_request_hash se params))"
      "field_of v ''echo'' = Inr (VDict [(''datoms'', VList datoms)])"
    using assms v r by (auto simp: edit_op_def io_bind_def has_allows field_of_def)
  have "edit_op se ss (confirm_request h params) s = edit_commit se datoms s"
    if "h = compute_request_hash se params" for h
    using assms(1,2) v d r that
    by (simp add: edit_op_def io_bind_def has_allows confirm_request_def get_or_dset
        confirm_hash[unfolded confirm_request_def])
  then show ?thesis using s' val d
    by (auto simp: edit_commit_run Let_def field_of_def split: sum.splits)
qed

theorem propose_then_confirm_witness:
  "\<exists>v h u s1. edit_op srv_env srv_session srv_edit srv0 = (Inr v, srv0) \<and> field_of v ''request_hash'' = Inr (VStr h) \<and>
    edit_op srv_env srv_session (confirm_request h srv_edit) srv0 = (Inr u, s1) \<and>
    field_of u ''datom_count'' = Inr (VInt 1) \<and> d_v (last (sv_log s1)) = VInt 5"
proof -
  obtain v where v: "edit_op srv_env srv_session srv_edit srv0 = (Inr v, srv0)" using srv_propose by blast
  have "\<not> truthy (get_or srv_edit ''confirm'' (VBool False))" by (simp add: srv_edit_def get_or_def)
  from propose_then_confirm[OF srv_session_caps(1,3) this v]
  obtain datoms h where d: "get_or srv_edit ''datoms'' VNone = VList datoms" and h: "field_of v ''request_hash'' = Inr (VStr h)"
    and c: "let t = srv0\<lparr>sv_ticks := Suc (sv_ticks srv0)\<rparr> in
     case ebind (emap fact_of_val datoms) (\<lambda>fs. transact (se_db srv_env (sv_ticks t)) (sv_log srv0) fs [] False) of
       Inl e \<Rightarrow> edit_op srv_env srv_session (confirm_request h srv_edit) srv0 =
         (Inl (OpError ERR_INTERNAL_ERROR (''transact failed: '' @ se_show srv_env e)), t)
     | Inr l \<Rightarrow> \<exists>u. edit_op srv_env srv_session (confirm_request h srv_edit) srv0 = (Inr u, t\<lparr>sv_log := l\<rparr>) \<and>
         field_of u ''committed'' = Inr (VBool True) \<and>
         field_of u ''datom_count'' = Inr (VInt (int (length datoms)))" by blast
  have e: "datoms = [VDict [(''e'', VStr ''x''), (''a'', VStr ''n''), (''v'', VInt 5)]]"
    using d by (simp add: srv_edit_def get_or_def)
  have "case ebind (emap fact_of_val [VDict [(''e'', VStr ''x''), (''a'', VStr ''n''), (''v'', VInt 5)]])
      (\<lambda>fs. transact (se_db srv_env (Suc (sv_ticks srv0))) (sv_log srv0) fs [] False) of
    Inl _ \<Rightarrow> False | Inr l \<Rightarrow> d_v (last l) = VInt 5" by code_simp
  with c e v h show ?thesis by (auto simp: Let_def split: sum.splits)
qed

text \<open>A branch leaves the session's cursor in the past, where confirmed edits are refused,
  whatever capabilities it has, until the cursor is moved back to the head.\<close>

lemma branch_blocks_edit:
  assumes "branch_op se ss params s = (Inr v, s')"
  shows "\<exists>ss'. dget (sv_sessions s') (ss_id ss) = Some ss' \<and>
    (\<forall>ps t. \<not> truthy (get_or ps ''confirm'' (VBool False)) \<or> (\<exists>code m. fst (edit_op se ss' ps t) = Inl (OpError code m)))"
proof -
  obtain ss' where ss': "branched ss ss'" "sv_sessions s' = dset (ss_id ss) ss' (sv_sessions s)"
    using branch_op_run[where se = se and ss = ss and params = params and s = s] assms by auto
  have "\<exists>code m. fst (edit_op se ss' ps t) = Inl (OpError code m)"
    if "truthy (get_or ps ''confirm'' (VBool False))" for ps t
  proof -
    have cd: "\<exists>code m. r = OpError code m" if "check_datoms i ds t = (Inl r, t')" for i ds r t'
      using that by (induction i ds rule: check_datoms.induct) (auto simp: op_error_def split: option.splits)
    obtain r where v: "validate_datoms (get_or ps ''datoms'' VNone) t = (r, t)" "\<And>e. r = Inl e \<Longrightarrow> \<exists>code m. e = OpError code m"
      using cd by (cases "validate_datoms (get_or ps ''datoms'' VNone) t")
        (auto simp: validate_datoms_run simp del: check_datoms.simps split: val.splits list.splits prod.splits sum.splits)
    show ?thesis
      using that ss'(1) v by (cases r) (auto simp: edit_op_def io_bind_def has_allows op_error_def branched_def)
  qed
  then show ?thesis using ss' by (intro exI[of _ ss']) auto
qed

end
