(* ===== verification/ReplMonitor.thy ===== *)
theory ReplMonitor
  imports ReplServerProps
begin

text \<open>
  The REPL server as a refinement of a reference monitor that knows of each connection only its
  capabilities, whether it looks at the head, and its branch depth; and a concrete run.
\<close>

section \<open>The monitor\<close>

type_synonym abs_session = "capability set \<times> bool \<times> nat"

definition abs_session :: "session \<Rightarrow> abs_session" where
  "abs_session ss = (cs_caps (ss_caps ss), ss_cursor ss = None, ss_depth ss)"

definition abs_conn :: "session option option \<Rightarrow> abs_session option option" where
  "abs_conn = map_option (map_option abs_session)"

text \<open>The moves of one connection: opening, closing, login with the capabilities of a token that
  validates \<open>now\<close>, moving the cursor under rewind:any, going one branch deeper under
  branch:fork.\<close>

inductive mon_step ::
  "text_env \<Rightarrow> log \<Rightarrow> int \<Rightarrow> abs_session option option \<Rightarrow> abs_session option option \<Rightarrow> bool" for te l now where
  stay: "mon_step te l now x x"
| connect: "mon_step te l now None (Some None)"
| close: "mon_step te l now (Some x) None"
| login: "validate_token te l tok now = Inr (Some cs) \<Longrightarrow>
    mon_step te l now (Some x) (Some (Some (cs_caps cs, True, 0)))"
| rewind: "(''rewind'', ''any'') \<in> caps \<Longrightarrow>
    mon_step te l now (Some (Some (caps, h, d))) (Some (Some (caps, h', d)))"
| fork: "(''branch'', ''fork'') \<in> caps \<Longrightarrow> d < 16 \<Longrightarrow>
    mon_step te l now (Some (Some (caps, h, d))) (Some (Some (caps, False, Suc d)))"

lemma session_moves_mon:
  "session_moves ss ss' \<Longrightarrow> mon_step te l now (Some (Some (abs_session ss))) (Some (Some (abs_session ss')))"
  by (auto simp: session_moves_def branched_def abs_session_def allows_def MAX_BRANCH_DEPTH_def
      intro: mon_step.rewind mon_step.fork)

section \<open>Runs with distinct session ids\<close>

text \<open>The registry is keyed by session id, a truncated digest of the token id and a clock reading.
  Two logins of one token under one reading draw the same id, and the second session replaces
  the first in the registry. The guard of the runs below is local to each state: no two open
  connections hold sessions of the same id.\<close>

definition distinct_ids :: "conns \<Rightarrow> bool" where
  "distinct_ids cs \<longleftrightarrow> (\<forall>c c' ss ss'. cs c = Some (Some ss) \<longrightarrow> cs c' = Some (Some ss') \<longrightarrow>
     ss_id ss = ss_id ss' \<longrightarrow> c = c')"

inductive srv_run :: "server_env \<Rightarrow> log \<Rightarrow> server \<times> conns \<Rightarrow> bool" for se l where
  init: "srv_run se l (start_server l 0, Map.empty)"
| step: "srv_run se l x \<Longrightarrow> srv_step se x y \<Longrightarrow> distinct_ids (snd y) \<Longrightarrow> srv_run se l y"

lemma srv_run_reach: "srv_run se l x \<Longrightarrow> srv_reach se l x"
  by (induction rule: srv_run.induct) (auto intro: srv_reach.intros)

text \<open>Then the registry agrees with the connections.\<close>

definition registry_ok :: "server \<times> conns \<Rightarrow> bool" where
  "registry_ok x \<longleftrightarrow> distinct_ids (snd x) \<and>
     (\<forall>c ss. snd x c = Some (Some ss) \<longrightarrow> dget (sv_sessions (fst x)) (ss_id ss) = Some ss)"

lemma own_session: "registry_ok (s, cs) \<Longrightarrow> cs c = Some (Some ss) \<Longrightarrow> dget (sv_sessions s) (ss_id ss) = Some ss"
  by (simp add: registry_ok_def)

lemma other_id:
  "distinct_ids cs \<Longrightarrow> cs c = Some (Some ss) \<Longrightarrow> cs c' = Some (Some ss') \<Longrightarrow> c' \<noteq> c \<Longrightarrow> ss_id ss' \<noteq> ss_id ss"
  unfolding distinct_ids_def by blast

lemma registry_ok_upd:
  assumes ok: "registry_ok (s, cs)" and distinct: "distinct_ids (cs(c := x))"
    and others: "\<And>c' ss. c' \<noteq> c \<Longrightarrow> cs c' = Some (Some ss) \<Longrightarrow> dget (sv_sessions s') (ss_id ss) = dget (sv_sessions s) (ss_id ss)"
    and new: "\<And>ss. x = Some (Some ss) \<Longrightarrow> dget (sv_sessions s') (ss_id ss) = Some ss"
  shows "registry_ok (s', cs(c := x))"
proof -
  have "dget (sv_sessions s') (ss_id ss) = Some ss" if "(cs(c := x)) c' = Some (Some ss)" for c' ss
  proof (cases "c' = c")
    case True
    then show ?thesis using that new by simp
  next
    case False
    then have "cs c' = Some (Some ss)" using that by simp
    then show ?thesis using others[OF False] own_session[OF ok] by simp
  qed
  then show ?thesis using distinct unfolding registry_ok_def fst_conv snd_conv by blast
qed

lemma dget_delete: "k' \<noteq> k \<Longrightarrow> dget (AList.delete k d) k' = dget d k'"
  by (simp add: delete_conv')

lemma registry_ok_drop:
  assumes ok: "registry_ok (s, cs)" and c: "cs c = Some so" and s': "sv_sessions s' = sv_sessions s"
    and d: "distinct_ids (cs(c := None))"
  shows "registry_ok (drop_session so s', cs(c := None))"
proof (rule registry_ok_upd[OF ok d])
  fix c' ss assume c': "c' \<noteq> c" "cs c' = Some (Some ss)"
  show "dget (sv_sessions (drop_session so s')) (ss_id ss) = dget (sv_sessions s) (ss_id ss)"
  proof (cases so)
    case (Some ss0)
    then have "ss_id ss \<noteq> ss_id ss0"
      using other_id[where cs = cs and c = c and c' = c' and ss = ss0 and ss' = ss] ok c c' by (simp add: registry_ok_def)
    then show ?thesis using Some s' by (simp add: drop_session_def pop_session_def dget_delete)
  qed (simp add: drop_session_def s')
qed simp

text \<open>One message moves the session as the monitor allows and keeps the agreement.\<close>

lemma operation_latest:
  assumes "map_of DEFAULT_OPS m = Some h" "dget (sv_sessions s) (ss_id ss) = Some ss"
    and "s2 = snd (h se ss params s)"
  shows "(latest_of_session s2 ss = ss \<or> session_moves ss (latest_of_session s2 ss)) \<and>
    ss_id (latest_of_session s2 ss) = ss_id ss \<and> dget (sv_sessions s2) (ss_id ss) = Some (latest_of_session s2 ss) \<and>
    (\<forall>i. i \<noteq> ss_id ss \<longrightarrow> dget (sv_sessions s2) i = dget (sv_sessions s) i)"
  using op_registry[OF assms(1), of se ss params s] assms(2,3) session_moves_id
  by (auto simp: latest_of_session_def)

lemma message_registry:
  assumes ok: "registry_ok (s, cs)" and c: "cs c = Some so" and run: "handle_message se raw so s = (r, s')"
  shows "(\<forall>so'. r = Inr so' \<longrightarrow>
      mon_step (se_text se) (sv_log s) (se_time se (Suc (sv_ticks s))) (abs_conn (Some so)) (abs_conn (Some so')) \<and>
      (distinct_ids (cs(c \<mapsto> so')) \<longrightarrow> registry_ok (s', cs(c \<mapsto> so')))) \<and>
    (\<forall>e. r = Inl e \<longrightarrow> sv_sessions s' = sv_sessions s)"
proof (cases rule: handle_message_cases[of se raw so s])
  case (refused r' s'')
  have a: "sv_sessions s' = sv_sessions s" and so: "\<And>x. r = Inr x \<Longrightarrow> x = so"
    using refused run by (auto simp: audited_def)
  have "cs(c := Some so) = cs" using c by auto
  then have "registry_ok (s', cs(c := Some so))" using ok a by (simp add: registry_ok_def)
  then show ?thesis using a so mon_step.stay by auto
next
  case (login ss s'')
  then have eq: "r = Inr (Some ss)" "s' = s''" using run by simp_all
  define d where "d = (case so of None \<Rightarrow> sv_sessions s | Some p \<Rightarrow> AList.delete (ss_id p) (sv_sessions s))"
  obtain tok where v: "validate_token (se_text se) (sv_log s) tok (se_time se (Suc (sv_ticks s))) = Inr (Some (ss_caps ss))"
    and new: "ss_cursor ss = None" "ss_depth ss = 0" "sv_sessions s' = dset (ss_id ss) ss d"
    using login(2) eq by (auto simp: logged_in_def d_def)
  have "registry_ok (s', cs(c := Some (Some ss)))" if di: "distinct_ids (cs(c := Some (Some ss)))"
  proof (rule registry_ok_upd[OF ok di])
    fix c' ss' assume c': "c' \<noteq> c" "cs c' = Some (Some ss')"
    then have "ss_id ss' \<noteq> ss_id ss" using other_id[OF di, where c = c and c' = c' and ss = ss and ss' = ss'] by simp
    moreover have "dget d (ss_id ss') = dget (sv_sessions s) (ss_id ss')"
    proof (cases so)
      case (Some p)
      then have "ss_id ss' \<noteq> ss_id p" using other_id[where cs = cs and c = c and c' = c' and ss = p and ss' = ss'] ok c c' by (simp add: registry_ok_def)
      then show ?thesis using Some by (simp add: d_def dget_delete)
    qed (simp add: d_def)
    ultimately show "dget (sv_sessions s') (ss_id ss') = dget (sv_sessions s) (ss_id ss')" using new(3) by simp
  qed (use new(3) in auto)
  moreover have "mon_step (se_text se) (sv_log s) (se_time se (Suc (sv_ticks s))) (abs_conn (Some so)) (abs_conn (Some (Some ss)))"
    using mon_step.login[OF v] new by (simp add: abs_conn_def abs_session_def)
  ultimately show ?thesis using eq by auto
next
  case (operation payload req ss h s2 s'')
  let ?s1 = "s\<lparr>sv_ticks := Suc (sv_ticks s)\<rparr>"
  have eq: "r = Inr (Some (latest_of_session s2 ss))" "s' = s''" using operation(6) run by simp_all
  have so: "so = Some ss" by (rule operation(3))
  have own: "dget (sv_sessions ?s1) (ss_id ss) = Some ss" using own_session[OF ok] c so by simp
  note L = operation_latest[OF operation(4) own operation(5)]
  have sess: "sv_sessions s' = sv_sessions s2" using operation(7) eq by (simp add: audited_def)
  have "registry_ok (s', cs(c := Some (Some (latest_of_session s2 ss))))"
    if "distinct_ids (cs(c := Some (Some (latest_of_session s2 ss))))"
  proof (rule registry_ok_upd[OF ok that])
    show "dget (sv_sessions s') (ss_id ss') = dget (sv_sessions s) (ss_id ss')" if "c' \<noteq> c" "cs c' = Some (Some ss')" for c' ss'
      using other_id[where cs = cs and c = c and c' = c' and ss = ss and ss' = ss'] ok c so that L sess by (simp add: registry_ok_def)
  qed (use L sess in auto)
  moreover have "mon_step (se_text se) (sv_log s) (se_time se (Suc (sv_ticks s))) (abs_conn (Some so))
      (abs_conn (Some (Some (latest_of_session s2 ss))))"
    using L session_moves_mon mon_step.stay so by (auto simp: abs_conn_def)
  ultimately show ?thesis using eq by auto
qed

lemma registry_step:
  assumes "srv_step se x y" "registry_ok x"
  shows "(distinct_ids (snd y) \<longrightarrow> registry_ok y) \<and>
    (\<forall>c. mon_step (se_text se) (sv_log (fst x)) (se_time se (Suc (sv_ticks (fst x)))) (abs_conn (snd x c)) (abs_conn (snd y c)))"
  using assms
proof (induction rule: srv_step.induct)
  case (connect cs c s)
  have "registry_ok (s, cs(c := Some None))" if "distinct_ids (cs(c := Some None))"
    by (rule registry_ok_upd[OF connect(2) that]) simp_all
  then show ?case using connect(1) by (auto simp: abs_conn_def mon_step.stay mon_step.connect fun_upd_def)
next
  case (message cs c so raw s so' s')
  then show ?case using message_registry[OF message(3,1,2)] by (auto simp: mon_step.stay fun_upd_def)
next
  case (crash cs c so raw s e s')
  then have "sv_sessions s' = sv_sessions s" using message_registry[OF crash(3,1,2)] by simp
  then show ?case using registry_ok_drop[OF crash(3,1)] crash(1)
    by (auto simp: abs_conn_def mon_step.stay mon_step.close fun_upd_def)
next
  case (close cs c so s)
  then show ?case using registry_ok_drop[OF close(2,1)]
    by (auto simp: abs_conn_def mon_step.stay mon_step.close fun_upd_def)
next
  case (restart s cs)
  have "mon_step te l now x None" for te l now and x :: "abs_session option option"
    by (cases x) (auto intro: mon_step.stay mon_step.close)
  then show ?case by (auto simp: registry_ok_def abs_conn_def)
next
  case (writer env s facts prov force l cs)
  then show ?case by (auto simp: registry_ok_def mon_step.stay)
qed

lemma registry_run: "srv_run se l x \<Longrightarrow> registry_ok x"
proof (induction rule: srv_run.induct)
  case init
  then show ?case by (simp add: registry_ok_def distinct_ids_def)
next
  case (step x y)
  then show ?case using registry_step by blast
qed

text \<open>C27. The server refines the monitor. Take a run in whose states no two open connections hold
  sessions with the same id. Whatever step the server takes next (a message of any connection, a
  crash, a restart, another writer), every connection moves as the monitor allows: none gains
  capabilities, moves its cursor or deepens its branch except by its own login, with a token that
  validates at that reading of the clock, or under the capability that the move needs.\<close>

theorem server_refines_monitor:
  assumes "srv_run se l (s, cs)" "srv_step se (s, cs) (s', cs')"
  shows "mon_step (se_text se) (sv_log s) (se_time se (Suc (sv_ticks s))) (abs_conn (cs c)) (abs_conn (cs' c))"
  using registry_step[OF assms(2) registry_run[OF assms(1)]] by simp

lemma srv_run_open: "srv_run srv_env srv_log (srv0, open_conn)"
  using srv_run.step[OF srv_run.init[of srv_env srv_log] srv_step.connect[of Map.empty 0 srv_env]]
  by (simp add: srv0_def open_conn_def distinct_ids_def)

theorem server_refines_monitor_witness:
  "\<exists>s' cs' ss. srv_step srv_env (srv0, open_conn) (s', cs') \<and> cs' 0 = Some (Some ss) \<and>
    srv_run srv_env srv_log (s', cs') \<and>
    mon_step srv_text srv_log 1 (abs_conn (open_conn 0)) (Some (Some (cs_caps srv_caps, True, 0)))"
proof -
  obtain ss s' where st: "srv_step srv_env (srv0, open_conn) (s', open_conn(0 \<mapsto> Some ss))" and t: "ss_caps ss = srv_caps"
    "ss_cursor ss = None" "ss_depth ss = 0"
    by (rule srv_login_step)
  have "distinct_ids (open_conn(0 \<mapsto> Some ss))" by (auto simp: distinct_ids_def open_conn_def split: if_splits)
  then have "srv_run srv_env srv_log (s', open_conn(0 \<mapsto> Some ss))" using srv_run.step[OF srv_run_open st] by simp
  moreover have "mon_step srv_text srv_log 1 (abs_conn (open_conn 0)) (Some (Some (cs_caps srv_caps, True, 0)))"
    using server_refines_monitor[OF srv_run_open st, where c = 0] t by (simp add: abs_conn_def abs_session_def)
  ultimately show ?thesis by - (intro exI conjI, rule st, simp_all)
qed

end
