(* ===== verification/ReplAuditProps.thy ===== *)
theory ReplAuditProps
  imports ReplMonitor
begin

text \<open>
  Properties of the durable audit of the REPL server: an operation's entry is read back from the
  store as it was emitted, and the window query returns the matching entries in log order.
\<close>

section \<open>Reading an entry back\<close>

lemma verdict_back: "v \<in> set PYTHON_VERDICTS \<Longrightarrow> as_edn v = Inr x \<Longrightarrow> as_python x = Inr v"
  using as_python_as_edn[of v] by (simp add: ebind_Inr_iff)

lemma repl_principal_canon: "canon_principal (repl_principal who k) = repl_principal who k"
  by (simp add: canon_principal_def repl_principal_def lstrip_colon_def)

lemma repl_principal_back: "keyword_map_to_principal (principal_to_keyword_map (repl_principal who k)) = repl_principal who k"
  by (simp add: keyword_map_to_principal_def principal_to_keyword_map_def repl_principal_def lstrip_colon_def)

lemma emitted_entry:
  assumes "emit_repl_op_audit se entries who oo now = Inr e"
  shows "e = (repl_content se who oo now (last_id entries))\<lparr>e_id := e_id e\<rparr>"
  using build_entry_Inr(2)[OF assms[unfolded emit_repl_op_audit_def]]
  by (simp add: canonicalise_content_def repl_content_def repl_principal_canon)

lemma no_placeholder_str: "\<not> is_placeholder (VStr s)" "\<not> is_placeholder (opt_val x)" "\<not> is_placeholder (VInt 1)"
  "\<not> is_placeholder (VList xs)" "\<not> is_placeholder (VDict kvs)"
  by (auto simp: is_placeholder_def py_eq_def TX_PLACEHOLDER_def opt_val_def split: option.split)

lemma audit_prov_stable:
  assumes "ap_txn_commit p = VNone"
  shows "patch_prov tx (canon_source (audit_prov_dict p)) = audit_prov_dict p" "canon_source (audit_prov_dict p) = audit_prov_dict p"
proof -
  show c: "canon_source (audit_prov_dict p) = audit_prov_dict p"
    by (simp add: canon_source_def audit_prov_dict_def assms split: option.split)
  show "patch_prov tx (canon_source (audit_prov_dict p)) = audit_prov_dict p"
    unfolding c by (simp add: patch_prov_def audit_prov_dict_def assms no_placeholder_str split: option.split)
qed

text \<open>The stored datom of an entry.\<close>

lemma persisted_datom:
  assumes "persist_repl_audit conforms l e = Inr l'" "e_txn_commit e = VNone" "e_op e = '':repl/op''"
  obtains ad d where "audit_entry_to_datom conforms e = Inr ad" "l' = l @ [d]" "d_a d = ''audit/repl.op''"
    "d_v d = audit_value_val (ad_v ad)" "d_tx_time d = ad_tx_time ad"
    "d_provenance d = audit_prov_dict (ad_provenance ad)"
proof -
  obtain ad where ad: "audit_entry_to_datom conforms e = Inr ad"
    and l': "l' = fst (transact_serializable l [repl_audit_datom ad] (Some (ad_tx_time ad)))"
    using assms(1) by (auto simp: persist_repl_audit_def ebind_Inr_iff)
  define d where "d = with_tx (next_tx l) (replace_tx_time (ad_tx_time ad) (repl_audit_datom ad))"
  have a: "lstrip_colon (ad_a ad) = ''audit/repl.op''" by (rule repl_op_attr[OF assms(3) ad])
  have t: "ap_txn_commit (ad_provenance ad) = VNone"
    using ad assms(2) by (auto simp: audit_entry_to_datom_def ebind_Inr_iff Let_def split: if_splits)
  note stable = audit_prov_stable[OF t]
  have "d_provenance d = audit_prov_dict (ad_provenance ad)"
    using stable by (simp add: d_def with_tx_def replace_tx_time_def repl_audit_datom_def)
  moreover have "d_v d = audit_value_val (ad_v ad)" "d_tx_time d = ad_tx_time ad" "d_a d = ''audit/repl.op''"
    using a by (simp_all add: d_def replace_tx_time_def repl_audit_datom_def lstrip_colon_def[of "''audit/repl.op''"])
  moreover have "l' = l @ [d]"
    by (simp add: l' transact_serializable_def allocate_and_append_def Let_def d_def)
  ultimately show ?thesis using that ad by blast
qed

text \<open>C28. The entry emitted for an operation and persisted is one new datom of the log that the
  audit window selects as a REPL operation, at the time of the operation, and that reads back as
  the summary of the very entry in the ring.\<close>

theorem audit_reads_back:
  assumes "emit_repl_op_audit se entries who oo now = Inr e" "oo_verdict oo \<in> set PYTHON_VERDICTS"
    and "persist_repl_audit conforms l e = Inr l'"
  shows "\<exists>d. l' = l @ [d] \<and> d_tx_time d = now \<and> window_attr (Some '':repl/op'') d \<and>
    summary_of_datom d = Inr (audit_entry_to_summary e)"
proof -
  note E = emitted_entry[OF assms(1)]
  define i where "i = e_id e"
  have e: "e = (repl_content se who oo now (last_id entries))\<lparr>e_id := i\<rparr>" using E by (simp add: i_def)
  obtain ad d where ad: "audit_entry_to_datom conforms e = Inr ad" and l': "l' = l @ [d]"
    and d: "d_a d = ''audit/repl.op''" "d_v d = audit_value_val (ad_v ad)" "d_tx_time d = ad_tx_time ad"
      "d_provenance d = audit_prov_dict (ad_provenance ad)"
    by (rule persisted_datom[OF assms(3)]) (simp_all add: e repl_content_def)
  obtain vd where vd: "as_edn (oo_verdict oo) = Inr vd" and adeq: "ad_v ad = \<lparr>av_verdict = vd, av_args_hash = e_args_hash e,
      av_result_hash = e_result_hash e, av_latency_ms = e_latency_ms e, av_error = e_error e\<rparr>"
    "ad_tx_time ad = now" "ad_provenance ad = \<lparr>ap_signature = i, ap_prev_hash = e_prev_hash e,
      ap_parent_provenance_hash = e_prev_hash e, ap_handler_chain = [], ap_policy_id = None,
      ap_principal = principal_to_keyword_map (repl_principal who (oo_kind oo)), ap_episode = None, ap_txn_commit = VNone\<rparr>"
    using ad by (auto simp: audit_entry_to_datom_def ebind_Inr_iff Let_def e repl_content_def split: if_splits)
  have op: "op_of_attr ''audit/repl.op'' = '':repl/op''" by (simp add: op_of_attr_def replace_char_def)
  have "summary_of_datom d = Inr (audit_entry_to_summary e)"
    unfolding summary_of_datom_def Let_def d op adeq audit_value_val_def audit_prov_dict_def
    by (simp add: field_of_def verdict_of_val_def verdict_back[OF assms(2) vd] get_or_def iterable_def principal_of_val_def
        repl_principal_back repl_principal_canon audit_entry_to_summary_def)
      (simp add: e repl_content_def)
  moreover have "window_attr (Some '':repl/op'') d"
    by (simp add: window_attr_def d(1) startswith_def replace_char_def lstrip_colon_def)
  ultimately show ?thesis using l' d(3) adeq(2) by blast
qed

theorem audit_reads_back_witness:
  "\<exists>e l' d. emit_repl_op_audit srv_env [] (pre_auth ''t'') srv_outcome 1 = Inr e \<and>
    persist_repl_audit (\<lambda>_. True) [] e = Inr l' \<and> l' = [d] \<and> summary_of_datom d = Inr (audit_entry_to_summary e)"
proof -
  obtain e where e: "emit_repl_op_audit srv_env [] (pre_auth ''t'') srv_outcome 1 = Inr e" by (rule emit_ok)
  have v: "oo_verdict srv_outcome \<in> set PYTHON_VERDICTS" by (simp add: srv_outcome_def PYTHON_VERDICTS_def)
  have "e_verdict e = ''ok''" using arg_cong[OF emitted_entry[OF e], of e_verdict]
    by (simp add: repl_content_def srv_outcome_def)
  then obtain l' where "persist_repl_audit (\<lambda>_. True) [] e = Inr l'"
    by (auto simp: persist_repl_audit_def audit_entry_to_datom_def as_edn_def startswith_def PYTHON_VERDICTS_def)
  then show ?thesis using audit_reads_back[OF e v] e append_Nil by metis
qed

section \<open>The window query\<close>

definition window_hits :: "(datom \<Rightarrow> err + val option) \<Rightarrow> log \<Rightarrow> val list" where
  "window_hits f l = concat (map (\<lambda>d. case f d of Inr (Some s) \<Rightarrow> [s] | _ \<Rightarrow> []) l)"

lemma window_loop_take:
  assumes "\<And>d. d \<in> set l \<Longrightarrow> \<exists>r. f d = Inr r" "length out < nat (max 1 limit)"
  shows "window_loop f limit out l = Inr (take (nat (max 1 limit)) (out @ window_hits f l))"
  using assms
proof (induction l arbitrary: out)
  case Nil
  then show ?case by (simp add: window_hits_def)
next
  case (Cons d l)
  obtain r where r: "f d = Inr r" using Cons.prems(1)[of d] by auto
  show ?case
  proof (cases r)
    case None
    then show ?thesis using Cons r by (simp add: window_hits_def)
  next
    case (Some s)
    show ?thesis
    proof (cases "limit \<le> int (length (out @ [s]))")
      case True
      then have "nat (max 1 limit) = length (out @ [s])" using Cons.prems(2) by auto
      then show ?thesis using r Some True by (simp add: window_hits_def)
    next
      case False
      then show ?thesis using r Some Cons.IH[of "out @ [s]"] Cons.prems by (simp add: window_hits_def)
    qed
  qed
qed

text \<open>When no datom makes the scan raise, the audit window is the matching entries in log
  order, cut at the limit; a limit of zero still returns one entry.\<close>

lemma audit_window_prefix:
  assumes "\<And>d. d \<in> set l \<Longrightarrow> \<exists>r. window_entry (soft_iso te from_iso) (soft_iso te to_iso) op_filter d = Inr r"
  shows "audit_window_query te l from_iso to_iso op_filter limit = Inr (take (nat (max 1 limit))
    (window_hits (window_entry (soft_iso te from_iso) (soft_iso te to_iso) op_filter) l))"
  unfolding audit_window_query_def by (subst window_loop_take[OF assms]) simp_all

definition audit_sample :: "int \<Rightarrow> datom" where
  "audit_sample n = \<lparr>d_e = ''x'', d_a = ''audit/repl.op'',
     d_v = VDict [(''verdict'', VStr '':ok''), (''args_hash'', VStr ''h''), (''latency_ms'', VInt 0)], d_tx = n,
     d_tx_time = n, d_valid_from = n, d_valid_to = None, d_op = Assert,
     d_provenance = [('':signature'', VStr (nat_str (nat n)))], d_invalidated_by = None\<rparr>"

end
