(* ===== verification/Replay.thy ===== *)
theory Replay
  imports MctsActions Runtime
begin

text \<open>
  \<open>persistence.replay\<close>: the record/replay cache of effects, trajectories and their digest, and the
  engine that records a trajectory and replays it under interventions. The agent and its world
  are callbacks; a computation runs over the handler's state extended by whatever the effects
  themselves touch. A random generator is its seed with the number of draws taken so far.
\<close>

section \<open>effect_handler.py\<close>

definition NON_REPLAYABLE_OPS :: "string list" where
  "NON_REPLAYABLE_OPS = ['':net/fetch'', '':tool/call'']"

definition PROMPT_HASH_OPS :: "string list" where
  "PROMPT_HASH_OPS = ['':llm/call'']"

record call_rec =
  cr_op :: string
  cr_args :: "val dict"
  cr_key :: string
  cr_result :: val

record effects =
  eh_mode :: string
  eh_cache :: "val dict"
  eh_calls :: "call_rec list"

definition args_hash :: "(string \<Rightarrow> string) \<Rightarrow> string \<Rightarrow> val dict \<Rightarrow> string" where
  "args_hash sha op args = ''sha256:'' @ sha (compact_json (VDict [(''op'', VStr op), (''args'', VDict args)]))"

definition prompt_hash :: "string \<Rightarrow> val dict \<Rightarrow> val" where
  "prompt_hash op args = (if op \<in> set PROMPT_HASH_OPS then (case dget args ''prompt_hash'' of None \<Rightarrow> VNone | Some v \<Rightarrow> v) else VNone)"

definition without_prompt :: "val dict \<Rightarrow> val" where
  "without_prompt args = VDict (filter (\<lambda>(k, v). k \<noteq> ''prompt_hash'') args)"

text \<open>A recorded call with the same other arguments: the prompt template drifted.\<close>

definition prompt_drifted :: "string \<Rightarrow> val dict \<Rightarrow> call_rec list \<Rightarrow> bool" where
  "prompt_drifted op args calls \<longleftrightarrow> op \<in> set PROMPT_HASH_OPS \<and>
     list_ex (\<lambda>r. cr_op r = op \<and> py_eq (without_prompt (cr_args r)) (without_prompt args)) calls"

definition store_result :: "string \<Rightarrow> val dict \<Rightarrow> string \<Rightarrow> val \<Rightarrow> ('x effects_scheme, val) io" where
  "store_result op args key result s = (Inr result, s\<lparr>eh_cache := dset key result (eh_cache s),
     eh_calls := eh_calls s @ [\<lparr>cr_op = op, cr_args = args, cr_key = key, cr_result = result\<rparr>]\<rparr>)"

definition serve_or_miss :: "(string \<Rightarrow> string) \<Rightarrow> string \<Rightarrow> val dict \<Rightarrow> ('x effects_scheme, val) io \<Rightarrow>
    ('x effects_scheme, val) io" where
  "serve_or_miss sha op args execute s =
     (let key = args_hash sha op args in
      case dget (eh_cache s) key of
        Some v \<Rightarrow> (Inr v, s)
      | None \<Rightarrow>
          if eh_mode s = ''replay'' \<and> op \<in> set NON_REPLAYABLE_OPS then (Inl RefusedInReplay, s)
          else if eh_mode s = ''replay'' \<and> prompt_drifted op args (eh_calls s) then (Inl PromptHashMismatch, s)
          else if eh_mode s = ''replay'' \<and> eh_cache s = [] then (Inl ReplayCacheMiss, s)
          else io_bind execute (store_result op args key) s)"

definition handler_call :: "(string \<Rightarrow> string) \<Rightarrow> string \<Rightarrow> val dict \<Rightarrow> ('x effects_scheme, val) io \<Rightarrow>
    ('x effects_scheme, val) io" where
  "handler_call = serve_or_miss"

definition op_of_key :: "'x effects_scheme \<Rightarrow> string \<Rightarrow> string option" where
  "op_of_key s key =
     (case find (\<lambda>r. cr_key r = key) (eh_calls s) of
        Some r \<Rightarrow> Some (cr_op r)
      | None \<Rightarrow> (case dget (eh_cache s) key of
            Some (VDict d) \<Rightarrow> if dget d ''logprobs'' \<noteq> None then Some '':llm/call'' else None
          | _ \<Rightarrow> None))"

text \<open>The handler for the effect runtime: the continuation is what a miss executes. Its context
  is the state it is pushed with.\<close>

definition replay_clause :: "(string \<Rightarrow> string) \<Rightarrow> string \<Rightarrow> 'x effects_scheme clause" where
  "replay_clause sha op ops args k = serve_or_miss sha op args (k args)"

definition make_replay_handler :: "(string \<Rightarrow> string) \<Rightarrow> string \<Rightarrow> string list \<Rightarrow> err + 'x effects_scheme handler" where
  "make_replay_handler sha mode wraps =
     (if mode \<noteq> ''record'' \<and> mode \<noteq> ''replay'' then Inl ValueError
      else mk_handler ''replay'' wraps (map (\<lambda>op. (op, replay_clause sha op)) wraps))"

section \<open>trajectory.py\<close>

record tfact =
  tf_step :: int
  tf_t :: val
  tf_state :: val
  tf_obs :: val
  tf_llm_in :: val
  tf_llm_out :: val
  tf_action :: val
  tf_tool_calls :: val
  tf_random_draws :: val

definition fact_to_dict :: "tfact \<Rightarrow> val dict" where
  "fact_to_dict f =
     [(''step'', VInt (tf_step f)), (''t'', tf_t f), (''state'', tf_state f), (''obs'', tf_obs f),
      (''llm_in'', tf_llm_in f), (''llm_out'', tf_llm_out f), (''action'', tf_action f),
      (''tool_calls'', tf_tool_calls f), (''random_draws'', tf_random_draws f)]"

text \<open>\<open>cls(**d)\<close>: an unknown key or a missing field without default is a \<open>TypeError\<close>. Steps are
  integers.\<close>

definition fact_from_dict :: "val \<Rightarrow> err + tfact" where
  "fact_from_dict v =
     (case v of
        VDict d \<Rightarrow>
          if \<not> list_all (\<lambda>(k, x). k \<in> {''step'', ''t'', ''state'', ''obs'', ''llm_in'', ''llm_out'', ''action'',
               ''tool_calls'', ''random_draws''}) d then Inl TypeError
          else (case (dget d ''step'', dget d ''t'', dget d ''state'', dget d ''obs'', dget d ''llm_in'',
               dget d ''llm_out'', dget d ''action'') of
             (Some (VInt s), Some t, Some st, Some ob, Some li, Some lo, Some ac) \<Rightarrow>
               Inr \<lparr>tf_step = s, tf_t = t, tf_state = st, tf_obs = ob, tf_llm_in = li, tf_llm_out = lo, tf_action = ac,
                 tf_tool_calls = (case dget d ''tool_calls'' of None \<Rightarrow> VList [] | Some x \<Rightarrow> x),
                 tf_random_draws = (case dget d ''random_draws'' of None \<Rightarrow> VDict [] | Some x \<Rightarrow> x)\<rparr>
           | _ \<Rightarrow> Inl TypeError)
      | _ \<Rightarrow> Inl TypeError)"

record intervention =
  iv_step :: int
  iv_field :: string
  iv_new_value :: val

definition intervention_val :: "intervention \<Rightarrow> val" where
  "intervention_val iv = VDict [(''step'', VInt (iv_step iv)), (''field'', VStr (iv_field iv)), (''new_value'', iv_new_value iv)]"

record trajectory =
  tj_id :: string
  tj_parent_id :: "string option"
  tj_branch_point :: "int option"
  tj_intervention :: "intervention list option"
  tj_agent :: string
  tj_goal :: val
  tj_seeds :: "val dict"
  tj_started_at :: "string option"
  tj_wall_clock_basis :: string
  tj_status :: string
  tj_outcome :: "val dict"
  tj_facts :: "tfact list"
  tj_hash :: "string option"
  tj_tags :: "string set"
  tj_cache :: "val dict"
  tj_call_log :: "call_rec list"
  tj_extrapolated :: bool

definition opt_str :: "string option \<Rightarrow> val" where
  "opt_str x = (case x of None \<Rightarrow> VNone | Some s \<Rightarrow> VStr s)"

definition call_val :: "call_rec \<Rightarrow> val" where
  "call_val r = VDict [(''op'', VStr (cr_op r)), (''args'', VDict (cr_args r)), (''key'', VStr (cr_key r)),
     (''result'', cr_result r)]"

definition traj_to_dict :: "trajectory \<Rightarrow> val dict" where
  "traj_to_dict t =
     [(''id'', VStr (tj_id t)), (''parent_id'', opt_str (tj_parent_id t)),
      (''branch_point'', case tj_branch_point t of None \<Rightarrow> VNone | Some n \<Rightarrow> VInt n),
      (''intervention'', case tj_intervention t of None \<Rightarrow> VNone | Some ivs \<Rightarrow> VList (map intervention_val ivs)),
      (''agent'', VStr (tj_agent t)), (''goal'', tj_goal t), (''seeds'', VDict (tj_seeds t)),
      (''started_at'', opt_str (tj_started_at t)), (''wall_clock_basis'', VStr (tj_wall_clock_basis t)),
      (''status'', VStr (tj_status t)), (''outcome'', VDict (tj_outcome t)),
      (''facts'', VList (map (VDict \<circ> fact_to_dict) (tj_facts t))), (''hash'', opt_str (tj_hash t)),
      (''tags'', VList (map VStr (sorted_list_of_set (tj_tags t)))), (''cache'', VDict (tj_cache t)),
      (''call_log'', VList (map call_val (tj_call_log t))), (''extrapolated'', VBool (tj_extrapolated t))]"

definition HASH_IGNORE_FIELDS :: "string list" where
  "HASH_IGNORE_FIELDS = [''id'', ''hash'', ''started_at'', ''cache'', ''call_log'', ''parent_id'', ''branch_point'',
     ''intervention'', ''status'']"

definition trajectory_hash :: "(string \<Rightarrow> string) \<Rightarrow> trajectory \<Rightarrow> string" where
  "trajectory_hash sha t = ''sha256:'' @ sha (compact_json (VDict
     (filter (\<lambda>(k, v). k \<notin> set HASH_IGNORE_FIELDS) (traj_to_dict t))))"

text \<open>Reading a trajectory back from its dictionary, where a missing or falsy field gets its default
  (\<open>fresh_id\<close> is the uuid of a trajectory without id). The fields are typed: a value of
  another type is a \<open>TypeError\<close> here, and passes unchecked in Python.\<close>

definition dict_or :: "val dict \<Rightarrow> string \<Rightarrow> val \<Rightarrow> val" where
  "dict_or d k dflt = (case dget d k of None \<Rightarrow> dflt | Some v \<Rightarrow> if truthy v then v else dflt)"

definition dict_get :: "val dict \<Rightarrow> string \<Rightarrow> val \<Rightarrow> val" where
  "dict_get d k dflt = (case dget d k of None \<Rightarrow> dflt | Some v \<Rightarrow> v)"

fun as_str :: "val \<Rightarrow> err + string" where
  "as_str (VStr s) = Inr s"
| "as_str _ = Inl TypeError"

fun as_opt_str :: "val \<Rightarrow> err + string option" where
  "as_opt_str VNone = Inr None"
| "as_opt_str (VStr s) = Inr (Some s)"
| "as_opt_str _ = Inl TypeError"

fun as_opt_int :: "val \<Rightarrow> err + int option" where
  "as_opt_int VNone = Inr None"
| "as_opt_int (VInt i) = Inr (Some i)"
| "as_opt_int _ = Inl TypeError"

fun as_dict :: "val \<Rightarrow> err + val dict" where
  "as_dict (VDict d) = Inr d"
| "as_dict _ = Inl TypeError"

fun as_list :: "val \<Rightarrow> err + val list" where
  "as_list (VList xs) = Inr xs"
| "as_list _ = Inl TypeError"

definition intervention_of :: "val \<Rightarrow> err + intervention" where
  "intervention_of v =
     (case v of
        VDict [(k1, VInt s), (k2, VStr f), (k3, x)] \<Rightarrow>
          if k1 = ''step'' \<and> k2 = ''field'' \<and> k3 = ''new_value''
          then Inr \<lparr>iv_step = s, iv_field = f, iv_new_value = x\<rparr> else Inl TypeError
      | _ \<Rightarrow> Inl TypeError)"

definition call_of :: "val \<Rightarrow> err + call_rec" where
  "call_of v =
     (case v of
        VDict [(k1, VStr op), (k2, VDict args), (k3, VStr key), (k4, x)] \<Rightarrow>
          if k1 = ''op'' \<and> k2 = ''args'' \<and> k3 = ''key'' \<and> k4 = ''result''
          then Inr \<lparr>cr_op = op, cr_args = args, cr_key = key, cr_result = x\<rparr> else Inl TypeError
      | _ \<Rightarrow> Inl TypeError)"

definition DEFAULT_SEEDS :: val where
  "DEFAULT_SEEDS = VDict [(''llm'', VInt 0), (''tool'', VInt 0), (''env'', VInt 0)]"

definition traj_from_dict :: "string \<Rightarrow> val dict \<Rightarrow> err + trajectory" where
  "traj_from_dict fresh_id d =
     ebind (ebind (as_list (dict_or d ''tags'' (VList []))) (emap as_str)) (\<lambda>tags.
     ebind (ebind (as_list (dict_get d ''facts'' (VList []))) (emap fact_from_dict)) (\<lambda>facts.
     ebind (as_str (dict_or d ''id'' (VStr fresh_id))) (\<lambda>tid.
     ebind (as_opt_str (dict_get d ''parent_id'' VNone)) (\<lambda>parent.
     ebind (as_opt_int (dict_get d ''branch_point'' VNone)) (\<lambda>bp.
     ebind (case dict_get d ''intervention'' VNone of VNone \<Rightarrow> Inr None
        | v \<Rightarrow> ebind (ebind (as_list v) (emap intervention_of)) (\<lambda>ivs. Inr (Some ivs))) (\<lambda>ivs.
     ebind (as_str (dict_get d ''agent'' (VStr []))) (\<lambda>agent.
     ebind (as_dict (let v = dict_get d ''seeds'' DEFAULT_SEEDS in if truthy v then v else VDict [])) (\<lambda>seeds.
     ebind (as_opt_str (dict_get d ''started_at'' VNone)) (\<lambda>started.
     ebind (as_str (dict_get d ''wall_clock_basis'' (VStr ''recorded''))) (\<lambda>basis.
     ebind (as_str (dict_get d ''status'' (VStr ''completed''))) (\<lambda>status.
     ebind (as_dict (dict_or d ''outcome'' (VDict []))) (\<lambda>outcome.
     ebind (as_opt_str (dict_get d ''hash'' VNone)) (\<lambda>hsh.
     ebind (as_dict (dict_or d ''cache'' (VDict []))) (\<lambda>cache.
     ebind (ebind (as_list (dict_or d ''call_log'' (VList []))) (emap call_of)) (\<lambda>calls.
       Inr \<lparr>tj_id = tid, tj_parent_id = parent, tj_branch_point = bp, tj_intervention = ivs, tj_agent = agent,
         tj_goal = dict_or d ''goal'' (VDict []), tj_seeds = seeds, tj_started_at = started,
         tj_wall_clock_basis = basis, tj_status = status, tj_outcome = outcome, tj_facts = facts, tj_hash = hsh,
         tj_tags = set tags, tj_cache = cache, tj_call_log = calls,
         tj_extrapolated = truthy (dict_get d ''extrapolated'' (VBool False))\<rparr>)))))))))))))))"

section \<open>engine.py\<close>

definition FIELD_MAP :: "(string \<times> string) list" where
  "FIELD_MAP = [('':action'', ''action''), (''action'', ''action''), ('':obs'', ''obs''), (''obs'', ''obs''),
     ('':llm-out'', ''llm_out''), (''llm-out'', ''llm_out''), (''llm_out'', ''llm_out''),
     ('':state'', ''state''), (''state'', ''state'')]"

type_synonym rng = "val \<times> nat"

record rngs =
  rg_llm :: rng
  rg_tool :: rng
  rg_env :: rng

text \<open>What the engine reads besides its arguments: the digest, the n-th number a generator of a
  seed draws, the float zero, the deep copy being the identity on values.\<close>

record replay_env =
  rp_sha :: "string \<Rightarrow> string"
  rp_random :: "val \<Rightarrow> nat \<Rightarrow> val"
  rp_zero :: val

definition mk_rngs :: "val dict \<Rightarrow> rngs" where
  "mk_rngs seeds = (let g = \<lambda>k. (case dget seeds k of None \<Rightarrow> VInt 0 | Some s \<Rightarrow> s, 0) in
     \<lparr>rg_llm = g ''llm'', rg_tool = g ''tool'', rg_env = g ''env''\<rparr>)"

definition draw :: "replay_env \<Rightarrow> rng \<Rightarrow> val" where
  "draw env g = rp_random env (fst g) (snd g)"

definition drawn :: "rng \<Rightarrow> rng" where
  "drawn g = (fst g, Suc (snd g))"

definition advance_rngs :: "rngs \<Rightarrow> rngs" where
  "advance_rngs r = r\<lparr>rg_llm := drawn (rg_llm r), rg_env := drawn (rg_env r)\<rparr>"

type_synonym 'x agent_step = "val \<Rightarrow> val \<Rightarrow> rngs \<Rightarrow> ('x effects_scheme, tfact \<times> rngs) io"

type_synonym apply_action = "val \<Rightarrow> val \<Rightarrow> val \<Rightarrow> err + val"

definition state_get :: "val \<Rightarrow> string \<Rightarrow> val \<Rightarrow> err + val" where
  "state_get st k zero = (case st of VDict d \<Rightarrow> Inr (case dget d k of None \<Rightarrow> zero | Some v \<Rightarrow> v) | _ \<Rightarrow> Inl AttributeError)"

definition outcome_of :: "replay_env \<Rightarrow> val \<Rightarrow> err + val dict" where
  "outcome_of env st =
     ebind (state_get st ''pnl'' (rp_zero env)) (\<lambda>p. ebind (state_get st ''balance'' (rp_zero env)) (\<lambda>b.
       Inr [(''pnl'', p), (''balance'', b)]))"

fun record_loop :: "'x agent_step \<Rightarrow> apply_action \<Rightarrow> val list \<Rightarrow> val \<Rightarrow> rngs \<Rightarrow>
    ('x effects_scheme, tfact list \<times> val) io" where
  "record_loop agent act [] st r = io_return ([], st)"
| "record_loop agent act (ob # obs) st r =
     io_bind (agent st ob r) (\<lambda>(f, r').
     io_bind (io_lift (act st ob (tf_action f))) (\<lambda>st'.
     io_bind (record_loop agent act obs st' r') (\<lambda>(fs, last_st). io_return (f # fs, last_st))))"

text \<open>A run starts with a fresh handler over the rest of the world; \<open>fresh_id\<close> is the uuid.\<close>

definition with_handler :: "string \<Rightarrow> val dict \<Rightarrow> call_rec list \<Rightarrow> 'x effects_scheme \<Rightarrow> 'x effects_scheme" where
  "with_handler mode cache calls s = s\<lparr>eh_mode := mode, eh_cache := cache, eh_calls := calls\<rparr>"

definition hashed :: "replay_env \<Rightarrow> trajectory \<Rightarrow> trajectory" where
  "hashed env t = t\<lparr>tj_hash := Some (trajectory_hash (rp_sha env) t)\<rparr>"

definition recorded :: "replay_env \<Rightarrow> string \<Rightarrow> string \<Rightarrow> val \<Rightarrow> string set \<Rightarrow> val dict \<Rightarrow> tfact list \<Rightarrow> val dict \<Rightarrow>
    'x effects_scheme \<Rightarrow> trajectory" where
  "recorded env fresh_id agent_name goal tags seeds fs outcome s = hashed env
     \<lparr>tj_id = fresh_id, tj_parent_id = None, tj_branch_point = None, tj_intervention = None, tj_agent = agent_name,
      tj_goal = goal, tj_seeds = seeds, tj_started_at = None, tj_wall_clock_basis = ''recorded'',
      tj_status = ''completed'', tj_outcome = outcome, tj_facts = fs, tj_hash = None, tj_tags = tags,
      tj_cache = eh_cache s, tj_call_log = eh_calls s, tj_extrapolated = False\<rparr>"

definition record_run :: "replay_env \<Rightarrow> string \<Rightarrow> 'x agent_step \<Rightarrow> apply_action \<Rightarrow> val list \<Rightarrow> val dict \<Rightarrow> val \<Rightarrow>
    string \<Rightarrow> val \<Rightarrow> string set \<Rightarrow> ('x effects_scheme, trajectory) io" where
  "record_run env fresh_id agent act obs_stream seeds initial_state agent_name goal tags s =
     io_bind (record_loop agent act obs_stream initial_state (mk_rngs seeds)) (\<lambda>(fs, st).
     io_bind (io_lift (outcome_of env st)) (\<lambda>outcome w.
       (Inr (recorded env fresh_id agent_name (if truthy goal then goal else VDict []) tags seeds fs outcome w), w)))
     (with_handler ''record'' [] [] s)"

definition set_field :: "string \<Rightarrow> val \<Rightarrow> tfact \<Rightarrow> tfact" where
  "set_field attr v f =
     (if attr = ''action'' then f\<lparr>tf_action := v\<rparr> else if attr = ''obs'' then f\<lparr>tf_obs := v\<rparr>
      else if attr = ''llm_out'' then f\<lparr>tf_llm_out := v\<rparr> else f\<lparr>tf_state := v\<rparr>)"

definition apply_intervention :: "replay_env \<Rightarrow> tfact \<Rightarrow> intervention \<Rightarrow> rngs \<Rightarrow> err + tfact \<times> rngs" where
  "apply_intervention env orig iv r =
     (case map_of FIELD_MAP (iv_field iv) of
        None \<Rightarrow> Inl ValueError
      | Some attr \<Rightarrow> Inr ((set_field attr (iv_new_value iv) orig)
          \<lparr>tf_random_draws := VDict [(''expl'', draw env (rg_llm r)), (''env'', draw env (rg_env r))]\<rparr>, advance_rngs r))"

text \<open>\<open>{i["step"]: i for i in interventions}\<close>: of several interventions on a step the last one
  stays.\<close>

definition intervention_at :: "intervention list \<Rightarrow> int \<Rightarrow> intervention option" where
  "intervention_at ivs k = find (\<lambda>iv. iv_step iv = k) (rev ivs)"

text \<open>The facts before the branch point are copied, and only move state and generators.\<close>

definition replay_step :: "replay_env \<Rightarrow> 'x agent_step \<Rightarrow> intervention list \<Rightarrow> int \<Rightarrow> tfact \<Rightarrow> val \<Rightarrow> rngs \<Rightarrow>
    ('x effects_scheme, tfact \<times> rngs) io" where
  "replay_step env agent ivs k orig st r =
     (case intervention_at ivs k of
        Some iv \<Rightarrow> io_lift (apply_intervention env orig iv r)
      | None \<Rightarrow> io_bind (agent st (tf_obs orig) r) (\<lambda>(f, r'). io_return (f\<lparr>tf_step := k\<rparr>, r')))"

fun replay_loop :: "replay_env \<Rightarrow> 'x agent_step \<Rightarrow> apply_action \<Rightarrow> intervention list \<Rightarrow> int \<Rightarrow> int \<Rightarrow> tfact list \<Rightarrow> val \<Rightarrow>
    rngs \<Rightarrow> ('x effects_scheme, tfact list \<times> val \<times> rngs) io" where
  "replay_loop env agent act ivs bp k [] st r = io_return ([], st, r)"
| "replay_loop env agent act ivs bp k (orig # origs) st r =
     (if k < bp then
        io_bind (io_lift (act st (tf_obs orig) (tf_action orig))) (\<lambda>st'.
        io_bind (replay_loop env agent act ivs bp (k + 1) origs st' (advance_rngs r)) (\<lambda>(fs, res).
          io_return (orig # fs, res)))
      else
        io_bind (replay_step env agent ivs k orig st r) (\<lambda>(f, r').
        io_bind (io_lift (act st (tf_obs f) (tf_action f))) (\<lambda>st'.
        io_bind (replay_loop env agent act ivs bp (k + 1) origs st' r') (\<lambda>(fs, res).
          io_return (f # fs, res)))))"

fun extra_loop :: "'x agent_step \<Rightarrow> apply_action \<Rightarrow> int \<Rightarrow> val list \<Rightarrow> val \<Rightarrow> rngs \<Rightarrow>
    ('x effects_scheme, tfact list \<times> val) io" where
  "extra_loop agent act k [] st r = io_return ([], st)"
| "extra_loop agent act k (ob # obs) st r =
     io_bind (agent st ob r) (\<lambda>(f, r').
     io_bind (io_lift (act st ob (tf_action f))) (\<lambda>st'.
     io_bind (extra_loop agent act (k + 1) obs st' r') (\<lambda>(fs, last_st). io_return (f\<lparr>tf_step := k\<rparr> # fs, last_st))))"

definition set_mode :: "string \<Rightarrow> ('x effects_scheme, unit) io" where
  "set_mode m s = (Inr (), s\<lparr>eh_mode := m\<rparr>)"

definition check_replay :: "trajectory \<Rightarrow> intervention list \<Rightarrow> err + int" where
  "check_replay t ivs =
     (if tj_status t \<notin> {''completed'', ''failed'', ''counterfactual''} then Inl ValueError
      else if ivs = [] then Inl ValueError
      else if tj_facts t = [] then Inl ValueError
      else if list_ex (\<lambda>iv. iv_step iv < 0 \<or> iv_step iv > int (length (tj_facts t)) - 1) ivs then Inl ValueError
      else Inr (Min (set (map iv_step ivs))))"

definition replayed :: "replay_env \<Rightarrow> string \<Rightarrow> trajectory \<Rightarrow> intervention list \<Rightarrow> int \<Rightarrow> bool \<Rightarrow> tfact list \<Rightarrow> val dict \<Rightarrow> trajectory" where
  "replayed env fresh_id t ivs bp extrapolated fs outcome = hashed env
     \<lparr>tj_id = fresh_id, tj_parent_id = Some (tj_id t), tj_branch_point = Some bp, tj_intervention = Some ivs,
      tj_agent = tj_agent t, tj_goal = tj_goal t, tj_seeds = tj_seeds t, tj_started_at = None,
      tj_wall_clock_basis = tj_wall_clock_basis t, tj_status = ''counterfactual'', tj_outcome = outcome, tj_facts = fs,
      tj_hash = None, tj_tags = tj_tags t, tj_cache = [], tj_call_log = [], tj_extrapolated = extrapolated\<rparr>"

definition replay :: "replay_env \<Rightarrow> string \<Rightarrow> trajectory \<Rightarrow> intervention list \<Rightarrow> val list \<Rightarrow> 'x agent_step \<Rightarrow> apply_action \<Rightarrow>
    ('x effects_scheme, trajectory) io" where
  "replay env fresh_id t ivs extra agent act s =
     (case check_replay t ivs of
        Inl e \<Rightarrow> (Inl e, s)
      | Inr bp \<Rightarrow>
          io_bind (replay_loop env agent act ivs bp 0 (tj_facts t) (tf_state (hd (tj_facts t))) (mk_rngs (tj_seeds t)))
            (\<lambda>(fs, st, r).
          io_bind (if extra = [] then io_return ([], st)
              else io_bind (set_mode ''record'') (\<lambda>_. extra_loop agent act (int (length (tj_facts t))) extra st r))
            (\<lambda>(fs', st').
          io_bind (io_lift (outcome_of env st')) (\<lambda>outcome.
            io_return (replayed env fresh_id t ivs bp (extra \<noteq> []) (fs @ fs') outcome))))
          (with_handler ''replay'' (tj_cache t) (tj_call_log t) s))"

section \<open>Comparing trajectories and dpo.py\<close>

text \<open>Numbers beyond integers are a parameter: \<open>fe_float\<close> reads a value as a float, \<open>fe_minus\<close> is
  Python's difference of two numbers, \<open>fe_exp\<close> and \<open>fe_log\<close> are those of \<open>math\<close>.\<close>

record 'f float_env =
  fe_arith :: "'f arith"
  fe_float :: "val \<Rightarrow> err + 'f"
  fe_minus :: "val \<Rightarrow> val \<Rightarrow> err + val"
  fe_exp :: "'f \<Rightarrow> 'f"
  fe_log :: "'f \<Rightarrow> 'f"

definition pnl_of :: "'f float_env \<Rightarrow> trajectory \<Rightarrow> val" where
  "pnl_of fe t = (case dget (tj_outcome t) ''pnl'' of None \<Rightarrow> fa_val (fe_arith fe) (fa_of_int (fe_arith fe) 0) | Some v \<Rightarrow> v)"

definition softmax :: "'f float_env \<Rightarrow> 'f list \<Rightarrow> 'f list" where
  "softmax fe xs =
     (case xs of [] \<Rightarrow> []
      | x # rest \<Rightarrow>
          let ar = fe_arith fe; m = fold (\<lambda>y best. if fa_less ar best y then y else best) rest x;
              exps = map (\<lambda>y. fe_exp fe (fa_sub ar y m)) xs; total = fold (\<lambda>e acc. fa_add ar acc e) exps (fa_of_int ar 0);
              s = (if fa_eq ar total (fa_of_int ar 0) then fa_of_int ar 1 else total)
          in map (\<lambda>e. fa_div ar e s) exps)"

text \<open>\<open>llm_out.get("logprobs") or []\<close>, whose numbers are floats.\<close>

definition logprobs :: "'f float_env \<Rightarrow> tfact \<Rightarrow> err + 'f list" where
  "logprobs fe f =
     (case tf_llm_out f of
        VDict d \<Rightarrow> (case dict_or d ''logprobs'' (VList []) of VList xs \<Rightarrow> emap (fe_float fe) xs | _ \<Rightarrow> Inl TypeError)
      | _ \<Rightarrow> Inl AttributeError)"

definition kl_divergence :: "'f float_env \<Rightarrow> trajectory \<Rightarrow> trajectory \<Rightarrow> nat \<Rightarrow> err + 'f" where
  "kl_divergence fe a b k =
     (let ar = fe_arith fe; zero = fa_of_int ar 0 in
      if length (tj_facts a) \<le> k \<or> length (tj_facts b) \<le> k then Inr zero
      else ebind (logprobs fe (tj_facts a ! k)) (\<lambda>la. ebind (logprobs fe (tj_facts b ! k)) (\<lambda>lb.
        if la = [] \<or> lb = [] \<or> length la \<noteq> length lb then Inr zero
        else Inr (fold (\<lambda>(p, q) kl. if fa_le ar p zero \<or> fa_le ar q zero then kl
            else fa_add ar kl (fa_mul ar p (fe_log fe (fa_div ar p q)))) (zip (softmax fe la) (softmax fe lb)) zero))))"

definition divergence_step :: "trajectory \<Rightarrow> trajectory \<Rightarrow> nat option" where
  "divergence_step a b =
     find (\<lambda>i. \<not> py_eq (tf_action (tj_facts a ! i)) (tf_action (tj_facts b ! i)))
       [0..<min (length (tj_facts a)) (length (tj_facts b))]"

record 'f comparison =
  cp_pnl_delta :: 'f
  cp_divergence_step :: "nat option"
  cp_factual :: 'f
  cp_counterfactual :: 'f
  cp_kl :: 'f
  cp_steps :: nat

definition compare_trajectories :: "'f float_env \<Rightarrow> trajectory \<Rightarrow> trajectory \<Rightarrow> err + 'f comparison" where
  "compare_trajectories fe a b =
     ebind (ebind (fe_minus fe (pnl_of fe b) (pnl_of fe a)) (fe_float fe)) (\<lambda>delta.
     let dv = divergence_step a b in
     ebind (kl_divergence fe a b (case dv of None \<Rightarrow> 0 | Some k \<Rightarrow> k)) (\<lambda>kl.
     ebind (fe_float fe (pnl_of fe a)) (\<lambda>fp. ebind (fe_float fe (pnl_of fe b)) (\<lambda>cp.
       Inr \<lparr>cp_pnl_delta = delta, cp_divergence_step = dv, cp_factual = fp, cp_counterfactual = cp, cp_kl = kl,
         cp_steps = min (length (tj_facts a)) (length (tj_facts b))\<rparr>))))"

definition prefix_matches :: "trajectory \<Rightarrow> trajectory \<Rightarrow> nat \<Rightarrow> bool" where
  "prefix_matches a b up_to \<longleftrightarrow> list_all (\<lambda>k. k < length (tj_facts a) \<and> k < length (tj_facts b) \<and>
     (let fa = tj_facts a ! k; fb = tj_facts b ! k in
      py_eq (tf_state fa) (tf_state fb) \<and> py_eq (tf_obs fa) (tf_obs fb) \<and>
      py_eq (tf_llm_out fa) (tf_llm_out fb) \<and> py_eq (tf_action fa) (tf_action fb))) [0..<up_to]"

record 'f dpo_pair =
  dp_prompt :: val
  dp_chosen :: val
  dp_rejected :: val
  dp_margin :: 'f

text \<open>A branch point is not negative.\<close>

definition extract_dpo_pair :: "'f float_env \<Rightarrow> trajectory \<Rightarrow> trajectory \<Rightarrow> 'f \<Rightarrow> err + 'f dpo_pair option" where
  "extract_dpo_pair fe factual counterfactual threshold =
     (case tj_branch_point counterfactual of
        None \<Rightarrow> Inr None
      | Some bp \<Rightarrow>
          let ar = fe_arith fe; k = nat bp in
          if length (tj_facts factual) \<le> k \<or> length (tj_facts counterfactual) \<le> k then Inr None
          else if \<not> prefix_matches factual counterfactual k then Inr None
          else ebind (fe_float fe (pnl_of fe factual)) (\<lambda>f_pnl. ebind (fe_float fe (pnl_of fe counterfactual)) (\<lambda>c_pnl.
            let margin = fa_abs ar (fa_sub ar c_pnl f_pnl) in
            if fa_le ar margin threshold then Inr None
            else let (winner, loser) = (if fa_less ar f_pnl c_pnl then (counterfactual, factual) else (factual, counterfactual)) in
              Inr (Some \<lparr>dp_prompt = tf_llm_in (tj_facts factual ! k), dp_chosen = tf_llm_out (tj_facts winner ! k),
                dp_rejected = tf_llm_out (tj_facts loser ! k), dp_margin = margin\<rparr>))))"

section \<open>Interventions on the wire\<close>

definition kw :: "string \<Rightarrow> string" where
  "kw s = (if startswith '':'' s then s else CHR '':'' # s)"

definition from_kw :: "string \<Rightarrow> string" where
  "from_kw s = (if startswith '':'' s then tl s else s)"

definition wire_pair :: "string \<times> val \<Rightarrow> string \<times> val" where
  "wire_pair = (\<lambda>(k, v).
     let wk = (case map_of [(''step'', '':step''), (''field'', '':field''), (''new_value'', '':new-value'')] k of
         Some x \<Rightarrow> x | None \<Rightarrow> kw k)
     in (wk, case v of VStr x \<Rightarrow> if wk = '':field'' then VStr (kw x) else v | _ \<Rightarrow> v))"

definition bare_pair :: "string \<times> val \<Rightarrow> string \<times> val" where
  "bare_pair = (\<lambda>(k, v).
     let bk = (case map_of [('':step'', ''step''), ('':field'', ''field''), ('':new-value'', ''new_value'')] k of
         Some x \<Rightarrow> x | None \<Rightarrow> from_kw k)
     in (bk, case v of VStr x \<Rightarrow> if bk = ''field'' then VStr (from_kw x) else v | _ \<Rightarrow> v))"

definition intervention_to_wire :: "val \<Rightarrow> val" where
  "intervention_to_wire v = (case v of VDict d \<Rightarrow> VDict (fold (\<lambda>kv acc. case wire_pair kv of (k, x) \<Rightarrow> dset k x acc) d []) | _ \<Rightarrow> v)"

definition intervention_from_wire :: "val \<Rightarrow> val" where
  "intervention_from_wire v = (case v of VDict d \<Rightarrow> VDict (fold (\<lambda>kv acc. case bare_pair kv of (k, x) \<Rightarrow> dset k x acc) d []) | _ \<Rightarrow> v)"

end
