(* ===== verification/ReplayProps.thy ===== *)
theory ReplayProps
  imports Replay
begin

text \<open>
  Properties of replay: computations that touch the world only through the handler return in
  replay what they returned when recorded; so a trajectory replayed under interventions that
  change nothing is the recorded one; a replay keeps what lies before the branch point; and the
  replay handler shields what is below it.
\<close>

section \<open>Recorded computations replay\<close>

definition cache_le :: "'x effects_scheme \<Rightarrow> 'x effects_scheme \<Rightarrow> bool" where
  "cache_le s t \<longleftrightarrow> (\<forall>k v. dget (eh_cache s) k = Some v \<longrightarrow> dget (eh_cache t) k = Some v)"

lemma cache_le_refl [simp]: "cache_le s s"
  by (simp add: cache_le_def)

lemma cache_le_trans [trans]: "cache_le s t \<Longrightarrow> cache_le t u \<Longrightarrow> cache_le s u"
  by (simp add: cache_le_def)

text \<open>What a computation returned in record mode, it returns from any cache that holds at least
  what was recorded, and then it changes nothing.\<close>

definition replayable :: "('x effects_scheme, 'a) io \<Rightarrow> bool" where
  "replayable m \<longleftrightarrow> (\<forall>s x s'. eh_mode s = ''record'' \<longrightarrow> m s = (Inr x, s') \<longrightarrow>
     eh_mode s' = ''record'' \<and> cache_le s s' \<and>
     (\<forall>t. eh_mode t = ''replay'' \<longrightarrow> cache_le s' t \<longrightarrow> m t = (Inr x, t)))"

lemma replayableD:
  assumes "replayable m" "eh_mode s = ''record''" "m s = (Inr x, s')"
  shows "eh_mode s' = ''record''" "cache_le s s'" "\<And>t. eh_mode t = ''replay'' \<Longrightarrow> cache_le s' t \<Longrightarrow> m t = (Inr x, t)"
  using assms unfolding replayable_def by blast+

lemma replayable_return: "replayable (io_return x)"
  by (simp add: replayable_def)

lemma replayable_raise: "replayable (io_raise e)"
  by (simp add: replayable_def)

lemma replayable_lift: "replayable (io_lift r)"
  by (auto simp: replayable_def)

lemma replayable_bind:
  assumes "replayable m" "\<And>x. replayable (f x)"
  shows "replayable (io_bind m f)"
  unfolding replayable_def
proof (intro allI impI)
  fix s :: "'a effects_scheme" and y s2
  assume s: "eh_mode s = ''record''" and run: "io_bind m f s = (Inr y, s2)"
  obtain x s1 where 1: "m s = (Inr x, s1)" and 2: "f x s1 = (Inr y, s2)"
    using run by (auto simp: io_bind_def split: prod.splits sum.splits)
  note D1 = replayableD[OF assms(1) s 1]
  note D2 = replayableD[OF assms(2) D1(1) 2]
  have "io_bind m f t = (Inr y, t)" if "eh_mode t = ''replay''" "cache_le s2 t" for t
    using D1(3)[OF that(1) cache_le_trans[OF D2(2) that(2)]] D2(3)[OF that] by (simp add: io_bind_def)
  then show "eh_mode s2 = ''record'' \<and> cache_le s s2 \<and>
      (\<forall>t. eh_mode t = ''replay'' \<longrightarrow> cache_le s2 t \<longrightarrow> io_bind m f t = (Inr y, t))"
    using D2(1) cache_le_trans[OF D1(2) D2(2)] by simp
qed

text \<open>A call through the handler is replayable, whatever it executes, as long as the execution
  leaves mode and recorded entries alone.\<close>

definition respects_handler :: "('x effects_scheme, 'a) io \<Rightarrow> bool" where
  "respects_handler m \<longleftrightarrow> (\<forall>s x s'. m s = (Inr x, s') \<longrightarrow> eh_mode s' = eh_mode s \<and> cache_le s s')"

lemma replayable_call:
  assumes "respects_handler ex"
  shows "replayable (handler_call sha op args ex)"
  unfolding replayable_def handler_call_def
proof (intro allI impI)
  let ?key = "args_hash sha op args"
  fix s :: "'a effects_scheme" and v s'
  assume s: "eh_mode s = ''record''" and run: "serve_or_miss sha op args ex s = (Inr v, s')"
  have serve: "serve_or_miss sha op args ex t = (Inr v, t)" if "dget (eh_cache t) ?key = Some v" for t
    using that by (simp add: serve_or_miss_def Let_def)
  show "eh_mode s' = ''record'' \<and> cache_le s s' \<and>
      (\<forall>t. eh_mode t = ''replay'' \<longrightarrow> cache_le s' t \<longrightarrow> serve_or_miss sha op args ex t = (Inr v, t))"
  proof (cases "dget (eh_cache s) ?key")
    case (Some w)
    then have "w = v" "s' = s" using run by (simp_all add: serve_or_miss_def Let_def)
    then show ?thesis using Some s serve by (auto simp: cache_le_def)
  next
    case None
    then have "io_bind ex (store_result op args ?key) s = (Inr v, s')"
      using run s by (simp add: serve_or_miss_def Let_def)
    then obtain s1 where 1: "ex s = (Inr v, s1)" and s': "s' = s1\<lparr>eh_cache := dset ?key v (eh_cache s1),
        eh_calls := eh_calls s1 @ [\<lparr>cr_op = op, cr_args = args, cr_key = ?key, cr_result = v\<rparr>]\<rparr>"
      by (auto simp: io_bind_def store_result_def split: prod.splits sum.splits)
    have "eh_mode s1 = ''record''" "cache_le s s1" using assms 1 s by (auto simp: respects_handler_def)
    then show ?thesis using None serve by (auto simp: s' cache_le_def)
  qed
qed

section \<open>Replaying without a change\<close>

text \<open>The conventions of an agent: it touches the world through the handler, takes one number
  from each of the two generators and notes them, and notes the state and observation it was given.\<close>

definition notes_inputs :: "replay_env \<Rightarrow> 'x agent_step \<Rightarrow> bool" where
  "notes_inputs env agent \<longleftrightarrow> (\<forall>st ob r s f r' s'. agent st ob r s = (Inr (f, r'), s') \<longrightarrow>
     r' = advance_rngs r \<and> tf_state f = st \<and> tf_obs f = ob \<and>
     tf_random_draws f = VDict [(''expl'', draw env (rg_llm r)), (''env'', draw env (rg_env r))])"

definition get_field :: "string \<Rightarrow> tfact \<Rightarrow> val" where
  "get_field attr f =
     (if attr = ''action'' then tf_action f else if attr = ''obs'' then tf_obs f
      else if attr = ''llm_out'' then tf_llm_out f else tf_state f)"

lemma set_field_same: "set_field attr (get_field attr f) f = f"
  by (simp add: set_field_def get_field_def)

text \<open>An intervention that sets a field to what it already is.\<close>

definition changes_nothing :: "intervention \<Rightarrow> tfact \<Rightarrow> bool" where
  "changes_nothing iv f \<longleftrightarrow> (\<exists>attr. map_of FIELD_MAP (iv_field iv) = Some attr \<and> iv_new_value iv = get_field attr f)"

definition numbered_from :: "int \<Rightarrow> tfact list \<Rightarrow> bool" where
  "numbered_from k fs \<longleftrightarrow> (\<forall>i < length fs. tf_step (fs ! i) = k + int i)"

lemma numbered_from_Cons: "numbered_from k (f # fs) \<longleftrightarrow> tf_step f = k \<and> numbered_from (k + 1) fs"
proof
  assume l: "numbered_from k (f # fs)"
  then have "tf_step f = k" by (auto simp: numbered_from_def)
  moreover have "numbered_from (k + 1) fs"
    unfolding numbered_from_def
  proof (intro allI impI)
    fix i assume "i < length fs"
    then show "tf_step (fs ! i) = k + 1 + int i"
      using l unfolding numbered_from_def by (metis (no_types, lifting) Suc_less_eq add.assoc add.commute length_Cons nth_Cons_Suc of_nat_Suc)
  qed
  ultimately show "tf_step f = k \<and> numbered_from (k + 1) fs" by simp
next
  assume "tf_step f = k \<and> numbered_from (k + 1) fs"
  then show "numbered_from k (f # fs)"
    by (auto simp: numbered_from_def nth_Cons split: nat.split)
qed

definition idle_from :: "int \<Rightarrow> intervention list \<Rightarrow> tfact list \<Rightarrow> bool" where
  "idle_from k ivs fs \<longleftrightarrow> (\<forall>iv \<in> set ivs. \<forall>i < length fs. iv_step iv = k + int i \<longrightarrow> changes_nothing iv (fs ! i))"

lemma idle_from_head: "idle_from k ivs (f # fs) \<Longrightarrow> iv \<in> set ivs \<Longrightarrow> iv_step iv = k \<Longrightarrow> changes_nothing iv f"
  by (auto simp: idle_from_def)

lemma idle_from_tail: "idle_from k ivs (f # fs) \<Longrightarrow> idle_from (k + 1) ivs fs"
  unfolding idle_from_def by (metis (no_types, lifting) Suc_less_eq add.assoc add.commute length_Cons nth_Cons_Suc of_nat_Suc)

lemma replay_step_same:
  assumes agent: "replayable (agent st ob r)" "notes_inputs env agent"
    and run: "eh_mode s = ''record''" "agent st ob r s = (Inr (f, r'), s')"
    and t: "eh_mode t = ''replay''" "cache_le s' t"
    and idle: "\<And>iv. iv \<in> set ivs \<Longrightarrow> iv_step iv = k \<Longrightarrow> changes_nothing iv f" and step: "tf_step f = k"
  shows "replay_step env agent ivs k f st r t = (Inr (f, r'), t)"
proof -
  have N: "r' = advance_rngs r" "tf_obs f = ob"
    "tf_random_draws f = VDict [(''expl'', draw env (rg_llm r)), (''env'', draw env (rg_env r))]"
    using agent(2) run(2) unfolding notes_inputs_def by blast+
  show ?thesis
  proof (cases "intervention_at ivs k")
    case None
    have "f\<lparr>tf_step := k\<rparr> = f" using step by simp
    then show ?thesis using None N(2) replayableD(3)[OF agent(1) run t] by (simp add: replay_step_def io_bind_def)
  next
    case (Some iv)
    then have "iv \<in> set ivs" "iv_step iv = k" using find_SomeD[of _ "rev ivs" iv] by (auto simp: intervention_at_def)
    then obtain attr where "map_of FIELD_MAP (iv_field iv) = Some attr" "iv_new_value iv = get_field attr f"
      using idle by (auto simp: changes_nothing_def)
    moreover have "f\<lparr>tf_random_draws := VDict [(''expl'', draw env (rg_llm r)), (''env'', draw env (rg_env r))]\<rparr> = f"
      using N(3) by simp
    ultimately show ?thesis using Some N(1) by (simp add: replay_step_def apply_intervention_def set_field_same)
  qed
qed

lemma replay_loop_same:
  assumes agent: "\<And>st ob r. replayable (agent st ob r)" "notes_inputs env agent"
    and run: "eh_mode s = ''record''" "record_loop agent act obs st r s = (Inr (fs, last_st), s')"
    and t: "eh_mode t = ''replay''" "cache_le s' t"
    and ivs: "numbered_from k fs" "idle_from k ivs fs"
  shows "eh_mode s' = ''record'' \<and> cache_le s s' \<and> length fs = length obs \<and>
    (\<exists>r_end. replay_loop env agent act ivs bp k fs st r t = (Inr (fs, last_st, r_end), t))"
  using run t ivs
proof (induction obs arbitrary: s st r fs k)
  case Nil
  then show ?case by simp
next
  case (Cons ob obs)
  obtain f r1 s1 st1 fs1 where a: "agent st ob r s = (Inr (f, r1), s1)" and b: "act st ob (tf_action f) = Inr st1"
    and c: "record_loop agent act obs st1 r1 s1 = (Inr (fs1, last_st), s')" and fs: "fs = f # fs1"
    using Cons.prems(2) by (auto simp: io_bind_def split: prod.splits sum.splits)
  note D = replayableD[OF agent(1) Cons.prems(1) a]
  have N: "r1 = advance_rngs r" "tf_obs f = ob" using agent(2) a unfolding notes_inputs_def by blast+
  have num: "tf_step f = k" "numbered_from (k + 1) fs1" using Cons.prems(5) by (simp_all add: fs numbered_from_Cons)
  have idle: "idle_from (k + 1) ivs fs1" using Cons.prems(6) fs idle_from_tail by blast
  have IH: "eh_mode s' = ''record'' \<and> cache_le s1 s' \<and> length fs1 = length obs \<and>
      (\<exists>r_end. replay_loop env agent act ivs bp (k + 1) fs1 st1 r1 t = (Inr (fs1, last_st, r_end), t))"
    by (rule Cons.IH[OF D(1) c Cons.prems(3,4) num(2) idle])
  then obtain r_end where R: "replay_loop env agent act ivs bp (k + 1) fs1 st1 r1 t = (Inr (fs1, last_st, r_end), t)" by blast
  have t1: "cache_le s1 t" using IH Cons.prems(4) cache_le_trans by blast
  have S: "replay_step env agent ivs k f st r t = (Inr (f, r1), t)"
    by (rule replay_step_same[OF agent(1,2) Cons.prems(1) a Cons.prems(3) t1 _ num(1)])
      (use Cons.prems(6) fs idle_from_head in blast)
  have "replay_loop env agent act ivs bp k fs st r t = (Inr (fs, last_st, r_end), t)"
    using R S b N by (simp add: fs io_bind_def)
  then show ?case using IH D(2) cache_le_trans fs by auto
qed

lemma record_loop_first:
  assumes "record_loop agent act (ob # obs) st r s = (Inr (fs, last_st), s')" "notes_inputs env agent"
  shows "fs \<noteq> []" "tf_state (hd fs) = st"
proof -
  obtain f r1 s1 where "agent st ob r s = (Inr (f, r1), s1)" "fs \<noteq> []" "hd fs = f"
    using assms(1) by (auto simp: io_bind_def split: prod.splits sum.splits)
  then show "fs \<noteq> []" "tf_state (hd fs) = st" using assms(2) unfolding notes_inputs_def by metis+
qed

lemma hash_same_payload:
  assumes "tj_agent t = tj_agent u" "tj_goal t = tj_goal u" "tj_seeds t = tj_seeds u"
    "tj_wall_clock_basis t = tj_wall_clock_basis u" "tj_outcome t = tj_outcome u" "tj_facts t = tj_facts u"
    "tj_tags t = tj_tags u" "tj_extrapolated t = tj_extrapolated u"
  shows "trajectory_hash sha t = trajectory_hash sha u"
  using assms by (simp add: trajectory_hash_def traj_to_dict_def HASH_IGNORE_FIELDS_def)

lemma check_replay_ok:
  assumes "tj_status t = ''completed''" "ivs \<noteq> []" "tj_facts t \<noteq> []"
    "\<forall>iv \<in> set ivs. 0 \<le> iv_step iv \<and> iv_step iv < int (length (tj_facts t))"
  shows "check_replay t ivs = Inr (Min (set (map iv_step ivs)))"
  using assms by (auto simp: check_replay_def list_ex_iff)

text \<open>C29. Replaying a recorded trajectory under interventions that change nothing reproduces it:
  the same facts, the same outcome and the same digest, from any world. The agent is one that
  touches the world through the handler, draws once from each generator per step and notes its
  inputs; its facts are numbered.\<close>

theorem identity_replay_reproduces:
  assumes agent: "\<And>st ob r. replayable (agent st ob r)" "notes_inputs env agent"
    and rec: "record_run env tid agent act obs seeds st0 name goal tags w = (Inr t, w')" "obs \<noteq> []"
    and num: "numbered_from 0 (tj_facts t)"
    and ivs: "ivs \<noteq> []" "\<And>iv. iv \<in> set ivs \<Longrightarrow> 0 \<le> iv_step iv \<and> iv_step iv < int (length (tj_facts t)) \<and>
      changes_nothing iv (tj_facts t ! nat (iv_step iv))"
  shows "\<exists>t' v'. replay env rid t ivs [] agent act v = (Inr t', v') \<and> tj_facts t' = tj_facts t \<and>
    tj_outcome t' = tj_outcome t \<and> tj_hash t' = tj_hash t"
proof -
  obtain fs st s1 outcome g where loop: "record_loop agent act obs st0 (mk_rngs seeds) (with_handler ''record'' [] [] w) = (Inr (fs, st), s1)"
    and out: "outcome_of env st = Inr outcome" and t: "t = recorded env tid name g tags seeds fs outcome s1"
    using rec(1) by (auto simp: record_run_def io_bind_def split: prod.splits sum.splits)
  let ?v = "with_handler ''replay'' (eh_cache s1) (eh_calls s1) v"
  have mode: "eh_mode (with_handler ''record'' [] [] w) = ''record''" "eh_mode ?v = ''replay''" "cache_le s1 ?v"
    by (simp_all add: with_handler_def cache_le_def)
  have T: "tj_facts t = fs" "tj_seeds t = seeds" "tj_status t = ''completed''" "tj_cache t = eh_cache s1" "tj_call_log t = eh_calls s1"
    by (simp_all add: t recorded_def hashed_def)
  have idle: "idle_from 0 ivs fs"
    unfolding idle_from_def using ivs(2) T(1) by (metis add_0 nat_int)
  obtain ob obs' where obs: "obs = ob # obs'" using rec(2) by (cases obs) auto
  note first = record_loop_first[OF loop[unfolded obs] agent(2)]
  obtain r_end where R: "replay_loop env agent act ivs (Min (set (map iv_step ivs))) 0 fs st0 (mk_rngs seeds) ?v = (Inr (fs, st, r_end), ?v)"
    using replay_loop_same[OF agent mode(1) loop mode(2,3) num[unfolded T] idle] by blast
  have chk: "check_replay t ivs = Inr (Min (set (map iv_step ivs)))"
    using ivs first(1) T by (intro check_replay_ok) auto
  let ?t' = "replayed env rid t ivs (Min (set (map iv_step ivs))) False fs outcome"
  have "replay env rid t ivs [] agent act v = (Inr ?t', ?v)"
    using chk R first T out by (simp add: replay_def io_bind_def)
  moreover have "tj_hash ?t' = tj_hash t"
    by (simp add: replayed_def t recorded_def hashed_def) (rule hash_same_payload; simp)
  moreover have "tj_facts ?t' = tj_facts t" "tj_outcome ?t' = tj_outcome t"
    by (simp_all add: replayed_def t recorded_def hashed_def)
  ultimately show ?thesis by blast
qed

section \<open>The branch point\<close>

lemma replay_loop_prefix:
  assumes "replay_loop env agent act ivs bp k origs st r s = (Inr (fs, res), s')"
  shows "length fs = length origs \<and> take (nat (bp - k)) fs = take (nat (bp - k)) origs"
  using assms
proof (induction origs arbitrary: k st r s fs)
  case Nil
  then show ?case by simp
next
  case (Cons f origs)
  show ?case
  proof (cases "k < bp")
    case True
    then obtain st1 fs1 where "replay_loop env agent act ivs bp (k + 1) origs st1 (advance_rngs r) s = (Inr (fs1, res), s')"
      and fs: "fs = f # fs1"
      using Cons.prems by (auto simp: io_bind_def split: prod.splits sum.splits)
    moreover have "nat (bp - k) = Suc (nat (bp - (k + 1)))" using True by simp
    ultimately show ?thesis using Cons.IH by simp
  next
    case False
    then obtain g r1 st1 s1 fs1 where "replay_loop env agent act ivs bp (k + 1) origs st1 r1 s1 = (Inr (fs1, res), s')" "fs = g # fs1"
      using Cons.prems by (auto simp: io_bind_def split: prod.splits sum.splits)
    then show ?thesis using Cons.IH[of "k + 1" st1 r1 s1 fs1] False by simp
  qed
qed

lemma extra_loop_length: "extra_loop agent act k obs st r s = (Inr (fs, last_st), s') \<Longrightarrow> length fs = length obs"
proof (induction obs arbitrary: k st r s fs)
  case (Cons ob obs)
  then obtain f r1 st1 s1 fs1 where "extra_loop agent act (k + 1) obs st1 r1 s1 = (Inr (fs1, last_st), s')" "fs = f\<lparr>tf_step := k\<rparr> # fs1"
    by (auto simp: io_bind_def split: prod.splits sum.splits)
  then show ?case using Cons.IH by simp
qed simp

text \<open>A replay keeps the facts before its branch point, the smallest step intervened on, has one
  fact per fact of the original and per extra observation, and points to its original. It is
  refused unless the original has finished, has facts, and every step is one of them.\<close>

lemma replay_keeps_prefix:
  assumes "replay env rid t ivs extra agent act v = (Inr t', v')"
  shows "ivs \<noteq> [] \<and> (\<forall>iv \<in> set ivs. 0 \<le> iv_step iv \<and> iv_step iv < int (length (tj_facts t))) \<and>
    tj_branch_point t' = Some (Min (iv_step ` set ivs)) \<and> tj_parent_id t' = Some (tj_id t) \<and>
    tj_status t \<in> {''completed'', ''failed'', ''counterfactual''} \<and>
    length (tj_facts t') = length (tj_facts t) + length extra \<and>
    take (nat (Min (iv_step ` set ivs))) (tj_facts t') = take (nat (Min (iv_step ` set ivs))) (tj_facts t)"
proof -
  define bp where "bp = Min (iv_step ` set ivs)"
  have chk: "check_replay t ivs = Inr bp" and ok: "tj_status t \<in> {''completed'', ''failed'', ''counterfactual''}" "ivs \<noteq> []"
    "\<forall>iv \<in> set ivs. 0 \<le> iv_step iv \<and> iv_step iv < int (length (tj_facts t))"
    using assms by (auto simp: replay_def check_replay_def bp_def list_ex_iff split: if_splits)
  obtain fs st r s1 fs' st' s2 outcome where
    L: "replay_loop env agent act ivs bp 0 (tj_facts t) (tf_state (hd (tj_facts t))) (mk_rngs (tj_seeds t))
        (with_handler ''replay'' (tj_cache t) (tj_call_log t) v) = (Inr (fs, st, r), s1)"
    and E: "(if extra = [] then io_return ([], st)
        else io_bind (set_mode ''record'') (\<lambda>_. extra_loop agent act (int (length (tj_facts t))) extra st r)) s1 = (Inr (fs', st'), s2)"
    and t': "t' = replayed env rid t ivs bp (extra \<noteq> []) (fs @ fs') outcome"
    using assms chk by (auto simp: replay_def io_bind_def split: prod.splits sum.splits)
  have "length fs' = length extra"
    using E extra_loop_length[of agent act _ extra] by (auto simp: set_mode_def io_bind_def split: if_splits)
  moreover have fs: "length fs = length (tj_facts t)" "take (nat bp) fs = take (nat bp) (tj_facts t)"
    using replay_loop_prefix[OF L] by simp_all
  moreover have "nat bp \<le> length fs"
  proof -
    have "bp \<in> iv_step ` set ivs" unfolding bp_def by (rule Min_in) (use ok(2) in auto)
    then show ?thesis using ok(3) fs(1) by auto
  qed
  ultimately show ?thesis using ok t' by (simp add: replayed_def hashed_def bp_def[symmetric])
qed

section \<open>Shielding\<close>

text \<open>With the replay handler on top of a stack, an external operation performed in replay mode
  changes nothing and reaches no handler below: it is answered from the cache or refused.\<close>

lemma replay_shields_external:
  assumes "make_replay_handler sha mode wraps = Inr h" "op \<in> set wraps" "''replay'' \<notin> set masks"
    and "eh_mode s = ''replay''" "op \<in> set NON_REPLAYABLE_OPS"
  shows "rt_perform (Suc n) (hs @ [h]) masks op args None s =
    ((case dget (eh_cache s) (args_hash sha op args) of Some v \<Rightarrow> Inr v | None \<Rightarrow> Inl RefusedInReplay), s)"
proof -
  have h: "h_name h = ''replay''" "h_clauses h = map (\<lambda>op. (op, replay_clause sha op)) wraps"
    using assms(1) by (auto simp: make_replay_handler_def mk_handler_def split: if_splits)
  have "map_of (map (\<lambda>op. (op, replay_clause sha op)) xs) op = Some (replay_clause sha op)" if "op \<in> set xs" for xs
    using that by (induction xs) auto
  then have "dget (h_clauses h) op = Some (replay_clause sha op)" using assms(2) h(2) by simp
  then have "rt_perform (Suc n) (hs @ [h]) masks op args None s =
      serve_or_miss sha op args (run_candidates (runtime_ops n (hs @ [h]) masks) (candidates masks hs op) args) s"
    using assms(3) h(1) by (simp add: rt_perform_simps replay_clause_def)
  then show ?thesis using assms(4,5) by (simp add: serve_or_miss_def Let_def split: option.split)
qed

section \<open>The dictionary form\<close>

lemma fact_dict_roundtrip: "fact_from_dict (VDict (fact_to_dict f)) = Inr f"
  by (simp add: fact_from_dict_def fact_to_dict_def)

lemma intervention_roundtrip: "intervention_of (intervention_val iv) = Inr iv"
  by (simp add: intervention_of_def intervention_val_def)

lemma call_roundtrip: "call_of (call_val r) = Inr r"
  by (simp add: call_of_def call_val_def)

lemma emap_roundtrip: "(\<And>x. f (g x) = Inr x) \<Longrightarrow> emap f (map g xs) = Inr xs"
  by (induction xs) auto

lemma emap_interventions: "emap intervention_of (map intervention_val ivs) = Inr ivs"
  by (rule emap_roundtrip) (rule intervention_roundtrip)

lemma emap_calls: "emap call_of (map call_val rs) = Inr rs"
  by (rule emap_roundtrip) (rule call_roundtrip)

lemma as_opt_str_back [simp]: "as_opt_str (opt_str x) = Inr x"
  by (cases x) (simp_all add: opt_str_def)

text \<open>C30. A trajectory is read back from its dictionary as it was, provided it has an id (an empty one
  is replaced by a fresh one), its goal is not a falsy value other than the empty dictionary (it
  is a dictionary in the code's own use) and its set of tags is finite.\<close>

theorem trajectory_dict_roundtrip:
  assumes "tj_id t \<noteq> []" "truthy (tj_goal t) \<or> tj_goal t = VDict []" "finite (tj_tags t)"
  shows "traj_from_dict fresh (traj_to_dict t) = Inr t"
proof -
  let ?d = "traj_to_dict t"
  have opt: "as_opt_int (case tj_branch_point t of None \<Rightarrow> VNone | Some n \<Rightarrow> VInt n) = Inr (tj_branch_point t)"
    by (cases "tj_branch_point t") simp_all
  have ivs: "(case (case tj_intervention t of None \<Rightarrow> VNone | Some ivs \<Rightarrow> VList (map intervention_val ivs)) of VNone \<Rightarrow> Inr None
        | v \<Rightarrow> ebind (ebind (as_list v) (emap intervention_of)) (\<lambda>ivs. Inr (Some ivs))) = Inr (tj_intervention t)"
    by (cases "tj_intervention t") (simp_all add: emap_interventions)
  have goal: "dict_or ?d ''goal'' (VDict []) = tj_goal t"
    using assms(2) by (auto simp: dict_or_def traj_to_dict_def)
  have facts: "emap fact_from_dict (map (VDict \<circ> fact_to_dict) (tj_facts t)) = Inr (tj_facts t)"
    by (rule emap_roundtrip) (simp add: fact_dict_roundtrip)
  have tags: "emap as_str (map VStr xs) = Inr xs" for xs by (rule emap_roundtrip) simp
  have get: "dict_or ?d ''tags'' (VList []) = (if tj_tags t \<noteq> {} then VList (map VStr (sorted_list_of_set (tj_tags t))) else VList [])"
    "dict_get ?d ''facts'' (VList []) = VList (map (VDict \<circ> fact_to_dict) (tj_facts t))"
    "dict_or ?d ''id'' (VStr fresh) = VStr (tj_id t)" "dict_get ?d ''parent_id'' VNone = opt_str (tj_parent_id t)"
    "dict_get ?d ''branch_point'' VNone = (case tj_branch_point t of None \<Rightarrow> VNone | Some n \<Rightarrow> VInt n)"
    "dict_get ?d ''intervention'' VNone = (case tj_intervention t of None \<Rightarrow> VNone | Some ivs \<Rightarrow> VList (map intervention_val ivs))"
    "dict_get ?d ''agent'' (VStr []) = VStr (tj_agent t)" "dict_get ?d ''seeds'' DEFAULT_SEEDS = VDict (tj_seeds t)"
    "dict_get ?d ''started_at'' VNone = opt_str (tj_started_at t)"
    "dict_get ?d ''wall_clock_basis'' (VStr ''recorded'') = VStr (tj_wall_clock_basis t)"
    "dict_get ?d ''status'' (VStr ''completed'') = VStr (tj_status t)"
    "dict_or ?d ''outcome'' (VDict []) = VDict (tj_outcome t)" "dict_get ?d ''hash'' VNone = opt_str (tj_hash t)"
    "dict_or ?d ''cache'' (VDict []) = VDict (tj_cache t)"
    "dict_or ?d ''call_log'' (VList []) = VList (map call_val (tj_call_log t))"
    "dict_get ?d ''extrapolated'' (VBool False) = VBool (tj_extrapolated t)"
    using assms by (simp_all add: traj_to_dict_def dict_or_def dict_get_def)
  have tagset: "(if tj_tags t \<noteq> {} then VList (map VStr (sorted_list_of_set (tj_tags t))) else VList [])
      = VList (map VStr (sorted_list_of_set (tj_tags t)))" by simp
  show ?thesis
    unfolding traj_from_dict_def get goal tagset
    by (simp add: opt ivs facts tags emap_calls assms(3) Let_def)
qed

section \<open>A concrete agent\<close>

text \<open>It asks a model what to do at each observation, through the handler; its state counts steps.\<close>

definition sample_env :: replay_env where
  "sample_env = \<lparr>rp_sha = (\<lambda>s. s), rp_random = (\<lambda>seed n. VInt (int n)), rp_zero = VInt 0\<rparr>"

definition sample_step :: "val \<Rightarrow> int" where
  "sample_step st = (case st of VDict d \<Rightarrow> (case dget d ''step'' of Some (VInt n) \<Rightarrow> n | _ \<Rightarrow> 0) | _ \<Rightarrow> 0)"

definition sample_agent :: "nat agent_step" where
  "sample_agent st ob r =
     io_bind (handler_call (\<lambda>s. s) '':llm/call'' [(''prompt_hash'', ob)]
       (\<lambda>s. (Inr (VDict [(''text'', ob)]), effects.more_update Suc s))) (\<lambda>out.
     io_return (\<lparr>tf_step = sample_step st, tf_t = VNone, tf_state = st, tf_obs = ob, tf_llm_in = VNone, tf_llm_out = out,
       tf_action = out, tf_tool_calls = VList [],
       tf_random_draws = VDict [(''expl'', draw sample_env (rg_llm r)), (''env'', draw sample_env (rg_env r))]\<rparr>, advance_rngs r))"

definition sample_apply :: apply_action where
  "sample_apply st ob act = Inr (VDict [(''step'', VInt (sample_step st + 1))])"

lemma sample_replayable: "replayable (sample_agent st ob r)"
  unfolding sample_agent_def
  by (intro replayable_bind replayable_call replayable_return) (auto simp: respects_handler_def cache_le_def)

lemma sample_notes: "notes_inputs sample_env sample_agent"
  by (auto simp: notes_inputs_def sample_agent_def io_bind_def split: prod.splits sum.splits)

definition sample_world :: "nat effects_scheme" where
  "sample_world = \<lparr>eh_mode = [], eh_cache = [], eh_calls = [], \<dots> = 0\<rparr>"

definition sample_traj :: trajectory where
  "sample_traj = projr (fst (record_run sample_env ''a'' sample_agent sample_apply [VInt 7, VInt 8] [(''llm'', VInt 1)]
     (VDict [(''step'', VInt 0)]) ''x'' (VDict []) {} sample_world))"

lemma sample_recorded:
  obtains w' where "record_run sample_env ''a'' sample_agent sample_apply [VInt 7, VInt 8] [(''llm'', VInt 1)]
     (VDict [(''step'', VInt 0)]) ''x'' (VDict []) {} sample_world = (Inr sample_traj, w')"
proof -
  have "\<not> isl (fst (record_run sample_env ''a'' sample_agent sample_apply [VInt 7, VInt 8] [(''llm'', VInt 1)]
     (VDict [(''step'', VInt 0)]) ''x'' (VDict []) {} sample_world))"
    by code_simp
  then show ?thesis using that unfolding sample_traj_def by (metis prod.collapse sum.collapse(2))
qed

lemma sample_facts:
  "length (tj_facts sample_traj) = 2" "map tf_step (tj_facts sample_traj) = [0, 1]"
  "tf_obs (tj_facts sample_traj ! 1) = VInt 8" "tj_id sample_traj = ''a''"
  "tj_goal sample_traj = VDict []" "tj_tags sample_traj = {}"
  by code_simp+

lemma sample_numbered: "numbered_from 0 (tj_facts sample_traj)"
  unfolding numbered_from_def
proof (intro allI impI)
  fix i assume i: "i < length (tj_facts sample_traj)"
  then have "tf_step (tj_facts sample_traj ! i) = [0, 1] ! i" using sample_facts(2) by (metis nth_map)
  moreover have "i = 0 \<or> i = 1" using i sample_facts(1) by auto
  ultimately show "tf_step (tj_facts sample_traj ! i) = 0 + int i" by auto
qed

definition keep_obs :: intervention where
  "keep_obs = \<lparr>iv_step = 1, iv_field = ''obs'', iv_new_value = VInt 8\<rparr>"

lemma keep_obs_idle: "changes_nothing keep_obs (tj_facts sample_traj ! 1)"
  using sample_facts(3) by (simp add: changes_nothing_def keep_obs_def FIELD_MAP_def get_field_def)

theorem identity_replay_reproduces_witness:
  "\<exists>t' v'. replay sample_env ''b'' sample_traj [keep_obs] [] sample_agent sample_apply sample_world = (Inr t', v') \<and>
    length (tj_facts t') = 2 \<and> tj_facts t' = tj_facts sample_traj \<and> tj_hash t' = tj_hash sample_traj"
proof -
  obtain w' where rec: "record_run sample_env ''a'' sample_agent sample_apply [VInt 7, VInt 8] [(''llm'', VInt 1)]
     (VDict [(''step'', VInt 0)]) ''x'' (VDict []) {} sample_world = (Inr sample_traj, w')"
    by (rule sample_recorded)
  have "\<exists>t' v'. replay sample_env ''b'' sample_traj [keep_obs] [] sample_agent sample_apply sample_world = (Inr t', v') \<and>
      tj_facts t' = tj_facts sample_traj \<and> tj_outcome t' = tj_outcome sample_traj \<and> tj_hash t' = tj_hash sample_traj"
  proof (rule identity_replay_reproduces[OF sample_replayable sample_notes rec _ sample_numbered])
    fix iv assume "iv \<in> set [keep_obs]"
    then show "0 \<le> iv_step iv \<and> iv_step iv < int (length (tj_facts sample_traj)) \<and>
        changes_nothing iv (tj_facts sample_traj ! nat (iv_step iv))"
      using keep_obs_idle sample_facts(1) by (simp add: keep_obs_def)
  qed simp_all
  then show ?thesis using sample_facts(1) by metis
qed

definition act_otherwise :: intervention where
  "act_otherwise = \<lparr>iv_step = 1, iv_field = '':action'', iv_new_value = VStr ''wait''\<rparr>"

theorem trajectory_dict_roundtrip_witness:
  "traj_from_dict ''f'' (traj_to_dict sample_traj) = Inr sample_traj"
  by (rule trajectory_dict_roundtrip) (simp_all add: sample_facts)

end
