(* ===== verification/PyText.thy ===== *)
theory PyText
  imports Values
begin

text \<open>
  Python's text functions the wire formats use: whitespace, letter case, the UTF-8 length,
  \<open>repr\<close>, the loops over a value, and what \<open>uuid.UUID\<close> reads.
\<close>

section \<open>Characters and strings\<close>

definition is_space :: "char \<Rightarrow> bool" where
  "is_space c = (let n = (of_char c :: nat) in
     (9 \<le> n \<and> n \<le> 13) \<or> (28 \<le> n \<and> n \<le> 32) \<or> n = 133 \<or> n = 160)"

definition py_strip :: "string \<Rightarrow> string" where
  "py_strip s = rev (dropWhile is_space (rev (dropWhile is_space s)))"

definition lower_char :: "char \<Rightarrow> char" where
  "lower_char c = (let n = (of_char c :: nat) in
     if (65 \<le> n \<and> n \<le> 90) \<or> (192 \<le> n \<and> n \<le> 222 \<and> n \<noteq> 215) then char_of (n + 32) else c)"

definition py_lower :: "string \<Rightarrow> string" where
  "py_lower s = map lower_char s"

text \<open>The length of the UTF-8 encoding; characters are below 256.\<close>

definition utf8_len :: "string \<Rightarrow> nat" where
  "utf8_len s = sum_list (map (\<lambda>c. if (of_char c :: nat) < 128 then 1 else 2) s)"

definition repr_char :: "char \<Rightarrow> char \<Rightarrow> string" where
  "repr_char q c = (let n = (of_char c :: nat) in
     if c = q \<or> n = 92 then [CHR 0x5C, c]
     else if n = 9 then [CHR 0x5C, CHR ''t''] else if n = 10 then [CHR 0x5C, CHR ''n'']
     else if n = 13 then [CHR 0x5C, CHR ''r'']
     else if n < 32 \<or> (127 \<le> n \<and> n \<le> 160) \<or> n = 173
       then [CHR 0x5C, CHR ''x'', hex_digit (n div 16), hex_digit n]
     else [c])"

definition str_repr :: "string \<Rightarrow> string" where
  "str_repr s = (let q = (if CHR 0x27 \<in> set s \<and> CHR 0x22 \<notin> set s then CHR 0x22 else CHR 0x27) in
     q # concat (map (repr_char q) s) @ [q])"

fun py_repr :: "val \<Rightarrow> string" where
  "py_repr VNone = ''None''"
| "py_repr (VBool b) = (if b then ''True'' else ''False'')"
| "py_repr (VInt i) = int_str i"
| "py_repr (VStr s) = str_repr s"
| "py_repr (VTuple xs) = ''('' @ join '', '' (map py_repr xs) @ (if length xs = 1 then '',)'' else '')'')"
| "py_repr (VList xs) = ''['' @ join '', '' (map py_repr xs) @ '']''"
| "py_repr (VDict kvs) = CHR 0x7B # join '', '' (map (\<lambda>(k, v). str_repr k @ '': '' @ py_repr v) kvs) @ [CHR 0x7D]"

text \<open>\<open>str(v)\<close>: strings stand for themselves.\<close>

definition py_str :: "val \<Rightarrow> string" where
  "py_str v = (case v of VStr s \<Rightarrow> s | _ \<Rightarrow> py_repr v)"

definition py_iter :: "val \<Rightarrow> err + val list" where
  "py_iter v = (case v of VList xs \<Rightarrow> Inr xs | VTuple xs \<Rightarrow> Inr xs
     | VStr s \<Rightarrow> Inr (map (\<lambda>c. VStr [c]) s) | VDict kvs \<Rightarrow> Inr (map (VStr \<circ> fst) kvs) | _ \<Rightarrow> Inl TypeError)"

definition py_int :: "val \<Rightarrow> err + int" where
  "py_int v = (case v of VInt i \<Rightarrow> Inr i | VBool b \<Rightarrow> Inr (if b then 1 else 0) | _ \<Rightarrow> Inl TypeError)"

definition dict_of :: "val \<Rightarrow> err + val dict" where
  "dict_of v = (case v of VDict d \<Rightarrow> Inr d | _ \<Rightarrow> Inl AttributeError)"

section \<open>UUIDs\<close>

text \<open>\<open>uuid.UUID(hex)\<close>: the text without \<open>urn:\<close>, \<open>uuid:\<close>, outer braces and hyphens has
  32 characters that \<open>int(_, 16)\<close> reads.\<close>

function remove_all :: "string \<Rightarrow> string \<Rightarrow> string" where
  "remove_all p s = (case s of [] \<Rightarrow> [] | c # cs \<Rightarrow>
     if p \<noteq> [] \<and> startswith p s then remove_all p (drop (length p) s) else c # remove_all p cs)"
  by pat_completeness auto
termination by (relation "measure (length \<circ> snd)") auto

declare remove_all.simps [simp del]

definition is_hex :: "char \<Rightarrow> bool" where
  "is_hex c \<longleftrightarrow> c \<in> set ''0123456789abcdefABCDEF''"

fun hex_run :: "bool \<Rightarrow> string \<Rightarrow> bool" where
  "hex_run after_digit [] = after_digit"
| "hex_run after_digit (c # cs) =
     (if c = CHR ''_'' then after_digit \<and> hex_run False cs else is_hex c \<and> hex_run True cs)"

definition int16_reads :: "string \<Rightarrow> bool" where
  "int16_reads s =
     (let a = py_strip s;
          b = (case a of c # cs \<Rightarrow> if c \<in> set ''+-'' then cs else a | [] \<Rightarrow> a);
          d = (if startswith ''0x'' b \<or> startswith ''0X'' b
               then (case drop 2 b of c # cs \<Rightarrow> if c = CHR ''_'' then cs else c # cs | [] \<Rightarrow> []) else b)
      in hex_run False d)"

definition uuid_reads :: "string \<Rightarrow> bool" where
  "uuid_reads s =
     (let a = remove_all ''uuid:'' (remove_all ''urn:'' s);
          braces = (\<lambda>c. c = CHR 0x7B \<or> c = CHR 0x7D);
          b = filter (\<lambda>c. c \<noteq> CHR ''-'') (rev (dropWhile braces (rev (dropWhile braces a))))
      in length b = 32 \<and> int16_reads b)"

end
