(* ===== verification/McpSchema.thy ===== *)
theory McpSchema
  imports ReplLaws Policy PyText
begin

text \<open>
  \<open>persistence.sdk.mcp._names\<close>, \<open>_budgets\<close> and \<open>_schemas\<close>, and the schema walker of
  \<open>_tools\<close>: the closed table of tool names, the budgets, the published input and output
  schemas as the dictionaries they are, the profile they must stay in, and the validation of a
  payload against a schema. A schema is a value: keywords of the wrong type raise as Python
  does.
\<close>

section \<open>Names and budgets\<close>

record tool_names =
  tn_wire :: string
  tn_capability :: string
  tn_datom_a :: string
  tn_audit_op :: string

definition NAMES :: "(string \<times> tool_names) list" where
  "NAMES =
    [(''remember'', \<lparr>tn_wire = ''persistence_remember'', tn_capability = ''mcp.remember'',
        tn_datom_a = ''mcp/op-remember'', tn_audit_op = '':mcp/op-remember''\<rparr>),
     (''recall'', \<lparr>tn_wire = ''persistence_recall'', tn_capability = ''mcp.recall'',
        tn_datom_a = ''mcp/op-recall'', tn_audit_op = '':mcp/op-recall''\<rparr>),
     (''forget'', \<lparr>tn_wire = ''persistence_forget'', tn_capability = ''mcp.forget'',
        tn_datom_a = ''mcp/op-forget'', tn_audit_op = '':mcp/op-forget''\<rparr>),
     (''audit_window'', \<lparr>tn_wire = ''persistence_audit_window'', tn_capability = ''mcp.audit-read'',
        tn_datom_a = ''mcp/op-audit-window'', tn_audit_op = '':mcp/op-audit-window''\<rparr>),
     (''replay_check'', \<lparr>tn_wire = ''persistence_replay_check'', tn_capability = ''mcp.replay'',
        tn_datom_a = ''mcp/op-replay'', tn_audit_op = '':mcp/op-replay''\<rparr>),
     (''view_at'', \<lparr>tn_wire = ''persistence_view_at'', tn_capability = ''mcp.view'',
        tn_datom_a = ''mcp/op-view'', tn_audit_op = '':mcp/op-view''\<rparr>)]"

definition TOOL_ORDER :: "string list" where
  "TOOL_ORDER = [''remember'', ''recall'', ''forget'', ''audit_window'', ''replay_check'', ''view_at'']"

definition AUDIT_TAIL_URI :: string where "AUDIT_TAIL_URI = ''persistence-os://audit/tail''"
definition AUDIT_TAIL_CAP :: string where "AUDIT_TAIL_CAP = ''mcp.audit-read''"

text \<open>\<open>_NAMES[verb]\<close>, for a verb of the table.\<close>

definition names_of :: "string \<Rightarrow> tool_names" where
  "names_of verb = the (map_of NAMES verb)"

definition ALL_MCP_CAPS :: "string list" where
  "ALL_MCP_CAPS = map (tn_capability \<circ> snd) NAMES"

definition wire_to_verb :: "string \<Rightarrow> string option" where
  "wire_to_verb wire_name = map_option fst (find (\<lambda>(verb, names). tn_wire names = wire_name) NAMES)"

record budgets =
  bu_replay_max_window :: int
  bu_replay_max_wallclock_s :: rat
  bu_replay_rate_limit :: int
  bu_replay_rate_window_s :: rat
  bu_audit_window_max_limit :: int
  bu_remember_max_content_bytes :: int
  bu_recall_max_k :: int
  bu_view_at_max_label_len :: int

definition default_budgets :: budgets where
  "default_budgets = \<lparr>bu_replay_max_window = 256, bu_replay_max_wallclock_s = 5,
     bu_replay_rate_limit = 6, bu_replay_rate_window_s = 60, bu_audit_window_max_limit = 1000,
     bu_remember_max_content_bytes = 16384, bu_recall_max_k = 50, bu_view_at_max_label_len = 64\<rparr>"

lemma wire_to_verb_eq:
  "wire_to_verb w =
    (if ''persistence_remember'' = w then Some ''remember''
     else if ''persistence_recall'' = w then Some ''recall''
     else if ''persistence_forget'' = w then Some ''forget''
     else if ''persistence_audit_window'' = w then Some ''audit_window''
     else if ''persistence_replay_check'' = w then Some ''replay_check''
     else if ''persistence_view_at'' = w then Some ''view_at'' else None)"
  by (simp add: wire_to_verb_def NAMES_def)

lemma verb_cases:
  assumes "wire_to_verb w = Some v"
  obtains "v = ''remember''" | "v = ''recall''" | "v = ''forget''" | "v = ''audit_window''"
    | "v = ''replay_check''" | "v = ''view_at''"
  using assms unfolding wire_to_verb_eq by (auto split: if_split_asm)

lemma names_of_simps [simp]:
  "tn_capability (names_of ''remember'') = ''mcp.remember''"
  "tn_capability (names_of ''recall'') = ''mcp.recall''"
  "tn_capability (names_of ''forget'') = ''mcp.forget''"
  "tn_capability (names_of ''audit_window'') = ''mcp.audit-read''"
  "tn_capability (names_of ''replay_check'') = ''mcp.replay''"
  "tn_capability (names_of ''view_at'') = ''mcp.view''"
  by (simp_all add: names_of_def NAMES_def)

section \<open>The schema profile\<close>

definition PROFILE_ALLOWED_KEYWORDS :: "string list" where
  "PROFILE_ALLOWED_KEYWORDS = [''type'', ''properties'', ''required'', ''additionalProperties'',
     ''items'', ''minItems'', ''maxItems'', ''minLength'', ''maxLength'', ''minimum'', ''maximum'',
     ''enum'', ''const'', ''pattern'', ''description'', ''default'', ''examples'', ''format'']"

definition PROFILE_ROOT_ONLY :: "string list" where "PROFILE_ROOT_ONLY = [''$schema'']"

definition PROFILE_ALLOWED_FORMATS :: "string list" where
  "PROFILE_ALLOWED_FORMATS = [''uuid'', ''date-time'', ''uri'']"

definition DRAFT_07_URI :: string where "DRAFT_07_URI = ''http://json-schema.org/draft-07/schema#''"

lemma size_dict_entry: "(k, v) \<in> set kvs \<Longrightarrow> size v < size_list (size_prod (\<lambda>_. 0) size) kvs"
  by (induction kvs) auto

text \<open>\<open>SchemaProfileViolation\<close> is a \<open>ValueError\<close>.\<close>

function validate_profile :: "val \<Rightarrow> string \<Rightarrow> err + unit" where
  "validate_profile schema path = (case schema of VDict kvs \<Rightarrow>
     ebind (emap (\<lambda>(key, value).
       if key \<in> set PROFILE_ALLOWED_KEYWORDS \<or> (key \<in> set PROFILE_ROOT_ONLY \<and> path = ''$'') then
         (if key = ''properties'' then (case value of VDict props \<Rightarrow>
              ebind (emap (\<lambda>(prop_name, prop_schema).
                validate_profile prop_schema (path @ ''.properties.'' @ prop_name)) props) (\<lambda>_. Inr ())
            | _ \<Rightarrow> Inr ())
          else if key = ''items'' then
            (case value of VDict d \<Rightarrow> validate_profile value (path @ ''.items'') | _ \<Rightarrow> Inr ())
          else if key = ''additionalProperties'' then
            (case value of VDict d \<Rightarrow> validate_profile value (path @ ''.additionalProperties'') | _ \<Rightarrow> Inr ())
          else if key = ''format'' then
            (if \<not> hashable value then Inl TypeError
             else if value \<in> set (map VStr PROFILE_ALLOWED_FORMATS) then Inr () else Inl ValueError)
          else Inr ())
       else Inl ValueError) kvs) (\<lambda>_.
     if dget kvs ''type'' = Some (VStr ''object'') \<and> dget kvs ''additionalProperties'' = None
     then Inl ValueError else Inr ())
   | _ \<Rightarrow> Inr ())"
  by pat_completeness auto
termination
  by (relation "measure (size \<circ> fst)") (auto dest!: size_dict_entry)

declare validate_profile.simps [simp del]

section \<open>Validation of a payload\<close>

text \<open>\<open>schema.get(k)\<close> with an absent or null keyword switched off.\<close>

definition keyword :: "val dict \<Rightarrow> string \<Rightarrow> val option" where
  "keyword d k = (case dget d k of Some VNone \<Rightarrow> None | r \<Rightarrow> r)"

definition bound :: "val dict \<Rightarrow> string \<Rightarrow> (int \<Rightarrow> bool) \<Rightarrow> (string \<Rightarrow> string) \<Rightarrow> err + string option" where
  "bound d k violates message = (case keyword d k of None \<Rightarrow> Inr None
     | Some v \<Rightarrow> ebind (py_int v) (\<lambda>i. Inr (if violates i then Some (message (py_str v)) else None)))"

text \<open>Checks in order: the first message wins.\<close>

definition then_check :: "err + string option \<Rightarrow> err + string option \<Rightarrow> err + string option" where
  "then_check a b = ebind a (\<lambda>r. if r = None then b else Inr r)"

lemma then_check_cong [fundef_cong]:
  assumes "a = a'" and "a' = Inr None \<Longrightarrow> b = b'"
  shows "then_check a b = then_check a' b'"
  using assms by (cases a') (auto simp: then_check_def)

lemma then_check_None_iff: "then_check a b = Inr None \<longleftrightarrow> a = Inr None \<and> b = Inr None"
  by (auto simp: then_check_def ebind_Inr_iff)

definition expected :: "string \<Rightarrow> string \<Rightarrow> val \<Rightarrow> err + string option" where
  "expected path what payload = Inr (Some (path @ '': expected '' @ what @ '', got '' @ type_name payload))"

definition check_string :: "text_env \<Rightarrow> val dict \<Rightarrow> string \<Rightarrow> string \<Rightarrow> err + string option" where
  "check_string te sd s path =
     then_check (bound sd ''minLength'' (\<lambda>n. int (length s) < n)
       (\<lambda>n. path @ '': string length '' @ nat_str (length s) @ '' < minLength '' @ n))
    (then_check (bound sd ''maxLength'' (\<lambda>n. int (length s) > n)
       (\<lambda>n. path @ '': string length '' @ nat_str (length s) @ '' > maxLength '' @ n))
    (then_check (if dget sd ''format'' = Some (VStr ''uuid'') then
          Inr (if uuid_reads s then None else Some (path @ '': not a valid UUID''))
        else if dget sd ''format'' = Some (VStr ''date-time'') then
          Inr (if te_fromiso te (concat (map (\<lambda>c. if c = CHR ''Z'' then ''+00:00'' else [c]) s)) = None
               then Some (path @ '': not a valid date-time'') else None)
        else Inr None)
      (case dget sd ''enum'' of None \<Rightarrow> Inr None
       | Some en \<Rightarrow> ebind (py_in (VStr s) en) (\<lambda>ok. Inr (if ok then None
           else Some (path @ '': value '' @ str_repr s @ '' not in enum '' @ py_repr en))))))"

definition check_integer :: "val dict \<Rightarrow> val \<Rightarrow> string \<Rightarrow> err + string option" where
  "check_integer sd payload path = (case payload of VInt i \<Rightarrow>
       then_check (bound sd ''minimum'' (\<lambda>n. i < n)
         (\<lambda>n. path @ '': integer '' @ int_str i @ '' < minimum '' @ n))
        (bound sd ''maximum'' (\<lambda>n. i > n)
         (\<lambda>n. path @ '': integer '' @ int_str i @ '' > maximum '' @ n))
     | _ \<Rightarrow> expected path ''integer'' payload)"

text \<open>Unexpected and missing properties of an object.\<close>

definition check_extra :: "val dict \<Rightarrow> val dict \<Rightarrow> string \<Rightarrow> err + string option" where
  "check_extra sd pd path =
     (if dget sd ''additionalProperties'' = Some (VBool False) then
        ebind (dict_of (get_or sd ''properties'' (VDict []))) (\<lambda>props.
          let extra = sort (remdups (filter (\<lambda>k. k \<notin> set (map fst props)) (map fst pd))) in
          Inr (if extra = [] then None else Some (path @ '': unexpected properties '' @ py_repr (VList (map VStr extra)))))
      else Inr None)"

definition check_required :: "val dict \<Rightarrow> val dict \<Rightarrow> string \<Rightarrow> err + string option" where
  "check_required sd pd path =
     ebind (py_iter (get_or sd ''required'' (VList []))) (efirst (\<lambda>r.
       ebind (py_in r (VDict pd)) (\<lambda>ok. Inr (if ok then None
         else Some (path @ '': missing required property '' @ py_repr r)))))"

definition check_length :: "val dict \<Rightarrow> val list \<Rightarrow> string \<Rightarrow> err + string option" where
  "check_length sd xs path =
     then_check (bound sd ''maxItems'' (\<lambda>n. int (length xs) > n)
         (\<lambda>n. path @ '': array length '' @ nat_str (length xs) @ '' > maxItems '' @ n))
       (bound sd ''minItems'' (\<lambda>n. int (length xs) < n)
         (\<lambda>n. path @ '': array length '' @ nat_str (length xs) @ '' < minItems '' @ n))"

lemma size_keyword: "dget d k = Some v \<Longrightarrow> size v < size (VDict d)"
  by (drule map_of_SomeD) (simp add: size_dict_entry less_SucI)

text \<open>The walk: objects and arrays recurse into the sub-schemas, whatever the payload is.\<close>

function validate_against_schema :: "text_env \<Rightarrow> val \<Rightarrow> val \<Rightarrow> string \<Rightarrow> err + string option" where
  "validate_against_schema te payload schema path = (case schema of VDict sd \<Rightarrow>
     (if dget sd ''type'' = Some (VStr ''object'') then
        (case payload of VDict pd \<Rightarrow>
           then_check (check_extra sd pd path) (then_check (check_required sd pd path)
             (case dget sd ''properties'' of None \<Rightarrow> Inr None
              | Some (VDict props) \<Rightarrow> efirst (\<lambda>(prop_name, prop_schema).
                  case dget pd prop_name of None \<Rightarrow> Inr None
                  | Some v \<Rightarrow> validate_against_schema te v prop_schema (path @ ''.'' @ prop_name)) props
              | Some _ \<Rightarrow> Inl AttributeError))
         | _ \<Rightarrow> expected path ''object'' payload)
      else if dget sd ''type'' = Some (VStr ''array'') then
        (case payload of VList xs \<Rightarrow>
           then_check (check_length sd xs path)
             (case dget sd ''items'' of None \<Rightarrow> Inr None
              | Some items_schema \<Rightarrow> efirst (\<lambda>(i, item).
                  validate_against_schema te item items_schema (path @ ''['' @ nat_str i @ '']''))
                  (List.enumerate 0 xs))
         | _ \<Rightarrow> expected path ''array'' payload)
      else if dget sd ''type'' = Some (VStr ''string'') then
        (case payload of VStr s \<Rightarrow> check_string te sd s path | _ \<Rightarrow> expected path ''string'' payload)
      else if dget sd ''type'' = Some (VStr ''integer'') then check_integer sd payload path
      else if dget sd ''type'' = Some (VStr ''boolean'') then
        (case payload of VBool b \<Rightarrow> Inr None | _ \<Rightarrow> expected path ''boolean'' payload)
      else Inr None)
   | _ \<Rightarrow> Inr None)"
  by pat_completeness auto
termination
proof (relation "measure (\<lambda>(te, payload, schema, path). size schema)", goal_cases)
  case 1
  then show ?case by simp
next
  case (2 te payload schema path sd pd props x name sub v)
  then show ?case by (auto dest!: size_keyword size_dict_entry)
next
  case (3 te payload schema path sd xs it x i item)
  then show ?case by (auto dest!: size_keyword)
qed

declare validate_against_schema.simps [simp del]

section \<open>The published schemas\<close>

definition INPUT_REMEMBER :: val where
  "INPUT_REMEMBER =
  VDict [
    (''$schema'', VStr DRAFT_07_URI),
    (''type'', VStr ''object''),
    (''additionalProperties'', VBool False),
    (''properties'', VDict [
      (''content'', VDict [
        (''type'', VStr ''string''),
        (''minLength'', VInt 1),
        (''maxLength'', VInt 16384),
        (''description'', VStr ''The fact to remember (1..16384 chars).'')]),
      (''tags'', VDict [
        (''type'', VStr ''array''),
        (''items'', VDict [
          (''type'', VStr ''string''),
          (''minLength'', VInt 1),
          (''maxLength'', VInt 64)]),
        (''maxItems'', VInt 32),
        (''description'', VStr ''Optional tags for retrieval.'')])]),
    (''required'', VList [VStr ''content''])]"

definition OUTPUT_REMEMBER :: val where
  "OUTPUT_REMEMBER =
  VDict [
    (''$schema'', VStr DRAFT_07_URI),
    (''type'', VStr ''object''),
    (''additionalProperties'', VBool False),
    (''properties'', VDict [
      (''eid'', VDict [
        (''type'', VStr ''string''),
        (''format'', VStr ''uuid''),
        (''description'', VStr ''Stored entity id (UUID).'')]),
      (''tx'', VDict [
        (''type'', VStr ''integer''),
        (''minimum'', VInt 0),
        (''description'', VStr ''Transaction id of the assertion.'')]),
      (''valid_from'', VDict [
        (''type'', VStr ''string''),
        (''format'', VStr ''date-time''),
        (''description'', VStr ''ISO-8601 valid_from timestamp.'')])]),
    (''required'', VList [VStr ''eid'', VStr ''tx'', VStr ''valid_from''])]"

definition INPUT_RECALL :: val where
  "INPUT_RECALL =
  VDict [
    (''$schema'', VStr DRAFT_07_URI),
    (''type'', VStr ''object''),
    (''additionalProperties'', VBool False),
    (''properties'', VDict [
      (''query'', VDict [
        (''type'', VStr ''string''),
        (''minLength'', VInt 1),
        (''maxLength'', VInt 1024),
        (''description'', VStr ''Substring query (case-insensitive).'')]),
      (''k'', VDict [
        (''type'', VStr ''integer''),
        (''minimum'', VInt 1),
        (''maximum'', VInt 50),
        (''default'', VInt 5),
        (''description'', VStr ''Max number of hits to return.'')]),
      (''tags'', VDict [
        (''type'', VStr ''array''),
        (''items'', VDict [
          (''type'', VStr ''string''),
          (''minLength'', VInt 1),
          (''maxLength'', VInt 64)]),
        (''maxItems'', VInt 32),
        (''description'', VStr ''Optional tag filter (AND semantics).'')]),
      (''cursor'', VDict [
        (''type'', VStr ''string''),
        (''minLength'', VInt 1),
        (''maxLength'', VInt 256),
        (''description'', VStr ''Opaque cursor from a prior recall reply.'')])]),
    (''required'', VList [VStr ''query''])]"

definition OUTPUT_RECALL :: val where
  "OUTPUT_RECALL =
  VDict [
    (''$schema'', VStr DRAFT_07_URI),
    (''type'', VStr ''object''),
    (''additionalProperties'', VBool False),
    (''properties'', VDict [
      (''hits'', VDict [
        (''type'', VStr ''array''),
        (''items'', VDict [
          (''type'', VStr ''object''),
          (''additionalProperties'', VBool False),
          (''properties'', VDict [
            (''eid'', VDict [(''type'', VStr ''string''), (''format'', VStr ''uuid'')]),
            (''content'', VDict [(''type'', VStr ''string'')]),
            (''tags'', VDict [
              (''type'', VStr ''array''),
              (''items'', VDict [(''type'', VStr ''string'')])]),
            (''valid_from'', VDict [(''type'', VStr ''string''), (''format'', VStr ''date-time'')])]),
          (''required'', VList [VStr ''eid'', VStr ''content'', VStr ''tags'', VStr ''valid_from''])])]),
      (''next_cursor'', VDict [
        (''type'', VStr ''string''),
        (''description'', VStr ''Opaque cursor; absent when no further pages.'')])]),
    (''required'', VList [VStr ''hits''])]"

definition INPUT_FORGET :: val where
  "INPUT_FORGET =
  VDict [
    (''$schema'', VStr DRAFT_07_URI),
    (''type'', VStr ''object''),
    (''additionalProperties'', VBool False),
    (''properties'', VDict [
      (''eid'', VDict [
        (''type'', VStr ''string''),
        (''format'', VStr ''uuid''),
        (''description'', VStr ''Entity id to retract.'')])]),
    (''required'', VList [VStr ''eid''])]"

definition OUTPUT_FORGET :: val where
  "OUTPUT_FORGET =
  VDict [
    (''$schema'', VStr DRAFT_07_URI),
    (''type'', VStr ''object''),
    (''additionalProperties'', VBool False),
    (''properties'', VDict [
      (''eid'', VDict [(''type'', VStr ''string''), (''format'', VStr ''uuid'')]),
      (''valid_to'', VDict [(''type'', VStr ''string''), (''format'', VStr ''date-time'')]),
      (''retracted'', VDict [(''type'', VStr ''boolean'')])]),
    (''required'', VList [VStr ''eid'', VStr ''valid_to'', VStr ''retracted''])]"

definition INPUT_AUDIT_WINDOW :: val where
  "INPUT_AUDIT_WINDOW =
  VDict [
    (''$schema'', VStr DRAFT_07_URI),
    (''type'', VStr ''object''),
    (''additionalProperties'', VBool False),
    (''properties'', VDict [
      (''from_tx'', VDict [
        (''type'', VStr ''integer''),
        (''minimum'', VInt 0),
        (''description'', VStr ''Lower bound (inclusive).'')]),
      (''to_tx'', VDict [
        (''type'', VStr ''integer''),
        (''minimum'', VInt 0),
        (''description'', VStr ''Upper bound (inclusive); omit for +inf.'')]),
      (''limit'', VDict [
        (''type'', VStr ''integer''),
        (''minimum'', VInt 1),
        (''maximum'', VInt 1000),
        (''default'', VInt 100),
        (''description'', VStr ''Max entries to return.'')]),
      (''cursor'', VDict [
        (''type'', VStr ''string''),
        (''minLength'', VInt 1),
        (''maxLength'', VInt 256),
        (''description'', VStr ''Opaque cursor from a prior audit_window reply.'')])]),
    (''required'', VList [VStr ''from_tx''])]"

definition OUTPUT_AUDIT_WINDOW :: val where
  "OUTPUT_AUDIT_WINDOW =
  VDict [
    (''$schema'', VStr DRAFT_07_URI),
    (''type'', VStr ''object''),
    (''additionalProperties'', VBool False),
    (''properties'', VDict [
      (''entries'', VDict [
        (''type'', VStr ''array''),
        (''items'', VDict [
          (''type'', VStr ''object''),
          (''additionalProperties'', VBool False),
          (''properties'', VDict [
            (''op'', VDict [(''type'', VStr ''string'')]),
            (''args_hash'', VDict [(''type'', VStr ''string'')]),
            (''result_hash'', VDict [(''type'', VStr ''string'')]),
            (''prev_hash'', VDict [(''type'', VStr ''string'')]),
            (''tx'', VDict [(''type'', VStr ''integer'')])]),
          (''required'', VList [VStr ''op'', VStr ''tx''])])]),
      (''next_cursor'', VDict [(''type'', VStr ''string'')]),
      (''head_hash'', VDict [(''type'', VStr ''string'')])]),
    (''required'', VList [VStr ''entries'', VStr ''head_hash''])]"

definition INPUT_REPLAY_CHECK :: val where
  "INPUT_REPLAY_CHECK =
  VDict [
    (''$schema'', VStr DRAFT_07_URI),
    (''type'', VStr ''object''),
    (''additionalProperties'', VBool False),
    (''properties'', VDict [
      (''tx'', VDict [
        (''type'', VStr ''integer''),
        (''minimum'', VInt 0),
        (''description'', VStr ''Transaction id at the center of the window.'')]),
      (''window'', VDict [
        (''type'', VStr ''integer''),
        (''minimum'', VInt 1),
        (''maximum'', VInt 256),
        (''default'', VInt 32),
        (''description'', VStr ''Window size (entries on each side).'')])]),
    (''required'', VList [VStr ''tx''])]"

definition OUTPUT_REPLAY_CHECK :: val where
  "OUTPUT_REPLAY_CHECK =
  VDict [
    (''$schema'', VStr DRAFT_07_URI),
    (''type'', VStr ''object''),
    (''additionalProperties'', VBool False),
    (''properties'', VDict [
      (''ok'', VDict [(''type'', VStr ''boolean'')]),
      (''reason_code'', VDict [
        (''type'', VStr ''string''),
        (''enum'', VList [VStr ''ok'', VStr ''mismatch_user_log'', VStr ''mismatch_audit_chain'', VStr ''window_too_large'', VStr ''replay_aborted_budget'', VStr ''tx_not_found''])]),
      (''window_actual'', VDict [(''type'', VStr ''integer''), (''minimum'', VInt 0)]),
      (''head_hash'', VDict [(''type'', VStr ''string'')])]),
    (''required'', VList [VStr ''ok'', VStr ''reason_code'', VStr ''window_actual'', VStr ''head_hash''])]"

definition INPUT_VIEW_AT :: val where
  "INPUT_VIEW_AT =
  VDict [
    (''$schema'', VStr DRAFT_07_URI),
    (''type'', VStr ''object''),
    (''additionalProperties'', VBool False),
    (''properties'', VDict [
      (''tx'', VDict [
        (''type'', VStr ''integer''),
        (''minimum'', VInt 0),
        (''description'', VStr ''Transaction id to anchor the cursor at.'')]),
      (''label'', VDict [
        (''type'', VStr ''string''),
        (''minLength'', VInt 1),
        (''maxLength'', VInt 64),
        (''description'', VStr ''Optional human-readable label.'')])]),
    (''required'', VList [VStr ''tx''])]"

definition OUTPUT_VIEW_AT :: val where
  "OUTPUT_VIEW_AT =
  VDict [
    (''$schema'', VStr DRAFT_07_URI),
    (''type'', VStr ''object''),
    (''additionalProperties'', VBool False),
    (''properties'', VDict [
      (''cursor_id'', VDict [(''type'', VStr ''string''), (''format'', VStr ''uuid'')]),
      (''view_cursor_tx_time_iso'', VDict [(''type'', VStr ''string''), (''format'', VStr ''date-time'')]),
      (''parent_chain_depth'', VDict [(''type'', VStr ''integer''), (''minimum'', VInt 0)]),
      (''label'', VDict [(''type'', VStr ''string'')])]),
    (''required'', VList [VStr ''cursor_id'', VStr ''view_cursor_tx_time_iso'', VStr ''parent_chain_depth''])]"


definition INPUT_SCHEMAS :: "val dict" where
  "INPUT_SCHEMAS = [(''remember'', INPUT_REMEMBER), (''recall'', INPUT_RECALL), (''forget'', INPUT_FORGET),
     (''audit_window'', INPUT_AUDIT_WINDOW), (''replay_check'', INPUT_REPLAY_CHECK), (''view_at'', INPUT_VIEW_AT)]"

definition OUTPUT_SCHEMAS :: "val dict" where
  "OUTPUT_SCHEMAS = [(''remember'', OUTPUT_REMEMBER), (''recall'', OUTPUT_RECALL), (''forget'', OUTPUT_FORGET),
     (''audit_window'', OUTPUT_AUDIT_WINDOW), (''replay_check'', OUTPUT_REPLAY_CHECK), (''view_at'', OUTPUT_VIEW_AT)]"

text \<open>\<open>canonical_schema_sha256\<close> and the lockfile: input and output text joined by a bar.\<close>

definition canonical_schema_sha256 :: "text_env \<Rightarrow> val \<Rightarrow> string" where
  "canonical_schema_sha256 te schema = te_sha te (compact_json schema)"

definition all_tool_schema_shas :: "text_env \<Rightarrow> string dict" where
  "all_tool_schema_shas te = map (\<lambda>verb. (tn_wire (names_of verb),
     te_sha te (compact_json (get_or INPUT_SCHEMAS verb VNone) @ ''|'' @ compact_json (get_or OUTPUT_SCHEMAS verb VNone))))
     TOOL_ORDER"

text \<open>The import-time check: every published schema is in the profile.\<close>

lemma schemas_in_profile:
  "list_all (\<lambda>(v, s). validate_profile s ''$'' = Inr ()) (INPUT_SCHEMAS @ OUTPUT_SCHEMAS)"
  by code_simp

end
