(* ===== verification/McpTools.thy ===== *)
theory McpTools
  imports McpSchema
begin

text \<open>
  \<open>persistence.sdk.mcp._tools\<close>: the envelopes, the audit entry every call appends and the six
  tools, as computations over the server's state (\<open>mcp\<close>: the substrate's log and audit list,
  and what \<open>_server\<close> keeps, which the tools reach through the limiter they are handed).
  A raise that a tool does not catch leaves it.
\<close>

section \<open>The substrate and the server's state\<close>

text \<open>An audit list mixes plain dictionaries (the SDK's and the server's entries) with
  \<open>AuditEntry\<close> objects (mirrored from the effect runtime).\<close>

datatype chain_entry = DictEntry "val dict" | RecordEntry audit_entry

record mcp =
  mc_log :: log
  mc_entries :: "chain_entry list"
  mc_caps :: "string list"
  mc_budgets :: budgets
  mc_server :: "string \<times> string"
  mc_initialized :: bool
  mc_negotiated :: "string option"
  mc_client :: val
  mc_subscriptions :: "string list"
  mc_pending :: "val list"
  mc_rate :: "rat list"
  mc_last_len :: nat
  mc_reads :: nat

text \<open>What the server reads besides its state: text and digests, the clock, the monotonic clock
  and fresh UUIDs at each reading, the environment of \<open>transact\<close>, and the text of an
  exception, of a float and of an instant.\<close>

record mcp_env =
  me_text :: text_env
  me_clock :: "nat \<Rightarrow> int"
  me_wall :: "nat \<Rightarrow> rat"
  me_uuid :: "nat \<Rightarrow> string"
  me_db :: "nat \<Rightarrow> env"
  me_show :: "err \<Rightarrow> string"
  me_float :: "rat \<Rightarrow> string"

definition reading :: "(nat \<Rightarrow> 'a) \<Rightarrow> (mcp, 'a) io" where
  "reading f s = (Inr (f (mc_reads s)), s\<lparr>mc_reads := Suc (mc_reads s)\<rparr>)"

abbreviation mcp_now :: "mcp_env \<Rightarrow> (mcp, int) io" where "mcp_now me \<equiv> reading (me_clock me)"
abbreviation new_uuid :: "mcp_env \<Rightarrow> (mcp, string) io" where "new_uuid me \<equiv> reading (me_uuid me)"

definition isoformat :: "mcp_env \<Rightarrow> int \<Rightarrow> string" where
  "isoformat me t = te_iso (me_text me) (Aware t)"

definition get_entries :: "(mcp, chain_entry list) io" where
  "get_entries s = (Inr (mc_entries s), s)"

section \<open>Envelopes\<close>

text \<open>\<open>structured=None\<close> is the default.\<close>

definition make_error :: "string \<Rightarrow> string \<Rightarrow> val option \<Rightarrow> bool \<Rightarrow> val" where
  "make_error category message structured retriable = VDict
     [(''isError'', VBool True),
      (''content'', VList [VDict [(''type'', VStr ''text''), (''text'', VStr message)]]),
      (''_meta'', VDict [(''category'', VStr category), (''retriable'', VBool retriable)]),
      (''structuredContent'', case structured of Some v \<Rightarrow> v | None \<Rightarrow> VDict [(''error_code'', VStr category)])]"

definition make_success :: "val \<Rightarrow> string \<Rightarrow> val" where
  "make_success structured text_summary = VDict
     [(''isError'', VBool False), (''structuredContent'', structured),
      (''content'', VList [VDict [(''type'', VStr ''text''), (''text'', VStr text_summary)]])]"

definition ERR_VALIDATION :: string where "ERR_VALIDATION = ''validation_error''"
definition ERR_DENIED :: string where "ERR_DENIED = ''capability_denied''"
definition ERR_NOT_FOUND :: string where "ERR_NOT_FOUND = ''not_found''"
definition ERR_BUDGET :: string where "ERR_BUDGET = ''budget_exceeded''"
definition ERR_INTERNAL :: string where "ERR_INTERNAL = ''internal_error''"

lemmas err_categories = ERR_VALIDATION_def ERR_DENIED_def ERR_NOT_FOUND_def ERR_BUDGET_def ERR_INTERNAL_def

definition invalid :: "string \<Rightarrow> val" where
  "invalid message = make_error ERR_VALIDATION message None False"

definition denied :: "string \<Rightarrow> val" where
  "denied verb = make_error ERR_DENIED (''capability denied: '' @ tn_capability (names_of verb))
     (Some (VDict [(''error_code'', VStr ERR_DENIED), (''required'', VStr (tn_capability (names_of verb)))])) False"

section \<open>Audit emission\<close>

definition hash_canonical :: "mcp_env \<Rightarrow> val \<Rightarrow> string" where
  "hash_canonical me payload = te_sha (me_text me) (compact_json payload)"

definition envelope_get :: "val \<Rightarrow> string \<Rightarrow> val \<Rightarrow> val" where
  "envelope_get env k dflt = (case env of VDict d \<Rightarrow> get_or d k dflt | _ \<Rightarrow> dflt)"

definition prev_of :: "chain_entry list \<Rightarrow> val" where
  "prev_of entries = (if entries = [] then VNone else
     case last entries of DictEntry d \<Rightarrow> get_or d ''id'' VNone | RecordEntry _ \<Rightarrow> VNone)"

definition entry_body :: "mcp_env \<Rightarrow> string \<Rightarrow> val dict \<Rightarrow> val \<Rightarrow> chain_entry list \<Rightarrow> val dict" where
  "entry_body me verb args env entries =
     [(''op'', VStr (tn_audit_op (names_of verb))),
      (''args'', VDict
        [(''args_hash'', VStr (hash_canonical me (VDict args))),
         (''result_hash'', VStr (hash_canonical me (envelope_get env ''structuredContent'' (VDict [])))),
         (''verdict'', VStr (if truthy (envelope_get env ''isError'' VNone) then ''error'' else ''ok'')),
         (''tool'', VStr (tn_wire (names_of verb))), (''tx'', VInt (int (length entries)))]),
      (''prev_hash'', prev_of entries)]"

definition sealed_entry :: "mcp_env \<Rightarrow> val dict \<Rightarrow> val dict" where
  "sealed_entry me body = body @ [(''id'', VStr (hash_canonical me (VDict body)))]"

definition emit_audit :: "mcp_env \<Rightarrow> string \<Rightarrow> val dict \<Rightarrow> val \<Rightarrow> (mcp, unit) io" where
  "emit_audit me verb args env s =
     (Inr (), s\<lparr>mc_entries := mc_entries s @
        [DictEntry (sealed_entry me (entry_body me verb args env (mc_entries s)))]\<rparr>)"

text \<open>The tail of every tool: the entry, then the envelope.\<close>

definition audited :: "mcp_env \<Rightarrow> string \<Rightarrow> val dict \<Rightarrow> (mcp, val) io \<Rightarrow> (mcp, val) io" where
  "audited me verb args body =
     io_bind body (\<lambda>env. io_bind (emit_audit me verb args env) (\<lambda>_. io_return env))"

section \<open>remember\<close>

definition CONTENT_ATTR :: string where "CONTENT_ATTR = ''mcp/content''"
definition TAGS_ATTR :: string where "TAGS_ATTR = ''mcp/tags''"

definition mcp_fact :: "string \<Rightarrow> string \<Rightarrow> val \<Rightarrow> int \<Rightarrow> fact" where
  "mcp_fact e a v now = \<lparr>f_e = e, f_a = a, f_v = v, f_valid_from = Some (DtVal (Aware now)),
     f_valid_to = None, f_op = None\<rparr>"

definition tx_of_content :: "log \<Rightarrow> string \<Rightarrow> int" where
  "tx_of_content l eid = foldl (\<lambda>tx d. if d_e d = eid \<and> d_a d = CONTENT_ATTR then d_tx d else tx) 0 l"

definition remember_write :: "mcp_env \<Rightarrow> string \<Rightarrow> val \<Rightarrow> (mcp, val) io" where
  "remember_write me content tags =
     io_bind (new_uuid me) (\<lambda>eid. io_bind (mcp_now me) (\<lambda>now. (\<lambda>s.
       case ebind (if truthy tags then py_iter tags else Inr []) (\<lambda>ts.
              transact (me_db me (mc_reads s)) (mc_log s)
                [mcp_fact eid CONTENT_ATTR (VStr content) now, mcp_fact eid TAGS_ATTR (VList ts) now] [] False) of
         Inl e \<Rightarrow> (Inr (make_error ERR_INTERNAL (''transact failed: '' @ me_show me e) None False), s)
       | Inr l \<Rightarrow> (Inr (make_success (VDict [(''eid'', VStr eid), (''tx'', VInt (tx_of_content l eid)),
             (''valid_from'', VStr (isoformat me now))]) (''remembered '' @ eid)), s\<lparr>mc_log := l\<rparr>))))"

definition tool_remember :: "mcp_env \<Rightarrow> string list \<Rightarrow> budgets \<Rightarrow> val dict \<Rightarrow> (mcp, val) io" where
  "tool_remember me caps bu args = audited me ''remember'' args
     (if ''mcp.remember'' \<notin> set caps then io_return (denied ''remember'')
      else case get_or args ''content'' VNone of
          VStr content \<Rightarrow>
            if int (utf8_len content) > bu_remember_max_content_bytes bu
            then io_return (invalid (''content exceeds max bytes ('' @ int_str (bu_remember_max_content_bytes bu) @ '')''))
            else remember_write me content (get_or args ''tags'' (VList []))
        | _ \<Rightarrow> io_return (invalid ''content must be a string''))"

section \<open>recall\<close>

definition py_or :: "val \<Rightarrow> val \<Rightarrow> val" where
  "py_or v w = (if truthy v then v else w)"

definition attr_or_none :: "(string \<Rightarrow> val option) \<Rightarrow> string \<Rightarrow> val" where
  "attr_or_none ent a = (case ent a of None \<Rightarrow> VNone | Some v \<Rightarrow> v)"

text \<open>\<open>all(t in tags for t in tags_filter)\<close>.\<close>

fun all_in :: "val list \<Rightarrow> val \<Rightarrow> err + bool" where
  "all_in [] tags = Inr True"
| "all_in (t # ts) tags = ebind (py_in t tags) (\<lambda>b. if b then all_in ts tags else Inr False)"

definition recall_hit :: "mcp_env \<Rightarrow> datom \<Rightarrow> string \<Rightarrow> val \<Rightarrow> val" where
  "recall_hit me d content tags = VDict
     [(''eid'', VStr (d_e d)), (''content'', VStr content),
      (''tags'', case tags of VList xs \<Rightarrow> VList xs | _ \<Rightarrow> VList []),
      (''valid_from'', VStr (isoformat me (d_valid_from d)))]"

text \<open>One datom of the walk: the hit of its entity, if it is one. An entity without live
  attributes is empty and has no content either.\<close>

definition recall_match ::
  "mcp_env \<Rightarrow> datom list \<Rightarrow> string \<Rightarrow> val \<Rightarrow> datom \<Rightarrow> err + val option" where
  "recall_match me view ql tags_filter d =
     (case entity view (d_e d) CONTENT_ATTR of
        Some (VStr content) \<Rightarrow>
          if \<not> substring ql (py_lower content) then Inr None
          else let tags = py_or (attr_or_none (entity view (d_e d)) TAGS_ATTR) (VList []) in
            ebind (if truthy tags_filter then ebind (py_iter tags_filter) (\<lambda>ts. all_in ts tags) else Inr True)
              (\<lambda>ok. Inr (if ok then Some (recall_hit me d content tags) else None))
      | _ \<Rightarrow> Inr None)"

fun recall_scan ::
  "mcp_env \<Rightarrow> datom list \<Rightarrow> string \<Rightarrow> val \<Rightarrow> int \<Rightarrow> string list \<Rightarrow> val list \<Rightarrow> datom list \<Rightarrow> err + val list" where
  "recall_scan me view ql tf k seen hits [] = Inr hits"
| "recall_scan me view ql tf k seen hits (d # ds) =
     (if d_a d \<noteq> CONTENT_ATTR \<or> d_e d \<in> set seen then recall_scan me view ql tf k seen hits ds
      else ebind (recall_match me view ql tf d) (\<lambda>r. case r of
          None \<Rightarrow> recall_scan me view ql tf k (d_e d # seen) hits ds
        | Some hit \<Rightarrow>
            if int (length (hits @ [hit])) \<ge> k then Inr (hits @ [hit])
            else recall_scan me view ql tf k (d_e d # seen) (hits @ [hit]) ds))"

definition recall_read :: "mcp_env \<Rightarrow> string \<Rightarrow> int \<Rightarrow> val \<Rightarrow> (mcp, val) io" where
  "recall_read me query k tags_filter = io_bind (mcp_now me) (\<lambda>now s.
     (ebind (recall_scan me (as_of (mc_log s) now) (py_lower query) tags_filter k [] [] (rev (mc_log s)))
        (\<lambda>hits. Inr (make_success (VDict [(''hits'', VList hits)])
           (nat_str (length hits) @ '' hit(s) for '' @ str_repr query))), s))"

definition tool_recall :: "mcp_env \<Rightarrow> string list \<Rightarrow> budgets \<Rightarrow> val dict \<Rightarrow> (mcp, val) io" where
  "tool_recall me caps bu args = audited me ''recall'' args
     (if ''mcp.recall'' \<notin> set caps then io_return (denied ''recall'')
      else case get_or args ''query'' (VStr []) of
          VStr query \<Rightarrow>
            (case py_int (get_or args ''k'' (VInt 5)) of
               Inr k \<Rightarrow>
                 if k < 1 \<or> k > bu_recall_max_k bu
                 then io_return (invalid (''k must be an integer in [1, '' @ int_str (bu_recall_max_k bu) @ '']''))
                 else recall_read me query k (py_or (get_or args ''tags'' (VList [])) (VList []))
             | Inl _ \<Rightarrow> io_return (invalid (''k must be an integer in [1, '' @ int_str (bu_recall_max_k bu) @ '']'')))
        | _ \<Rightarrow> io_return (invalid ''query must be a string''))"

section \<open>forget\<close>

definition retract_fact :: "string \<Rightarrow> val \<Rightarrow> int \<Rightarrow> fact" where
  "retract_fact e v now = \<lparr>f_e = e, f_a = CONTENT_ATTR, f_v = v, f_valid_from = Some (DtVal (Aware now)),
     f_valid_to = Some (DtVal (Aware now)), f_op = Some ''retract''\<rparr>"

definition forget_write :: "mcp_env \<Rightarrow> string \<Rightarrow> (mcp, val) io" where
  "forget_write me eid = io_bind (mcp_now me) (\<lambda>now s.
     case entity (as_of (mc_log s) now) eid CONTENT_ATTR of
       None \<Rightarrow> (Inr (make_error ERR_NOT_FOUND (''no entity at '' @ eid) None False), s)
     | Some content \<Rightarrow>
         (case transact (me_db me (mc_reads s)) (mc_log s) [retract_fact eid content now] [] False of
            Inl e \<Rightarrow> (Inr (make_error ERR_INTERNAL (''retract failed: '' @ me_show me e) None False), s)
          | Inr l \<Rightarrow> (Inr (make_success (VDict [(''eid'', VStr eid), (''valid_to'', VStr (isoformat me now)),
                (''retracted'', VBool True)]) (''retracted '' @ eid)), s\<lparr>mc_log := l\<rparr>)))"

definition tool_forget :: "mcp_env \<Rightarrow> string list \<Rightarrow> budgets \<Rightarrow> val dict \<Rightarrow> (mcp, val) io" where
  "tool_forget me caps bu args = audited me ''forget'' args
     (if ''mcp.forget'' \<notin> set caps then io_return (denied ''forget'')
      else case get_or args ''eid'' VNone of
          VStr eid \<Rightarrow> forget_write me eid
        | _ \<Rightarrow> io_return (invalid ''eid must be a string''))"

section \<open>audit_window\<close>

definition window_entry :: "nat \<Rightarrow> chain_entry \<Rightarrow> err + val" where
  "window_entry tx entry =
     (case entry of
        DictEntry d \<Rightarrow> ebind (dict_of (get_or d ''args'' (VDict []))) (\<lambda>a. Inr (VDict
          [(''op'', get_or d ''op'' (VStr [])), (''args_hash'', get_or a ''args_hash'' (VStr [])),
           (''result_hash'', get_or a ''result_hash'' (VStr [])),
           (''prev_hash'', py_or (get_or d ''prev_hash'' VNone) (VStr [])), (''tx'', VInt (int tx))]))
      | RecordEntry e \<Rightarrow> Inr (VDict
          [(''op'', VStr (e_op e)), (''args_hash'', VStr (e_args_hash e)),
           (''result_hash'', py_or (opt_val (e_result_hash e)) (VStr [])),
           (''prev_hash'', py_or (opt_val (e_prev_hash e)) (VStr [])), (''tx'', VInt (int tx))]))"

definition past_end :: "nat \<Rightarrow> val \<Rightarrow> err + bool" where
  "past_end tx to_tx = (if to_tx = VNone then Inr False else ebind (py_int to_tx) (\<lambda>i. Inr (int tx > i)))"

fun window_scan :: "int \<Rightarrow> val \<Rightarrow> int \<Rightarrow> val list \<Rightarrow> nat \<Rightarrow> chain_entry list \<Rightarrow> err + val list" where
  "window_scan from_tx to_tx limit out tx [] = Inr out"
| "window_scan from_tx to_tx limit out tx (e # es) =
     (if int tx < from_tx then window_scan from_tx to_tx limit out (Suc tx) es
      else ebind (past_end tx to_tx) (\<lambda>over. if over then Inr out
        else ebind (window_entry tx e) (\<lambda>v.
          if int (length (out @ [v])) \<ge> limit then Inr (out @ [v])
          else window_scan from_tx to_tx limit (out @ [v]) (Suc tx) es)))"

definition window_head :: "chain_entry list \<Rightarrow> val" where
  "window_head entries = (if entries = [] then VStr [] else
     case last entries of DictEntry d \<Rightarrow> py_or (get_or d ''id'' VNone) (VStr [])
       | RecordEntry e \<Rightarrow> VStr (e_id e))"

definition audit_window_body :: "budgets \<Rightarrow> val dict \<Rightarrow> (mcp, val) io" where
  "audit_window_body bu args = (case get_or args ''from_tx'' VNone of
      VInt from_tx \<Rightarrow>
        if from_tx < 0 then io_return (invalid ''from_tx must be a non-negative integer'')
        else (let bad = io_return (invalid (''limit must be an integer in [1, '' @ int_str (bu_audit_window_max_limit bu) @ '']'')) in
          case get_or args ''limit'' (VInt 100) of
            VInt limit \<Rightarrow>
              if limit < 1 \<or> limit > bu_audit_window_max_limit bu then bad
              else io_bind get_entries (\<lambda>entries.
                io_bind (io_lift (window_scan from_tx (get_or args ''to_tx'' VNone) limit [] 0 entries)) (\<lambda>out.
                  io_return (make_success (VDict [(''entries'', VList out), (''head_hash'', window_head entries)])
                    (nat_str (length out) @ '' audit entries''))))
          | _ \<Rightarrow> bad)
    | _ \<Rightarrow> io_return (invalid ''from_tx must be a non-negative integer''))"

definition tool_audit_window :: "mcp_env \<Rightarrow> string list \<Rightarrow> budgets \<Rightarrow> val dict \<Rightarrow> (mcp, val) io" where
  "tool_audit_window me caps bu args = audited me ''audit_window'' args
     (if ''mcp.audit-read'' \<notin> set caps then io_return (denied ''audit_window'')
      else audit_window_body bu args)"

section \<open>replay_check\<close>

text \<open>\<open>int(x)\<close> of a float truncates.\<close>

definition py_trunc :: "rat \<Rightarrow> int" where
  "py_trunc r = (if 0 \<le> r then \<lfloor>r\<rfloor> else \<lceil>r\<rceil>)"

definition drop_id :: "val dict \<Rightarrow> val dict" where
  "drop_id d = filter (\<lambda>(k, v). k \<noteq> ''id'') d"

text \<open>The walk over a window: every dictionary must carry the hash of its other fields, and
  once an id was seen the next dictionary must point to it. Objects are passed over.\<close>

fun chain_ok :: "mcp_env \<Rightarrow> val \<Rightarrow> chain_entry list \<Rightarrow> bool" where
  "chain_ok me prev [] = True"
| "chain_ok me prev (RecordEntry e # es) = chain_ok me prev es"
| "chain_ok me prev (DictEntry d # es) =
     (if get_or d ''id'' VNone \<noteq> VStr (hash_canonical me (VDict (drop_id d))) then False
      else if prev \<noteq> VNone \<and> get_or d ''prev_hash'' VNone \<noteq> prev then False
      else chain_ok me (get_or d ''id'' VNone) es)"

definition replay_window :: "int \<Rightarrow> int \<Rightarrow> nat \<Rightarrow> nat \<times> nat" where
  "replay_window tx window n =
     (nat (max 0 (tx - window div 2)), nat (min (int n) (tx + window div 2 + 1)))"

definition replay_head :: "chain_entry list \<Rightarrow> val" where
  "replay_head entries = (if entries = [] then VStr [] else
     case last entries of DictEntry d \<Rightarrow> get_or d ''id'' (VStr []) | RecordEntry _ \<Rightarrow> VStr [])"

definition replay_verdict :: "mcp_env \<Rightarrow> int \<Rightarrow> int \<Rightarrow> chain_entry list \<Rightarrow> val" where
  "replay_verdict me tx window entries =
     (if tx \<ge> int (length entries) \<and> entries \<noteq> [] then
        make_success (VDict [(''ok'', VBool False), (''reason_code'', VStr ''tx_not_found''),
          (''window_actual'', VInt 0), (''head_hash'', VStr [])]) (''tx '' @ int_str tx @ '' not found'')
      else case replay_window tx window (length entries) of (lo, hi) \<Rightarrow>
        let actual = max 0 (int hi - int lo); ok = chain_ok me VNone (take (hi - lo) (drop lo entries)) in
        make_success (VDict [(''ok'', VBool ok),
            (''reason_code'', VStr (if ok then ''ok'' else ''mismatch_audit_chain'')),
            (''window_actual'', VInt actual), (''head_hash'', replay_head entries)])
          (''replay '' @ (if ok then ''ok'' else ''mismatch'') @ '' over '' @ int_str actual))"

definition budget_error :: "string \<Rightarrow> string \<Rightarrow> val dict \<Rightarrow> bool \<Rightarrow> val" where
  "budget_error message reason extra retriable = make_error ERR_BUDGET message
     (Some (VDict ([(''error_code'', VStr ERR_BUDGET), (''ok'', VBool False), (''reason_code'', VStr reason),
       (''window_actual'', VInt 0), (''head_hash'', VStr [])] @ extra))) retriable"

definition replay_check_body ::
  "mcp_env \<Rightarrow> budgets \<Rightarrow> (mcp, bool) io option \<Rightarrow> rat option \<Rightarrow> val dict \<Rightarrow> (mcp, val) io" where
  "replay_check_body me bu rate_limiter slow args =
    (case get_or args ''tx'' VNone of
       VInt tx \<Rightarrow>
         if tx < 0 then io_return (invalid ''tx must be a non-negative integer'')
         else (case get_or args ''window'' (VInt 32) of
           VInt window \<Rightarrow>
             if window < 1 then io_return (invalid ''window must be a positive integer'')
             else if window > bu_replay_max_window bu then
               io_return (budget_error (''window '' @ int_str window @ '' > MCP_REPLAY_MAX_WINDOW ('' @
                 int_str (bu_replay_max_window bu) @ '')'') ''window_too_large'' [] False)
             else io_bind (case rate_limiter of None \<Rightarrow> io_return True | Some allow \<Rightarrow> allow) (\<lambda>allowed.
               if \<not> allowed then
                 io_return (budget_error ''replay rate limit exceeded'' ''replay_aborted_budget''
                   [(''retry_after_s'', VInt (py_trunc (bu_replay_rate_window_s bu)))] True)
               else if (case slow of None \<Rightarrow> False | Some t \<Rightarrow> t > bu_replay_max_wallclock_s bu) then
                 io_return (budget_error (''replay aborted: wallclock budget '' @
                   me_float me (bu_replay_max_wallclock_s bu) @ ''s exceeded'') ''replay_aborted_budget'' [] False)
               else io_bind get_entries (\<lambda>entries. io_return (replay_verdict me tx window entries)))
         | _ \<Rightarrow> io_return (invalid ''window must be a positive integer''))
     | _ \<Rightarrow> io_return (invalid ''tx must be a non-negative integer''))"

definition tool_replay_check ::
  "mcp_env \<Rightarrow> string list \<Rightarrow> budgets \<Rightarrow> (mcp, bool) io option \<Rightarrow> rat option \<Rightarrow> val dict \<Rightarrow> (mcp, val) io" where
  "tool_replay_check me caps bu rate_limiter slow args = audited me ''replay_check'' args
     (if ''mcp.replay'' \<notin> set caps then io_return (denied ''replay_check'')
      else replay_check_body me bu rate_limiter slow args)"

section \<open>view_at\<close>

definition view_depth :: "int \<Rightarrow> nat \<Rightarrow> int" where
  "view_depth tx n = (if n = 0 then 0 else if tx \<ge> int n then int n else tx + 1)"

definition view_at_body :: "mcp_env \<Rightarrow> budgets \<Rightarrow> val dict \<Rightarrow> (mcp, val) io" where
  "view_at_body me bu args =
    (case get_or args ''tx'' VNone of
       VInt tx \<Rightarrow>
         if tx < 0 then io_return (invalid ''tx must be a non-negative integer'')
         else let label = get_or args ''label'' VNone in
           if (case label of VNone \<Rightarrow> False
               | VStr s \<Rightarrow> int (length s) > bu_view_at_max_label_len bu \<or> length s < 1 | _ \<Rightarrow> True)
           then io_return (invalid (''label must be a 1..'' @ int_str (bu_view_at_max_label_len bu) @ ''-char string''))
           else io_bind get_entries (\<lambda>entries. io_bind (mcp_now me) (\<lambda>now. io_bind (new_uuid me) (\<lambda>cursor_id.
             io_return (make_success (VDict
                 ([(''cursor_id'', VStr cursor_id), (''view_cursor_tx_time_iso'', VStr (isoformat me now)),
                   (''parent_chain_depth'', VInt (view_depth tx (length entries)))]
                  @ (if label = VNone then [] else [(''label'', label)])))
               (''cursor '' @ cursor_id @ '' @ tx='' @ int_str tx)))))
     | _ \<Rightarrow> io_return (invalid ''tx must be a non-negative integer''))"

definition tool_view_at :: "mcp_env \<Rightarrow> string list \<Rightarrow> budgets \<Rightarrow> val dict \<Rightarrow> (mcp, val) io" where
  "tool_view_at me caps bu args = audited me ''view_at'' args
     (if ''mcp.view'' \<notin> set caps then io_return (denied ''view_at'') else view_at_body me bu args)"

end
