(* ===== verification/McpServer.thy ===== *)
theory McpServer
  imports McpTools
begin

text \<open>
  \<open>persistence.sdk.mcp._server\<close>: the sliding-window rate limiter, the lifecycle and dispatch of
  \<open>MCPServer\<close>, the audit-tail resource with its subscription, the stdio loop and the checks of
  the HTTP wrapper.
\<close>

section \<open>The rate limiter\<close>

definition rate_allow :: "int \<Rightarrow> rat \<Rightarrow> rat \<Rightarrow> rat list \<Rightarrow> bool \<times> rat list" where
  "rate_allow limit window_s now events =
     (let kept = dropWhile (\<lambda>t. t < now - window_s) events in
      if int (length kept) \<ge> limit then (False, kept) else (True, kept @ [now]))"

definition replay_allow :: "mcp_env \<Rightarrow> (mcp, bool) io" where
  "replay_allow me = io_bind (reading (me_wall me)) (\<lambda>now s.
     case rate_allow (bu_replay_rate_limit (mc_budgets s)) (bu_replay_rate_window_s (mc_budgets s)) now (mc_rate s) of
       (ok, kept) \<Rightarrow> (Inr ok, s\<lparr>mc_rate := kept\<rparr>))"

section \<open>Construction and responses\<close>

definition PROTOCOL_PRIMARY :: string where "PROTOCOL_PRIMARY = ''2025-06-18''"
definition PROTOCOL_FALLBACK :: string where "PROTOCOL_FALLBACK = ''2025-03-26''"

definition SUPPORTED_VERSIONS :: "string list" where
  "SUPPORTED_VERSIONS = [PROTOCOL_PRIMARY, PROTOCOL_FALLBACK]"

definition SERVER_NAME :: string where "SERVER_NAME = ''persistence-os-mcp''"
definition SERVER_VERSION :: string where "SERVER_VERSION = ''0.8.0a1''"

text \<open>\<open>MCPServer.__init__\<close>: all capabilities unless a set is given, and none that is unknown.\<close>

definition create_server ::
  "log \<Rightarrow> chain_entry list \<Rightarrow> string list option \<Rightarrow> budgets option \<Rightarrow> mcp" where
  "create_server l entries token_caps bu =
     \<lparr>mc_log = l, mc_entries = entries,
      mc_caps = filter (\<lambda>c. c \<in> set ALL_MCP_CAPS) (case token_caps of Some cs \<Rightarrow> cs | None \<Rightarrow> ALL_MCP_CAPS),
      mc_budgets = (case bu of Some b \<Rightarrow> b | None \<Rightarrow> default_budgets),
      mc_server = (SERVER_NAME, SERVER_VERSION), mc_initialized = False, mc_negotiated = None,
      mc_client = VNone, mc_subscriptions = [], mc_pending = [], mc_rate = [],
      mc_last_len = length entries, mc_reads = 0\<rparr>"

definition mcp_error :: "val \<Rightarrow> int \<Rightarrow> string \<Rightarrow> val" where
  "mcp_error req_id code message = VDict [(''jsonrpc'', VStr ''2.0''), (''id'', req_id),
     (''error'', VDict [(''code'', VInt code), (''message'', VStr message)])]"

definition mcp_result :: "val \<Rightarrow> val \<Rightarrow> val" where
  "mcp_result req_id result = VDict [(''jsonrpc'', VStr ''2.0''), (''id'', req_id), (''result'', result)]"

section \<open>Lifecycle\<close>

text \<open>Characters are below 256: the dash of the banner and of one message is written as a hyphen.\<close>

definition MCP_INSTRUCTIONS :: string where
  "MCP_INSTRUCTIONS = ''Persistence OS MCP server v0.8 '' @
     [CHR 0x2D] @ '' first-party adapter. v0.8 MCP makes NO confidentiality guarantees '' @
     [CHR 0x2D] @ '' for trusted-host scenarios only; sensitive-data deployments wait for v0.9 privacy-arch.''"

definition handle_initialize :: "val dict \<Rightarrow> (mcp, val) io" where
  "handle_initialize params s =
     (let client = get_or params ''protocolVersion'' VNone;
          version = (case client of VStr v \<Rightarrow> if v \<in> set SUPPORTED_VERSIONS then v else PROTOCOL_PRIMARY
            | _ \<Rightarrow> PROTOCOL_PRIMARY)
      in (Inr (VDict
           [(''protocolVersion'', VStr version),
            (''capabilities'', VDict
              [(''tools'', VDict [(''listChanged'', VBool False)]),
               (''resources'', VDict [(''subscribe'', VBool True), (''listChanged'', VBool False)])]),
            (''serverInfo'', VDict [(''name'', VStr (fst (mc_server s))), (''version'', VStr (snd (mc_server s)))]),
            (''instructions'', VStr MCP_INSTRUCTIONS)]),
          s\<lparr>mc_negotiated := Some version, mc_client := get_or params ''clientInfo'' VNone\<rparr>))"

definition tool_description :: "string \<Rightarrow> string" where
  "tool_description verb =
     (if verb = ''remember'' then ''Assert a fact (content + optional tags) into the substrate's bitemporal store. Returns the new entity id.''
      else if verb = ''recall'' then ''Substring-match facts in the substrate. Returns up to k hits with their entity ids and tags. v0.8 = substring + tag mode (no vector search; per ADR-8).''
      else if verb = ''forget'' then ''Retract a previously-remembered fact by entity id.''
      else if verb = ''audit_window'' then ''Return a window of audit-chain entries from from_tx through to_tx (inclusive). Capped at limit.''
      else if verb = ''replay_check'' then ''Re-verify a window of the audit chain around tx. Returns {ok, reason_code, window_actual, head_hash}; NEVER returns raw byte diffs (per ADR-13).''
      else ''Allocate a server-side cursor handle anchored at tx. Returns {cursor_id, view_cursor_tx_time_iso, parent_chain_depth}. NOT a store fork (per ADR-14 / Module 7 ADR-13).'')"

definition handle_tools_list :: val where
  "handle_tools_list = VDict [(''tools'', VList (map (\<lambda>verb. VDict
     [(''name'', VStr (tn_wire (names_of verb))), (''description'', VStr (tool_description verb)),
      (''inputSchema'', get_or INPUT_SCHEMAS verb VNone), (''outputSchema'', get_or OUTPUT_SCHEMAS verb VNone)])
     TOOL_ORDER))]"

section \<open>Tools\<close>

definition queue_update :: "mcp \<Rightarrow> mcp" where
  "queue_update s =
     (let cur_len = length (mc_entries s) in
      if AUDIT_TAIL_URI \<notin> set (mc_subscriptions s) then s\<lparr>mc_last_len := cur_len\<rparr>
      else if cur_len > mc_last_len s then
        s\<lparr>mc_pending := mc_pending s @ [VDict [(''jsonrpc'', VStr ''2.0''),
            (''method'', VStr ''notifications/resources/updated''),
            (''params'', VDict [(''uri'', VStr AUDIT_TAIL_URI)])]],
          mc_last_len := cur_len\<rparr>
      else s)"

definition drain_notifications :: "(mcp, val list) io" where
  "drain_notifications s = (Inr (mc_pending s), s\<lparr>mc_pending := []\<rparr>)"

definition tool_handler :: "mcp_env \<Rightarrow> string \<Rightarrow> string list \<Rightarrow> budgets \<Rightarrow> val dict \<Rightarrow> (mcp, val) io" where
  "tool_handler me verb caps bu args =
     (if verb = ''remember'' then tool_remember me caps bu args
      else if verb = ''recall'' then tool_recall me caps bu args
      else if verb = ''forget'' then tool_forget me caps bu args
      else if verb = ''audit_window'' then tool_audit_window me caps bu args
      else if verb = ''replay_check'' then tool_replay_check me caps bu (Some (replay_allow me)) None args
      else tool_view_at me caps bu args)"

definition quoted :: "string \<Rightarrow> string" where
  "quoted s = [CHR 0x27] @ s @ [CHR 0x27]"

definition handle_tools_call :: "mcp_env \<Rightarrow> val dict \<Rightarrow> (mcp, val) io" where
  "handle_tools_call me params = (case get_or params ''name'' VNone of
     VStr wire_name \<Rightarrow> (case wire_to_verb wire_name of
         None \<Rightarrow> io_return (invalid (''unknown tool: '' @ wire_name))
       | Some verb \<Rightarrow> (case get_or params ''arguments'' (VDict []) of
           VDict args \<Rightarrow>
             io_bind (io_lift (validate_against_schema (me_text me) (VDict args) (get_or INPUT_SCHEMAS verb VNone) ''$''))
               (\<lambda>err. case err of
                  Some e \<Rightarrow> io_return (invalid (''input schema violation: '' @ e))
                | None \<Rightarrow> io_bind (\<lambda>s. tool_handler me verb (mc_caps s) (mc_budgets s) args s) (\<lambda>result s.
                    (Inr result, queue_update s)))
         | _ \<Rightarrow> io_return (invalid (''tools/call '' @ quoted ''arguments'' @ '' must be an object''))))
   | _ \<Rightarrow> io_return (invalid (''tools/call requires a string '' @ quoted ''name'')))"

section \<open>The audit-tail resource\<close>

definition handle_resources_list :: val where
  "handle_resources_list = VDict [(''resources'', VList [VDict
     [(''uri'', VStr AUDIT_TAIL_URI), (''name'', VStr ''audit_tail''),
      (''description'', VStr ''Live audit-chain projection (last N entries). Subscribe via resources/subscribe to receive notifications/resources/updated when the chain advances.''),
      (''mimeType'', VStr ''application/json'')]])]"

definition unknown_uri :: "val \<Rightarrow> val" where
  "unknown_uri uri = make_error ERR_NOT_FOUND (''unknown resource uri: '' @ py_str uri) None False"

definition tail_denied :: val where
  "tail_denied = make_error ERR_DENIED (''capability denied: '' @ AUDIT_TAIL_CAP) None False"

definition rendered_entry :: "nat \<times> chain_entry \<Rightarrow> val" where
  "rendered_entry p = (case p of
      (tx, DictEntry d) \<Rightarrow> VDict [(''op'', get_or d ''op'' (VStr [])), (''tx'', VInt (int tx)), (''id'', get_or d ''id'' (VStr []))]
    | (tx, RecordEntry e) \<Rightarrow> VDict [(''op'', VStr (e_op e)), (''tx'', VInt (int tx)), (''id'', VStr (e_id e))])"

text \<open>\<open>json.dumps(v)\<close>, keys in insertion order.\<close>

fun dumps :: "val \<Rightarrow> string" where
  "dumps VNone = ''null''"
| "dumps (VBool b) = (if b then ''true'' else ''false'')"
| "dumps (VInt i) = int_str i"
| "dumps (VStr s) = json_string s"
| "dumps (VTuple xs) = ''['' @ join '', '' (map dumps xs) @ '']''"
| "dumps (VList xs) = ''['' @ join '', '' (map dumps xs) @ '']''"
| "dumps (VDict kvs) = CHR 0x7B # join '', '' (map (\<lambda>(k, v). json_string k @ '': '' @ dumps v) kvs) @ [CHR 0x7D]"

definition audit_tail :: "chain_entry list \<Rightarrow> val" where
  "audit_tail entries =
     (let start = length entries - 32 in VDict [(''contents'', VList [VDict
        [(''uri'', VStr AUDIT_TAIL_URI), (''mimeType'', VStr ''application/json''),
         (''text'', VStr (dumps (VDict [(''entries'',
            VList (map rendered_entry (List.enumerate start (drop start entries))))])))]])])"

definition handle_resources_read :: "val dict \<Rightarrow> (mcp, val) io" where
  "handle_resources_read params s =
     (let uri = get_or params ''uri'' VNone in
      if uri \<noteq> VStr AUDIT_TAIL_URI then (Inr (unknown_uri uri), s)
      else if AUDIT_TAIL_CAP \<notin> set (mc_caps s) then (Inr tail_denied, s)
      else (Inr (audit_tail (mc_entries s)), s))"

definition handle_resources_subscribe :: "val dict \<Rightarrow> (mcp, val) io" where
  "handle_resources_subscribe params s =
     (let uri = get_or params ''uri'' VNone in
      if uri \<noteq> VStr AUDIT_TAIL_URI then (Inr (unknown_uri uri), s)
      else if AUDIT_TAIL_CAP \<notin> set (mc_caps s) then (Inr tail_denied, s)
      else (Inr (VDict [(''ok'', VBool True)]),
            s\<lparr>mc_subscriptions := List.insert AUDIT_TAIL_URI (mc_subscriptions s)\<rparr>))"

text \<open>\<open>set.discard\<close> hashes its argument.\<close>

definition handle_resources_unsubscribe :: "val dict \<Rightarrow> (mcp, val) io" where
  "handle_resources_unsubscribe params s =
     (let uri = get_or params ''uri'' VNone in
      if \<not> hashable uri then (Inl TypeError, s)
      else (Inr (VDict [(''ok'', VBool True)]),
            s\<lparr>mc_subscriptions := (case uri of VStr u \<Rightarrow> removeAll u (mc_subscriptions s) | _ \<Rightarrow> mc_subscriptions s)\<rparr>))"

section \<open>Dispatch\<close>

definition operate :: "mcp_env \<Rightarrow> string \<Rightarrow> val dict \<Rightarrow> (mcp, val) io option" where
  "operate me meth params =
     (if meth = ''tools/list'' then Some (io_return handle_tools_list)
      else if meth = ''tools/call'' then Some (handle_tools_call me params)
      else if meth = ''resources/list'' then Some (io_return handle_resources_list)
      else if meth = ''resources/read'' then Some (handle_resources_read params)
      else if meth = ''resources/subscribe'' then Some (handle_resources_subscribe params)
      else if meth = ''resources/unsubscribe'' then Some (handle_resources_unsubscribe params)
      else None)"

text \<open>The reply is \<open>None\<close> for most notifications. A request without the lifecycle's
  \<open>notifications/initialized\<close> before it reaches no operation.\<close>

definition mcp_handle_request :: "mcp_env \<Rightarrow> val \<Rightarrow> (mcp, val option) io" where
  "mcp_handle_request me payload = (case payload of
     VDict d \<Rightarrow>
       (let req_id = get_or d ''id'' VNone; is_notification = (dget d ''id'' = None);
            reply = (\<lambda>v. io_return (Some v)) in
        if dget d ''jsonrpc'' \<noteq> Some (VStr ''2.0'') then
          reply (mcp_error req_id ERR_INVALID_REQUEST ''missing or invalid jsonrpc field'')
        else case get_or d ''method'' VNone of
          VStr meth \<Rightarrow> (case get_or d ''params'' (VDict []) of
            VDict params \<Rightarrow>
              if meth = ''initialize'' then
                io_bind (handle_initialize params) (\<lambda>r. reply (mcp_result req_id r))
              else if meth = ''notifications/initialized'' then (\<lambda>s. (Inr None, s\<lparr>mc_initialized := True\<rparr>))
              else if meth = ''ping'' then reply (mcp_result req_id (VDict []))
              else (\<lambda>s. if \<not> mc_initialized s then
                  (if is_notification then (Inr None, s)
                   else (Inr (Some (mcp_error req_id ERR_INVALID_REQUEST
                     (''server not initialized '' @ [CHR 0x2D] @ '' send '' @ quoted ''initialize'' @ '' first''))), s))
                else (case operate me meth params of
                    Some m \<Rightarrow> io_bind m (\<lambda>r. reply (mcp_result req_id r)) s
                  | None \<Rightarrow> if is_notification then (Inr None, s)
                      else (Inr (Some (mcp_error req_id ERR_METHOD_NOT_FOUND (''method not found: '' @ meth))), s)))
          | _ \<Rightarrow> reply (mcp_error req_id ERR_INVALID_PARAMS ''params must be an object''))
        | _ \<Rightarrow> reply (mcp_error req_id ERR_INVALID_REQUEST ''missing or invalid method''))
   | _ \<Rightarrow> io_return (Some (mcp_error VNone ERR_INVALID_REQUEST ''request must be an object'')))"

section \<open>stdio\<close>

text \<open>One line: blank lines are skipped, a decode error answers, the reply and the queued
  notifications are written as lines. \<open>ValueError\<close> stands for \<open>JSONDecodeError\<close>.\<close>

definition stdio_line :: "mcp_env \<Rightarrow> string \<Rightarrow> (mcp, string list) io" where
  "stdio_line me raw =
     (let line = py_strip raw in
      if line = [] then io_return []
      else case te_loads (me_text me) line of
        Inl e \<Rightarrow> if e = ValueError
          then io_return [dumps (mcp_error VNone ERR_PARSE_ERROR (''parse error: '' @ me_show me e))]
          else io_raise e
      | Inr payload \<Rightarrow> io_bind (mcp_handle_request me payload) (\<lambda>response.
          io_bind drain_notifications (\<lambda>notes.
            io_return (map dumps ((case response of None \<Rightarrow> [] | Some r \<Rightarrow> [r]) @ notes)))))"

text \<open>The loop to the end of the input; a raise ends it, with the lines written so far.\<close>

fun serve_stdio :: "mcp_env \<Rightarrow> string list \<Rightarrow> string list \<Rightarrow> mcp \<Rightarrow> (err + unit) \<times> string list \<times> mcp" where
  "serve_stdio me [] out s = (Inr (), out, s)"
| "serve_stdio me (raw # rest) out s = (case stdio_line me raw s of
      (Inl e, s') \<Rightarrow> (Inl e, out, s')
    | (Inr ls, s') \<Rightarrow> serve_stdio me rest (out @ ls) s')"

section \<open>HTTP\<close>

record http_handler =
  hh_bearer :: "string option"
  hh_origins :: "string list"
  hh_limit :: int
  hh_window :: rat

definition http_init ::
  "string \<Rightarrow> int \<Rightarrow> string option \<Rightarrow> string list option \<Rightarrow> int \<Rightarrow> rat \<Rightarrow> err + http_handler" where
  "http_init bind_host port bearer origins limit window =
     (if bind_host \<notin> set [''127.0.0.1'', ''localhost'', ''::1''] then Inl ValueError
      else Inr \<lparr>hh_bearer = bearer,
        hh_origins = (case origins of Some (c # cs) \<Rightarrow> c # cs
          | _ \<Rightarrow> [''http://localhost:'' @ int_str port, ''http://127.0.0.1:'' @ int_str port]),
        hh_limit = limit, hh_window = window\<rparr>)"

type_synonym http_reply = "int \<times> string dict \<times> string"

definition json_reply :: "int \<Rightarrow> string dict \<Rightarrow> val dict \<Rightarrow> http_reply" where
  "json_reply status extra body = (status, (''content-type'', ''application/json'') # extra, dumps (VDict body))"

definition error_body :: "string \<Rightarrow> val dict" where
  "error_body e = [(''error'', VStr e)]"

text \<open>The checks before the dispatch, in order; \<open>None\<close> lets the request through. Header
  names are lowered, a later one wins.\<close>

definition lower_headers :: "string dict \<Rightarrow> string dict" where
  "lower_headers hs = fold (\<lambda>(k, v). dset (py_lower k) v) hs []"

definition origin_check :: "http_handler \<Rightarrow> string dict \<Rightarrow> http_reply option" where
  "origin_check hh h = (case dget h ''origin'' of None \<Rightarrow> None
     | Some origin \<Rightarrow> if origin = ''null'' \<or> origin \<notin> set (hh_origins hh)
         then Some (json_reply 403 [] (error_body ''origin_not_allowed'' @ [(''origin'', VStr origin)])) else None)"

definition bearer_check :: "http_handler \<Rightarrow> string dict \<Rightarrow> http_reply option" where
  "bearer_check hh h =
     (let auth = (case dget h ''authorization'' of None \<Rightarrow> [] | Some a \<Rightarrow> a) in
      if startswith ''Bearer '' auth \<and> hh_bearer hh = Some (drop 7 auth) then None
      else Some (json_reply 401 [] (error_body ''capability_denied'')))"

definition http_dispatch :: "mcp_env \<Rightarrow> string \<Rightarrow> (mcp, http_reply) io" where
  "http_dispatch me body = (case te_loads (me_text me) body of
      Inl e \<Rightarrow> if e = ValueError then io_return (json_reply 400 [] (error_body ''parse_error'')) else io_raise e
    | Inr payload \<Rightarrow> io_bind (mcp_handle_request me payload) (\<lambda>response. io_return (case response of
        None \<Rightarrow> (204, [], []) | Some r \<Rightarrow> (200, [(''content-type'', ''application/json'')], dumps r))))"

text \<open>The state is the wrapper's own limiter with the server.\<close>

definition handle_http_request ::
  "mcp_env \<Rightarrow> http_handler \<Rightarrow> rat \<Rightarrow> string dict \<Rightarrow> string \<Rightarrow> rat list \<times> mcp \<Rightarrow> (err + http_reply) \<times> rat list \<times> mcp" where
  "handle_http_request me hh now headers body st =
     (let h = lower_headers headers in
      case origin_check hh h of Some r \<Rightarrow> (Inr r, st)
      | None \<Rightarrow> (case bearer_check hh h of Some r \<Rightarrow> (Inr r, st)
        | None \<Rightarrow> (case rate_allow (hh_limit hh) (hh_window hh) now (fst st) of
            (False, kept) \<Rightarrow> (Inr (json_reply 429 [(''retry-after'', ''1'')] (error_body ''rate_limit_exceeded'')), kept, snd st)
          | (True, kept) \<Rightarrow> (case http_dispatch me body (snd st) of (r, s') \<Rightarrow> (r, kept, s')))))"

end
