(* ===== verification/McpLaws.thy ===== *)
theory McpLaws
  imports McpServer
begin

text \<open>
  What a request to the MCP server can change. Every tool is a body between a capability check
  and one audit entry; the bodies are computations of a preorder on states (the contract of
  \<open>ReplLaws\<close>), and a request is quiet unless it is a call of a tool.
\<close>

section \<open>The bodies of the tools\<close>

text \<open>A body leaves the audit list and the connection alone; a reading one also the log.\<close>

definition body_rel :: "bool \<Rightarrow> mcp \<Rightarrow> mcp \<Rightarrow> bool" where
  "body_rel reading_only s s' \<longleftrightarrow>
     mc_entries s' = mc_entries s \<and> mc_caps s' = mc_caps s \<and> mc_budgets s' = mc_budgets s \<and>
     mc_initialized s' = mc_initialized s \<and> mc_subscriptions s' = mc_subscriptions s \<and>
     mc_pending s' = mc_pending s \<and> mc_last_len s' = mc_last_len s \<and>
     (reading_only \<longrightarrow> mc_log s' = mc_log s)"

interpretation body: world_preorder "body_rel b" for b
  by unfold_locales (auto simp: body_rel_def)

lemma reading_moves: "io_moves (body_rel b) (reading f)"
  by (simp add: io_moves_def reading_def body_rel_def)

lemma get_entries_moves: "io_moves (body_rel b) get_entries"
  by (simp add: io_moves_def get_entries_def body_rel_def)

lemma replay_allow_moves: "io_moves (body_rel b) (replay_allow me)"
  unfolding replay_allow_def
  by (rule body.moves_bind[OF reading_moves]) (simp add: io_moves_def body_rel_def split: prod.split)

lemma remember_write_moves: "io_moves (body_rel False) (remember_write me content tags)"
  unfolding remember_write_def
  by (intro body.moves_bind reading_moves) (auto simp: io_moves_def body_rel_def split: sum.split)

lemma forget_write_moves: "io_moves (body_rel False) (forget_write me eid)"
  unfolding forget_write_def
  by (rule body.moves_bind[OF reading_moves])
     (auto simp: io_moves_def body_rel_def split: sum.split option.split)

lemma recall_read_moves: "io_moves (body_rel b) (recall_read me q k tf)"
  unfolding recall_read_def
  by (rule body.moves_bind[OF reading_moves]) (simp add: io_moves_def body_rel_def)

lemma audit_window_body_moves: "io_moves (body_rel b) (audit_window_body bu args)"
  unfolding audit_window_body_def Let_def
  by (auto split: val.split intro!: body.moves get_entries_moves)

lemma replay_check_body_moves:
  assumes "\<And>m. rl = Some m \<Longrightarrow> io_moves (body_rel b) m"
  shows "io_moves (body_rel b) (replay_check_body me bu rl slow args)"
  unfolding replay_check_body_def
  using assms by (auto split: val.split option.split intro!: body.moves get_entries_moves)

lemma view_at_body_moves: "io_moves (body_rel b) (view_at_body me bu args)"
  unfolding view_at_body_def Let_def
  by (auto split: val.split intro!: body.moves get_entries_moves reading_moves)

text \<open>Every tool is an audited body, and only \<open>remember\<close> and \<open>forget\<close> with their
  capability write the log.\<close>

definition may_write :: "string \<Rightarrow> string list \<Rightarrow> bool" where
  "may_write verb caps \<longleftrightarrow> (verb = ''remember'' \<and> ''mcp.remember'' \<in> set caps) \<or>
     (verb = ''forget'' \<and> ''mcp.forget'' \<in> set caps)"

definition writing_tool :: "mcp_env \<Rightarrow> string \<Rightarrow> string list \<Rightarrow> val dict \<Rightarrow> (mcp, val) io \<Rightarrow> bool" where
  "writing_tool me verb caps args m \<longleftrightarrow>
     (\<exists>body. m = audited me verb args body \<and> io_moves (body_rel (\<not> may_write verb caps)) body)"

lemma writing_toolI:
  assumes "verb = ''remember'' \<or> verb = ''forget'' \<or> io_moves (body_rel True) body"
    and "io_moves (body_rel False) body"
    and "verb = ''remember'' \<Longrightarrow> ''mcp.remember'' \<notin> set caps \<Longrightarrow> io_moves (body_rel True) body"
    and "verb = ''forget'' \<Longrightarrow> ''mcp.forget'' \<notin> set caps \<Longrightarrow> io_moves (body_rel True) body"
  shows "writing_tool me verb caps args (audited me verb args body)"
  unfolding writing_tool_def using assms by (cases "may_write verb caps") (auto simp: may_write_def)

lemma tool_remember_writes: "writing_tool me ''remember'' caps args (tool_remember me caps bu args)"
  unfolding tool_remember_def
  by (rule writing_toolI) (auto split: val.split intro!: body.moves remember_write_moves)

lemma tool_recall_writes: "writing_tool me ''recall'' caps args (tool_recall me caps bu args)"
  unfolding tool_recall_def
  by (rule writing_toolI) (auto split: val.split sum.split intro!: body.moves recall_read_moves)

lemma tool_forget_writes: "writing_tool me ''forget'' caps args (tool_forget me caps bu args)"
  unfolding tool_forget_def
  by (rule writing_toolI) (auto split: val.split intro!: body.moves forget_write_moves)

lemma tool_audit_window_writes:
  "writing_tool me ''audit_window'' caps args (tool_audit_window me caps bu args)"
  unfolding tool_audit_window_def
  by (rule writing_toolI) (auto intro!: body.moves audit_window_body_moves)

lemma tool_replay_check_writes:
  "writing_tool me ''replay_check'' caps args (tool_replay_check me caps bu (Some (replay_allow me)) slow args)"
  unfolding tool_replay_check_def
  by (rule writing_toolI) (auto intro!: body.moves replay_check_body_moves replay_allow_moves)

lemma tool_view_at_writes: "writing_tool me ''view_at'' caps args (tool_view_at me caps bu args)"
  unfolding tool_view_at_def
  by (rule writing_toolI) (auto intro!: body.moves view_at_body_moves)

lemma tool_handler_writes:
  assumes "wire_to_verb w = Some verb"
  shows "writing_tool me verb caps args (tool_handler me verb caps bu args)"
  using assms
  by (rule verb_cases) (simp_all add: tool_handler_def tool_remember_writes tool_recall_writes tool_forget_writes
      tool_audit_window_writes tool_replay_check_writes tool_view_at_writes)

text \<open>So a tool that returns appends exactly one sealed entry, and one that raises none.\<close>

lemma audited_run:
  assumes "audited me verb args body s = (r, s')" "io_moves (body_rel b) body"
  obtains s1 where "body_rel b s s1" "case r of
      Inl _ \<Rightarrow> s' = s1
    | Inr env \<Rightarrow> s' = s1\<lparr>mc_entries := mc_entries s @
        [DictEntry (sealed_entry me (entry_body me verb args env (mc_entries s)))]\<rparr>"
proof -
  obtain r1 s1 where b: "body s = (r1, s1)" by (cases "body s")
  have R: "body_rel b s s1" by (rule io_movesD[OF assms(2) b])
  then have "mc_entries s1 = mc_entries s" by (simp add: body_rel_def)
  with assms(1) b show ?thesis
    by (intro that[OF R]) (auto simp: audited_def io_bind_def emit_audit_def split: sum.splits)
qed

section \<open>One request\<close>

text \<open>The tool a payload calls, with its arguments.\<close>

definition called :: "val \<Rightarrow> (string \<times> val dict) option" where
  "called payload = (case payload of
     VDict d \<Rightarrow>
       if get_or d ''method'' VNone = VStr ''tools/call'' then
         (case get_or d ''params'' (VDict []) of
            VDict ps \<Rightarrow> (case (get_or ps ''name'' VNone, get_or ps ''arguments'' (VDict [])) of
                (VStr w, VDict args) \<Rightarrow> map_option (\<lambda>v. (v, args)) (wire_to_verb w)
              | _ \<Rightarrow> None)
          | _ \<Rightarrow> None)
       else None
   | _ \<Rightarrow> None)"

definition quiet_step :: "mcp \<Rightarrow> mcp \<Rightarrow> bool" where
  "quiet_step s s' \<longleftrightarrow> mc_log s' = mc_log s \<and> mc_entries s' = mc_entries s \<and> mc_rate s' = mc_rate s \<and>
     mc_caps s' = mc_caps s \<and> mc_budgets s' = mc_budgets s"

lemma quiet_step_refl [simp]: "quiet_step s s"
  by (simp add: quiet_step_def)

lemma queue_update_sel [simp]:
  "mc_log (queue_update s) = mc_log s" "mc_entries (queue_update s) = mc_entries s"
  "mc_rate (queue_update s) = mc_rate s" "mc_caps (queue_update s) = mc_caps s"
  "mc_budgets (queue_update s) = mc_budgets s" "mc_initialized (queue_update s) = mc_initialized s"
  by (simp_all add: queue_update_def Let_def)

text \<open>The run of a tool from a request: its arguments passed the published schema.\<close>

definition tool_run :: "mcp_env \<Rightarrow> string \<Rightarrow> val dict \<Rightarrow> mcp \<Rightarrow> mcp \<Rightarrow> bool" where
  "tool_run me verb args s s' \<longleftrightarrow>
     validate_against_schema (me_text me) (VDict args) (get_or INPUT_SCHEMAS verb VNone) ''$'' = Inr None \<and>
     (\<exists>r s1. tool_handler me verb (mc_caps s) (mc_budgets s) args s = (r, s1) \<and>
        s' = (case r of Inl _ \<Rightarrow> s1 | Inr _ \<Rightarrow> queue_update s1))"

lemma tools_call_cases:
  assumes "handle_tools_call me ps s = (r, s')"
  shows "quiet_step s s' \<or> (\<exists>w verb args. get_or ps ''name'' VNone = VStr w \<and> wire_to_verb w = Some verb \<and>
     get_or ps ''arguments'' (VDict []) = VDict args \<and> tool_run me verb args s s')"
proof (cases "get_or ps ''name'' VNone")
  case (VStr w)
  show ?thesis
  proof (cases "wire_to_verb w")
    case None
    with VStr assms show ?thesis by (simp add: handle_tools_call_def)
  next
    case (Some verb)
    show ?thesis
    proof (cases "get_or ps ''arguments'' (VDict [])")
      case (VDict args)
      let ?v = "validate_against_schema (me_text me) (VDict args) (get_or INPUT_SCHEMAS verb VNone) ''$''"
      obtain r1 s1 where h: "tool_handler me verb (mc_caps s) (mc_budgets s) args s = (r1, s1)"
        by (cases "tool_handler me verb (mc_caps s) (mc_budgets s) args s")
      have call: "handle_tools_call me ps s = (case ?v of Inl e \<Rightarrow> (Inl e, s)
          | Inr (Some e) \<Rightarrow> (Inr (invalid (''input schema violation: '' @ e)), s)
          | Inr None \<Rightarrow> (case r1 of Inl e \<Rightarrow> (Inl e, s1) | Inr x \<Rightarrow> (Inr x, queue_update s1)))"
        using VStr Some VDict h
        by (simp add: handle_tools_call_def io_bind_def split: sum.split option.split)
      show ?thesis
      proof (cases "?v = Inr None")
        case True
        with call assms have "s' = (case r1 of Inl _ \<Rightarrow> s1 | Inr _ \<Rightarrow> queue_update s1)"
          by (auto split: sum.splits)
        with True h have "tool_run me verb args s s'" unfolding tool_run_def by blast
        with VStr Some VDict show ?thesis by blast
      next
        case False
        with call assms have "s' = s" by (auto split: sum.splits option.splits)
        then show ?thesis by simp
      qed
    qed (use VStr Some assms in \<open>simp_all add: handle_tools_call_def\<close>)
  qed
qed (use assms in \<open>simp_all add: handle_tools_call_def\<close>)

lemma bind_return_state: "io_bind m (\<lambda>r. io_return (f r)) s = (x, s') \<Longrightarrow> \<exists>y. m s = (y, s')"
  by (auto simp: io_bind_def split: prod.splits sum.splits)

lemma quiet_resources:
  "handle_resources_read ps s = (r, s') \<Longrightarrow> quiet_step s s'"
  "handle_resources_subscribe ps s = (r, s') \<Longrightarrow> quiet_step s s'"
  "handle_resources_unsubscribe ps s = (r, s') \<Longrightarrow> quiet_step s s'"
  "handle_initialize ps s = (r', s') \<Longrightarrow> quiet_step s s'"
  by (auto simp: handle_resources_read_def handle_resources_subscribe_def handle_resources_unsubscribe_def
      handle_initialize_def Let_def quiet_step_def split: if_splits)

lemma operate_cases:
  assumes "operate me meth ps = Some m" "m s = (r, s')"
  shows "quiet_step s s' \<or> (meth = ''tools/call'' \<and> (\<exists>w verb args. get_or ps ''name'' VNone = VStr w \<and>
     wire_to_verb w = Some verb \<and> get_or ps ''arguments'' (VDict []) = VDict args \<and> tool_run me verb args s s'))"
  using assms tools_call_cases[of me ps s r s']
  by (auto simp: operate_def quiet_resources split: if_splits)

lemma request_cases:
  assumes "mcp_handle_request me payload s = (r, s')"
  shows "quiet_step s s' \<or> (\<exists>verb args. mc_initialized s \<and> called payload = Some (verb, args) \<and>
     (\<exists>w. wire_to_verb w = Some verb) \<and> tool_run me verb args s s')"
proof (cases "\<exists>d meth ps. payload = VDict d \<and> dget d ''jsonrpc'' = Some (VStr ''2.0'') \<and>
    get_or d ''method'' VNone = VStr meth \<and> get_or d ''params'' (VDict []) = VDict ps")
  case False
  then have "s' = s"
    using assms unfolding mcp_handle_request_def Let_def
    by (auto split: val.splits if_splits)
  then show ?thesis by simp
next
  case True
  then obtain d meth ps where p: "payload = VDict d" "dget d ''jsonrpc'' = Some (VStr ''2.0'')"
      "get_or d ''method'' VNone = VStr meth" "get_or d ''params'' (VDict []) = VDict ps"
    by blast
  consider "meth = ''initialize''" | "meth = ''notifications/initialized''" | "meth = ''ping''"
    | "meth \<noteq> ''initialize''" "meth \<noteq> ''notifications/initialized''" "meth \<noteq> ''ping''"
    by blast
  then show ?thesis
  proof cases
    case 1
    with p assms have "\<exists>y. handle_initialize ps s = (y, s')"
      unfolding mcp_handle_request_def Let_def
      by (auto intro: bind_return_state)
    then show ?thesis using quiet_resources(4) by blast
  next
    case 2
    with p assms show ?thesis
      by (auto simp: mcp_handle_request_def Let_def quiet_step_def)
  next
    case 3
    with p assms show ?thesis by (simp add: mcp_handle_request_def Let_def)
  next
    case 4
    show ?thesis
    proof (cases "mc_initialized s")
      case False
      with 4 p assms show ?thesis by (simp add: mcp_handle_request_def Let_def split: if_splits)
    next
      case True
      show ?thesis
      proof (cases "operate me meth ps")
        case None
        with True 4 p assms show ?thesis by (simp add: mcp_handle_request_def Let_def split: if_splits)
      next
        case (Some m)
        with True 4 p assms obtain y where m: "m s = (y, s')"
          by (auto simp: mcp_handle_request_def Let_def dest: bind_return_state)
        from operate_cases[OF Some m] show ?thesis
          using True p by (auto simp: called_def)
      qed
    qed
  qed
qed

text \<open>What a tool run leaves behind.\<close>

lemma tool_run_effects:
  assumes "tool_run me verb args s s'" "wire_to_verb w = Some verb"
  obtains s1 where "body_rel (\<not> may_write verb (mc_caps s)) s s1"
    "mc_log s' = mc_log s1" "mc_rate s' = mc_rate s1" "mc_caps s' = mc_caps s" "mc_budgets s' = mc_budgets s"
    "mc_entries s' = mc_entries s \<or> (\<exists>env. mc_entries s' = mc_entries s @
       [DictEntry (sealed_entry me (entry_body me verb args env (mc_entries s)))])"
proof -
  from assms(1) obtain r s2 where t: "tool_handler me verb (mc_caps s) (mc_budgets s) args s = (r, s2)"
    and s': "s' = (case r of Inl _ \<Rightarrow> s2 | Inr _ \<Rightarrow> queue_update s2)"
    unfolding tool_run_def by blast
  from tool_handler_writes[OF assms(2)] obtain m where
    m: "tool_handler me verb (mc_caps s) (mc_budgets s) args = audited me verb args m"
      "io_moves (body_rel (\<not> may_write verb (mc_caps s))) m"
    unfolding writing_tool_def by blast
  from audited_run[OF t[unfolded m(1)] m(2)] obtain s1 where s1: "body_rel (\<not> may_write verb (mc_caps s)) s s1"
    "case r of Inl _ \<Rightarrow> s2 = s1 | Inr env \<Rightarrow> s2 = s1\<lparr>mc_entries := mc_entries s @
        [DictEntry (sealed_entry me (entry_body me verb args env (mc_entries s)))]\<rparr>"
    by blast
  show ?thesis
    by (rule that[OF s1(1)]) (use s1 s' in \<open>auto simp: body_rel_def split: sum.splits\<close>)
qed

end
