(* ===== verification/McpDemo.thy ===== *)
theory McpDemo
  imports McpLaws ReplCapsProps
begin

text \<open>A concrete server for the witnesses of the MCP properties: clocks that count, ids from a
  counter, all capabilities, and a call of \<open>remember\<close>.\<close>

definition mcp_demo_env :: mcp_env where
  "mcp_demo_env = \<lparr>me_text = \<lparr>te_sha = (\<lambda>s. take 16 (rev s)), te_iso = demo_iso, te_fromiso = demo_fromiso,
      te_loads = (\<lambda>_. Inl ValueError)\<rparr>,
     me_clock = int, me_wall = of_nat, me_uuid = (\<lambda>n. ''id'' @ nat_str n),
     me_db = (\<lambda>n. \<lparr>env_now = int n, env_digest = (\<lambda>_. ''d''), env_iso = (\<lambda>_. None)\<rparr>),
     me_show = (\<lambda>_. ''error''), me_float = (\<lambda>_. ''5.0'')\<rparr>"

definition mcp_demo :: mcp where
  "mcp_demo = (create_server [] [] None None)\<lparr>mc_initialized := True\<rparr>"

definition mcp_demo_call :: val where
  "mcp_demo_call = VDict [(''jsonrpc'', VStr ''2.0''), (''id'', VInt 1), (''method'', VStr ''tools/call''),
     (''params'', VDict [(''name'', VStr ''persistence_remember''),
        (''arguments'', VDict [(''content'', VStr ''Ab''), (''tags'', VList [])])])]"

lemma mcp_demo_sel [simp]:
  "mc_log mcp_demo = []" "mc_entries mcp_demo = []" "mc_reads mcp_demo = 0" "mc_initialized mcp_demo"
  by (simp_all add: mcp_demo_def create_server_def)

lemma mcp_demo_env_sel [simp]:
  "me_clock mcp_demo_env = int" "me_uuid mcp_demo_env n = ''id'' @ nat_str n"
  "env_now (me_db mcp_demo_env n) = int n"
  by (simp_all add: mcp_demo_env_def)

lemma mcp_demo_called: "called mcp_demo_call = Some (''remember'', [(''content'', VStr ''Ab''), (''tags'', VList [])])"
  by code_simp

lemma mcp_demo_runs:
  "length (mc_log (snd (mcp_handle_request mcp_demo_env mcp_demo_call mcp_demo))) = 2"
  "length (mc_entries (snd (mcp_handle_request mcp_demo_env mcp_demo_call mcp_demo))) = 1"
  by code_simp+

end
