(* ===== verification/McpProps.thy ===== *)
theory McpProps
  imports McpDemo
begin

text \<open>
  Properties of the MCP server: which requests write and that every write is audited, that the
  server's own audit chain passes its replay check (and which honest chains do not), the bound of
  the rate limiter and the guards of the HTTP wrapper.
\<close>

section \<open>Writes\<close>

text \<open>The bodies of the writing tools return: their only raises are caught.\<close>

definition io_total :: "('w, 'a) io \<Rightarrow> bool" where
  "io_total m \<longleftrightarrow> (\<forall>w. \<exists>x w'. m w = (Inr x, w'))"

lemma io_total_intros [intro]:
  "io_total (io_return v)" "io_total (reading g)"
  "io_total m \<Longrightarrow> (\<And>x. io_total (f x)) \<Longrightarrow> io_total (io_bind m f)"
  "io_total a \<Longrightarrow> io_total b \<Longrightarrow> io_total (if c then a else b)"
  by (auto simp: io_total_def reading_def io_bind_def) (metis (no_types, lifting) case_prod_conv sum.simps(6))

lemma remember_write_total: "io_total (remember_write me content tags)"
  unfolding remember_write_def
  by (intro io_total_intros) (auto simp: io_total_def split: sum.split)

lemma forget_write_total: "io_total (forget_write me eid)"
  unfolding forget_write_def
  by (intro io_total_intros) (auto simp: io_total_def split: sum.split option.split)

lemma audited_total: "io_total body \<Longrightarrow> io_total (audited me verb args body)"
  unfolding audited_def by (intro io_total_intros) (auto simp: io_total_def emit_audit_def)

lemma total_case_val:
  assumes "\<And>s. io_total (f s)" "io_total m"
  shows "io_total (case v of VStr s \<Rightarrow> f s | _ \<Rightarrow> m)"
  using assms by (cases v) simp_all

lemma tool_remember_total: "io_total (tool_remember me caps bu args)"
  unfolding tool_remember_def
  by (intro audited_total io_total_intros total_case_val remember_write_total)

lemma tool_forget_total: "io_total (tool_forget me caps bu args)"
  unfolding tool_forget_def
  by (intro audited_total io_total_intros total_case_val forget_write_total)

lemma writing_wires:
  "wire_to_verb ''persistence_remember'' = Some ''remember''" "wire_to_verb ''persistence_forget'' = Some ''forget''"
  by code_simp+

lemma writing_run_emits:
  assumes "tool_run me verb args s s'" "may_write verb caps"
  obtains env where "mc_entries s' = mc_entries s @
    [DictEntry (sealed_entry me (entry_body me verb args env (mc_entries s)))]"
proof -
  from assms(2) have v: "verb = ''remember'' \<or> verb = ''forget''" by (auto simp: may_write_def)
  then have w: "\<exists>w. wire_to_verb w = Some verb" using writing_wires by metis
  then obtain m where m: "tool_handler me verb (mc_caps s) (mc_budgets s) args = audited me verb args m"
      "io_moves (body_rel (\<not> may_write verb (mc_caps s))) m"
    using tool_handler_writes unfolding writing_tool_def by blast
  from assms(1) obtain r s2 where t: "audited me verb args m s = (r, s2)"
    and s': "s' = (case r of Inl _ \<Rightarrow> s2 | Inr _ \<Rightarrow> queue_update s2)"
    unfolding tool_run_def m(1) by blast
  have "io_total (tool_handler me verb (mc_caps s) (mc_budgets s) args)"
    using v tool_remember_total tool_forget_total by (auto simp: tool_handler_def)
  with t m(1) obtain env where r: "r = Inr env" by (auto simp: io_total_def) (metis prod.inject)
  from audited_run[OF t m(2)] obtain s1 where "s2 = s1\<lparr>mc_entries := mc_entries s @
        [DictEntry (sealed_entry me (entry_body me verb args env (mc_entries s)))]\<rparr>"
    unfolding r by auto
  with s' r show ?thesis by (intro that[of env]) simp
qed

text \<open>C31. Only a \<open>tools/call\<close> of \<open>remember\<close> or \<open>forget\<close>, after
  \<open>notifications/initialized\<close> and with the tool's capability, changes the log; and whatever
  changes the log or spends the rate limiter's budget appends exactly one audit entry, which
  names the tool and hashes its arguments and result.\<close>

theorem mcp_writes_guarded:
  assumes "mcp_handle_request me payload s = (r, s')"
  shows "(mc_log s' \<noteq> mc_log s \<longrightarrow> mc_initialized s \<and>
        (\<exists>verb args. called payload = Some (verb, args) \<and> may_write verb (mc_caps s) \<and>
           (\<exists>env. mc_entries s' = mc_entries s @
              [DictEntry (sealed_entry me (entry_body me verb args env (mc_entries s)))]))) \<and>
     (\<not> mc_initialized s \<longrightarrow> mc_log s' = mc_log s \<and> mc_entries s' = mc_entries s \<and> mc_rate s' = mc_rate s) \<and>
     length (mc_entries s') \<le> length (mc_entries s) + 1"
  using request_cases[OF assms]
proof (elim disjE exE conjE)
  assume "quiet_step s s'"
  then show ?thesis by (simp add: quiet_step_def)
next
  fix verb args w
  assume ini: "mc_initialized s" and c: "called payload = Some (verb, args)"
    and w: "wire_to_verb w = Some verb" and run: "tool_run me verb args s s'"
  from tool_run_effects[OF run w] obtain s1 where s1: "body_rel (\<not> may_write verb (mc_caps s)) s s1"
    "mc_log s' = mc_log s1" "mc_entries s' = mc_entries s \<or> (\<exists>env. mc_entries s' = mc_entries s @
       [DictEntry (sealed_entry me (entry_body me verb args env (mc_entries s)))])"
    by blast
  have "mc_log s' \<noteq> mc_log s \<Longrightarrow> may_write verb (mc_caps s)"
    using s1(1,2) by (auto simp: body_rel_def)
  with writing_run_emits[OF run] have "mc_log s' \<noteq> mc_log s \<Longrightarrow>
      may_write verb (mc_caps s) \<and> (\<exists>env. mc_entries s' = mc_entries s @
         [DictEntry (sealed_entry me (entry_body me verb args env (mc_entries s)))])"
    by metis
  moreover have "length (mc_entries s') \<le> length (mc_entries s) + 1" using s1(3) by auto
  ultimately show ?thesis using ini c by blast
qed

theorem mcp_writes_guarded_witness:
  "\<exists>r s'. mcp_handle_request mcp_demo_env mcp_demo_call mcp_demo = (r, s') \<and> mc_log s' \<noteq> mc_log mcp_demo \<and>
     mc_initialized mcp_demo \<and> (\<exists>verb args. called mcp_demo_call = Some (verb, args) \<and>
       may_write verb (mc_caps mcp_demo) \<and> (\<exists>env. mc_entries s' = mc_entries mcp_demo @
         [DictEntry (sealed_entry mcp_demo_env (entry_body mcp_demo_env verb args env (mc_entries mcp_demo)))]))"
proof -
  obtain r s' where run: "mcp_handle_request mcp_demo_env mcp_demo_call mcp_demo = (r, s')"
    by (cases "mcp_handle_request mcp_demo_env mcp_demo_call mcp_demo")
  then have "mc_log s' \<noteq> mc_log mcp_demo" using mcp_demo_runs(1) by auto
  with mcp_writes_guarded[OF run] run show ?thesis by blast
qed

section \<open>The audit chain\<close>

definition sealed_at :: "mcp_env \<Rightarrow> chain_entry list \<Rightarrow> nat \<Rightarrow> bool" where
  "sealed_at me es i = (case es ! i of
      DictEntry d \<Rightarrow> get_or d ''id'' VNone = VStr (hash_canonical me (VDict (drop_id d))) \<and>
        get_or d ''prev_hash'' VNone = prev_of (take i es)
    | RecordEntry _ \<Rightarrow> False)"

definition server_chain :: "mcp_env \<Rightarrow> chain_entry list \<Rightarrow> bool" where
  "server_chain me es \<longleftrightarrow> list_all (sealed_at me es) [0..<length es]"

lemma server_chain_Nil [simp]: "server_chain me []"
  by (simp add: server_chain_def)

lemma sealed_entry_at:
  "sealed_at me (es @ [DictEntry (sealed_entry me (entry_body me verb args env es))]) (length es)"
  by (simp add: sealed_at_def sealed_entry_def entry_body_def drop_id_def get_or_def)

lemma server_chain_snoc:
  assumes "server_chain me es"
  shows "server_chain me (es @ [DictEntry (sealed_entry me (entry_body me verb args env es))])"
proof -
  have "sealed_at me (es @ [x]) i = sealed_at me es i" if "i < length es" for x i
    using that by (simp add: sealed_at_def nth_append less_imp_le split: chain_entry.split)
  with assms sealed_entry_at show ?thesis
    by (simp add: server_chain_def list_all_iff)
qed

lemma chain_ok_slice:
  assumes "server_chain me es" "prev = VNone \<or> prev = prev_of (take lo es)"
  shows "chain_ok me prev (take n (drop lo es))"
  using assms(2)
proof (induction n arbitrary: lo prev)
  case 0
  then show ?case by simp
next
  case (Suc n)
  show ?case
  proof (cases "lo < length es")
    case True
    with assms(1) have s: "sealed_at me es lo" by (simp add: server_chain_def list_all_iff)
    then obtain d where d: "es ! lo = DictEntry d" by (auto simp: sealed_at_def split: chain_entry.splits)
    have "prev_of (take (Suc lo) es) = get_or d ''id'' VNone"
      using True d by (simp add: prev_of_def take_Suc_conv_app_nth)
    with Suc.IH[of "get_or d ''id'' VNone" "Suc lo"]
    have "chain_ok me (get_or d ''id'' VNone) (take n (drop (Suc lo) es))" by simp
    moreover have "drop lo es = DictEntry d # drop (Suc lo) es"
      using True d by (metis Cons_nth_drop_Suc)
    ultimately show ?thesis using s d Suc.prems by (auto simp: sealed_at_def)
  qed simp
qed

text \<open>The states a server reaches from \<open>s\<close>: requests in any order, and the transport
  draining the notifications.\<close>

inductive mcp_reach :: "mcp_env \<Rightarrow> mcp \<Rightarrow> mcp \<Rightarrow> bool" for me s where
  start: "mcp_reach me s s"
| request: "mcp_reach me s t \<Longrightarrow> mcp_handle_request me payload t = (r, t') \<Longrightarrow> mcp_reach me s t'"
| drained: "mcp_reach me s t \<Longrightarrow> mcp_reach me s (t\<lparr>mc_pending := []\<rparr>)"

lemma request_keeps_chain:
  assumes "mcp_handle_request me payload s = (r, s')" "server_chain me (mc_entries s)"
  shows "server_chain me (mc_entries s')"
  using request_cases[OF assms(1)]
proof (elim disjE exE conjE)
  assume "quiet_step s s'"
  with assms(2) show ?thesis by (simp add: quiet_step_def)
next
  fix verb args w
  assume w: "wire_to_verb w = Some verb" and run: "tool_run me verb args s s'"
  show ?thesis
    by (rule tool_run_effects[OF run w]) (use assms(2) server_chain_snoc in auto)
qed

lemma reach_keeps_chain:
  "mcp_reach me s t \<Longrightarrow> server_chain me (mc_entries s) \<Longrightarrow> server_chain me (mc_entries t)"
  by (induction rule: mcp_reach.induct) (auto intro: request_keeps_chain)

text \<open>C32. Start a server on a substrate whose audit list is empty, or holds only what an
  earlier server left. After any requests, \<open>replay_check\<close> of any recorded position with any
  window accepts the chain.\<close>

theorem replay_check_accepts:
  assumes "mcp_reach me s t" "server_chain me (mc_entries s)"
    and "0 \<le> tx" "tx < int (length (mc_entries t))"
  shows "\<exists>actual. replay_verdict me tx window (mc_entries t) =
    make_success (VDict [(''ok'', VBool True), (''reason_code'', VStr ''ok''),
        (''window_actual'', VInt actual), (''head_hash'', replay_head (mc_entries t))])
      (''replay ok over '' @ int_str actual)"
proof -
  obtain lo hi where w: "replay_window tx window (length (mc_entries t)) = (lo, hi)"
    by (cases "replay_window tx window (length (mc_entries t))")
  have "chain_ok me VNone (take (hi - lo) (drop lo (mc_entries t)))"
    by (rule chain_ok_slice) (use reach_keeps_chain[OF assms(1,2)] in auto)
  with w assms(4) show ?thesis
    by (intro exI[of _ "max 0 (int hi - int lo)"]) (auto simp: replay_verdict_def Let_def)
qed

theorem replay_check_accepts_witness:
  "\<exists>r t actual. mcp_handle_request mcp_demo_env mcp_demo_call mcp_demo = (r, t) \<and> length (mc_entries t) = 1 \<and>
     replay_verdict mcp_demo_env 0 32 (mc_entries t) =
       make_success (VDict [(''ok'', VBool True), (''reason_code'', VStr ''ok''),
         (''window_actual'', VInt actual), (''head_hash'', replay_head (mc_entries t))])
       (''replay ok over '' @ int_str actual)"
proof -
  obtain r t where run: "mcp_handle_request mcp_demo_env mcp_demo_call mcp_demo = (r, t)"
    by (cases "mcp_handle_request mcp_demo_env mcp_demo_call mcp_demo")
  then have len: "length (mc_entries t) = 1" using mcp_demo_runs(2) by simp
  have "mcp_reach mcp_demo_env mcp_demo t" by (rule mcp_reach.request[OF mcp_reach.start run])
  from replay_check_accepts[OF this, of 0 32] len run show ?thesis by auto
qed

text \<open>The list of a substrate also takes entries of other writers. One dictionary without an
  id (an escape-hatch access) makes the check fail, and so does an \<open>AuditEntry\<close> between
  two calls of the server, although nothing was tampered with.\<close>

lemma escape_hatch_entry_fails_check:
  "chain_ok me prev (es @ [DictEntry [(''op'', VStr '':sdk/escape-hatch-access''), (''args'', VDict payload)]]) = False"
  by (induction me prev es rule: chain_ok.induct) (simp_all add: get_or_def)

lemma interleaved_entry_fails_check:
  fixes es e args args' env env' me verb verb'
  defines "es1 \<equiv> es @ [DictEntry (sealed_entry me (entry_body me verb args env es))]"
  defines "es2 \<equiv> es1 @ [RecordEntry e]"
  defines "es3 \<equiv> es2 @ [DictEntry (sealed_entry me (entry_body me verb' args' env' es2))]"
  shows "chain_ok me VNone (drop (length es) es3) = False"
proof -
  have "drop (length es) es3 = [DictEntry (sealed_entry me (entry_body me verb args env es)), RecordEntry e,
      DictEntry (sealed_entry me (entry_body me verb' args' env' es2))]"
    by (simp add: es3_def es2_def es1_def)
  moreover have "prev_of es2 = VNone" by (simp add: es2_def prev_of_def)
  ultimately show ?thesis
    by (simp add: sealed_entry_def entry_body_def get_or_def)
qed

end
