(* ===== verification/McpHttp.thy ===== *)
theory McpHttp
  imports McpLaws
begin

text \<open>
  The sliding-window rate limiter and the HTTP wrapper of the MCP server: how many calls a window
  lets through, and which requests reach the server behind the wrapper's checks.
\<close>

section \<open>The limiter\<close>

text \<open>The instants at which a limiter, called at the given readings of its clock, says yes.\<close>

fun rate_run :: "int \<Rightarrow> rat \<Rightarrow> rat list \<Rightarrow> rat list \<Rightarrow> rat list" where
  "rate_run limit w events [] = []"
| "rate_run limit w events (t # ts) = (case rate_allow limit w t events of
      (ok, events') \<Rightarrow> (if ok then [t] else []) @ rate_run limit w events' ts)"

definition in_window :: "rat \<Rightarrow> rat \<Rightarrow> rat list \<Rightarrow> nat" where
  "in_window a w ts = length (filter (\<lambda>t. a \<le> t \<and> t \<le> a + w) ts)"

lemma in_window_append [simp]: "in_window a w (xs @ ys) = in_window a w xs + in_window a w ys"
  by (simp add: in_window_def)

lemma in_window_le: "in_window a w xs \<le> length xs"
  by (simp add: in_window_def)

text \<open>The queue is the end of the granted instants; what was dropped is out of reach of any
  window that a later instant can belong to.\<close>

definition limiter_inv :: "int \<Rightarrow> rat \<Rightarrow> rat list \<Rightarrow> rat list \<Rightarrow> rat \<Rightarrow> bool" where
  "limiter_inv limit w granted events now \<longleftrightarrow>
     (\<exists>gone. granted = gone @ events \<and> (\<forall>x \<in> set gone. x < now - w)) \<and>
     (\<forall>x \<in> set granted. x \<le> now) \<and> (\<forall>a. int (in_window a w granted) \<le> max 0 limit)"

lemma limiter_step:
  assumes "limiter_inv limit w granted events now" "now \<le> t" "0 \<le> w"
    and "rate_allow limit w t events = (ok, events')"
  shows "limiter_inv limit w (granted @ (if ok then [t] else [])) events' t"
proof -
  from assms(1) obtain gone where g: "granted = gone @ events" "\<forall>x \<in> set gone. x < now - w"
    and le: "\<forall>x \<in> set granted. x \<le> now" and cnt: "\<forall>a. int (in_window a w granted) \<le> max 0 limit"
    unfolding limiter_inv_def by blast
  let ?old = "takeWhile (\<lambda>x. x < t - w) events" and ?kept = "dropWhile (\<lambda>x. x < t - w) events"
  have gone': "\<forall>x \<in> set (gone @ ?old). x < t - w"
    using g(2) assms(2) by (auto dest: set_takeWhileD)
  have split: "granted = (gone @ ?old) @ ?kept" using g(1) by simp
  have le': "\<forall>x \<in> set granted. x \<le> t" using le assms(2) by auto
  show ?thesis
  proof (cases ok)
    case False
    with assms(4) have "events' = ?kept" by (simp add: rate_allow_def Let_def split: if_splits)
    with split have "granted @ (if ok then [t] else []) = (gone @ ?old) @ events'" using False by simp
    with gone' le' cnt False show ?thesis unfolding limiter_inv_def by auto
  next
    case True
    with assms(4) have e: "events' = ?kept @ [t]" and small: "int (length ?kept) < limit"
      by (auto simp: rate_allow_def Let_def split: if_splits)
    have "int (in_window a w (granted @ [t])) \<le> max 0 limit" for a
    proof (cases "a \<le> t \<and> t \<le> a + w")
      case True
      have before: "\<not> a \<le> x" if "x \<in> set (gone @ ?old)" for x
        using bspec[OF gone' that] True by linarith
      have "in_window a w (gone @ ?old) = 0"
        using before by (auto simp: in_window_def filter_empty_conv)
      moreover have "in_window a w granted = in_window a w (gone @ ?old) + in_window a w ?kept"
        by (subst split) (rule in_window_append)
      ultimately have "in_window a w granted \<le> length ?kept"
        using in_window_le[of a w ?kept] by simp
      then show ?thesis using small by (simp add: in_window_def)
    next
      case False
      then have "in_window a w [t] = 0" by (simp add: in_window_def)
      then show ?thesis using cnt by (metis add.right_neutral in_window_append)
    qed
    moreover have "granted @ [t] = (gone @ ?old) @ events'" using split e by simp
    moreover have "\<forall>x \<in> set (granted @ [t]). x \<le> t" using le' by simp
    ultimately show ?thesis using True gone' unfolding limiter_inv_def by simp
  qed
qed

lemma rate_run_bounded:
  assumes "limiter_inv limit w granted events now" "0 \<le> w" "sorted (now # ts)"
  shows "int (in_window a w (granted @ rate_run limit w events ts)) \<le> max 0 limit"
  using assms
proof (induction ts arbitrary: granted events now)
  case Nil
  then show ?case by (simp add: limiter_inv_def)
next
  case (Cons t ts)
  obtain ok events' where r: "rate_allow limit w t events = (ok, events')"
    by (cases "rate_allow limit w t events")
  have "limiter_inv limit w (granted @ (if ok then [t] else [])) events' t"
    by (rule limiter_step[OF Cons.prems(1) _ Cons.prems(2) r]) (use Cons.prems(3) in simp)
  from Cons.IH[OF this Cons.prems(2)] Cons.prems(3) r show ?case by simp
qed

text \<open>C35. Called at instants that do not decrease, the limiter lets at most \<open>limit\<close> calls
  through in any closed window of its length.\<close>

theorem rate_window_bounded:
  assumes "sorted ts" "0 \<le> w" "0 \<le> limit"
  shows "int (in_window a w (rate_run limit w [] ts)) \<le> limit"
proof (cases ts)
  case Nil
  with assms(3) show ?thesis by (simp add: in_window_def)
next
  case (Cons t us)
  have "limiter_inv limit w [] [] t" using assms(3) by (simp add: limiter_inv_def in_window_def)
  from rate_run_bounded[OF this assms(2), of ts a] Cons assms(1,3) show ?thesis by simp
qed

theorem rate_window_bounded_witness:
  "rate_run 2 10 [] [0, 5, 7, 11, 12] = [0, 5, 11] \<and> int (in_window 1 10 (rate_run 2 10 [] [0, 5, 7, 11, 12])) \<le> 2"
  using rate_window_bounded[of "[0, 5, 7, 11, 12]" 10 2 1] by (simp add: rate_allow_def)

section \<open>The wrapper\<close>

definition admitted :: "http_handler \<Rightarrow> string dict \<Rightarrow> bool" where
  "admitted hh h \<longleftrightarrow>
     (case dget h ''origin'' of None \<Rightarrow> True | Some o1 \<Rightarrow> o1 \<noteq> ''null'' \<and> o1 \<in> set (hh_origins hh)) \<and>
     (\<exists>t. hh_bearer hh = Some t \<and> dget h ''authorization'' = Some (''Bearer '' @ t))"

lemma origin_check_None_iff:
  "origin_check hh h = None \<longleftrightarrow>
     (case dget h ''origin'' of None \<Rightarrow> True | Some o1 \<Rightarrow> o1 \<noteq> ''null'' \<and> o1 \<in> set (hh_origins hh))"
  by (auto simp: origin_check_def split: option.split)

lemma bearer_check_None_iff:
  "bearer_check hh h = None \<longleftrightarrow> (\<exists>t. hh_bearer hh = Some t \<and> dget h ''authorization'' = Some (''Bearer '' @ t))"
  by (auto simp: bearer_check_def Let_def startswith_iff split: option.splits if_splits)

lemma admitted_iff: "admitted hh h \<longleftrightarrow> origin_check hh h = None \<and> bearer_check hh h = None"
  unfolding admitted_def origin_check_None_iff bearer_check_None_iff by (rule refl)

lemma rejection_status:
  "origin_check hh h = Some r \<Longrightarrow> fst r = 403" "bearer_check hh h = Some r \<Longrightarrow> fst r = 401"
  by (auto simp: origin_check_def bearer_check_def Let_def json_reply_def split: option.splits if_splits)

text \<open>C36. A request whose origin is not allowed, or that does not present the configured token,
  is answered 403 or 401 and touches neither the server nor the limiter (a wrapper without a
  token admits nobody); an admitted one over the limit is answered 429 and does not reach the
  server; any other is handed to the server.\<close>

theorem http_guarded:
  "case handle_http_request me hh now headers body (events, s) of (r, events', s') \<Rightarrow>
     if \<not> admitted hh (lower_headers headers)
     then s' = s \<and> events' = events \<and> (\<exists>rep. r = Inr rep \<and> fst rep \<in> {401, 403})
     else if \<not> fst (rate_allow (hh_limit hh) (hh_window hh) now events)
     then s' = s \<and> (\<exists>rep. r = Inr rep \<and> fst rep = 429)
     else (r, s') = http_dispatch me body s \<and> events' = snd (rate_allow (hh_limit hh) (hh_window hh) now events)"
proof -
  let ?h = "lower_headers headers"
  consider r where "origin_check hh ?h = Some r"
    | r where "origin_check hh ?h = None" "bearer_check hh ?h = Some r"
    | "origin_check hh ?h = None" "bearer_check hh ?h = None"
    by (cases "origin_check hh ?h"; cases "bearer_check hh ?h") auto
  then show ?thesis
  proof cases
    case 1
    then have "\<not> admitted hh ?h" by (simp add: admitted_iff)
    with 1 rejection_status(1)[OF 1] show ?thesis by (cases r) (simp add: handle_http_request_def Let_def)
  next
    case 2
    then have "\<not> admitted hh ?h" by (simp add: admitted_iff)
    with 2 rejection_status(2)[OF 2(2)] show ?thesis by (cases r) (simp add: handle_http_request_def Let_def)
  next
    case 3
    then have "admitted hh ?h"
      by (simp add: admitted_iff)
    moreover obtain ok kept where a: "rate_allow (hh_limit hh) (hh_window hh) now events = (ok, kept)"
      by (cases "rate_allow (hh_limit hh) (hh_window hh) now events")
    moreover obtain r s' where d: "http_dispatch me body s = (r, s')" by (cases "http_dispatch me body s")
    moreover have "handle_http_request me hh now headers body (events, s) =
        (if ok then (r, kept, s') else (Inr (json_reply 429 [(''retry-after'', ''1'')] (error_body ''rate_limit_exceeded'')), kept, s))"
      unfolding handle_http_request_def Let_def 3 option.case fst_conv snd_conv a d prod.case
      by (cases ok) (simp_all only: bool.case prod.case if_True if_False)
    ultimately show ?thesis by (cases ok) (auto simp: json_reply_def)
  qed
qed

end
