(* ===== verification/McpMemory.thy ===== *)
theory McpMemory
  imports McpDemo BatchReads
begin

text \<open>
  The memory of the MCP server: what \<open>remember\<close> writes, that \<open>recall\<close> finds it first, and
  when \<open>forget\<close> hides it.
\<close>

section \<open>What remember writes\<close>

lemma mcp_fact_assert: "mcp_fact e a v now = assert_fact e a v now"
  by (simp add: mcp_fact_def assert_fact_def)

lemma attrs_bare [simp]: "lstrip_colon CONTENT_ATTR = CONTENT_ATTR" "lstrip_colon TAGS_ATTR = TAGS_ATTR"
  "CONTENT_ATTR \<noteq> TAGS_ATTR" "TAGS_ATTR \<noteq> CONTENT_ATTR"
  by (simp_all add: CONTENT_ATTR_def TAGS_ATTR_def lstrip_colon_def)

definition fresh_id :: "log \<Rightarrow> string \<Rightarrow> bool" where
  "fresh_id l e \<longleftrightarrow> list_all (\<lambda>d. d_e d \<noteq> e) l"

lemma fresh_id_no_prior: "fresh_id l e \<Longrightarrow> find_prior_assert l e a = None"
  by (auto simp: fresh_id_def list_all_iff find_prior_assert_def find_None_iff)

lemma fresh_id_step:
  assumes "find_prior_assert (l @ fst m) e a = None"
  shows "transact_step env pb force l (assert_fact e a v t) m = Inr (fst m @ [new_assert env pb e a v t], snd m)"
  using assms by (simp add: transact_step_def)

definition written_pair :: "env \<Rightarrow> log \<Rightarrow> string \<Rightarrow> string \<Rightarrow> val list \<Rightarrow> int \<Rightarrow> datom list" where
  "written_pair env l eid content ts now = map (with_tx (next_tx l))
     [new_assert env [] eid CONTENT_ATTR (VStr content) now, new_assert env [] eid TAGS_ATTR (VList ts) now]"

lemma remember_transact:
  assumes "fresh_id l eid"
  shows "transact env l [mcp_fact eid CONTENT_ATTR (VStr content) now, mcp_fact eid TAGS_ATTR (VList ts) now] [] False =
    Inr (l @ written_pair env l eid content ts now)"
proof -
  have p1: "find_prior_assert (l @ []) eid CONTENT_ATTR = None"
    using assms fresh_id_no_prior by simp
  have p2: "find_prior_assert (l @ [new_assert env [] eid CONTENT_ATTR (VStr content) now]) eid TAGS_ATTR = None"
    using fresh_id_no_prior[OF assms] by (simp add: find_prior_assert_def)
  show ?thesis
    by (simp add: transact_def mcp_fact_assert fresh_id_step[of l "([], [])", simplified, OF p1[simplified]]
        fresh_id_step[of l "([new_assert env [] eid CONTENT_ATTR (VStr content) now], [])", simplified, OF p2]
        commit_shaped_def allocate_and_append_def written_pair_def Let_def)
qed

text \<open>The entity written and what it reads as.\<close>

lemma written_pair_props:
  assumes "fresh_id l eid"
  shows "filter (\<lambda>d. d_e d = eid) (l @ written_pair env l eid content ts now) = written_pair env l eid content ts now"
  using assms by (simp add: fresh_id_def list_all_iff written_pair_def filter_empty_conv)

lemma as_of_filter: "filter (\<lambda>d. d_e d = e) (as_of l t) = as_of (filter (\<lambda>d. d_e d = e) l) t"
  by (simp add: as_of_def conj_commute)

lemma latest_of_filter:
  "latest_of e ds = latest_of e (filter (\<lambda>d. d_e d = e) ds)"
  by (simp add: latest_of_def retracts_of_def candidates_of_def conj_commute)

lemma entity_filter: "filter (\<lambda>d. d_e d = e) ds = filter (\<lambda>d. d_e d = e) ds' \<Longrightarrow> entity ds e = entity ds' e"
  unfolding entity_def by (metis latest_of_filter)

lemma written_pair_entity:
  assumes "fresh_id l eid" "env_now env \<le> t"
  shows "entity (as_of (l @ written_pair env l eid content ts now) t) eid =
    [CONTENT_ATTR \<mapsto> VStr content, TAGS_ATTR \<mapsto> VList ts]"
proof -
  have "entity (as_of (l @ written_pair env l eid content ts now) t) eid =
      entity (as_of (written_pair env l eid content ts now) t) eid"
    by (rule entity_filter) (simp only: as_of_filter written_pair_props[OF assms(1)]; simp add: written_pair_def as_of_def)
  also have "\<dots> = [CONTENT_ATTR \<mapsto> VStr content, TAGS_ATTR \<mapsto> VList ts]"
    using assms(2) by (auto simp: written_pair_def as_of_def entity_def latest_of_def retracts_of_def
        candidates_of_def latest_step_def fun_eq_iff)
  finally show ?thesis .
qed

definition remember_reply :: "mcp_env \<Rightarrow> log \<Rightarrow> string \<Rightarrow> int \<Rightarrow> val" where
  "remember_reply me l eid now = make_success (VDict [(''eid'', VStr eid), (''tx'', VInt (next_tx l)),
     (''valid_from'', VStr (isoformat me now))]) (''remembered '' @ eid)"

lemma tx_of_written:
  assumes "fresh_id l eid"
  shows "tx_of_content (l @ written_pair env l eid content ts now) eid = next_tx l"
  by (simp add: tx_of_content_def written_pair_def)

lemma remember_write_run:
  assumes "fresh_id (mc_log s) (me_uuid me (mc_reads s))"
  shows "remember_write me content (VList ts) s =
    (Inr (remember_reply me (mc_log s) (me_uuid me (mc_reads s)) (me_clock me (mc_reads s + 1))),
     s\<lparr>mc_reads := mc_reads s + 2, mc_log := mc_log s @ written_pair (me_db me (mc_reads s + 2)) (mc_log s)
         (me_uuid me (mc_reads s)) content ts (me_clock me (mc_reads s + 1))\<rparr>)"
proof -
  have "ebind (if truthy (VList ts) then py_iter (VList ts) else Inr []) f = f ts" for f :: "val list \<Rightarrow> err + log"
    by (simp add: py_iter_def)
  then show ?thesis
    by (simp add: remember_write_def io_bind_def reading_def remember_transact[OF assms] tx_of_written[OF assms]
        remember_reply_def del: truthy.simps)
qed

text \<open>The tool in the normal case.\<close>

lemma tool_remember_run:
  assumes "fresh_id (mc_log s) (me_uuid me (mc_reads s))" "''mcp.remember'' \<in> set caps"
    and "int (utf8_len content) \<le> bu_remember_max_content_bytes bu"
    and "tool_remember me caps bu [(''content'', VStr content), (''tags'', VList ts)] s = (r, s1)"
  shows "r = Inr (remember_reply me (mc_log s) (me_uuid me (mc_reads s)) (me_clock me (mc_reads s + 1)))"
    and "mc_log s1 = mc_log s @ written_pair (me_db me (mc_reads s + 2)) (mc_log s)
      (me_uuid me (mc_reads s)) content ts (me_clock me (mc_reads s + 1))"
    and "mc_reads s1 = mc_reads s + 2"
  using assms(2-4)
  by (auto simp: tool_remember_def audited_def io_bind_def emit_audit_def get_or_def
      remember_write_run[OF assms(1)])

section \<open>recall\<close>

lemma recall_match_total: "\<exists>r. recall_match me view ql (VList []) d = Inr r"
  by (auto simp: recall_match_def Let_def split: option.split val.split)

lemma recall_scan_prefix:
  "\<exists>more. recall_scan me view ql (VList []) k seen hits ds = Inr (hits @ more)"
proof (induction ds arbitrary: seen hits)
  case Nil
  then show ?case by simp
next
  case (Cons d ds)
  obtain r where r: "recall_match me view ql (VList []) d = Inr r" using recall_match_total by blast
  show ?case
  proof (cases "d_a d \<noteq> CONTENT_ATTR \<or> d_e d \<in> set seen \<or> r = None")
    case True
    then show ?thesis using Cons.IH r by (cases r) auto
  next
    case False
    then obtain hit where hit: "r = Some hit" by blast
    from Cons.IH[of "d_e d # seen" "hits @ [hit]"] False r hit show ?thesis by (cases "int (length (hits @ [hit])) \<ge> k") auto
  qed
qed

lemma recall_first:
  assumes "d_a c1 = CONTENT_ATTR" "d_a c2 \<noteq> CONTENT_ATTR"
    and "recall_match me view ql (VList []) c1 = Inr (Some hit)"
  shows "\<exists>more. recall_scan me view ql (VList []) k [] [] (rev (l @ [c1, c2])) = Inr (hit # more)"
  using assms recall_scan_prefix[of me view ql k "[d_e c1]" "[hit]" "rev l"] by simp

text \<open>C34. After \<open>remember\<close>, and any requests that leave the log alone, \<open>recall\<close> with a
  query that occurs in the content (letter case aside) returns it as its first hit, with its id,
  content and tags, provided the server's clock has reached the transaction's.\<close>

theorem remember_then_recall:
  assumes "fresh_id (mc_log s) (me_uuid me (mc_reads s))" "''mcp.remember'' \<in> set caps"
    and "int (utf8_len content) \<le> bu_remember_max_content_bytes bu"
    and "tool_remember me caps bu [(''content'', VStr content), (''tags'', VList ts)] s = (r, s1)"
    and "mc_log t = mc_log s1" "env_now (me_db me (mc_reads s + 2)) \<le> me_clock me (mc_reads t)"
    and "''mcp.recall'' \<in> set caps" "5 \<le> bu_recall_max_k bu" "substring (py_lower query) (py_lower content)"
  shows "\<exists>more text. fst (tool_recall me caps bu [(''query'', VStr query)] t) =
    Inr (make_success (VDict [(''hits'', VList (VDict
        [(''eid'', VStr (me_uuid me (mc_reads s))), (''content'', VStr content), (''tags'', VList ts),
         (''valid_from'', VStr (isoformat me (me_clock me (mc_reads s + 1))))] # more))]) text)"
proof -
  let ?eid = "me_uuid me (mc_reads s)" and ?now = "me_clock me (mc_reads s + 1)"
    and ?env = "me_db me (mc_reads s + 2)"
  let ?n = "next_tx (mc_log s)"
  let ?c1 = "with_tx ?n (new_assert ?env [] ?eid CONTENT_ATTR (VStr content) ?now)"
  let ?c2 = "with_tx ?n (new_assert ?env [] ?eid TAGS_ATTR (VList ts) ?now)"
  have log: "mc_log t = mc_log s @ written_pair ?env (mc_log s) ?eid content ts ?now"
    using tool_remember_run(2)[OF assms(1-4)] assms(5) by simp
  let ?view = "as_of (mc_log t) (me_clock me (mc_reads t))"
  have ent: "entity ?view ?eid = [CONTENT_ATTR \<mapsto> VStr content, TAGS_ATTR \<mapsto> VList ts]"
    unfolding log by (rule written_pair_entity[OF assms(1,6)])
  have "recall_match me ?view (py_lower query) (VList []) ?c1 = Inr (Some (recall_hit me ?c1 content (VList ts)))"
    using assms(9) by (cases ts) (simp_all add: recall_match_def ent attr_or_none_def py_or_def)
  from recall_first[OF _ _ this, of ?c2 5 "mc_log s"] obtain more where
    "recall_scan me ?view (py_lower query) (VList []) 5 [] [] (rev (mc_log t)) =
       Inr (recall_hit me ?c1 content (VList ts) # more)"
    by (auto simp: log written_pair_def)
  then show ?thesis
    using assms(7,8)
    by (simp add: tool_recall_def audited_def io_bind_def emit_audit_def recall_read_def reading_def get_or_def
        py_or_def py_int_def recall_hit_def) blast
qed

theorem remember_then_recall_witness:
  "\<exists>r s1 more text. tool_remember mcp_demo_env [''mcp.remember'', ''mcp.recall''] default_budgets
        [(''content'', VStr ''Ab''), (''tags'', VList [])] mcp_demo = (r, s1) \<and>
     fst (tool_recall mcp_demo_env [''mcp.remember'', ''mcp.recall''] default_budgets [(''query'', VStr ''b'')] s1) =
       Inr (make_success (VDict [(''hits'', VList (VDict
          [(''eid'', VStr (''id'' @ nat_str 0)), (''content'', VStr ''Ab''), (''tags'', VList []),
           (''valid_from'', VStr (isoformat mcp_demo_env 1))] # more))]) text)"
proof -
  let ?caps = "[''mcp.remember'', ''mcp.recall'']"
  obtain r s1 where run: "tool_remember mcp_demo_env ?caps default_budgets
      [(''content'', VStr ''Ab''), (''tags'', VList [])] mcp_demo = (r, s1)" by (cases "tool_remember mcp_demo_env ?caps
      default_budgets [(''content'', VStr ''Ab''), (''tags'', VList [])] mcp_demo")
  have fits: "int (utf8_len ''Ab'') \<le> bu_remember_max_content_bytes default_budgets"
    and sub: "substring (py_lower ''b'') (py_lower ''Ab'')" by code_simp+
  have fresh: "fresh_id (mc_log mcp_demo) (me_uuid mcp_demo_env (mc_reads mcp_demo))" by (simp add: fresh_id_def)
  have reads: "mc_reads s1 = 2" using tool_remember_run(3)[OF fresh _ fits run] by simp
  from remember_then_recall[OF fresh _ fits run refl _ _ _ sub] reads run show ?thesis
    by (simp add: default_budgets_def)
qed

section \<open>forget\<close>

definition retraction :: "env \<Rightarrow> log \<Rightarrow> string \<Rightarrow> val \<Rightarrow> int \<Rightarrow> datom" where
  "retraction env l eid v now = with_tx (next_tx l) (post_init \<lparr>d_e = eid, d_a = CONTENT_ATTR, d_v = v,
     d_tx = TX_PLACEHOLDER, d_tx_time = env_now env, d_valid_from = now, d_valid_to = Some now, d_op = Retract,
     d_provenance = [(''prompt_hash'', VStr (env_digest env (retract_fact eid v now)))], d_invalidated_by = None\<rparr>)"

lemma retraction_sel [simp]:
  "d_e (retraction env l eid v now) = eid" "d_op (retraction env l eid v now) = Retract"
  "d_tx_time (retraction env l eid v now) = env_now env"
  "rkey (retraction env l eid v now) = (CONTENT_ATTR, pnorm (freeze v), now)"
  by (simp_all add: retraction_def rkey_def)

lemma forget_transact:
  "transact env l [retract_fact eid v now] [] False = Inr (l @ [retraction env l eid v now])"
  by (simp add: transact_def transact_step_def fact_vf_def fact_vt_def fact_op_def retract_fact_def fact_datom_def
      mk_datom_def commit_shaped_def allocate_and_append_def retraction_def Let_def)

text \<open>The entity after the retraction: closed iff the instants agree.\<close>

lemma retracted_entity:
  assumes "fresh_id l eid" "env_now env \<le> t" "env_now env' \<le> t"
  shows "entity (as_of ((l @ written_pair env l eid content ts now) @ [retraction env' l' eid (VStr content) now']) t)
      eid CONTENT_ATTR = (if now' = now then None else Some (VStr content))"
proof -
  have own: "filter (\<lambda>d. d_e d = eid) ((l @ written_pair env l eid content ts now) @ [retraction env' l' eid (VStr content) now']) =
      written_pair env l eid content ts now @ [retraction env' l' eid (VStr content) now']"
    using written_pair_props[OF assms(1)] by (simp only: filter_append) simp
  have eq: "entity (as_of ((l @ written_pair env l eid content ts now) @ [retraction env' l' eid (VStr content) now']) t) eid =
      entity (as_of (written_pair env l eid content ts now @ [retraction env' l' eid (VStr content) now']) t) eid"
    by (rule entity_filter) (simp only: as_of_filter own; simp add: written_pair_def as_of_def)
  show ?thesis
    using assms(2,3) unfolding eq
    by (auto simp: written_pair_def as_of_def entity_def latest_of_def retracts_of_def
        candidates_of_def latest_step_def rkey_def[of "with_tx _ _"])
qed

text \<open>C33. \<open>forget\<close> of a remembered entity always reports success and appends one retract;
  it hides the content from later views exactly when its clock shows the instant of the
  \<open>remember\<close>. At any other instant the retract does not match the assert, and the content
  stays visible.\<close>

theorem forget_hides_only_same_instant:
  assumes "fresh_id (mc_log s) (me_uuid me (mc_reads s))" "''mcp.remember'' \<in> set caps"
    and "int (utf8_len content) \<le> bu_remember_max_content_bytes bu"
    and "tool_remember me caps bu [(''content'', VStr content), (''tags'', VList ts)] s = (r, s1)"
    and "mc_log u = mc_log s1" "env_now (me_db me (mc_reads s + 2)) \<le> me_clock me (mc_reads u)"
    and "''mcp.forget'' \<in> set caps"
    and "tool_forget me caps bu [(''eid'', VStr (me_uuid me (mc_reads s)))] u = (r', u')"
    and "me_clock me (mc_reads u) \<le> t" "env_now (me_db me (mc_reads u + 1)) \<le> t"
  shows "r' = Inr (make_success (VDict [(''eid'', VStr (me_uuid me (mc_reads s))),
        (''valid_to'', VStr (isoformat me (me_clock me (mc_reads u)))), (''retracted'', VBool True)])
        (''retracted '' @ me_uuid me (mc_reads s))) \<and>
    length (mc_log u') = length (mc_log u) + 1 \<and>
    entity (as_of (mc_log u') t) (me_uuid me (mc_reads s)) CONTENT_ATTR =
      (if me_clock me (mc_reads u) = me_clock me (mc_reads s + 1) then None else Some (VStr content))"
proof -
  let ?eid = "me_uuid me (mc_reads s)" and ?now = "me_clock me (mc_reads s + 1)"
    and ?env = "me_db me (mc_reads s + 2)"
  have log: "mc_log u = mc_log s @ written_pair ?env (mc_log s) ?eid content ts ?now"
    using tool_remember_run(2)[OF assms(1-4)] assms(5) by simp
  have ent: "entity (as_of (mc_log u) (me_clock me (mc_reads u))) ?eid CONTENT_ATTR = Some (VStr content)"
    unfolding log written_pair_entity[OF assms(1,6)] by simp
  from assms(7,8) have u': "mc_log u' = mc_log u @ [retraction (me_db me (mc_reads u + 1)) (mc_log u) ?eid
        (VStr content) (me_clock me (mc_reads u))]"
    and r': "r' = Inr (make_success (VDict [(''eid'', VStr ?eid),
        (''valid_to'', VStr (isoformat me (me_clock me (mc_reads u)))), (''retracted'', VBool True)])
        (''retracted '' @ ?eid))"
    by (auto simp: tool_forget_def audited_def io_bind_def emit_audit_def forget_write_def reading_def get_or_def
        ent forget_transact)
  have "env_now ?env \<le> t" using assms(6,9) by (rule order_trans)
  from retracted_entity[OF assms(1) this assms(10)] u' r' log show ?thesis by simp
qed

theorem forget_hides_only_same_instant_witness:
  "\<exists>r s1 r' u'. tool_remember mcp_demo_env [''mcp.remember'', ''mcp.forget''] default_budgets
        [(''content'', VStr ''Ab''), (''tags'', VList [])] mcp_demo = (r, s1) \<and>
     tool_forget mcp_demo_env [''mcp.remember'', ''mcp.forget''] default_budgets
        [(''eid'', VStr (''id'' @ nat_str 0))] s1 = (r', u') \<and>
     length (mc_log u') = length (mc_log s1) + 1 \<and>
     entity (as_of (mc_log u') 5) (''id'' @ nat_str 0) CONTENT_ATTR = Some (VStr ''Ab'')"
proof -
  let ?caps = "[''mcp.remember'', ''mcp.forget'']"
  obtain r s1 where run: "tool_remember mcp_demo_env ?caps default_budgets
      [(''content'', VStr ''Ab''), (''tags'', VList [])] mcp_demo = (r, s1)" by (cases "tool_remember mcp_demo_env ?caps
      default_budgets [(''content'', VStr ''Ab''), (''tags'', VList [])] mcp_demo")
  obtain r' u' where run': "tool_forget mcp_demo_env ?caps default_budgets
      [(''eid'', VStr (me_uuid mcp_demo_env (mc_reads mcp_demo)))] s1 = (r', u')"
    by (cases "tool_forget mcp_demo_env ?caps default_budgets
      [(''eid'', VStr (me_uuid mcp_demo_env (mc_reads mcp_demo)))] s1")
  have fits: "int (utf8_len ''Ab'') \<le> bu_remember_max_content_bytes default_budgets" by code_simp
  have fresh: "fresh_id (mc_log mcp_demo) (me_uuid mcp_demo_env (mc_reads mcp_demo))" by (simp add: fresh_id_def)
  have reads: "mc_reads s1 = 2" using tool_remember_run(3)[OF fresh _ fits run] by simp
  from forget_hides_only_same_instant[OF fresh _ fits run refl _ _ run', of 5] reads run run' show ?thesis
    by simp
qed

end
