(* ===== verification/Spec.thy ===== *)
theory Spec
  imports Complex_Main Datoms PyText
begin

text \<open>
  \<open>persistence.spec\<close>: the values at the boundary (\<open>sval\<close>), conformance results, the
  primitive specs, the combinators, and the registry with its explanations. A spec is a value
  of the datatype \<open>spec\<close>; \<open>conform_at\<close> interprets it against a registry, with the nested
  conform calls Python's stack still allows as fuel: a call beyond it raises, and the
  conform around it reports that. Samplers are random and left out.
\<close>

section \<open>Values\<close>

text \<open>Finite doubles are rationals; no arithmetic is done on them.\<close>

datatype flt = FFin rat | FInf bool | FNan

datatype sval =
    SNone | SBool bool | SInt int | SFloat flt | SStr string | SBytes string | SByteArray string
  | SUuid nat | SInst pydt | SList "sval list" | STuple "sval list" | SDict "(sval \<times> sval) list" | SObj nat

fun svtype :: "sval \<Rightarrow> string" where
  "svtype SNone = ''NoneType''" | "svtype (SBool _) = ''bool''" | "svtype (SInt _) = ''int''"
| "svtype (SFloat _) = ''float''" | "svtype (SStr _) = ''str''" | "svtype (SBytes _) = ''bytes''"
| "svtype (SByteArray _) = ''bytearray''" | "svtype (SUuid _) = ''UUID''" | "svtype (SInst _) = ''datetime''"
| "svtype (SList _) = ''list''" | "svtype (STuple _) = ''tuple''" | "svtype (SDict _) = ''dict''"
| "svtype (SObj _) = ''object''"

fun num_of :: "sval \<Rightarrow> flt option" where
  "num_of (SBool b) = Some (FFin (if b then 1 else 0))"
| "num_of (SInt i) = Some (FFin (of_int i))"
| "num_of (SFloat x) = Some x"
| "num_of _ = None"

lemma size_zipped: "(x, y) \<in> set (zip xs ys) \<Longrightarrow> size x < Suc (size_list size xs)"
  by (auto dest!: set_zip_leftD intro!: le_imp_less_Suc size_list_estimation')

lemma size_paired:
  "(k, v) \<in> set xs \<Longrightarrow> size k < Suc (size_list (size_prod size size) xs) \<and> size v < Suc (size_list (size_prod size size) xs)"
  by (induction xs) auto

text \<open>\<open>a is b or a == b\<close>, the comparison of containers; a NaN counts as identical to a NaN.\<close>

function s_eq :: "sval \<Rightarrow> sval \<Rightarrow> bool" where
  "s_eq a b = (case (num_of a, num_of b) of (Some x, Some y) \<Rightarrow> x = y
     | _ \<Rightarrow> (case (a, b) of
         (SList xs, SList ys) \<Rightarrow> length xs = length ys \<and> list_all (\<lambda>(x, y). s_eq x y) (zip xs ys)
       | (STuple xs, STuple ys) \<Rightarrow> length xs = length ys \<and> list_all (\<lambda>(x, y). s_eq x y) (zip xs ys)
       | (SDict xs, SDict ys) \<Rightarrow> length xs = length ys \<and>
           list_all (\<lambda>(k, v). list_ex (\<lambda>(k', v'). s_eq k k' \<and> s_eq v v') ys) xs
       | (SBytes x, SByteArray y) \<Rightarrow> x = y
       | (SByteArray x, SBytes y) \<Rightarrow> x = y
       | _ \<Rightarrow> a = b))"
  by pat_completeness auto
termination
  by (relation "measure (\<lambda>(a, b). size a)") (auto dest: size_zipped size_paired)

declare s_eq.simps [simp del]

fun s_hashable :: "sval \<Rightarrow> bool" where
  "s_hashable (SList _) = False" | "s_hashable (SDict _) = False" | "s_hashable (SByteArray _) = False"
| "s_hashable (STuple xs) = list_all s_hashable xs" | "s_hashable _ = True"

type_synonym sdict = "(sval \<times> sval) list"

fun sget :: "sdict \<Rightarrow> sval \<Rightarrow> sval option" where
  "sget [] k = None"
| "sget ((k', v) # d) k = (if s_eq k' k then Some v else sget d k)"

fun sput :: "sval \<Rightarrow> sval \<Rightarrow> sdict \<Rightarrow> sdict" where
  "sput k v [] = [(k, v)]"
| "sput k v ((k', v') # d) = (if s_eq k' k then (k', v) # d else (k', v') # sput k v d)"

lemma s_eq_str [simp]: "s_eq (SStr a) (SStr b) \<longleftrightarrow> a = b"
  by (simp add: s_eq.simps)

section \<open>Results\<close>

datatype cerr = CErr (ce_key: "string option") (ce_value: sval) (ce_reason: string)
  (ce_path: "sval list") (ce_hint: "string option") (ce_subs: "cerr list")

text \<open>The left side is a \<open>ConformError\<close>, the right one a \<open>Conformed\<close> with its key.\<close>

type_synonym cresult = "cerr + sval \<times> string option"

definition with_path :: "sval list \<Rightarrow> cerr \<Rightarrow> cerr" where
  "with_path crumbs e = CErr (ce_key e) (ce_value e) (ce_reason e) (crumbs @ ce_path e) (ce_hint e) (ce_subs e)"

definition is_ok :: "cresult \<Rightarrow> bool" where
  "is_ok r \<longleftrightarrow> (case r of Inl _ \<Rightarrow> False | Inr _ \<Rightarrow> True)"

text \<open>What conformance reads besides its arguments: \<open>repr\<close>, \<open>str\<close>, the text of a raise,
  \<open>fromisoformat\<close> and \<open>re.fullmatch\<close>.\<close>

record spec_env =
  pe_repr :: "sval \<Rightarrow> string"
  pe_str :: "sval \<Rightarrow> string"
  pe_show :: "err \<Rightarrow> string"
  pe_iso :: "string \<Rightarrow> pydt option"
  pe_match :: "string \<Rightarrow> string \<Rightarrow> err + bool"

section \<open>Specs\<close>

datatype spec =
    IntS | FloatS | BoolS | StrS | BytesS | UuidS | InstS
  | KeywordS | NonEmptyS | Sha256S | UnitFloatS | VersionS | AnyValueS | PlanNodeS
  | UuidStrS | NonNegS | TxnEdnS
  | EnumS "sval list" | RegexS string | RefS string
  | AndS "spec list" | OrS "spec list" | NotS spec | MaybeS spec
  | KeysS "(sval \<times> spec) list" "(sval \<times> spec) list" | MapOfS spec spec
  | SeqOfS spec int "int option" | TupleOfS "spec list"

fun short_name :: "spec \<Rightarrow> string" where
  "short_name IntS = ''spec/int''"
| "short_name FloatS = ''spec/float''"
| "short_name BoolS = ''spec/bool''"
| "short_name StrS = ''spec/str''"
| "short_name BytesS = ''spec/bytes''"
| "short_name UuidS = ''spec/uuid''"
| "short_name InstS = ''spec/inst''"
| "short_name KeywordS = ''spec/keyword''"
| "short_name NonEmptyS = ''spec/non-empty-str''"
| "short_name Sha256S = ''spec/sha256''"
| "short_name UnitFloatS = ''spec/unit-float''"
| "short_name VersionS = ''spec/version''"
| "short_name AnyValueS = ''spec/edn-value''"
| "short_name PlanNodeS = ''plan/node''"
| "short_name UuidStrS = ''txn/uuid-string''"
| "short_name NonNegS = ''txn/non-negative-int''"
| "short_name TxnEdnS = ''txn/edn-value''"
| "short_name (EnumS _) = ''spec/enum''"
| "short_name (RegexS _) = ''spec/regex''"
| "short_name (RefS _) = ''spec/ref''"
| "short_name (AndS _) = ''spec/and''"
| "short_name (OrS _) = ''spec/or''"
| "short_name (NotS _) = ''spec/not''"
| "short_name (MaybeS _) = ''spec/maybe''"
| "short_name (KeysS _ _) = ''spec/keys''"
| "short_name (MapOfS _ _) = ''spec/map-of''"
| "short_name (SeqOfS _ _ _) = ''spec/seq-of''"
| "short_name (TupleOfS _) = ''spec/tuple-of''"

definition spec_name :: "spec \<Rightarrow> string" where
  "spec_name sp = '':persistence.'' @ short_name sp"

definition conformed :: "spec \<Rightarrow> sval \<Rightarrow> cresult" where
  "conformed sp v = Inr (v, Some (spec_name sp))"

definition failed :: "spec \<Rightarrow> sval \<Rightarrow> string \<Rightarrow> string option \<Rightarrow> cerr list \<Rightarrow> cresult" where
  "failed sp v reason hint subs = Inl (CErr (Some (spec_name sp)) v reason [] hint subs)"

definition type_err :: "spec \<Rightarrow> sval \<Rightarrow> string \<Rightarrow> cresult" where
  "type_err sp v expected_type = failed sp v (''expected '' @ expected_type @ '', got '' @ svtype v)
     (Some (''provide a value of type '' @ expected_type)) []"

section \<open>Scalars\<close>

text \<open>The canonical patterns, as the functions they are.\<close>

definition is_alpha :: "char \<Rightarrow> bool" where
  "is_alpha c \<longleftrightarrow> (let n = (of_char c :: nat) in (65 \<le> n \<and> n \<le> 90) \<or> (97 \<le> n \<and> n \<le> 122))"

definition is_digit :: "char \<Rightarrow> bool" where
  "is_digit c \<longleftrightarrow> (let n = (of_char c :: nat) in 48 \<le> n \<and> n \<le> 57)"

definition kw_segment :: "string \<Rightarrow> bool" where
  "kw_segment s \<longleftrightarrow> s \<noteq> [] \<and> is_alpha (hd s) \<and>
     list_all (\<lambda>c. is_alpha c \<or> is_digit c \<or> c \<in> set ''._?-'') s"

definition keyword_ok :: "string \<Rightarrow> bool" where
  "keyword_ok s \<longleftrightarrow> (case s of [] \<Rightarrow> False | c # t \<Rightarrow> c = CHR '':'' \<and>
     kw_segment (takeWhile (\<lambda>x. x \<noteq> CHR ''/'') t) \<and>
     (case dropWhile (\<lambda>x. x \<noteq> CHR ''/'') t of [] \<Rightarrow> True | _ # u \<Rightarrow> kw_segment u))"

definition sha256_ok :: "string \<Rightarrow> bool" where
  "sha256_ok s \<longleftrightarrow> startswith ''sha256:'' s \<and> drop 7 s \<noteq> [] \<and> list_all is_hex (drop 7 s)"

definition version_ok :: "string \<Rightarrow> bool" where
  "version_ok s \<longleftrightarrow> startswith ''v'' s \<and> drop 1 s \<noteq> [] \<and> list_all is_digit (drop 1 s)"

definition hex_digit_value :: "char \<Rightarrow> nat" where
  "hex_digit_value c = (let n = (of_char c :: nat) in
     if n < 58 then n - 48 else if n < 97 then n - 55 else n - 87)"

definition uuid_number :: "string \<Rightarrow> nat" where
  "uuid_number s = foldl (\<lambda>n c. 16 * n + hex_digit_value c) 0
     (filter is_hex (remove_all ''uuid:'' (remove_all ''urn:'' s)))"

definition int_conform :: "sval \<Rightarrow> cresult" where
  "int_conform v = (case v of SBool _ \<Rightarrow> type_err IntS v ''int (not bool)'' | SInt _ \<Rightarrow> conformed IntS v
     | _ \<Rightarrow> type_err IntS v ''int'')"

definition float_conform :: "sval \<Rightarrow> cresult" where
  "float_conform v = (case v of SBool _ \<Rightarrow> type_err FloatS v ''float (not int)''
     | SInt _ \<Rightarrow> type_err FloatS v ''float (not int)'' | SFloat _ \<Rightarrow> conformed FloatS v | _ \<Rightarrow> type_err FloatS v ''float'')"

definition bool_conform :: "sval \<Rightarrow> cresult" where
  "bool_conform v = (case v of SBool _ \<Rightarrow> conformed BoolS v | _ \<Rightarrow> type_err BoolS v ''bool'')"

definition str_conform :: "sval \<Rightarrow> cresult" where
  "str_conform v = (case v of SStr _ \<Rightarrow> conformed StrS v | _ \<Rightarrow> type_err StrS v ''str'')"

definition bytes_conform :: "sval \<Rightarrow> cresult" where
  "bytes_conform v = (case v of SBytes b \<Rightarrow> conformed BytesS (SBytes b)
     | SByteArray b \<Rightarrow> conformed BytesS (SBytes b) | _ \<Rightarrow> type_err BytesS v ''bytes'')"

definition uuid_conform :: "sval \<Rightarrow> cresult" where
  "uuid_conform v = (case v of SUuid _ \<Rightarrow> conformed UuidS v
     | SStr s \<Rightarrow> if uuid_reads s then conformed UuidS (SUuid (uuid_number s))
         else failed UuidS v ''string is not a valid UUID''
           (Some (''provide a canonical UUID like '' @ [CHR 0x27] @ ''550e8400-e29b-41d4-a716-446655440000'' @ [CHR 0x27])) []
     | _ \<Rightarrow> type_err UuidS v ''uuid.UUID or UUID-formatted str'')"

definition inst_conform :: "spec_env \<Rightarrow> sval \<Rightarrow> cresult" where
  "inst_conform pe v = (case v of
       SInst (Naive _) \<Rightarrow> failed InstS v ''datetime is naive (no tzinfo)''
         (Some ''attach a timezone, e.g. datetime.now(timezone.utc)'') []
     | SInst (Aware t) \<Rightarrow> conformed InstS v
     | SStr s \<Rightarrow> (case pe_iso pe s of
           None \<Rightarrow> failed InstS v ''string is not ISO-8601''
             (Some (''use ISO-8601 with timezone, e.g. '' @ [CHR 0x27] @ ''2026-04-20T12:00:00+00:00'' @ [CHR 0x27])) []
         | Some (Naive _) \<Rightarrow> failed InstS v ''ISO-8601 string lacks timezone''
             (Some (''append '' @ [CHR 0x27] @ ''+00:00'' @ [CHR 0x27] @ '' or '' @ [CHR 0x27] @ ''Z'' @ [CHR 0x27] @ '' for UTC'')) []
         | Some (Aware t) \<Rightarrow> conformed InstS (SInst (Aware t)))
     | _ \<Rightarrow> type_err InstS v ''datetime or ISO-8601 str'')"

text \<open>A string that must pass a test.\<close>

definition text_conform :: "spec \<Rightarrow> (string \<Rightarrow> bool) \<Rightarrow> string \<Rightarrow> string \<Rightarrow> string \<Rightarrow> sval \<Rightarrow> cresult" where
  "text_conform sp ok provide reason hint v = (case v of
       SStr s \<Rightarrow> if ok s then conformed sp v else failed sp v reason (Some hint) []
     | _ \<Rightarrow> failed sp v (''expected str, got '' @ svtype v) (Some provide) [])"

definition unit_float_conform :: "spec_env \<Rightarrow> sval \<Rightarrow> cresult" where
  "unit_float_conform pe v = (case v of
       SFloat x \<Rightarrow> if (case x of FFin q \<Rightarrow> 0 \<le> q \<and> q \<le> 1 | _ \<Rightarrow> False) then conformed UnitFloatS v
         else failed UnitFloatS v (''out of range [0,1]: '' @ pe_str pe v) (Some ''provide a float between 0.0 and 1.0 inclusive'') []
     | _ \<Rightarrow> failed UnitFloatS v (''expected float, got '' @ svtype v) (Some ''provide a float in [0.0, 1.0]'') [])"

definition enum_conform :: "spec_env \<Rightarrow> sval list \<Rightarrow> sval \<Rightarrow> cresult" where
  "enum_conform pe members v =
     (if list_ex (\<lambda>m. s_eq v m) members then conformed (EnumS members) v
      else failed (EnumS members) v (''not a member of '' @ pe_repr pe (SList members))
        (Some (''provide one of: '' @ pe_repr pe (SList members))) [])"

definition regex_conform :: "spec_env \<Rightarrow> string \<Rightarrow> sval \<Rightarrow> err + cresult" where
  "regex_conform pe pattern v = (case v of
       SStr s \<Rightarrow> ebind (pe_match pe pattern s) (\<lambda>ok. Inr (if ok then conformed (RegexS pattern) v
         else failed (RegexS pattern) v (''did not match /'' @ pattern @ ''/'')
           (Some (''provide a string matching /'' @ pattern @ ''/'')) []))
     | _ \<Rightarrow> Inr (failed (RegexS pattern) v (''expected str, got '' @ svtype v) (Some ''provide a string'') []))"

section \<open>Values of the data notation\<close>

text \<open>\<open>_AnyValueSpec._conform\<close> recurses on itself; the first bad element is reported.\<close>

definition crumbed :: "sval \<Rightarrow> cresult \<Rightarrow> cerr option" where
  "crumbed crumb r = (case r of Inl e \<Rightarrow> Some (with_path [crumb] e) | Inr _ \<Rightarrow> None)"

definition any_items :: "(sval \<Rightarrow> err + cresult) \<Rightarrow> sval \<Rightarrow> (sval \<times> sval) list \<Rightarrow> err + cresult" where
  "any_items rec v items = ebind (efirst (\<lambda>(crumb, x). ebind (rec x) (\<lambda>r. Inr (crumbed crumb r))) items)
     (\<lambda>bad. Inr (case bad of Some e \<Rightarrow> Inl e | None \<Rightarrow> conformed AnyValueS v))"

definition indexed :: "sval list \<Rightarrow> (sval \<times> sval) list" where
  "indexed xs = map (\<lambda>(i, x). (SInt (int i), x)) (List.enumerate 0 xs)"

fun any_conform :: "nat \<Rightarrow> sval \<Rightarrow> err + cresult" where
  "any_conform 0 v = Inl RecursionError"
| "any_conform (Suc n) v = (case v of
     SList xs \<Rightarrow> any_items (any_conform n) v (indexed xs)
   | STuple xs \<Rightarrow> any_items (any_conform n) v (indexed xs)
   | SDict d \<Rightarrow> any_items (any_conform n) v d
   | SBytes _ \<Rightarrow> Inr (failed AnyValueS v (''not an EDN value: '' @ svtype v) (Some ''use str/int/float/bool/None/list/tuple/dict/UUID/datetime'') [])
   | SByteArray _ \<Rightarrow> Inr (failed AnyValueS v (''not an EDN value: '' @ svtype v) (Some ''use str/int/float/bool/None/list/tuple/dict/UUID/datetime'') [])
   | SObj _ \<Rightarrow> Inr (failed AnyValueS v (''not an EDN value: '' @ svtype v) (Some ''use str/int/float/bool/None/list/tuple/dict/UUID/datetime'') [])
   | _ \<Rightarrow> Inr (conformed AnyValueS v))"

section \<open>Values of transaction specs\<close>

definition hex_text :: "nat \<Rightarrow> nat \<Rightarrow> string" where
  "hex_text digits n = map (\<lambda>i. hex_digit (n div 16 ^ (digits - 1 - i))) [0..<digits]"

text \<open>\<open>str(uuid)\<close>.\<close>

definition uuid_text :: "nat \<Rightarrow> string" where
  "uuid_text n = (let h = hex_text 32 n in
     take 8 h @ ''-'' @ take 4 (drop 8 h) @ ''-'' @ take 4 (drop 12 h) @ ''-'' @ take 4 (drop 16 h) @ ''-'' @ drop 20 h)"

definition uuid_str_conform :: "sval \<Rightarrow> cresult" where
  "uuid_str_conform v = (let hint = Some ''provide a UUID string in canonical 8-4-4-4-12 hex form'' in case v of
     SStr s \<Rightarrow> if uuid_reads s then conformed UuidStrS (SStr (uuid_text (uuid_number s)))
       else failed UuidStrS v ''not a valid UUID string'' hint []
   | _ \<Rightarrow> failed UuidStrS v (''expected str, got '' @ svtype v) hint [])"

definition non_neg_conform :: "sval \<Rightarrow> cresult" where
  "non_neg_conform v = (let hint = Some ''provide a non-negative int (retry count)'' in case v of
     SInt i \<Rightarrow> if i < 0 then failed NonNegS v (''int is negative: '' @ int_str i) hint [] else conformed NonNegS v
   | _ \<Rightarrow> failed NonNegS v (''expected int, got '' @ svtype v) hint [])"

text \<open>The values an intent may carry; containers are copied, an element's own error is
  replaced by one of the container.\<close>

definition txn_items ::
  "(sval \<Rightarrow> err + cresult) \<Rightarrow> spec_env \<Rightarrow> sval \<Rightarrow> sval list \<Rightarrow> err + cresult" where
  "txn_items rec pe v xs = ebind (efirst (\<lambda>(i, x). ebind (rec x) (\<lambda>r. Inr (if is_ok r then None
       else Some (i, x)))) (List.enumerate 0 xs)) (\<lambda>bad. Inr (case bad of
     Some (i, x) \<Rightarrow> failed TxnEdnS v (''non-EDN element at index '' @ nat_str i @ '': '' @ svtype x)
       (Some ''EDN values are scalars (int/float/str/bool/None) or recursive lists/dicts'') []
   | None \<Rightarrow> conformed TxnEdnS (SList xs)))"

definition txn_entries ::
  "(sval \<Rightarrow> err + cresult) \<Rightarrow> spec_env \<Rightarrow> sval \<Rightarrow> sdict \<Rightarrow> err + cresult" where
  "txn_entries rec pe v d = ebind (efirst (\<lambda>(k, x). case k of
       SStr _ \<Rightarrow> ebind (rec x) (\<lambda>r. Inr (if is_ok r then None else Some (k, x)))
     | _ \<Rightarrow> Inr (Some (k, x))) d) (\<lambda>bad. Inr (case bad of
     Some (SStr key, x) \<Rightarrow> failed TxnEdnS v (''non-EDN value at key '' @ str_repr key @ '': '' @ svtype x)
       (Some ''EDN values are scalars or recursive lists/dicts'') []
   | Some (k, x) \<Rightarrow> failed TxnEdnS v (''non-string dict key: '' @ svtype k) (Some ''EDN map keys must be strings'') []
   | None \<Rightarrow> conformed TxnEdnS v))"

fun txn_edn_conform :: "spec_env \<Rightarrow> nat \<Rightarrow> sval \<Rightarrow> err + cresult" where
  "txn_edn_conform pe 0 v = Inl RecursionError"
| "txn_edn_conform pe (Suc n) v = (case v of
     SNone \<Rightarrow> Inr (conformed TxnEdnS v) | SBool _ \<Rightarrow> Inr (conformed TxnEdnS v) | SInt _ \<Rightarrow> Inr (conformed TxnEdnS v)
   | SFloat _ \<Rightarrow> Inr (conformed TxnEdnS v) | SStr _ \<Rightarrow> Inr (conformed TxnEdnS v)
   | SList xs \<Rightarrow> txn_items (txn_edn_conform pe n) pe v xs
   | STuple xs \<Rightarrow> txn_items (txn_edn_conform pe n) pe v xs
   | SDict d \<Rightarrow> txn_entries (txn_edn_conform pe n) pe v d
   | _ \<Rightarrow> Inr (failed TxnEdnS v (''non-EDN value: '' @ svtype v)
       (Some ''EDN values are scalars (int/float/str/bool/None) or lists/tuples/str-keyed dicts'') []))"

section \<open>Combinators\<close>

text \<open>The bodies take the conform of their parts as an argument, which may raise.\<close>

type_synonym sub_conform = "spec \<Rightarrow> sval \<Rightarrow> err + cresult"

fun and_loop :: "sub_conform \<Rightarrow> spec list \<Rightarrow> sval \<Rightarrow> cresult \<Rightarrow> err + cresult" where
  "and_loop c [] v last_ok = Inr last_ok"
| "and_loop c (sp # sps) v last_ok = ebind (c sp v) (\<lambda>r. case r of
      Inl e \<Rightarrow> Inr (Inl e) | Inr (w, k) \<Rightarrow> and_loop c sps w (Inr (w, k)))"

fun or_loop :: "sub_conform \<Rightarrow> spec \<Rightarrow> nat \<Rightarrow> sval \<Rightarrow> spec list \<Rightarrow> cerr list \<Rightarrow> err + cresult" where
  "or_loop c self n v [] errs = Inr (failed self v (''matched none of '' @ nat_str n @ '' alternatives'')
     (Some ''satisfy at least one of the alternatives'') errs)"
| "or_loop c self n v (sp # sps) errs = ebind (c sp v) (\<lambda>r. case r of
      Inr ok \<Rightarrow> Inr (Inr ok) | Inl e \<Rightarrow> or_loop c self n v sps (errs @ [e]))"

definition not_body :: "sub_conform \<Rightarrow> spec \<Rightarrow> sval \<Rightarrow> err + cresult" where
  "not_body c inner v = ebind (c inner v) (\<lambda>r. Inr (if is_ok r
     then failed (NotS inner) v (''value matched inner spec '' @ spec_name inner @ '', expected non-match'')
       (Some ''provide a value that does NOT conform to the inner spec'') []
     else conformed (NotS inner) v))"

definition maybe_body :: "sub_conform \<Rightarrow> spec \<Rightarrow> sval \<Rightarrow> err + cresult" where
  "maybe_body c inner v = (if v = SNone then Inr (conformed (MaybeS inner) SNone) else c inner v)"

text \<open>One key of a map: the state is the refined map with the errors so far.\<close>

definition keys_step ::
  "spec_env \<Rightarrow> sub_conform \<Rightarrow> spec \<Rightarrow> sdict \<Rightarrow> bool \<Rightarrow> sval \<times> spec \<Rightarrow> sdict \<times> cerr list \<Rightarrow> err + sdict \<times> cerr list" where
  "keys_step pe c self value required ks st = (case sget value (fst ks) of
     None \<Rightarrow> Inr (if required then (fst st, snd st @ [CErr (Some (spec_name self)) (SDict value)
         (''missing required key '' @ pe_repr pe (fst ks)) [fst ks]
         (Some (''include '' @ pe_repr pe (fst ks) @ '' with a value conforming to '' @ spec_name (snd ks))) []]) else st)
   | Some x \<Rightarrow> ebind (c (snd ks) x) (\<lambda>r. Inr (case r of
         Inl e \<Rightarrow> (fst st, snd st @ [with_path [fst ks] e])
       | Inr ok \<Rightarrow> (sput (fst ks) (fst ok) (fst st), snd st))))"

definition keys_body ::
  "spec_env \<Rightarrow> sub_conform \<Rightarrow> (sval \<times> spec) list \<Rightarrow> (sval \<times> spec) list \<Rightarrow> sval \<Rightarrow> err + cresult" where
  "keys_body pe c required optional v = (case v of
     SDict value \<Rightarrow>
       (let self = KeysS required optional in
        ebind (efold (keys_step pe c self value True) required (value, [])) (\<lambda>st.
        ebind (efold (keys_step pe c self value False) optional st) (\<lambda>st'.
          Inr (if snd st' \<noteq> [] then failed self v (nat_str (length (snd st')) @ '' key(s) failed'')
                 (Some ''fix each sub-error listed above'') (snd st')
               else conformed self (SDict (fst st'))))))
   | _ \<Rightarrow> Inr (failed (KeysS required optional) v (''expected map (dict), got '' @ svtype v)
       (Some ''provide a dict matching the declared shape'') []))"

text \<open>One entry of a uniform map; a refined key that cannot be hashed raises.\<close>

definition map_step ::
  "spec_env \<Rightarrow> sub_conform \<Rightarrow> spec \<Rightarrow> spec \<Rightarrow> sval \<times> sval \<Rightarrow> sdict \<times> cerr list \<Rightarrow> err + sdict \<times> cerr list" where
  "map_step pe c key_spec val_spec kv st =
     ebind (c key_spec (fst kv)) (\<lambda>kr. ebind (c val_spec (snd kv)) (\<lambda>vr.
       case kr of Inl e \<Rightarrow> Inr (fst st, snd st @ [with_path [SStr (''<key '' @ pe_repr pe (fst kv) @ ''>'')] e])
       | Inr k \<Rightarrow> (case vr of Inl e \<Rightarrow> Inr (fst st, snd st @ [with_path [fst kv] e])
           | Inr x \<Rightarrow> if s_hashable (fst k) then Inr (sput (fst k) (fst x) (fst st), snd st) else Inl TypeError)))"

definition map_body :: "spec_env \<Rightarrow> sub_conform \<Rightarrow> spec \<Rightarrow> spec \<Rightarrow> sval \<Rightarrow> err + cresult" where
  "map_body pe c key_spec val_spec v = (case v of
     SDict value \<Rightarrow> ebind (efold (map_step pe c key_spec val_spec) value ([], [])) (\<lambda>st.
       Inr (if snd st \<noteq> [] then failed (MapOfS key_spec val_spec) v (nat_str (length (snd st)) @ '' entry/entries failed'') None (snd st)
            else conformed (MapOfS key_spec val_spec) (SDict (fst st))))
   | _ \<Rightarrow> Inr (failed (MapOfS key_spec val_spec) v (''expected dict, got '' @ svtype v)
       (Some ''provide a dict with uniform key/value types'') []))"

text \<open>Elements, each with its crumb and its spec.\<close>

fun each_loop :: "sub_conform \<Rightarrow> (sval \<times> spec \<times> sval) list \<Rightarrow> err + sval list \<times> cerr list" where
  "each_loop c [] = Inr ([], [])"
| "each_loop c ((crumb, sp, v) # rest) = ebind (c sp v) (\<lambda>r. ebind (each_loop c rest) (\<lambda>(vs, es).
     Inr (case r of Inl e \<Rightarrow> (vs, with_path [crumb] e # es) | Inr ok \<Rightarrow> (fst ok # vs, es))))"

definition elements_failed :: "spec \<Rightarrow> sval \<Rightarrow> cerr list \<Rightarrow> cresult" where
  "elements_failed self v es = failed self v (nat_str (length es) @ '' element(s) failed'') None es"

fun sequence_of :: "sval \<Rightarrow> sval list option" where
  "sequence_of (SList xs) = Some xs"
| "sequence_of (STuple xs) = Some xs"
| "sequence_of _ = None"

definition seq_body :: "sub_conform \<Rightarrow> spec \<Rightarrow> int \<Rightarrow> int option \<Rightarrow> sval \<Rightarrow> err + cresult" where
  "seq_body c element min_len max_len v =
     (let self = SeqOfS element min_len max_len in case sequence_of v of
        None \<Rightarrow> Inr (failed self v (''expected list/tuple, got '' @ svtype v) (Some ''provide a list or tuple of elements'') [])
      | Some xs \<Rightarrow>
          if int (length xs) < min_len then Inr (failed self v (''length '' @ nat_str (length xs) @ '' < min '' @ int_str min_len)
            (Some (''provide at least '' @ int_str min_len @ '' elements'')) [])
          else if (case max_len of None \<Rightarrow> False | Some m \<Rightarrow> int (length xs) > m)
          then Inr (failed self v (''length '' @ nat_str (length xs) @ '' > max '' @ int_str (the max_len))
            (Some (''provide at most '' @ int_str (the max_len) @ '' elements'')) [])
          else ebind (each_loop c (map (\<lambda>(i, x). (i, element, x)) (indexed xs))) (\<lambda>(vs, es).
            Inr (if es \<noteq> [] then elements_failed self v es else conformed self (SList vs))))"

definition tuple_body :: "sub_conform \<Rightarrow> spec list \<Rightarrow> sval \<Rightarrow> err + cresult" where
  "tuple_body c members v = (case sequence_of v of
     None \<Rightarrow> Inr (failed (TupleOfS members) v (''expected list/tuple, got '' @ svtype v) None [])
   | Some xs \<Rightarrow>
       if length xs \<noteq> length members then Inr (failed (TupleOfS members) v
         (''expected length '' @ nat_str (length members) @ '', got '' @ nat_str (length xs))
         (Some (''provide exactly '' @ nat_str (length members) @ '' elements'')) [])
       else ebind (each_loop c (map (\<lambda>(sp, i, x). (i, sp, x)) (zip members (indexed xs)))) (\<lambda>(vs, es).
         Inr (if es \<noteq> [] then elements_failed (TupleOfS members) v es else conformed (TupleOfS members) (STuple vs))))"

section \<open>Plan nodes\<close>

definition PLAN_NODE_KINDS :: "string list" where
  "PLAN_NODE_KINDS = ['':seq'', '':par'', '':choice'', '':loop'', '':race'', '':let'', '':branch'', '':case'',
     '':tool-call'', '':llm-call'', '':code'', '':checkpoint'', '':reflect'', '':verify'', '':call-skill'', '':ref'']"

text \<open>\<open>[:ref :symbol]\<close> stands for a child.\<close>

definition is_ref_child :: "sval \<Rightarrow> bool" where
  "is_ref_child v = (case sequence_of v of Some [SStr t, SStr k] \<Rightarrow> t = '':ref'' \<and> keyword_ok k | _ \<Rightarrow> False)"

fun child_errors :: "(sval \<Rightarrow> err + cresult) \<Rightarrow> (sval \<times> sval) list \<Rightarrow> err + cerr list" where
  "child_errors self [] = Inr []"
| "child_errors self ((i, child) # rest) =
     (if is_ref_child child then child_errors self rest
      else ebind (self child) (\<lambda>r. ebind (child_errors self rest) (\<lambda>es.
        Inr (case r of Inl e \<Rightarrow> with_path [i] e # es | Inr _ \<Rightarrow> es))))"

definition node_err :: "sval \<Rightarrow> string \<Rightarrow> sval list \<Rightarrow> string option \<Rightarrow> cerr list \<Rightarrow> err + cresult" where
  "node_err v reason path hint subs = Inr (Inl (CErr (Some (spec_name PlanNodeS)) v reason path hint subs))"

definition subs_of :: "cresult \<Rightarrow> cerr list" where
  "subs_of r = (case r of Inl e \<Rightarrow> [e] | Inr _ \<Rightarrow> [])"

definition keyword_conform :: "sval \<Rightarrow> cresult" where
  "keyword_conform = text_conform KeywordS keyword_ok (''provide a namespaced keyword like '' @ [CHR 0x27] @ '':foo/bar'' @ [CHR 0x27])
     ''not a valid namespaced keyword''
     (''start with '' @ [CHR 0x27] @ '':'' @ [CHR 0x27] @ '', use letters/digits/._-, optional '' @ [CHR 0x27] @ ''/'' @ [CHR 0x27] @ '' for namespace'')"

definition sha256_conform :: "sval \<Rightarrow> cresult" where
  "sha256_conform = text_conform Sha256S sha256_ok ''provide a sha256:HEX content-address'' ''not a sha256 address''
     (''format as '' @ [CHR 0x27] @ ''sha256:<hex>'' @ [CHR 0x27] @ '' (e.g. '' @ [CHR 0x27] @ ''sha256:abc123'' @ [CHR 0x27] @ '')'')"

definition node_children :: "(sval \<Rightarrow> err + cresult) \<Rightarrow> sval \<Rightarrow> sval list \<Rightarrow> err + cresult" where
  "node_children self v xs =
     ebind (child_errors self (drop 2 (indexed xs))) (\<lambda>es.
       if es \<noteq> [] then node_err v (nat_str (length es) @ '' child/children failed'') [] None es
       else Inr (conformed PlanNodeS (STuple xs)))"

definition node_attrs :: "spec_env \<Rightarrow> (sval \<Rightarrow> err + cresult) \<Rightarrow> sval \<Rightarrow> sval list \<Rightarrow> err + cresult" where
  "node_attrs pe self v xs = (case xs ! 1 of
     SDict attrs \<Rightarrow> (case sget attrs (SStr '':id'') of
         None \<Rightarrow> node_err v ''attrs missing required ':id' key'' [SInt 1] (Some ''every plan node must carry a content-addressed :id'') []
       | Some i \<Rightarrow>
           if \<not> is_ok (sha256_conform i) then node_err v '':id must be a sha256 string'' [SInt 1, SStr '':id'']
             (Some ''generate via (sha256 (pr-str node-without-meta))'') (subs_of (sha256_conform i))
           else (case find (\<lambda>(k, x). \<not> is_ok (keyword_conform k)) attrs of
               Some (k, _) \<Rightarrow> node_err v (''attrs key '' @ pe_repr pe k @ '' is not a keyword'') [SInt 1, k]
                 (Some (''attr keys must be EDN keywords like '' @ [CHR 0x27] @ '':tool'' @ [CHR 0x27] @ '', '' @ [CHR 0x27] @ '':join'' @ [CHR 0x27]))
                 (subs_of (keyword_conform k))
             | None \<Rightarrow> node_children self v xs))
   | attrs \<Rightarrow> node_err v (''attrs (index 1) must be a dict, got '' @ svtype attrs) [SInt 1]
       (Some (''second element is an attribute map like {:id '' @ [CHR 0x27] @ ''sha256:...'' @ [CHR 0x27] @ ''}'')) [])"

definition node_body :: "spec_env \<Rightarrow> (sval \<Rightarrow> err + cresult) \<Rightarrow> sval \<Rightarrow> err + cresult" where
  "node_body pe self v = (case sequence_of v of
     None \<Rightarrow> (case v of
         SDict _ \<Rightarrow> node_err v ''expected list/tuple (vector form), got dict (map form)'' []
           (Some ''ARIS Round 3: plan nodes are now vectors [:tag {attrs} & children], not {:node/id ... :node/kind ...}'') []
       | _ \<Rightarrow> node_err v (''expected list/tuple, got '' @ svtype v) [] (Some ''plan nodes are vectors: [:tag {attrs} & children]'') [])
   | Some xs \<Rightarrow>
       if length xs < 2 then node_err v (''vector length '' @ nat_str (length xs) @ '' < 2'') []
         (Some ''plan nodes need at least a tag and an attrs map: [:tag {:id ...} & children]'') []
       else (let kinds = map SStr PLAN_NODE_KINDS; tag = enum_conform pe kinds (hd xs) in
         if \<not> is_ok tag then node_err v (''tag '' @ pe_repr pe (hd xs) @ '' is not a recognised plan node kind'') [SInt 0]
           (Some (''use one of: '' @ pe_repr pe (SList kinds))) (subs_of tag)
         else node_attrs pe self v xs))"

section \<open>Conformance\<close>

definition nonempty_conform :: "sval \<Rightarrow> cresult" where
  "nonempty_conform = text_conform NonEmptyS (\<lambda>s. s \<noteq> []) ''provide a non-empty string'' ''string is empty''
     ''provide a non-empty string explaining the intent''"

definition version_conform :: "sval \<Rightarrow> cresult" where
  "version_conform = text_conform VersionS version_ok (''provide a version tag like '' @ [CHR 0x27] @ ''v1'' @ [CHR 0x27])
     ''not a version tag''
     (''format as '' @ [CHR 0x27] @ ''v<integer>'' @ [CHR 0x27] @ '' (e.g. '' @ [CHR 0x27] @ ''v3'' @ [CHR 0x27] @ '')'')"

type_synonym spec_registry = "spec dict"

text \<open>\<open>_conform\<close> of each class, with the conform of parts and the fuel that is left.\<close>

definition conform_body :: "spec_env \<Rightarrow> spec_registry \<Rightarrow> sub_conform \<Rightarrow> nat \<Rightarrow> spec \<Rightarrow> sval \<Rightarrow> err + cresult" where
  "conform_body pe reg c n sp v = (case sp of
     IntS \<Rightarrow> Inr (int_conform v) | FloatS \<Rightarrow> Inr (float_conform v) | BoolS \<Rightarrow> Inr (bool_conform v)
   | StrS \<Rightarrow> Inr (str_conform v) | BytesS \<Rightarrow> Inr (bytes_conform v) | UuidS \<Rightarrow> Inr (uuid_conform v)
   | InstS \<Rightarrow> Inr (inst_conform pe v) | KeywordS \<Rightarrow> Inr (keyword_conform v) | NonEmptyS \<Rightarrow> Inr (nonempty_conform v)
   | Sha256S \<Rightarrow> Inr (sha256_conform v) | UnitFloatS \<Rightarrow> Inr (unit_float_conform pe v) | VersionS \<Rightarrow> Inr (version_conform v)
   | AnyValueS \<Rightarrow> any_conform (Suc n) v | PlanNodeS \<Rightarrow> node_body pe (c PlanNodeS) v
   | UuidStrS \<Rightarrow> Inr (uuid_str_conform v) | NonNegS \<Rightarrow> Inr (non_neg_conform v) | TxnEdnS \<Rightarrow> txn_edn_conform pe (Suc n) v
   | EnumS members \<Rightarrow> Inr (enum_conform pe members v) | RegexS p \<Rightarrow> regex_conform pe p v
   | RefS key \<Rightarrow> (case dget reg key of
         None \<Rightarrow> Inr (failed sp v (''ref points to unknown spec key '' @ str_repr key)
           (Some (''register a spec under '' @ str_repr key @ '' via spec.register()'')) [])
       | Some resolved \<Rightarrow> c resolved v)
   | AndS members \<Rightarrow> and_loop c members v (conformed sp v)
   | OrS members \<Rightarrow> or_loop c sp (length members) v members []
   | NotS inner \<Rightarrow> not_body c inner v | MaybeS inner \<Rightarrow> maybe_body c inner v
   | KeysS required optional \<Rightarrow> keys_body pe c required optional v
   | MapOfS key_spec val_spec \<Rightarrow> map_body pe c key_spec val_spec v
   | SeqOfS element min_len max_len \<Rightarrow> seq_body c element min_len max_len v
   | TupleOfS members \<Rightarrow> tuple_body c members v)"

text \<open>\<open>Spec.conform\<close>: whatever the body raises becomes a \<open>ConformError\<close>.\<close>

fun conform_at :: "spec_env \<Rightarrow> spec_registry \<Rightarrow> nat \<Rightarrow> spec \<Rightarrow> sval \<Rightarrow> err + cresult" where
  "conform_at pe reg 0 sp v = Inl RecursionError"
| "conform_at pe reg (Suc n) sp v = Inr (case conform_body pe reg (conform_at pe reg n) n sp v of
      Inr r \<Rightarrow> r
    | Inl e \<Rightarrow> Inl (CErr (Some (spec_name sp)) v (''predicate raised '' @ pe_show pe e) [] None []))"

section \<open>The registry\<close>

definition register_spec :: "string \<Rightarrow> spec \<Rightarrow> spec_registry \<Rightarrow> spec_registry" where
  "register_spec key sp reg = dset key sp reg"

definition registered_keys :: "spec_registry \<Rightarrow> string list" where
  "registered_keys reg = sort (map fst reg)"

definition conform_key :: "spec_env \<Rightarrow> spec_registry \<Rightarrow> nat \<Rightarrow> string \<Rightarrow> sval \<Rightarrow> err + cresult" where
  "conform_key pe reg n key v = (case dget reg key of
     None \<Rightarrow> Inr (Inl (CErr (Some key) v (''no spec registered under '' @ str_repr key) []
       (Some ''register the spec first via spec.register()'') []))
   | Some sp \<Rightarrow> ebind (conform_at pe reg n sp v) (\<lambda>r. Inr (case r of
         Inr ok \<Rightarrow> Inr (fst ok, Some key) | Inl e \<Rightarrow> Inl e)))"

definition parse_key :: "spec_env \<Rightarrow> spec_registry \<Rightarrow> nat \<Rightarrow> string \<Rightarrow> sval \<Rightarrow> err + sval \<times> string option" where
  "parse_key pe reg n key v = ebind (conform_key pe reg n key v) (\<lambda>r. case r of Inr ok \<Rightarrow> Inr ok | Inl e \<Rightarrow> Inl SpecError)"

text \<open>\<open>quickcheck\<close> over the samples the spec generated: a sample that does not conform, or
  whose property fails or raises, is a failure.\<close>

definition quickcheck_fails ::
  "spec_env \<Rightarrow> spec_registry \<Rightarrow> nat \<Rightarrow> string \<Rightarrow> (sval \<Rightarrow> err + bool) \<Rightarrow> sval list \<Rightarrow> err + sval list" where
  "quickcheck_fails pe reg n key prop samples = (case dget reg key of
     None \<Rightarrow> Inl KeyError
   | Some sp \<Rightarrow> Inr (filter (\<lambda>v. case conform_at pe reg n sp v of
        Inr (Inr ok) \<Rightarrow> prop (fst ok) \<noteq> Inr True | _ \<Rightarrow> True) samples))"

section \<open>Explanations\<close>

definition truncate_repr :: "spec_env \<Rightarrow> sval \<Rightarrow> string" where
  "truncate_repr pe v = (let s = pe_repr pe v in if length s > 80 then take 77 s @ ''...'' else s)"

definition newline :: string where "newline = [CHR 0x0A]"

fun render_error :: "spec_env \<Rightarrow> nat \<Rightarrow> cerr \<Rightarrow> string" where
  "render_error pe indent (CErr key v reason path hint subs) =
     (let prefix = replicate (2 * indent) (CHR '' '') in
      prefix @ (case key of Some k \<Rightarrow> if k = [] then ''<anon>'' else k | None \<Rightarrow> ''<anon>'')
      @ concat (map (\<lambda>p. ''['' @ pe_repr pe p @ '']'') path) @ '': '' @ reason @ '' (got '' @ truncate_repr pe v @ '')''
      @ (case hint of Some (c # h) \<Rightarrow> newline @ prefix @ ''  Fix: '' @ (c # h) | _ \<Rightarrow> [])
      @ (if subs = [] then [] else newline @ join newline (map (render_error pe (Suc indent)) subs)))"

definition explain :: "spec_env \<Rightarrow> spec_registry \<Rightarrow> nat \<Rightarrow> spec \<Rightarrow> sval \<Rightarrow> err + string" where
  "explain pe reg n sp v = ebind (conform_at pe reg n sp v) (\<lambda>r. Inr (case r of Inr _ \<Rightarrow> [] | Inl e \<Rightarrow> render_error pe 0 e))"

definition format_path :: "spec_env \<Rightarrow> sval list \<Rightarrow> string" where
  "format_path pe path = join ''.'' (map (\<lambda>p. case p of
     SInt _ \<Rightarrow> ''['' @ pe_str pe p @ '']'' | SBool _ \<Rightarrow> ''['' @ pe_str pe p @ '']'' | _ \<Rightarrow> pe_str pe p) path)"

fun walk_error :: "spec_env \<Rightarrow> cerr \<Rightarrow> string list" where
  "walk_error pe (CErr key v reason path hint subs) =
     (''- '' @ (case key of Some k \<Rightarrow> k | None \<Rightarrow> ''None'')
      @ (let p = (if path = [] then [] else format_path pe path) in if p = [] then [] else '' at '' @ p) @ '': '' @ reason @ ''.''
      @ (case hint of Some (c # h) \<Rightarrow> '' Fix: '' @ (c # h) @ ''.'' | _ \<Rightarrow> []))
     # concat (map (walk_error pe) subs)"

text \<open>The dash of the first line is written as a hyphen.\<close>

definition explain_for_llm :: "spec_env \<Rightarrow> spec_registry \<Rightarrow> nat \<Rightarrow> string \<Rightarrow> sval \<Rightarrow> err + string" where
  "explain_for_llm pe reg n key v = ebind (conform_key pe reg n key v) (\<lambda>r. Inr (case r of
     Inr _ \<Rightarrow> []
   | Inl e \<Rightarrow> join newline ((''Value failed '' @ key @ '' '' @ [CHR 0x2D] @ '' '' @ ce_reason e @ ''.'')
       # concat (map (walk_error pe) (ce_subs e))
       @ (case ce_hint e of Some (c # h) \<Rightarrow> [''Fix: '' @ (c # h) @ ''.''] | _ \<Rightarrow> []))))"

end
