(* ===== verification/SpecCanonical.thy ===== *)
theory SpecCanonical
  imports Spec
begin

text \<open>
  \<open>persistence.spec._canonical\<close> and \<open>persistence.txn._specs\<close>: the specs at the module
  boundaries and the registry they are registered in.
\<close>

section \<open>Maps\<close>

text \<open>\<open>_freeze_map\<close>: the keys in the order of their \<open>repr\<close>.\<close>

definition freeze_map :: "(string \<times> spec) list \<Rightarrow> (sval \<times> spec) list" where
  "freeze_map m = map (\<lambda>(k, sp). (SStr k, sp)) (sort_key (\<lambda>(k, sp). str_repr k) m)"

definition keys_of :: "(string \<times> spec) list \<Rightarrow> (string \<times> spec) list \<Rightarrow> spec" where
  "keys_of required optional = KeysS (freeze_map required) (freeze_map optional)"

definition enum_of :: "string list \<Rightarrow> spec" where
  "enum_of xs = EnumS (map SStr xs)"

definition seq_of :: "spec \<Rightarrow> spec" where
  "seq_of sp = SeqOfS sp 0 None"

section \<open>Facts\<close>

definition provenance_spec :: spec where
  "provenance_spec = keys_of []
     [('':episode'', UuidS), ('':source'', KeywordS), ('':model'', StrS), ('':prompt-hash'', StrS),
      ('':confidence'', UnitFloatS), ('':signature'', StrS)]"

definition datom_spec :: spec where
  "datom_spec = keys_of
     [('':datom/e'', OrS [UuidS, Sha256S]), ('':datom/a'', KeywordS), ('':datom/v'', AnyValueS),
      ('':datom/tx'', OrS [IntS, Sha256S]), ('':datom/tx-time'', InstS), ('':datom/valid-from'', InstS),
      ('':datom/valid-to'', MaybeS InstS), ('':datom/op'', enum_of ['':assert'', '':retract'']),
      ('':datom/provenance'', provenance_spec)]
     [('':datom/invalidated-by'', MaybeS (OrS [IntS, Sha256S]))]"

section \<open>Effects\<close>

definition EFFECT_OP_CATALOG :: "string list" where
  "EFFECT_OP_CATALOG = ['':llm/call'', '':tool/call'', '':mem/read'', '':mem/write'', '':decide'', '':ask-user'',
     '':emit-artifact'', '':sleep'', '':random'', '':env/read'', '':net/fetch'', '':secret/use'', '':cost/charge'',
     '':clock/now'', '':audit/emit'']"

definition effect_op_spec :: spec where "effect_op_spec = enum_of EFFECT_OP_CATALOG"

definition verdict_spec :: spec where
  "verdict_spec = enum_of ['':allow'', '':deny'', '':deny-silently'', '':require-approval'', '':ok'', '':error'']"

definition audit_entry_spec :: spec where
  "audit_entry_spec = keys_of
     [('':audit/id'', Sha256S), ('':audit/op'', RefS '':persistence.effect/op''), ('':audit/args-hash'', Sha256S),
      ('':audit/verdict'', verdict_spec), ('':audit/latency-ms'', IntS), ('':audit/recorded-at'', InstS),
      ('':audit/handler-chain'', seq_of KeywordS), ('':audit/principal'', MapOfS KeywordS AnyValueS)]
     [('':audit/prev-hash'', MaybeS Sha256S), ('':audit/result-hash'', MaybeS Sha256S), ('':audit/error'', MaybeS StrS),
      ('':audit/policy-id'', MaybeS KeywordS), ('':audit/run-id'', MaybeS UuidS),
      ('':audit/parent'', MaybeS (OrS [UuidS, Sha256S]))]"

section \<open>Plans\<close>

definition skill_stats_spec :: spec where
  "skill_stats_spec = keys_of [('':uses'', IntS), ('':success'', UnitFloatS), ('':cost'', FloatS)] []"

definition plan_skill_spec :: spec where
  "plan_skill_spec = keys_of
     [('':skill/name'', KeywordS), ('':skill/version'', VersionS), ('':skill/ast'', RefS '':persistence.plan/node''),
      ('':skill/stats'', skill_stats_spec)]
     [('':skill/parent'', VersionS), ('':skill/embedding'', seq_of FloatS), ('':skill/docstring'', StrS)]"

section \<open>Replay\<close>

definition seeds_spec :: spec where
  "seeds_spec = keys_of [('':llm'', IntS), ('':tool'', IntS), ('':env'', IntS)] []"

definition str_map_spec :: spec where "str_map_spec = MapOfS StrS AnyValueS"

definition replay_fact_spec :: spec where
  "replay_fact_spec = keys_of
     [('':step'', IntS), ('':t'', InstS), ('':state'', str_map_spec), ('':obs'', str_map_spec), ('':action'', str_map_spec)]
     [('':llm-in'', str_map_spec), ('':llm-out'', str_map_spec), ('':tool-calls'', seq_of AnyValueS),
      ('':random-draws'', str_map_spec)]"

definition trajectory_spec :: spec where
  "trajectory_spec = keys_of
     [('':trajectory/id'', UuidS), ('':trajectory/parent-id'', MaybeS UuidS), ('':trajectory/branch-point'', IntS),
      ('':trajectory/agent'', StrS), ('':trajectory/goal'', str_map_spec), ('':trajectory/seeds'', seeds_spec),
      ('':trajectory/started-at'', InstS), ('':trajectory/wall-clock-basis'', enum_of ['':recorded'', '':now'']),
      ('':trajectory/status'', enum_of ['':running'', '':completed'', '':failed'', '':counterfactual'']),
      ('':trajectory/outcome'', str_map_spec), ('':trajectory/facts'', seq_of (RefS '':persistence.replay/fact'')),
      ('':trajectory/hash'', StrS)]
     [('':trajectory/intervention'', seq_of (RefS '':persistence.replay/intervention'')),
      ('':trajectory/tags'', seq_of KeywordS)]"

definition intervention_spec :: spec where
  "intervention_spec = keys_of [('':step'', IntS), ('':field'', KeywordS), ('':new-value'', AnyValueS)] []"

section \<open>Domain\<close>

definition decision_spec :: spec where
  "decision_spec = keys_of
     [('':question'', NonEmptyS), ('':options'', SeqOfS AnyValueS 1 None), ('':rationale'', NonEmptyS),
      ('':choice'', AnyValueS), ('':confidence'', UnitFloatS)] []"

definition wacc_assumption_spec :: spec where
  "wacc_assumption_spec = keys_of
     [('':project-id'', NonEmptyS), ('':percent'', UnitFloatS), ('':source'', KeywordS), ('':confidence'', UnitFloatS)]
     [('':notes'', StrS)]"

section \<open>Transactions\<close>

definition intent_element_spec :: spec where
  "intent_element_spec = keys_of [('':op'', StrS), ('':kwargs'', MapOfS StrS TxnEdnS)] []"

definition commute_element_spec :: spec where
  "commute_element_spec = keys_of [('':ref'', StrS), ('':fn-id'', StrS), ('':args'', TxnEdnS)] []"

definition txn_specs :: spec_registry where
  "txn_specs =
     [('':persistence.txn/commit-id'', UuidStrS), ('':persistence.txn/started-at'', InstS),
      ('':persistence.txn/committed-at'', InstS), ('':persistence.txn/retry-count'', NonNegS),
      ('':persistence.txn/read-set'', seq_of StrS), ('':persistence.txn/ensure-set'', seq_of StrS),
      ('':persistence.txn/non-deterministic-retry'', BoolS),
      ('':persistence.txn/intent-log'', seq_of intent_element_spec),
      ('':persistence.txn/commute-log'', seq_of commute_element_spec), ('':persistence.txn/commit'', UuidStrS)]"

section \<open>The registry after import\<close>

definition canonical_registry :: spec_registry where
  "canonical_registry = fold (\<lambda>(k, sp). register_spec k sp)
    ([('':persistence.fact/datom'', datom_spec), ('':persistence.effect/op'', effect_op_spec),
      ('':persistence.effect/audit-entry'', audit_entry_spec), ('':persistence.plan/node'', PlanNodeS),
      ('':persistence.plan/skill'', plan_skill_spec), ('':persistence.replay/fact'', replay_fact_spec),
      ('':persistence.replay/trajectory'', trajectory_spec), ('':persistence.replay/intervention'', intervention_spec),
      ('':persistence.domain/decision'', decision_spec), ('':persistence.domain/wacc-assumption'', wacc_assumption_spec)]
     @ txn_specs) []"

definition CANONICAL_SPECS :: "string list" where
  "CANONICAL_SPECS = ['':persistence.fact/datom'', '':persistence.effect/op'', '':persistence.effect/audit-entry'',
     '':persistence.plan/node'', '':persistence.plan/skill'', '':persistence.replay/trajectory'', '':persistence.replay/fact'',
     '':persistence.replay/intervention'', '':persistence.domain/decision'', '':persistence.domain/wacc-assumption'']"

end
