(* ===== verification/SpecLaws.thy ===== *)
theory SpecLaws
  imports SpecCanonical
begin

text \<open>
  Laws of conformance: the canonical text of a UUID reads back, \<open>conform\<close> never raises while
  the stack lasts, and conforming what came out of a conform changes nothing, for the shapes
  the canonical registry is made of.
\<close>

section \<open>UUID text\<close>

lemma hex_digit_class: "is_hex (hex_digit n)" "hex_digit n \<in> set ''0123456789abcdef''" "hex_digit_value (hex_digit n) = n mod 16"
proof -
  have a: "\<forall>m \<in> set [0..<16]. is_hex (''0123456789abcdef'' ! m) \<and> hex_digit_value (''0123456789abcdef'' ! m) = m" by code_simp
  then show "is_hex (hex_digit n)" "hex_digit_value (hex_digit n) = n mod 16" unfolding hex_digit_def by simp_all
  have "n mod 16 < length ''0123456789abcdef''" by simp
  then show "hex_digit n \<in> set ''0123456789abcdef''" unfolding hex_digit_def by (rule nth_mem)
qed

lemma hex_text_Suc: "hex_text (Suc d) n = hex_digit (n div 16 ^ d) # hex_text d n"
  by (auto simp: hex_text_def upt_conv_Cons map_Suc_upt [symmetric] simp del: upt_Suc)

lemma hex_text_length [simp]: "length (hex_text d n) = d"
  by (simp add: hex_text_def)

lemma hex_text_hex: "list_all is_hex (hex_text d n)"
  by (induction d) (auto simp: hex_text_Suc hex_digit_class, simp add: hex_text_def)

lemma hex_value_step: "foldl (\<lambda>n c. 16 * n + hex_digit_value c) a (hex_text d n) = a * 16 ^ d + n mod 16 ^ d"
proof (induction d arbitrary: a)
  case 0
  then show ?case by (simp add: hex_text_def)
next
  case (Suc d)
  have "16 ^ d * (n div 16 ^ d mod 16) + n mod 16 ^ d = n mod (16 ^ d * 16)" by (simp add: mod_mult2_eq)
  then show ?case using Suc by (simp add: hex_text_Suc hex_digit_class(3) algebra_simps)
qed

lemma remove_all_absent: "c \<notin> set s \<Longrightarrow> remove_all (c # p) s = s"
proof (induction s)
  case Nil
  then show ?case by (simp add: remove_all.simps)
next
  case (Cons x s)
  then show ?case by (subst remove_all.simps) (auto simp: startswith_def)
qed

lemma hex_text_chars: "set (hex_text d n) \<subseteq> set ''0123456789abcdef''"
proof (induction d)
  case (Suc d)
  then show ?case using hex_digit_class(2) [of "n div 16 ^ d"] by (simp only: hex_text_Suc list.set insert_subset)
qed (simp add: hex_text_def)

lemma uuid_text_parts: "filter is_hex (uuid_text n) = hex_text 32 n" "filter (\<lambda>c. c \<noteq> CHR ''-'') (uuid_text n) = hex_text 32 n"
  "set (uuid_text n) \<subseteq> insert (CHR ''-'') (set ''0123456789abcdef'')" "uuid_text n \<noteq> []"
proof -
  have split: "h = take 8 h @ take 4 (drop 8 h) @ take 4 (drop 12 h) @ take 4 (drop 16 h) @ drop 20 h" for h :: string
    using append_take_drop_id [of 8 h] append_take_drop_id [of 4 "drop 8 h"] append_take_drop_id [of 4 "drop 12 h"]
      append_take_drop_id [of 4 "drop 16 h"] by simp
  have *: "filter P (uuid_text n) = hex_text 32 n" if P: "\<And>c. c \<in> set ''0123456789abcdef'' \<Longrightarrow> P c" and m: "\<not> P (CHR ''-'')" for P
  proof -
    define h where "h = hex_text 32 n"
    have t: "filter P t = t" if "set t \<subseteq> set h" for t
      using that hex_text_chars [of 32 n] P unfolding h_def filter_id_conv by blast
    have sub: "set (take i (drop j h)) \<subseteq> set h" for i j by (meson in_set_dropD in_set_takeD subsetI)
    have "filter P (uuid_text n) = take 8 h @ take 4 (drop 8 h) @ take 4 (drop 12 h) @ take 4 (drop 16 h) @ drop 20 h"
      using m sub [of 8 0] unfolding uuid_text_def Let_def h_def [symmetric]
      by (simp add: t [OF sub] t [OF set_take_subset] t [OF set_drop_subset])
    then show ?thesis using split [of h] unfolding h_def by (rule trans [OF _ sym])
  qed
  show "filter is_hex (uuid_text n) = hex_text 32 n" by (rule *) (auto simp: is_hex_def)
  show "filter (\<lambda>c. c \<noteq> CHR ''-'') (uuid_text n) = hex_text 32 n" by (rule *) auto
  have "set (uuid_text n) \<subseteq> insert (CHR ''-'') (set (hex_text 32 n))"
    by (auto simp: uuid_text_def Let_def dest: in_set_takeD in_set_dropD)
  then show "set (uuid_text n) \<subseteq> insert (CHR ''-'') (set ''0123456789abcdef'')" using hex_text_chars by blast
  show "uuid_text n \<noteq> []" by (simp add: uuid_text_def Let_def)
qed

lemma hex_run_hex: "list_all is_hex s \<Longrightarrow> hex_run b s \<longleftrightarrow> b \<or> s \<noteq> []"
  by (induction s arbitrary: b) (auto simp: is_hex_def)

lemma all_in: "set s \<subseteq> S \<Longrightarrow> \<forall>c \<in> S. P c \<Longrightarrow> list_all P s"
  by (auto simp: list_all_iff)

lemma dropWhile_none: "set s \<subseteq> S \<Longrightarrow> \<forall>c \<in> S. \<not> P c \<Longrightarrow> dropWhile P s = s"
  by (cases s) auto

lemma int16_reads_hex:
  assumes "set s \<subseteq> set ''0123456789abcdef''" "s \<noteq> []"
  shows "int16_reads s"
proof -
  have sp: "\<forall>c \<in> set ''0123456789abcdef''. \<not> is_space c" "\<forall>c \<in> set ''0123456789abcdef''. is_hex c" by code_simp+
  have drop: "dropWhile is_space t = t" if "set t \<subseteq> set s" for t
    by (rule dropWhile_none [OF subset_trans [OF that assms(1)] sp(1)])
  have strip: "py_strip s = s" by (simp add: py_strip_def drop)
  have h: "list_all is_hex s" by (rule all_in [OF assms(1) sp(2)])
  have n: "CHR ''x'' \<notin> set s" "CHR ''X'' \<notin> set s" "CHR ''+'' \<notin> set s" "CHR ''-'' \<notin> set s"
    by (rule contra_subsetD [OF assms(1)], simp)+
  have x: "\<not> startswith ''0x'' s" "\<not> startswith ''0X'' s"
    using n by (auto simp: startswith_iff)
  obtain c cs where "s = c # cs" using assms(2) by (cases s) simp_all
  then show ?thesis using n strip x hex_run_hex [OF h, of False] by (auto simp: int16_reads_def Let_def split: if_splits)
qed

lemma uuid_text_reads: "uuid_reads (uuid_text n)"
proof -
  have u: "CHR ''u'' \<notin> set (uuid_text n)" using uuid_text_parts(3) [of n] by auto
  have drop: "dropWhile (\<lambda>c. c = CHR 0x7B \<or> c = CHR 0x7D) t = t" if "set t \<subseteq> set (uuid_text n)" for t
    using that uuid_text_parts(3) [of n] by (auto simp: dropWhile_eq_self_iff dest!: hd_in_set)
  have h: "hex_text 32 n \<noteq> []" by (metis hex_text_length list.size(3) zero_neq_numeral)
  show ?thesis
    by (simp add: uuid_reads_def Let_def remove_all_absent [OF u] drop uuid_text_parts(2) int16_reads_hex [OF hex_text_chars h])
qed

lemma uuid_text_number: "uuid_number (uuid_text n) = n mod 16 ^ 32"
proof -
  have u: "CHR ''u'' \<notin> set (uuid_text n)" using uuid_text_parts(3) [of n] by auto
  show ?thesis using hex_value_step [of 0 32 n] by (simp add: uuid_number_def remove_all_absent [OF u] uuid_text_parts(1))
qed

lemma hex_fold_bound:
  "list_all is_hex s \<Longrightarrow> foldl (\<lambda>n c. 16 * n + hex_digit_value c) a s < (a + 1) * 16 ^ length s"
proof (induction s arbitrary: a)
  case (Cons c s)
  have "\<forall>c \<in> set ''0123456789abcdefABCDEF''. hex_digit_value c < 16" by code_simp
  moreover have "c \<in> set ''0123456789abcdefABCDEF''" using Cons.prems unfolding is_hex_def list.pred_inject(2) by (rule conjunct1)
  ultimately have "hex_digit_value c < 16" by (rule bspec)
  then have "16 * a + hex_digit_value c + 1 \<le> (a + 1) * 16" by simp
  then have le: "(16 * a + hex_digit_value c + 1) * 16 ^ length s \<le> (a + 1) * 16 * 16 ^ length s" by (rule mult_le_mono1)
  have "list_all is_hex s" using Cons.prems by simp
  from less_le_trans [OF Cons.IH [OF this] le] show ?case by (simp add: mult.assoc add_mult_distrib)
qed simp

lemma filter_dropWhile: "(\<And>c. b c \<Longrightarrow> \<not> P c) \<Longrightarrow> filter P (dropWhile b s) = filter P s"
  by (induction s) auto

lemma uuid_number_bound:
  assumes "uuid_reads s"
  shows "uuid_number s < 16 ^ 32"
proof -
  define a where "a = remove_all ''uuid:'' (remove_all ''urn:'' s)"
  define braces where "braces = (\<lambda>c. c = CHR 0x7B \<or> c = CHR 0x7D)"
  define b where "b = rev (dropWhile braces (rev (dropWhile braces a)))"
  have nb: "\<not> is_hex c" if "braces c" for c using that by (auto simp: braces_def is_hex_def)
  have "rev (filter is_hex b) = rev (filter is_hex a)"
    unfolding b_def rev_filter rev_rev_ident by (simp add: filter_dropWhile [OF nb] flip: rev_filter)
  then have e: "filter is_hex b = filter is_hex a" by simp
  have "length (filter (\<lambda>c. c \<noteq> CHR ''-'') b) = 32"
    using assms by (simp add: uuid_reads_def Let_def a_def b_def braces_def)
  moreover have "filter is_hex b = filter is_hex (filter (\<lambda>c. c \<noteq> CHR ''-'') b)"
    unfolding filter_filter by (rule filter_cong) (auto simp: is_hex_def)
  ultimately have len: "length (filter is_hex a) \<le> 32" using e by (metis length_filter_le)
  have "uuid_number s < 16 ^ length (filter is_hex a)"
    using hex_fold_bound [of "filter is_hex a" 0] by (simp add: uuid_number_def a_def list_all_iff)
  also have "\<dots> \<le> 16 ^ 32" by (rule power_increasing [OF len]) simp
  finally show ?thesis .
qed

lemma uuid_text_stable: "uuid_reads s \<Longrightarrow> uuid_text (uuid_number (uuid_text (uuid_number s))) = uuid_text (uuid_number s)"
  using uuid_number_bound by (simp add: uuid_text_number)

section \<open>Shapes\<close>

text \<open>A fixed spec hands back the value it was given; a stable one may refine it, but accepts
  the refined value as it is.\<close>

fun fixed :: "spec \<Rightarrow> bool" where
  "fixed (AndS sps) = list_all fixed sps"
| "fixed (OrS sps) = list_all fixed sps"
| "fixed (MaybeS sp) = fixed sp"
| "fixed sp = (sp \<notin> {BytesS, UuidS, InstS, PlanNodeS, UuidStrS, TxnEdnS}
     \<and> (case sp of RefS _ \<Rightarrow> False | KeysS _ _ \<Rightarrow> False | MapOfS _ _ \<Rightarrow> False | SeqOfS _ _ _ \<Rightarrow> False | TupleOfS _ \<Rightarrow> False | _ \<Rightarrow> True))"

definition string_keys :: "(sval \<times> spec) list \<Rightarrow> bool" where
  "string_keys ks \<longleftrightarrow> distinct (map fst ks) \<and> list_all (\<lambda>p. case fst p of SStr _ \<Rightarrow> True | _ \<Rightarrow> False) ks"

lemma size_member: "(k, sp) \<in> set ps \<Longrightarrow> size sp \<le> size_list (size_prod (\<lambda>x. 0) size) ps"
  by (induction ps) auto

lemma size_element: "sp \<in> set sps \<Longrightarrow> size sp \<le> size_list size sps"
  by (rule size_list_estimation') auto

function stable :: "spec \<Rightarrow> bool" where
  "stable (AndS sps) = list_all fixed sps"
| "stable (OrS sps) = (case sps of [] \<Rightarrow> True | sp # rest \<Rightarrow> stable sp \<and> list_all fixed rest)"
| "stable (MaybeS sp) = stable sp"
| "stable (KeysS req opt) = (string_keys (req @ opt) \<and> list_all (\<lambda>p. stable (snd p)) req \<and> list_all (\<lambda>p. stable (snd p)) opt)"
| "stable (MapOfS ks vs) = (fixed ks \<and> stable vs)"
| "stable (SeqOfS sp _ _) = stable sp"
| "stable (TupleOfS sps) = list_all stable sps"
| "stable IntS = True" | "stable FloatS = True" | "stable BoolS = True" | "stable StrS = True" | "stable BytesS = True"
| "stable UuidS = True" | "stable InstS = True" | "stable KeywordS = True" | "stable NonEmptyS = True" | "stable Sha256S = True"
| "stable UnitFloatS = True" | "stable VersionS = True" | "stable AnyValueS = True" | "stable PlanNodeS = True"
| "stable UuidStrS = True" | "stable NonNegS = True" | "stable TxnEdnS = True" | "stable (EnumS _) = True"
| "stable (RegexS _) = True" | "stable (RefS _) = True" | "stable (NotS _) = True"
  by pat_completeness auto
termination
  by (relation "measure size") (auto dest: size_member size_element simp: less_Suc_eq_le)

lemma string_keys_text: "string_keys ks \<Longrightarrow> p \<in> set ks \<Longrightarrow> \<exists>a. fst p = SStr a"
  by (cases "fst p") (auto simp: string_keys_def list_all_iff)

lemma string_keys_append: "string_keys (ks @ ls) \<Longrightarrow> string_keys ks \<and> string_keys ls \<and> fst ` set ks \<inter> fst ` set ls = {}"
  by (auto simp: string_keys_def)

section \<open>Maps\<close>

lemma s_eq_text [simp]: "s_eq x (SStr a) \<longleftrightarrow> x = SStr a"
  by (cases x) (simp_all add: s_eq.simps)

lemma sget_sput_text: "sget (sput (SStr a) v d) (SStr b) = (if a = b then Some v else sget d (SStr b))"
  by (induction d) auto

lemma sput_same_text: "sget d (SStr a) = Some v \<Longrightarrow> sput (SStr a) v d = d"
  by (induction d) (auto split: if_splits)

lemma sput_append: "\<forall>p \<in> set d. \<not> s_eq (fst p) k \<Longrightarrow> sput k v d = d @ [(k, v)]"
  by (induction d) auto

text \<open>The keys of a dict: no entry's key equals a later one.\<close>

definition separate :: "sdict \<Rightarrow> bool" where
  "separate d \<longleftrightarrow> sorted_wrt (\<lambda>p q. \<not> s_eq (fst p) (fst q)) d"

lemma sput_entries: "p \<in> set (sput k v d) \<Longrightarrow> p \<in> set d \<or> p = (k, v) \<or> snd p = v \<and> fst p \<in> fst ` set d"
  by (induction d) (auto split: if_splits)

lemma sput_keys: "fst ` set (sput k v d) \<subseteq> insert k (fst ` set d)"
  using sput_entries [of _ k v d] by fastforce

lemma sput_separate: "separate d \<Longrightarrow> separate (sput k v d)"
proof (induction d)
  case (Cons p d)
  then show ?case
    using sput_keys [of k v d] by (cases p) (fastforce simp: separate_def)
qed (simp add: separate_def)

section \<open>Combinators over a conform that refines\<close>

locale refining =
  fixes c :: "spec \<Rightarrow> sval \<Rightarrow> err + cresult"
  assumes fixes_value: "fixed sp \<Longrightarrow> c sp v = Inr (Inr (w, k)) \<Longrightarrow> w = v"
    and accepts_refined: "stable sp \<Longrightarrow> c sp v = Inr (Inr (w, k)) \<Longrightarrow> \<exists>k'. c sp w = Inr (Inr (w, k'))"
begin

lemma and_fixed: "list_all fixed sps \<Longrightarrow> l = Inr (v, kl) \<Longrightarrow> and_loop c sps v l = Inr (Inr (w, k)) \<Longrightarrow> w = v"
  by (induction sps arbitrary: l kl) (auto simp: ebind_def split: sum.splits dest: fixes_value)

lemma or_fixed: "list_all fixed sps \<Longrightarrow> or_loop c self n v sps es = Inr (Inr (w, k)) \<Longrightarrow> w = v"
  by (induction sps arbitrary: es) (auto simp: ebind_def failed_def split: sum.splits dest: fixes_value)

lemma or_errors: "or_loop c self n v sps es = Inr (Inr r) \<Longrightarrow> or_loop c self n v sps es' = Inr (Inr r)"
  by (induction sps arbitrary: es es') (auto simp: ebind_def failed_def split: sum.splits)

lemma or_stable:
  assumes "stable sp" "list_all fixed sps" "or_loop c self n v (sp # sps) es = Inr (Inr (w, k))"
  shows "\<exists>k'. or_loop c self n w (sp # sps) es = Inr (Inr (w, k'))"
proof (cases "c sp v")
  case (Inr r)
  then show ?thesis
  proof (cases r)
    case (Inl e)
    then have "or_loop c self n v sps (es @ [e]) = Inr (Inr (w, k))" using assms(3) Inr by simp
    moreover from this have "w = v" by (rule or_fixed [OF assms(2)])
    ultimately show ?thesis using assms(3) by blast
  next
    case (Inr ok)
    then have "c sp v = Inr (Inr (w, k))" using assms(3) \<open>c sp v = Inr r\<close> by simp
    then show ?thesis using accepts_refined [OF assms(1)] by fastforce
  qed
qed (use assms in simp)

lemma maybe_fixed: "fixed inner \<Longrightarrow> maybe_body c inner v = Inr (Inr (w, k)) \<Longrightarrow> w = v"
  by (auto simp: maybe_body_def conformed_def split: if_splits dest: fixes_value)

lemma maybe_stable: "stable inner \<Longrightarrow> maybe_body c inner v = Inr (Inr (w, k)) \<Longrightarrow> \<exists>k'. maybe_body c inner w = Inr (Inr (w, k'))"
  by (auto simp: maybe_body_def conformed_def split: if_splits dest: accepts_refined)

lemma not_fixed: "not_body c inner v = Inr (Inr (w, k)) \<Longrightarrow> w = v"
  by (auto simp: not_body_def conformed_def failed_def ebind_def split: sum.splits if_splits)

lemma each_stable:
  assumes "each_loop c items = Inr (vs, [])" "list_all (\<lambda>(i, sp, x). stable sp) items"
  shows "length vs = length items \<and> each_loop c (map2 (\<lambda>(i, sp, x) w. (i, sp, w)) items vs) = Inr (vs, [])"
  using assms
proof (induction items arbitrary: vs)
  case (Cons it items)
  obtain i sp x where it: "it = (i, sp, x)" by (cases it) auto
  obtain w k ws where "c sp x = Inr (Inr (w, k))" "each_loop c items = Inr (ws, [])" "vs = w # ws"
    using Cons.prems(1) unfolding it by (auto simp: ebind_def split: sum.splits)
  moreover from this obtain k' where "c sp w = Inr (Inr (w, k'))"
    using accepts_refined Cons.prems(2) it by fastforce
  ultimately show ?case using Cons.IH [of ws] Cons.prems(2) it by simp
qed simp

lemma seq_stable:
  assumes "stable sp" "seq_body c sp lo hi v = Inr (Inr (w, k))"
  shows "\<exists>k'. seq_body c sp lo hi w = Inr (Inr (w, k'))"
proof -
  obtain xs ws where xs: "sequence_of v = Some xs" "\<not> int (length xs) < lo" "case hi of None \<Rightarrow> True | Some m \<Rightarrow> int (length xs) \<le> m"
      "each_loop c (map (\<lambda>(i, x). (i, sp, x)) (indexed xs)) = Inr (ws, [])" "w = SList ws"
    using assms(2)
    by (auto simp: seq_body_def Let_def failed_def elements_failed_def conformed_def ebind_def
        split: option.splits if_splits sum.splits prod.splits)
  have "list_all (\<lambda>(i, s, x). stable s) (map (\<lambda>(i, x). (i, sp, x)) (indexed xs))" using assms(1) by (auto simp: list_all_iff)
  note e = each_stable [OF xs(4) this]
  have len: "length ws = length xs" using e by (simp add: indexed_def)
  have "map2 (\<lambda>(i, s, x) w. (i, s, w)) (map (\<lambda>(i, x). (i, sp, x)) (indexed xs)) ws = map (\<lambda>(i, x). (i, sp, x)) (indexed ws)"
    using len by (intro nth_equalityI) (auto simp: indexed_def nth_enumerate_eq)
  with e len xs(2,3) show ?thesis by (auto simp: xs(5) seq_body_def Let_def conformed_def split: option.splits)
qed

lemma tuple_stable:
  assumes "list_all stable sps" "tuple_body c sps v = Inr (Inr (w, k))"
  shows "\<exists>k'. tuple_body c sps w = Inr (Inr (w, k'))"
proof -
  obtain xs ws where xs: "sequence_of v = Some xs" "length xs = length sps"
      "each_loop c (map (\<lambda>(sp, i, x). (i, sp, x)) (zip sps (indexed xs))) = Inr (ws, [])" "w = STuple ws"
    using assms(2)
    by (auto simp: tuple_body_def Let_def failed_def elements_failed_def conformed_def ebind_def
        split: option.splits if_splits sum.splits prod.splits)
  have "list_all (\<lambda>(i, s, x). stable s) (map (\<lambda>(sp, i, x). (i, sp, x)) (zip sps (indexed xs)))"
    using assms(1) by (auto simp: list_all_iff dest: set_zip_leftD)
  note e = each_stable [OF xs(3) this]
  have len: "length ws = length sps" using e xs(2) by (simp add: indexed_def)
  have "map2 (\<lambda>(i, s, x) w. (i, s, w)) (map (\<lambda>(sp, i, x). (i, sp, x)) (zip sps (indexed xs))) ws
      = map (\<lambda>(sp, i, x). (i, sp, x)) (zip sps (indexed ws))"
    using len xs(2) by (intro nth_equalityI) (auto simp: indexed_def nth_enumerate_eq)
  with e len show ?thesis by (auto simp: xs(4) tuple_body_def conformed_def)
qed

lemma keys_forward:
  assumes "efold (keys_step pe c self value req) ks (acc, es) = Inr (acc', [])" "string_keys ks"
  shows "es = []"
    and "p \<in> set ks \<Longrightarrow> (case sget value (fst p) of None \<Rightarrow> \<not> req \<and> sget acc' (fst p) = sget acc (fst p)
       | Some x \<Rightarrow> \<exists>w k. c (snd p) x = Inr (Inr (w, k)) \<and> sget acc' (fst p) = Some w)"
    and "SStr b \<notin> fst ` set ks \<Longrightarrow> sget acc' (SStr b) = sget acc (SStr b)"
proof -
  have "es = [] \<and> (\<forall>p \<in> set ks. (case sget value (fst p) of None \<Rightarrow> \<not> req \<and> sget acc' (fst p) = sget acc (fst p)
       | Some x \<Rightarrow> \<exists>w k. c (snd p) x = Inr (Inr (w, k)) \<and> sget acc' (fst p) = Some w))
     \<and> (\<forall>b. SStr b \<notin> fst ` set ks \<longrightarrow> sget acc' (SStr b) = sget acc (SStr b))"
    using assms
  proof (induction ks arbitrary: acc es)
    case (Cons q ks)
    obtain a sp where q: "q = (SStr a, sp)" using Cons.prems(2) by (cases q; cases "fst q") (auto simp: string_keys_def)
    have rest: "string_keys ks" and new: "SStr a \<notin> fst ` set ks" using Cons.prems(2) q by (auto simp: string_keys_def)
    obtain st where st: "keys_step pe c self value req q (acc, es) = Inr st" "efold (keys_step pe c self value req) ks st = Inr (acc', [])"
      using Cons.prems(1) by (auto simp: ebind_def split: sum.splits)
    obtain acc1 es1 where [simp]: "st = (acc1, es1)" by (cases st)
    note IH = Cons.IH [OF st(2) [unfolded \<open>st = (acc1, es1)\<close>] rest]
    then have e1: "es1 = []" by blast
    show ?case
    proof (cases "sget value (SStr a)")
      case None
      then have "\<not> req \<and> acc1 = acc \<and> es = []" using st(1) e1 by (auto simp: keys_step_def q split: if_splits)
      then show ?thesis using IH new None by (auto simp: q)
    next
      case (Some x)
      then obtain w k where w: "c sp x = Inr (Inr (w, k))" "acc1 = sput (SStr a) w acc" "es = []"
        using st(1) e1 by (auto simp: keys_step_def q ebind_def split: sum.splits)
      then have get: "sget acc1 (SStr b) = (if a = b then Some w else sget acc (SStr b))" for b by (simp add: sget_sput_text)
      have "sget acc1 (fst p) = sget acc (fst p)" if pm: "p \<in> set ks" for p
      proof -
        obtain b where "fst p = SStr b" using string_keys_text [OF rest pm] by blast
        then show ?thesis using get new pm by force
      qed
      then show ?thesis using IH new Some w get by (auto simp: q split: option.splits)
    qed
  qed simp
  then show "es = []"
    and "p \<in> set ks \<Longrightarrow> (case sget value (fst p) of None \<Rightarrow> \<not> req \<and> sget acc' (fst p) = sget acc (fst p)
       | Some x \<Rightarrow> \<exists>w k. c (snd p) x = Inr (Inr (w, k)) \<and> sget acc' (fst p) = Some w)"
    and "SStr b \<notin> fst ` set ks \<Longrightarrow> sget acc' (SStr b) = sget acc (SStr b)" by blast+
qed

lemma keys_again:
  assumes "\<And>p. p \<in> set ks \<Longrightarrow> \<exists>a. fst p = SStr a \<and>
      (case sget d (SStr a) of None \<Rightarrow> \<not> req | Some x \<Rightarrow> \<exists>k. c (snd p) x = Inr (Inr (x, k)))"
  shows "efold (keys_step pe c self d req) ks (d, []) = Inr (d, [])"
  using assms
proof (induction ks)
  case (Cons p ks)
  obtain a where a: "fst p = SStr a" "case sget d (SStr a) of None \<Rightarrow> \<not> req | Some x \<Rightarrow> \<exists>k. c (snd p) x = Inr (Inr (x, k))"
    using Cons.prems [of p] by auto
  then have "keys_step pe c self d req p (d, []) = Inr (d, [])"
    by (auto simp: keys_step_def sput_same_text split: option.splits)
  then show ?case using Cons by simp
qed simp

lemma keys_stable:
  assumes keys: "string_keys (req @ opt)" and parts: "\<forall>p \<in> set (req @ opt). stable (snd p)"
    and ok: "keys_body pe c req opt v = Inr (Inr (w, k))"
  shows "\<exists>k'. keys_body pe c req opt w = Inr (Inr (w, k'))"
proof -
  define self where "self = KeysS req opt"
  obtain d acc es d' where d: "v = SDict d" "efold (keys_step pe c self d True) req (d, []) = Inr (acc, es)"
      "efold (keys_step pe c self d False) opt (acc, es) = Inr (d', [])" "w = SDict d'"
    using ok unfolding self_def
    by (auto simp: keys_body_def Let_def failed_def conformed_def ebind_def split: sval.splits sum.splits if_splits)
  note sk = string_keys_append [OF keys]
  note two = keys_forward [OF d(3)]
  have es: "es = []" using two(1) sk by blast
  note one = keys_forward [OF d(2) [unfolded es]]
  have kept: "sget d' (fst p) = sget acc (fst p)" if "p \<in> set req" for p
    using two(3) string_keys_text [of req p] sk that by force
  have again: "\<exists>a. fst p = SStr a \<and> (case sget d' (SStr a) of None \<Rightarrow> \<not> b | Some x \<Rightarrow> \<exists>k. c (snd p) x = Inr (Inr (x, k)))"
    if "p \<in> set (if b then req else opt)" for p b
  proof -
    have st: "stable (snd p)" and m: "p \<in> set (req @ opt)" using parts that by (auto split: if_splits)
    obtain a where a: "fst p = SStr a" using string_keys_text [OF keys m] by blast
    have acc_opt: "sget acc (fst p) = sget d (fst p)" if "p \<in> set opt" using one(3) [of a] sk that a by force
    have "case sget d (fst p) of None \<Rightarrow> \<not> b \<and> sget d' (fst p) = None
        | Some x \<Rightarrow> \<exists>w k. c (snd p) x = Inr (Inr (w, k)) \<and> sget d' (fst p) = Some w"
      using one(2) [of p] two(2) [of p] kept [of p] acc_opt sk that by (auto split: option.splits if_splits)
    then show ?thesis using a accepts_refined [OF st] by (fastforce split: option.splits)
  qed
  have "efold (keys_step pe c self d' True) req (d', []) = Inr (d', [])"
    by (rule keys_again) (use again [of _ True] in simp)
  moreover have "efold (keys_step pe c self d' False) opt (d', []) = Inr (d', [])"
    by (rule keys_again) (use again [of _ False] in simp)
  ultimately show ?thesis by (simp add: d(4) keys_body_def Let_def self_def conformed_def)
qed

definition settled :: "spec \<Rightarrow> spec \<Rightarrow> sdict \<Rightarrow> bool" where
  "settled ks vs d \<longleftrightarrow> separate d \<and> (\<forall>p \<in> set d. s_hashable (fst p)
     \<and> (\<exists>k. c ks (fst p) = Inr (Inr (fst p, k))) \<and> (\<exists>k. c vs (snd p) = Inr (Inr (snd p, k))))"

lemma settled_sput:
  assumes "settled ks vs d" "s_hashable k" "c ks k = Inr (Inr (k, k1))" "c vs x = Inr (Inr (x, k2))"
  shows "settled ks vs (sput k x d)"
  unfolding settled_def
proof (intro conjI ballI)
  show "separate (sput k x d)" using assms(1) by (simp add: settled_def sput_separate)
  fix p assume "p \<in> set (sput k x d)"
  then have "p \<in> set d \<or> p = (k, x) \<or> snd p = x \<and> fst p \<in> fst ` set d" by (rule sput_entries)
  then have key: "fst p = k \<or> (\<exists>q \<in> set d. fst q = fst p)" and val: "snd p = x \<or> p \<in> set d" by fastforce+
  show "s_hashable (fst p)" "\<exists>k. c ks (fst p) = Inr (Inr (fst p, k))"
    using key assms by (auto simp: settled_def)
  show "\<exists>k. c vs (snd p) = Inr (Inr (snd p, k))" using val assms by (auto simp: settled_def)
qed

lemma map_settles:
  assumes "fixed ks" "stable vs" "efold (map_step pe c ks vs) d (acc, es) = Inr (acc', [])" "settled ks vs acc"
  shows "es = [] \<and> settled ks vs acc'"
  using assms(3,4)
proof (induction d arbitrary: acc es)
  case (Cons p d)
  obtain st where st: "map_step pe c ks vs p (acc, es) = Inr st" "efold (map_step pe c ks vs) d st = Inr (acc', [])"
    using Cons.prems(1) by (auto simp: ebind_def split: sum.splits)
  obtain acc1 es1 where [simp]: "st = (acc1, es1)" by (cases st)
  from st(1) consider "es1 \<noteq> [] \<and> acc1 = acc"
    | k1 x k2 where "c ks (fst p) = Inr (Inr (fst p, k1))" "c vs (snd p) = Inr (Inr (x, k2))" "s_hashable (fst p)"
        "acc1 = sput (fst p) x acc" "es1 = es"
    by (auto simp: map_step_def ebind_def split: sum.splits if_splits dest: fixes_value [OF assms(1)])
  then show ?case
  proof cases
    case 1
    then show ?thesis using Cons.IH [of acc1 es1] st(2) Cons.prems(2) by simp
  next
    case 2
    obtain k3 where "c vs x = Inr (Inr (x, k3))" using accepts_refined [OF assms(2) 2(2)] by blast
    from settled_sput [OF Cons.prems(2) 2(3,1) this] show ?thesis using Cons.IH [of acc1 es1] st(2) 2 by simp
  qed
qed simp

lemma map_again: "settled ks vs (acc @ d) \<Longrightarrow> efold (map_step pe c ks vs) d (acc, []) = Inr (acc @ d, [])"
proof (induction d arbitrary: acc)
  case (Cons p d)
  obtain k1 k2 where p: "c ks (fst p) = Inr (Inr (fst p, k1))" "c vs (snd p) = Inr (Inr (snd p, k2))" "s_hashable (fst p)"
    using Cons.prems by (auto simp: settled_def)
  have "\<forall>q \<in> set acc. \<not> s_eq (fst q) (fst p)"
    using Cons.prems by (auto simp: settled_def separate_def sorted_wrt_append)
  then have "sput (fst p) (snd p) acc = acc @ [p]" by (simp add: sput_append)
  then have "map_step pe c ks vs p (acc, []) = Inr (acc @ [p], [])" using p by (simp add: map_step_def)
  then show ?case using Cons.IH [of "acc @ [p]"] Cons.prems by simp
qed simp

lemma map_stable:
  assumes "fixed ks" "stable vs" "map_body pe c ks vs v = Inr (Inr (w, k))"
  shows "\<exists>k'. map_body pe c ks vs w = Inr (Inr (w, k'))"
proof -
  obtain d acc where d: "v = SDict d" "efold (map_step pe c ks vs) d ([], []) = Inr (acc, [])" "w = SDict acc"
    using assms(3) by (auto simp: map_body_def failed_def conformed_def ebind_def split: sval.splits sum.splits if_splits)
  have "settled ks vs acc" using map_settles [OF assms(1,2) d(2)] by (simp add: settled_def separate_def)
  then show ?thesis using map_again [of ks vs "[]" acc pe] by (simp add: d(3) map_body_def conformed_def)
qed

end

end
