(* ===== verification/SpecProps.thy ===== *)
theory SpecProps
  imports SpecLaws
begin

text \<open>
  The properties of conformance: which dicts a keys spec accepts, and that conforming is
  idempotent on every key of the canonical registry.
\<close>

section \<open>Scalars\<close>

lemmas scalar_defs = int_conform_def float_conform_def bool_conform_def str_conform_def bytes_conform_def
  uuid_conform_def inst_conform_def text_conform_def unit_float_conform_def enum_conform_def regex_conform_def
  uuid_str_conform_def non_neg_conform_def keyword_conform_def nonempty_conform_def sha256_conform_def version_conform_def
  conformed_def type_err_def failed_def

lemma any_items_value: "any_items rec v items = Inr (Inr (w, k)) \<Longrightarrow> w = v"
  by (auto simp: any_items_def ebind_def conformed_def split: sum.splits option.splits)

lemma any_value: "any_conform n v = Inr (Inr (w, k)) \<Longrightarrow> w = v"
  by (cases n) (auto simp: conformed_def failed_def dest: any_items_value split: sval.splits)

lemma bytes_again: "bytes_conform v = Inr (w, k) \<Longrightarrow> bytes_conform w = Inr (w, k)"
  by (auto simp: scalar_defs split: sval.splits)

lemma uuid_again: "uuid_conform v = Inr (w, k) \<Longrightarrow> uuid_conform w = Inr (w, k)"
  by (auto simp: scalar_defs split: sval.splits if_splits)

lemma inst_again: "inst_conform pe v = Inr (w, k) \<Longrightarrow> inst_conform pe w = Inr (w, k)"
  by (auto simp: scalar_defs split: sval.splits option.splits pydt.splits)

lemma uuid_str_again: "uuid_str_conform v = Inr (w, k) \<Longrightarrow> uuid_str_conform w = Inr (w, k)"
  by (auto simp: uuid_str_conform_def conformed_def failed_def Let_def uuid_text_reads uuid_text_stable split: sval.splits if_splits)

lemma txn_items_again: "txn_items rec pe v xs = Inr (Inr (w, k)) \<Longrightarrow> w = SList xs \<and> txn_items rec pe w xs = Inr (Inr (w, k))"
  by (auto simp: txn_items_def ebind_def conformed_def failed_def split: sum.splits option.splits)

lemma txn_entries_value: "txn_entries rec pe v d = Inr (Inr (w, k)) \<Longrightarrow> w = v"
  by (auto simp: txn_entries_def ebind_def conformed_def failed_def split: sum.splits option.splits sval.splits)

lemma txn_edn_again:
  assumes "txn_edn_conform pe n v = Inr (Inr (w, k))"
  shows "txn_edn_conform pe n w = Inr (Inr (w, k))"
proof -
  obtain m where n: "n = Suc m" using assms by (cases n) simp_all
  show ?thesis
  proof (cases v)
    case (SList xs)
    then show ?thesis using assms txn_items_again [of "txn_edn_conform pe m" pe v xs w k] by (auto simp: n)
  next
    case (STuple xs)
    then show ?thesis using assms txn_items_again [of "txn_edn_conform pe m" pe v xs w k] by (auto simp: n)
  next
    case (SDict d)
    then show ?thesis using assms txn_entries_value [of "txn_edn_conform pe m" pe v d w k] by (auto simp: n)
  qed (use assms in \<open>auto simp: n conformed_def failed_def\<close>)
qed

lemma node_children_again:
  "node_children self v xs = Inr (Inr (w, k)) \<Longrightarrow> w = STuple xs \<and> node_children self u xs = Inr (Inr (w, k))"
  by (auto simp: node_children_def node_err_def conformed_def ebind_def split: sum.splits if_splits)

lemma node_attrs_again:
  "node_attrs pe self v xs = Inr (Inr (w, k)) \<Longrightarrow> w = STuple xs \<and> node_attrs pe self u xs = Inr (Inr (w, k))"
  by (auto simp: node_attrs_def node_err_def split: sval.splits option.splits if_splits prod.splits dest: node_children_again)

lemma node_again: "node_body pe self v = Inr (Inr (w, k)) \<Longrightarrow> node_body pe self w = Inr (Inr (w, k))"
  by (auto simp: node_body_def node_err_def Let_def split: option.splits sval.splits if_splits dest: node_attrs_again)

section \<open>Conformance refines\<close>

lemma body_fixes:
  assumes "refining c" "fixed sp" "conform_body pe reg c n sp v = Inr (Inr (w, k))"
  shows "w = v"
proof (cases sp)
  case (RegexS p)
  then show ?thesis using assms(3) by (auto simp: conform_body_def scalar_defs ebind_def split: sval.splits sum.splits if_splits)
next
  case AnyValueS
  then show ?thesis using assms(3) any_value [of "Suc n" v w k] by (simp add: conform_body_def del: any_conform.simps)
next
  case (AndS sps)
  then show ?thesis using assms(2,3) refining.and_fixed [OF assms(1), of sps "conformed sp v" v "Some (spec_name sp)" w k]
    by (simp add: conform_body_def conformed_def)
next
  case (OrS sps)
  then show ?thesis using assms(2,3) refining.or_fixed [OF assms(1)] by (fastforce simp: conform_body_def)
next
  case (NotS inner)
  then show ?thesis using assms(3) refining.not_fixed [OF assms(1)] by (fastforce simp: conform_body_def)
next
  case (MaybeS inner)
  then show ?thesis using assms(2,3) refining.maybe_fixed [OF assms(1)] by (fastforce simp: conform_body_def)
qed (use assms in \<open>auto simp: conform_body_def scalar_defs Let_def split: sval.splits flt.splits if_splits\<close>)

definition stable_registry :: "spec_registry \<Rightarrow> bool" where
  "stable_registry reg \<longleftrightarrow> list_all (stable \<circ> snd) reg"

lemma body_again:
  assumes c: "refining c" and "stable sp" "conform_body pe reg c n sp v = Inr (Inr (w, k))" "stable_registry reg"
  shows "\<exists>k'. conform_body pe reg c n sp w = Inr (Inr (w, k'))"
proof (cases "fixed sp")
  case True
  then show ?thesis using body_fixes [OF c True assms(3)] assms(3) by auto
next
  case False
  show ?thesis
  proof (cases sp)
    case (OrS sps)
    then obtain s rest where s: "sps = s # rest" using False by (cases sps) auto
    then show ?thesis using assms(2,3) OrS refining.or_stable [OF c, of s rest "OrS sps" "length sps" v "[]" w k]
      by (simp add: conform_body_def)
  next
    case (RefS key)
    then obtain target where t: "dget reg key = Some target" using assms(3) by (auto simp: conform_body_def failed_def split: option.splits)
    then have "stable target" using assms(4) map_of_SomeD [OF t] by (fastforce simp: stable_registry_def list_all_iff)
    then show ?thesis using assms(3) t RefS refining.accepts_refined [OF c] by (fastforce simp: conform_body_def)
  next
    case (KeysS req opt)
    then show ?thesis using assms(2,3) refining.keys_stable [OF c, of req opt pe v w k]
      by (simp add: conform_body_def list_all_iff ball_Un)
  next
    case (TupleOfS sps)
    then show ?thesis using assms(2,3) refining.tuple_stable [OF c, of sps] by (auto simp: conform_body_def)
  next
    case (SeqOfS s lo hi)
    then show ?thesis using assms(2,3) refining.seq_stable [OF c] by (fastforce simp: conform_body_def)
  next
    case (MapOfS ks vs)
    then show ?thesis using assms(2,3) refining.map_stable [OF c] by (fastforce simp: conform_body_def)
  next
    case (MaybeS s)
    then show ?thesis using assms(2,3) refining.maybe_stable [OF c] by (fastforce simp: conform_body_def)
  next
    case BytesS
    then show ?thesis using assms(3) bytes_again by (auto simp: conform_body_def)
  next
    case UuidS
    then show ?thesis using assms(3) uuid_again by (auto simp: conform_body_def)
  next
    case InstS
    then show ?thesis using assms(3) inst_again by (auto simp: conform_body_def)
  next
    case UuidStrS
    then show ?thesis using assms(3) uuid_str_again by (auto simp: conform_body_def)
  next
    case PlanNodeS
    then show ?thesis using assms(3) node_again [of pe "c PlanNodeS" v w k] by (auto simp: conform_body_def)
  next
    case TxnEdnS
    then show ?thesis using assms(3) txn_edn_again [of pe "Suc n" v w k] by (auto simp: conform_body_def simp del: txn_edn_conform.simps)
  qed (use assms(2) False in auto)
qed

lemma conform_at_ok: "conform_at pe reg (Suc n) sp v = Inr (Inr r) \<longleftrightarrow> conform_body pe reg (conform_at pe reg n) n sp v = Inr (Inr r)"
  by (auto split: sum.splits)

lemma conform_refining:
  assumes "stable_registry reg"
  shows "refining (conform_at pe reg n)"
proof (induction n)
  case 0
  show ?case by unfold_locales simp_all
next
  case (Suc n)
  show ?case
    by unfold_locales (simp_all only: conform_at_ok, erule (1) body_fixes [OF Suc], erule (1) body_again [OF Suc _ _ assms])
qed

section \<open>The canonical registry\<close>

lemma freeze_map_set: "set (freeze_map m) = (\<lambda>(k, sp). (SStr k, sp)) ` set m"
  by (simp add: freeze_map_def)

lemma freeze_map_keys: "map fst (freeze_map m) = map (SStr \<circ> fst) (sort_key (\<lambda>(k, sp). str_repr k) m)"
  by (simp add: freeze_map_def case_prod_unfold)

lemma freeze_map_distinct: "distinct (map fst (freeze_map m)) \<longleftrightarrow> distinct (map fst m)"
  unfolding freeze_map_keys distinct_map set_sort distinct_sort by (auto simp: inj_on_def)

lemma stable_keys_of:
  "stable (keys_of req opt) \<longleftrightarrow> distinct (map fst (req @ opt)) \<and> list_all (stable \<circ> snd) (req @ opt)"
proof -
  have img: "fst ` set (freeze_map m) = SStr ` (fst ` set m)" for m 
    unfolding freeze_map_set by (force simp: image_iff)
  have t: "\<forall>p \<in> set (freeze_map m). case fst p of SStr x \<Rightarrow> True | _ \<Rightarrow> False" for m by (auto simp: freeze_map_set)
  have dj: "SStr ` A \<inter> SStr ` B = {} \<longleftrightarrow> A \<inter> B = {}" for A B by auto
  have "string_keys (freeze_map req @ freeze_map opt) \<longleftrightarrow> distinct (map fst (req @ opt))"
    using t [of req] t [of opt] by (simp add: string_keys_def freeze_map_distinct img dj list_all_iff ball_Un)
  moreover have "list_all (\<lambda>p. stable (snd p)) (freeze_map m) \<longleftrightarrow> list_all (stable \<circ> snd) m" for m
    by (simp add: freeze_map_set list_all_iff case_prod_unfold)
  ultimately show ?thesis by (simp add: keys_of_def)
qed

lemma registered_from:
  "dget (fold (\<lambda>(k, sp). register_spec k sp) xs reg) key = Some sp \<Longrightarrow> sp \<in> snd ` set xs \<or> dget reg key = Some sp"
  by (induction xs arbitrary: reg) (fastforce simp: register_spec_def split: if_splits)+

lemma registered_distinct: "distinct (map fst reg) \<Longrightarrow> distinct (map fst (fold (\<lambda>(k, sp). register_spec k sp) xs reg))"
  by (induction xs arbitrary: reg) (auto simp: register_spec_def distinct_update)

lemmas canonical_specs = datom_spec_def provenance_spec_def effect_op_spec_def verdict_spec_def audit_entry_spec_def
  skill_stats_spec_def plan_skill_spec_def seeds_spec_def str_map_spec_def replay_fact_spec_def trajectory_spec_def
  intervention_spec_def decision_spec_def wacc_assumption_spec_def intent_element_spec_def commute_element_spec_def

lemma canonical_stable:
  "stable datom_spec" "stable effect_op_spec" "stable audit_entry_spec" "stable plan_skill_spec" "stable replay_fact_spec"
  "stable trajectory_spec" "stable intervention_spec" "stable decision_spec" "stable wacc_assumption_spec"
  "stable (seq_of intent_element_spec)" "stable (seq_of commute_element_spec)"
  by (simp_all add: canonical_specs seq_of_def enum_of_def stable_keys_of)

lemma canonical_registry_stable: "stable_registry canonical_registry"
proof -
  have "distinct (map fst canonical_registry)"
    unfolding canonical_registry_def by (rule registered_distinct) simp
  moreover have "stable sp" if "dget canonical_registry key = Some sp" for key sp
    using registered_from [OF that [unfolded canonical_registry_def]] canonical_stable by (auto simp: txn_specs_def seq_of_def)
  ultimately show ?thesis by (fastforce simp: stable_registry_def list_all_iff dest: map_of_is_SomeI)
qed

interpretation canonical: refining "conform_at pe canonical_registry n" for pe n
  by (rule conform_refining [OF canonical_registry_stable])

lemma canonical_get_stable: "dget canonical_registry key = Some sp \<Longrightarrow> stable sp"
  using canonical_registry_stable by (auto simp: stable_registry_def list_all_iff dest!: map_of_SomeD bspec)

text \<open>C37. Conforming is idempotent on every key of the canonical registry, the transaction specs
  included: what conforming a value returned (UUIDs and instants read from text, tuples made
  lists, bytes copied, keys and elements refined) conforms again and comes back as it is, so a
  boundary may conform what another boundary has conformed.\<close>

theorem canonical_conform_idempotent:
  assumes "conform_key pe canonical_registry n key v = Inr (Inr (w, k))"
  shows "conform_key pe canonical_registry n key w = Inr (Inr (w, k))"
proof -
  obtain sp k0 where sp: "dget canonical_registry key = Some sp" "conform_at pe canonical_registry n sp v = Inr (Inr (w, k0))" "k = Some key"
    using assms by (auto simp: conform_key_def ebind_def split: option.splits sum.splits)
  from canonical.accepts_refined [OF canonical_get_stable [OF sp(1)] sp(2)]
  show ?thesis using sp by (auto simp: conform_key_def)
qed

definition demo_env :: spec_env where
  "demo_env = \<lparr>pe_repr = (\<lambda>_. []), pe_str = (\<lambda>_. []), pe_show = (\<lambda>_. []), pe_iso = (\<lambda>_. None), pe_match = (\<lambda>_ _. Inr False)\<rparr>"

lemma read_set_registered: "dget canonical_registry '':persistence.txn/read-set'' = Some (seq_of StrS)"
  by (simp add: canonical_registry_def txn_specs_def register_spec_def)

theorem canonical_conform_idempotent_witness:
  "conform_key demo_env canonical_registry 2 '':persistence.txn/read-set'' (SList [SStr ''a'', SStr ''b''])
     = Inr (Inr (SList [SStr ''a'', SStr ''b''], Some '':persistence.txn/read-set''))"
proof (rule canonical_conform_idempotent [where v = "STuple [SStr ''a'', SStr ''b'']"])
  show "conform_key demo_env canonical_registry 2 '':persistence.txn/read-set'' (STuple [SStr ''a'', SStr ''b''])
     = Inr (Inr (SList [SStr ''a'', SStr ''b''], Some '':persistence.txn/read-set''))"
    by (simp add: conform_key_def read_set_registered conform_body_def seq_of_def seq_body_def indexed_def
        str_conform_def conformed_def Let_def numeral_2_eq_2)
qed

section \<open>Maps with declared keys\<close>

definition accepts :: "spec_env \<Rightarrow> spec_registry \<Rightarrow> nat \<Rightarrow> spec \<Rightarrow> sval \<Rightarrow> bool" where
  "accepts pe reg n sp v \<longleftrightarrow> (case conform_at pe reg n sp v of Inl _ \<Rightarrow> False | Inr r \<Rightarrow> is_ok r)"

lemma keys_step_total:
  "\<exists>acc' es'. keys_step pe (conform_at pe reg (Suc n)) self d req p (acc, es) = Inr (acc', es')
     \<and> (es' = [] \<longleftrightarrow> es = [] \<and> (case sget d (fst p) of None \<Rightarrow> \<not> req | Some x \<Rightarrow> accepts pe reg (Suc n) (snd p) x))"
  by (auto simp: keys_step_def accepts_def is_ok_def split: option.splits sum.splits)

lemma keys_fold_total:
  "\<exists>acc' es'. efold (keys_step pe (conform_at pe reg (Suc n)) self d req) ks (acc, es) = Inr (acc', es')
     \<and> (es' = [] \<longleftrightarrow> es = [] \<and> list_all (\<lambda>p. case sget d (fst p) of None \<Rightarrow> \<not> req | Some x \<Rightarrow> accepts pe reg (Suc n) (snd p) x) ks)"
proof (induction ks arbitrary: acc es)
  case (Cons p ks)
  obtain acc1 es1 where one: "keys_step pe (conform_at pe reg (Suc n)) self d req p (acc, es) = Inr (acc1, es1)"
      "es1 = [] \<longleftrightarrow> es = [] \<and> (case sget d (fst p) of None \<Rightarrow> \<not> req | Some x \<Rightarrow> accepts pe reg (Suc n) (snd p) x)"
    using keys_step_total [of pe reg n self d req p acc es] by blast
  show ?case using Cons.IH [of acc1 es1] unfolding efold.simps one(1) ebind_simps list.pred_inject one(2) by blast
qed simp

text \<open>C38. A map spec accepts exactly the dicts that hold every required key with a conforming
  value and whose declared optional keys, where present, conform too; keys it does not declare
  are let through.\<close>

theorem keys_spec_accepts:
  "accepts pe reg (Suc (Suc n)) (KeysS req opt) v \<longleftrightarrow> (case v of
       SDict d \<Rightarrow>
         list_all (\<lambda>p. case sget d (fst p) of None \<Rightarrow> False | Some x \<Rightarrow> accepts pe reg (Suc n) (snd p) x) req
         \<and> list_all (\<lambda>p. case sget d (fst p) of None \<Rightarrow> True | Some x \<Rightarrow> accepts pe reg (Suc n) (snd p) x) opt
     | _ \<Rightarrow> False)"
proof (cases "\<exists>d. v = SDict d")
  case True
  then obtain d where v: "v = SDict d" by blast
  obtain acc es where one: "efold (keys_step pe (conform_at pe reg (Suc n)) (KeysS req opt) d True) req (d, []) = Inr (acc, es)"
      "es = [] \<longleftrightarrow> list_all (\<lambda>p. case sget d (fst p) of None \<Rightarrow> False | Some x \<Rightarrow> accepts pe reg (Suc n) (snd p) x) req"
    using keys_fold_total [of pe reg n "KeysS req opt" d True req d "[]"]
    by (simp only: not_True_eq_False simp_thms) blast
  obtain acc' es' where two: "efold (keys_step pe (conform_at pe reg (Suc n)) (KeysS req opt) d False) opt (acc, es) = Inr (acc', es')"
      "es' = [] \<longleftrightarrow> es = [] \<and> list_all (\<lambda>p. case sget d (fst p) of None \<Rightarrow> True | Some x \<Rightarrow> accepts pe reg (Suc n) (snd p) x) opt"
    using keys_fold_total [of pe reg n "KeysS req opt" d False opt acc es]
    by (simp only: not_False_eq_True simp_thms) blast
  have "accepts pe reg (Suc (Suc n)) (KeysS req opt) v \<longleftrightarrow> es' = []"
    unfolding accepts_def [of _ _ "Suc (Suc n)"] conform_at.simps(2) [of _ _ "Suc n"] conform_body_def keys_body_def
    by (simp add: v one(1) two(1) Let_def failed_def conformed_def is_ok_def del: conform_at.simps)
  then show ?thesis using one(2) two(2) by (simp add: v)
next
  case False
  then show ?thesis by (cases v) (simp_all add: accepts_def conform_body_def keys_body_def failed_def is_ok_def)
qed

end
