(* ===== verification/FoldInto.thy ===== *)
theory FoldInto
  imports Fork Txn Spec
begin

text \<open>
  \<open>persistence.sdk._fold_into\<close>: run a reducer on every item from the same seed, let a
  callback choose by score, stage the facts of the chosen branch. It wraps \<open>fork_impl\<close>;
  the reducer's database handle is fixed, so the reducer is a function of seed and item.
\<close>

section \<open>Scores\<close>

fun bit_len :: "nat \<Rightarrow> nat" where
  "bit_len n = (if n = 0 then 0 else Suc (bit_len (n div 2)))"

declare bit_len.simps [simp del]

text \<open>\<open>float(i)\<close>: 53 significant bits, half to even; too large raises.\<close>

definition int_to_float :: "int \<Rightarrow> err + flt" where
  "int_to_float i =
     (let n = nat \<bar>i\<bar>; k = bit_len n - 53; q = n div 2 ^ k; r = n mod 2 ^ k;
          up = 2 * r > 2 ^ k \<or> (2 * r = 2 ^ k \<and> odd q);
          m = (if k = 0 then n else (if up then q + 1 else q) * 2 ^ k)
      in if m \<ge> 2 ^ 1024 then Inl OverflowError else Inr (FFin (of_int (sgn i * int m))))"

definition finite_flt :: "flt \<Rightarrow> bool" where
  "finite_flt x \<longleftrightarrow> (case x of FFin _ \<Rightarrow> True | _ \<Rightarrow> False)"

definition coerce_score :: "sval \<Rightarrow> err + flt" where
  "coerce_score raw = (case raw of
       SBool b \<Rightarrow> Inr (FFin (if b then 1 else 0))
     | SInt i \<Rightarrow> ebind (int_to_float i) (\<lambda>x. if finite_flt x then Inr x else Inl ValueError)
     | SFloat x \<Rightarrow> if finite_flt x then Inr x else Inl ValueError
     | _ \<Rightarrow> Inl TypeError)"

section \<open>Branches\<close>

text \<open>What the reducer returns: a triple whose second part may not be a list, or something else.\<close>

datatype fold_return = Triple val "fact list option" sval | NotTriple

record fold_branch_score =
  fbs_item :: val
  fbs_score :: flt
  fbs_accumulator :: val

record fold_into_result =
  fir_chosen_index :: nat
  fir_chosen_score :: flt
  fir_all_scores :: "flt list"
  fir_chosen_accumulator :: val
  fir_final_accumulator :: val
  fir_committed :: nat

text \<open>One call of the wrapper: the captured branch, or the error with whether it was noted as
  a violation of the contract.\<close>

record captured =
  cap_acc :: val
  cap_facts :: "fact list"
  cap_score :: flt

type_synonym reducer = "val \<Rightarrow> val \<Rightarrow> err + fold_return"

definition wrapper_call :: "reducer \<Rightarrow> val \<Rightarrow> val \<Rightarrow> err \<times> bool + captured" where
  "wrapper_call fn seed item = (case fn seed item of
       Inl e \<Rightarrow> Inl (e, False)
     | Inr NotTriple \<Rightarrow> Inl (TypeError, True)
     | Inr (Triple acc None raw) \<Rightarrow> Inl (TypeError, True)
     | Inr (Triple acc (Some facts) raw) \<Rightarrow> (case coerce_score raw of
           Inl e \<Rightarrow> Inl (e, e = TypeError \<or> e = ValueError)
         | Inr s \<Rightarrow> Inr \<lparr>cap_acc = acc, cap_facts = facts, cap_score = s\<rparr>))"

definition wrapper_fn :: "reducer \<Rightarrow> val \<Rightarrow> val \<Rightarrow> val \<Rightarrow> err + val" where
  "wrapper_fn fn seed branch_state item = (case wrapper_call fn seed item of
       Inl (e, _) \<Rightarrow> Inl e | Inr c \<Rightarrow> Inr (cap_acc c))"

text \<open>The calls a fork makes: all of them, or up to the first that raises.\<close>

fun calls_made :: "reducer \<Rightarrow> val \<Rightarrow> fork_policy \<Rightarrow> val list \<Rightarrow> (err \<times> bool + captured) list" where
  "calls_made fn seed pol [] = []"
| "calls_made fn seed pol (x # xs) = (let r = wrapper_call fn seed x in
     r # (if pol = ForkStop \<and> isl r then [] else calls_made fn seed pol xs))"

definition wrapper_violation :: "(err \<times> bool + captured) list \<Rightarrow> err list" where
  "wrapper_violation calls = concat (map (\<lambda>r. case r of Inl (e, True) \<Rightarrow> [e] | _ \<Rightarrow> []) calls)"

text \<open>The successful branches: index, item and what was captured.\<close>

definition successes :: "reducer \<Rightarrow> val \<Rightarrow> val list \<Rightarrow> (nat \<times> val \<times> captured) list" where
  "successes fn seed items = List.map_filter (\<lambda>(i, x). case wrapper_call fn seed x of
     Inl _ \<Rightarrow> None | Inr c \<Rightarrow> Some (i, x, c)) (List.enumerate 0 items)"

definition score_list :: "(nat \<times> val \<times> captured) list \<Rightarrow> fold_branch_score list" where
  "score_list ok = map (\<lambda>(i, x, c). \<lparr>fbs_item = x, fbs_score = cap_score c, fbs_accumulator = cap_acc c\<rparr>) ok"

section \<open>Choosing\<close>

type_synonym fold_chooser = "fold_branch_score list \<Rightarrow> err + val"

datatype choose_cause = AllSkipped | UserChooseRaised err | Vanilla err

definition choose_wrapper :: "fold_chooser \<Rightarrow> (nat \<times> val \<times> captured) list \<Rightarrow> choose_cause + nat" where
  "choose_wrapper choosef ok =
     (if ok = [] then Inl AllSkipped
      else case choosef (score_list ok) of
        Inl e \<Rightarrow> Inl (UserChooseRaised e)
      | Inr (VInt i) \<Rightarrow> if i < 0 \<or> i \<ge> int (length ok) then Inl (Vanilla ValueError) else Inr (fst (ok ! nat i))
      | Inr _ \<Rightarrow> Inl (Vanilla TypeError))"

definition cause_err :: "choose_cause \<Rightarrow> err" where
  "cause_err c = (case c of AllSkipped \<Rightarrow> RuntimeError | UserChooseRaised e \<Rightarrow> e | Vanilla e \<Rightarrow> e)"

section \<open>The call\<close>

text \<open>The error raised, with its \<open>__cause__\<close>.\<close>

type_synonym raised = "err \<times> err option"

definition choose_failed :: "err list \<Rightarrow> choose_cause option \<Rightarrow> raised" where
  "choose_failed violations cause = (case cause of
       Some AllSkipped \<Rightarrow> (ValueError, None)
     | Some (UserChooseRaised e) \<Rightarrow> (FoldIntoChooseError, Some e)
     | Some (Vanilla e) \<Rightarrow> (case violations of v # _ \<Rightarrow> (FoldIntoChooseError, Some v) | [] \<Rightarrow> (FoldIntoChooseError, Some e))
     | None \<Rightarrow> (case violations of v # _ \<Rightarrow> (FoldIntoChooseError, Some v) | [] \<Rightarrow> (FoldIntoChooseError, None)))"

definition fork_failed :: "err \<Rightarrow> err list \<Rightarrow> choose_cause option \<Rightarrow> raised" where
  "fork_failed e violations cause =
     (if e = ForkOutsideDosync then (FoldIntoOutsideDosync, None)
      else if e = ForkChooseError then choose_failed violations cause
      else case violations of v # _ \<Rightarrow> (FoldIntoChooseError, Some v) | [] \<Rightarrow> (e, None))"

definition fold_policies :: "string list" where
  "fold_policies = [''abort'', ''skip'', ''checkpoint'']"

definition fork_policy_of :: "string \<Rightarrow> fork_policy" where
  "fork_policy_of on_error = (if on_error = ''skip'' then ForkContinue else ForkStop)"

text \<open>\<open>db.fork\<close> with the two wrappers; the choice depends on the successful branches only.\<close>

definition fold_run ::
  "fork_env \<Rightarrow> bool \<Rightarrow> val \<Rightarrow> val list \<Rightarrow> reducer \<Rightarrow> choose_cause + nat \<Rightarrow> string \<Rightarrow> intent list \<Rightarrow>
   (err + fork_result) \<times> intent list" where
  "fold_run fe in_dosync seed items fn choice on_error queue =
     fork_impl fe in_dosync items (wrapper_fn fn seed)
       (\<lambda>_. case choice of Inl c \<Rightarrow> Inl (cause_err c) | Inr i \<Rightarrow> Inr (VInt (int i)))
       seed (if fork_policy_of on_error = ForkContinue then ''continue'' else ''stop'') queue"

text \<open>The error of a fork that raised; the chooser was called only if no branch stopped the fork.\<close>

definition fold_error :: "val \<Rightarrow> val list \<Rightarrow> reducer \<Rightarrow> choose_cause + nat \<Rightarrow> string \<Rightarrow> err \<Rightarrow> raised" where
  "fold_error seed items fn choice on_error e =
     (let pol = fork_policy_of on_error;
          reached = pol = ForkContinue \<or> length (successes fn seed items) = length items
      in fork_failed e (wrapper_violation (calls_made fn seed pol items))
        (if reached then (case choice of Inl c \<Rightarrow> Some c | Inr _ \<Rightarrow> None) else None))"

text \<open>Staging the facts of the chosen branch, and the result.\<close>

definition fold_finish ::
  "(nat \<times> val \<times> captured) list \<Rightarrow> int \<Rightarrow> txn \<Rightarrow> (raised + fold_into_result) \<times> txn option" where
  "fold_finish ok chosen tx = (case filter (\<lambda>(j, _). int j = chosen) ok of
       [] \<Rightarrow> (Inl (ValueError, None), Some tx)
     | (i, x, c) # _ \<Rightarrow>
         (Inr \<lparr>fir_chosen_index = length (takeWhile (\<lambda>(j, _). j \<noteq> i) ok), fir_chosen_score = cap_score c,
            fir_all_scores = map (\<lambda>(_, _, c). cap_score c) ok, fir_chosen_accumulator = cap_acc c,
            fir_final_accumulator = cap_acc (snd (snd (last ok))), fir_committed = length (cap_facts c)\<rparr>,
          Some (if cap_facts c = [] then tx else tx_add_facts tx (cap_facts c))))"

text \<open>The result or the error, with the transaction; no transaction counts as outside.\<close>

definition fold_into ::
  "fork_env \<Rightarrow> bool \<Rightarrow> val \<Rightarrow> val list \<Rightarrow> reducer \<Rightarrow> fold_chooser \<Rightarrow> txn option \<Rightarrow> string \<Rightarrow> int \<Rightarrow>
   (raised + fold_into_result) \<times> txn option" where
  "fold_into fe in_dosync seed items fn choosef txo on_error checkpoint_every = (case txo of
     None \<Rightarrow> (Inl (FoldIntoOutsideDosync, None), None)
   | Some tx \<Rightarrow>
       if \<not> in_dosync then (Inl (FoldIntoOutsideDosync, None), Some tx)
       else if on_error \<notin> set fold_policies then (Inl (ValueError, None), Some tx)
       else if checkpoint_every \<noteq> 0 then (Inl (ValueError, None), Some tx)
       else if items = [] then (Inl (ValueError, None), Some tx)
       else
         let ok = successes fn seed items;
             choice = choose_wrapper choosef ok;
             (result, queue) = fold_run fe in_dosync seed items fn choice on_error (tx_intents tx);
             tx' = tx\<lparr>tx_intents := queue\<rparr>
         in case result of
              Inl e \<Rightarrow> (Inl (fold_error seed items fn choice on_error e), Some tx')
            | Inr r \<Rightarrow> fold_finish ok (fr_chosen_index r) tx')"

end
