(* ===== verification/FoldIntoProps.thy ===== *)
theory FoldIntoProps
  imports FoldInto
begin

text \<open>
  The properties of \<open>fold_into\<close>: what it stages and returns is what the chooser picked among
  the successful branches, and an error stages nothing.
\<close>

lemma successes_eq:
  "successes fn seed items = map (\<lambda>(i, x). (i, x, projr (wrapper_call fn seed x)))
     (filter (\<lambda>(i, x). \<not> isl (wrapper_call fn seed x)) (List.enumerate 0 items))"
  by (auto simp: successes_def List.map_filter_def comp_def split: sum.splits intro!: map_cong filter_cong)

lemma successes_distinct: "distinct (map fst (successes fn seed items))"
proof -
  have "map fst (successes fn seed items) = map fst (filter (\<lambda>(i, x). \<not> isl (wrapper_call fn seed x)) (List.enumerate 0 items))"
    by (simp add: successes_eq case_prod_unfold)
  then show ?thesis by (simp add: distinct_map_filter)
qed

lemma distinct_key_find:
  "distinct (map fst ok) \<Longrightarrow> u < length ok \<Longrightarrow> filter (\<lambda>(j, _). j = fst (ok ! u)) ok = [ok ! u]"
proof (induction ok arbitrary: u)
  case (Cons p ok)
  show ?case
  proof (cases u)
    case 0
    have "filter (\<lambda>q. fst q = fst p) ok = []" using Cons.prems by (auto simp: filter_empty_conv) (metis fst_conv image_eqI)
    then show ?thesis using 0 by (simp add: case_prod_unfold)
  next
    case (Suc w)
    then have "fst p \<noteq> fst (ok ! w)" using Cons.prems by (auto simp: image_iff)
    then show ?thesis using Suc Cons by (auto simp: case_prod_unfold)
  qed
qed simp

lemma distinct_key_position:
  "distinct (map fst ok) \<Longrightarrow> u < length ok \<Longrightarrow> length (takeWhile (\<lambda>(j, _). j \<noteq> fst (ok ! u)) ok) = u"
proof (induction ok arbitrary: u)
  case (Cons p ok)
  show ?case
  proof (cases u)
    case (Suc w)
    then have "fst p \<noteq> fst (ok ! w)" using Cons.prems by (auto simp: image_iff)
    then show ?thesis using Suc Cons by (auto simp: case_prod_unfold)
  qed (simp add: case_prod_unfold)
qed simp

lemma choose_wrapper_Inr:
  "choose_wrapper choosef ok = Inr i \<Longrightarrow>
     \<exists>u. choosef (score_list ok) = Inr (VInt (int u)) \<and> u < length ok \<and> i = fst (ok ! u)"
  by (auto simp: choose_wrapper_def split: if_splits sum.splits val.splits intro!: exI [of _ "nat _"])

text \<open>C39. \<open>fold_into\<close> either fails, and then no fact is staged and nothing but queued audit
  intents of the transaction changes, or it returns the branch the chooser picked among the
  branches whose reducer succeeded: exactly that branch's facts are staged, after those already
  there, and its score, accumulator and number of facts are reported with the scores of all
  successful branches in order.\<close>

theorem fold_into_outcome:
  "case fold_into fe in_dosync seed items fn choosef (Some tx) on_error every of
     (Inl e, txo) \<Rightarrow> (case txo of None \<Rightarrow> False | Some tx' \<Rightarrow> tx' = tx\<lparr>tx_intents := tx_intents tx'\<rparr>)
   | (Inr r, txo) \<Rightarrow> (let ok = successes fn seed items; u = fir_chosen_index r; c = snd (snd (ok ! u)) in
       u < length ok \<and> choosef (score_list ok) = Inr (VInt (int u))
       \<and> (case txo of None \<Rightarrow> False | Some tx' \<Rightarrow>
            tx' = tx\<lparr>tx_intents := tx_intents tx', tx_staged := tx_staged tx @ cap_facts c\<rparr>)
       \<and> fir_chosen_score r = cap_score c \<and> fir_chosen_accumulator r = cap_acc c
       \<and> fir_committed r = length (cap_facts c) \<and> fir_all_scores r = map (\<lambda>b. fbs_score b) (score_list ok))"
proof (cases "in_dosync \<and> on_error \<in> set fold_policies \<and> every = 0 \<and> items \<noteq> []")
  case False
  then show ?thesis by (auto simp: fold_into_def)
next
  case True
  define ok where "ok = successes fn seed items"
  define choice where "choice = choose_wrapper choosef ok"
  obtain result queue where run: "fold_run fe in_dosync seed items fn choice on_error (tx_intents tx) = (result, queue)"
    by (cases "fold_run fe in_dosync seed items fn choice on_error (tx_intents tx)")
  have call: "fold_into fe in_dosync seed items fn choosef (Some tx) on_error every =
      (case result of Inl e \<Rightarrow> (Inl (fold_error seed items fn choice on_error e), Some (tx\<lparr>tx_intents := queue\<rparr>))
       | Inr r \<Rightarrow> fold_finish ok (fr_chosen_index r) (tx\<lparr>tx_intents := queue\<rparr>))"
    using True run
    unfolding ok_def choice_def
    by (simp add: fold_into_def Let_def)
  show ?thesis
  proof (cases result)
    case (Inl e)
    then show ?thesis by (simp add: call)
  next
    case (Inr r)
    obtain i where i: "choice = Inr i" "fr_chosen_index r = int i"
      by (rule fork_impl_Inr [OF run [unfolded fold_run_def Inr]]) (auto split: sum.splits)
    obtain u where u: "choosef (score_list ok) = Inr (VInt (int u))" "u < length ok" "i = fst (ok ! u)"
      using choose_wrapper_Inr [of choosef ok i] i(1) by (auto simp: choice_def)
    have d: "distinct (map fst ok)" by (simp add: ok_def successes_distinct)
    obtain x c where ux: "ok ! u = (i, x, c)" using u(3) by (cases "ok ! u") auto
    have f: "filter (\<lambda>(j, _). int j = fr_chosen_index r) ok = [(i, x, c)]"
      using distinct_key_find [OF d u(2)] by (simp add: i(2) ux)
    have p: "length (takeWhile (\<lambda>(j, _). j \<noteq> i) ok) = u" using distinct_key_position [OF d u(2)] by (simp add: ux)
    show ?thesis using f p u(1,2) ux unfolding call Inr
      by (auto simp: fold_finish_def tx_add_facts_def score_list_def case_prod_unfold Let_def simp flip: ok_def)
  qed
qed

section \<open>Contract violations under skip\<close>

text \<open>The first item's reducer breaks the contract, the second returns an accumulator and a score.\<close>

definition broken_first :: reducer where
  "broken_first seed item = (if item = VInt 0 then Inr NotTriple else Inr (Triple item (Some []) (SFloat (FFin 1))))"

lemma broken_first_calls:
  "successes broken_first VNone [VInt 0, VInt 1] = [(1, VInt 1, \<lparr>cap_acc = VInt 1, cap_facts = [], cap_score = FFin 1\<rparr>)]"
  "wrapper_violation (calls_made broken_first VNone ForkContinue [VInt 0, VInt 1]) = [TypeError]"
  by (simp_all add: successes_def List.map_filter_def wrapper_call_def broken_first_def coerce_score_def finite_flt_def
      wrapper_violation_def)

text \<open>A violated contract is not an error under \<open>skip\<close>: the branch is dropped like any other.\<close>

lemma skip_drops_violation:
  "fst (fold_into fe True VNone [VInt 0, VInt 1] broken_first (\<lambda>_. Inr (VInt 0)) (Some tx) ''skip'' 0) =
     Inr \<lparr>fir_chosen_index = 0, fir_chosen_score = FFin 1, fir_all_scores = [FFin 1], fir_chosen_accumulator = VInt 1,
        fir_final_accumulator = VInt 1, fir_committed = 0\<rparr>"
  by (simp add: fold_into_def fold_policies_def Let_def broken_first_calls choose_wrapper_def fold_run_def fork_policy_of_def
      fork_impl_def parse_fork_policy_def run_branch_def wrapper_fn_def wrapper_call_def broken_first_def coerce_score_def
      finite_flt_def validate_choose_index_def fold_finish_def)

text \<open>And when the chooser then returns no index, the error's cause is the dropped branch's.\<close>

lemma skip_blames_branch:
  "fst (fold_into fe True VNone [VInt 0, VInt 1] broken_first (\<lambda>_. Inr (VInt 7)) (Some tx) ''skip'' 0)
     = Inl (FoldIntoChooseError, Some TypeError)"
  by (simp add: fold_into_def fold_policies_def Let_def broken_first_calls choose_wrapper_def fold_run_def fork_policy_of_def
      fork_impl_def parse_fork_policy_def run_branch_def wrapper_fn_def wrapper_call_def broken_first_def coerce_score_def
      finite_flt_def wrapper_violation_def cause_err_def fold_error_def fork_failed_def choose_failed_def)

end
