(* ===== verification/Substrate.thy ===== *)
theory Substrate
  imports AuditProps Db Spec
begin

text \<open>
  \<open>persistence.sdk\<close>: opening a store from a URI (\<open>uri.py\<close>), and the \<open>Substrate\<close>
  facade (\<open>_facade.py\<close>, \<open>_audit.py\<close>): its lifecycle, the audit surface with its two lists, the escape
  hatch, and the namespaces over the fact store and the effect runtime. The process is the
  active runtime (a context variable) with the substrates opened so far.
\<close>

section \<open>Store URIs\<close>

datatype pool_arg = PoolInt int | PoolNum flt

datatype store = MemoryStore | SqliteStore string | PostgresStore string "(string \<times> pool_arg) list"

text \<open>\<open>urlsplit\<close>, \<open>parse_qs\<close>, \<open>geturl\<close>, the number readers, and whether the driver is installed.\<close>

record uri_env =
  ue_path :: "string \<Rightarrow> string"
  ue_query :: "string \<Rightarrow> string"
  ue_params :: "string \<Rightarrow> (string \<times> string) list"
  ue_with_query :: "string \<Rightarrow> string \<Rightarrow> string"
  ue_int :: "string \<Rightarrow> int option"
  ue_float :: "string \<Rightarrow> flt option"
  ue_driver :: bool

type_synonym opener = "string \<Rightarrow> string dict \<Rightarrow> err + store"

definition open_memory :: opener where
  "open_memory uri kwargs = (if py_lower uri \<noteq> ''memory'' then Inl ValueError else Inr MemoryStore)"

definition open_sqlite :: "uri_env \<Rightarrow> opener" where
  "open_sqlite ue uri kwargs =
     (let path = (case dget kwargs ''path'' of Some p \<Rightarrow> p | None \<Rightarrow> ue_path ue uri)
      in if path = [] then Inl ValueError else Inr (SqliteStore path))"

fun split_on :: "char \<Rightarrow> string \<Rightarrow> string list" where
  "split_on c [] = [[]]"
| "split_on c (x # xs) = (if x = c then [] # split_on c xs
     else case split_on c xs of [] \<Rightarrow> [[x]] | p # ps \<Rightarrow> (x # p) # ps)"

definition POOL_KEYS :: "string list" where
  "POOL_KEYS = [''pool_min'', ''pool_max'', ''pool_timeout'']"

definition pool_kwargs :: "uri_env \<Rightarrow> string dict \<Rightarrow> err + (string \<times> pool_arg) list" where
  "pool_kwargs ue kwargs =
     (let int_arg = (\<lambda>k acc. case dget kwargs k of None \<Rightarrow> Inr acc
            | Some raw \<Rightarrow> (case ue_int ue raw of None \<Rightarrow> Inl ValueError | Some i \<Rightarrow> Inr (acc @ [(k, PoolInt i)])))
      in ebind (efold int_arg [''pool_min'', ''pool_max''] []) (\<lambda>acc.
         case dget kwargs ''pool_timeout'' of None \<Rightarrow> Inr acc
         | Some raw \<Rightarrow> (case ue_float ue raw of None \<Rightarrow> Inl ValueError
             | Some x \<Rightarrow> Inr (acc @ [(''pool_timeout'', PoolNum x)]))))"

text \<open>The parameters of the pool are taken off the query before the URI becomes the DSN.\<close>

definition kept_query :: "string \<Rightarrow> string" where
  "kept_query q = join ''&'' (filter (\<lambda>pair. pair \<noteq> [] \<and> takeWhile (\<lambda>c. c \<noteq> CHR ''='') pair \<notin> set POOL_KEYS)
     (split_on (CHR ''&'') q))"

definition open_postgres :: "uri_env \<Rightarrow> opener" where
  "open_postgres ue uri kwargs =
     ebind (pool_kwargs ue kwargs) (\<lambda>pool.
       let dsn = (if pool \<noteq> [] \<and> CHR '':'' \<in> set uri \<and> ue_query ue uri \<noteq> []
                  then ue_with_query ue uri (kept_query (ue_query ue uri)) else uri)
       in if \<not> ue_driver ue then Inl BackendNotInstalled else Inr (PostgresStore dsn pool))"

definition register_backend :: "string \<Rightarrow> opener \<Rightarrow> bool \<Rightarrow> opener dict \<Rightarrow> err + opener dict" where
  "register_backend scheme opener replace backends =
     (if scheme = [] then Inl ValueError
      else if dget backends scheme \<noteq> None \<and> \<not> replace then Inl ValueError
      else Inr (dset scheme opener backends))"

definition default_backends :: "uri_env \<Rightarrow> opener dict" where
  "default_backends ue = [(''memory'', open_memory), (''sqlite'', open_sqlite ue), (''postgres'', open_postgres ue)]"

definition scheme_of :: "string \<Rightarrow> string" where
  "scheme_of uri = py_lower (takeWhile (\<lambda>c. c \<noteq> CHR '':'') uri)"

definition open_store :: "uri_env \<Rightarrow> opener dict \<Rightarrow> string \<Rightarrow> err + store" where
  "open_store ue backends uri =
     (if uri = [] then Inl ValueError
      else case dget backends (scheme_of uri) of
        None \<Rightarrow> Inl UnknownStoreScheme
      | Some opener \<Rightarrow> opener uri (if CHR '':'' \<in> set uri then ue_params ue (ue_query ue uri) else []))"

section \<open>Escape-hatch payloads\<close>

definition ESCAPE_HATCH_MODULES :: "string list" where
  "ESCAPE_HATCH_MODULES = [''fact'', ''effect'', ''plan'', ''replay'', ''txn'', ''spec'', ''repl'']"

text \<open>\<open>sys._getframe(depth)\<close> over the base names of the files of the frames, innermost first.\<close>

definition caller_filename :: "nat \<Rightarrow> string list \<Rightarrow> string" where
  "caller_filename depth frames = (if depth < length frames then frames ! depth else ''<unknown>'')"

record payload =
  pl_module :: string
  pl_caller :: string
  pl_session :: string

definition build_escape_hatch_payload :: "string \<Rightarrow> string \<Rightarrow> nat \<Rightarrow> string list \<Rightarrow> err + payload" where
  "build_escape_hatch_payload name session_id depth callers =
     (if name \<notin> set ESCAPE_HATCH_MODULES then Inl ValueError
      else if session_id = [] then Inl ValueError
      else Inr \<lparr>pl_module = name, pl_caller = caller_filename depth ([''_audit.py'', ''_audit.py''] @ callers),
        pl_session = session_id\<rparr>)"

section \<open>Substrates\<close>

datatype audit_row = EntryRow audit_entry | EscapeRow payload

record substrate =
  sb_store :: store
  sb_log :: log
  sb_audited :: bool
  sb_world :: world
  sb_rows :: "audit_row list"
  sb_token :: "nat option option"
  sb_closed :: bool
  sb_session :: string
  sb_emitted :: "string list"

record process =
  pr_active :: "nat option"
  pr_subs :: "substrate list"

record sdk_env =
  se_digests :: digests
  se_show :: "err \<Rightarrow> string"
  se_fuel :: nat
  se_uri :: uri_env
  se_load :: "store \<Rightarrow> log"

definition sub_at :: "process \<Rightarrow> nat \<Rightarrow> substrate" where
  "sub_at p i = pr_subs p ! i"

definition put_sub :: "nat \<Rightarrow> substrate \<Rightarrow> process \<Rightarrow> process" where
  "put_sub i sb p = p\<lparr>pr_subs := (pr_subs p)[i := sb]\<rparr>"

text \<open>\<open>Substrate.open\<close>; \<open>w\<close> is the clock and the rest of the handlers' world, \<open>session\<close> the fresh id.\<close>

definition sdk_open :: "sdk_env \<Rightarrow> string \<Rightarrow> bool \<Rightarrow> string \<Rightarrow> world \<Rightarrow> process \<Rightarrow> (err + nat) \<times> process" where
  "sdk_open se uri audit session w p = (case open_store (se_uri se) (default_backends (se_uri se)) uri of
     Inl e \<Rightarrow> (Inl e, p)
   | Inr st \<Rightarrow>
       let i = length (pr_subs p);
           sb = \<lparr>sb_store = st, sb_log = (if st = MemoryStore then [] else se_load se st), sb_audited = audit,
             sb_world = w\<lparr>w_entries := []\<rparr>, sb_rows = [], sb_token = (if audit then Some (pr_active p) else None),
             sb_closed = False, sb_session = session, sb_emitted = []\<rparr>
       in (Inr i, p\<lparr>pr_active := (if audit then Some i else pr_active p), pr_subs := pr_subs p @ [sb]\<rparr>))"

text \<open>\<open>close\<close> releases the token, which puts back what was active when the substrate was opened.\<close>

definition sdk_close :: "nat \<Rightarrow> process \<Rightarrow> process" where
  "sdk_close i p = (let sb = sub_at p i in
     if sb_closed sb then p
     else (put_sub i (sb\<lparr>sb_closed := True, sb_token := None\<rparr>) p)
       \<lparr>pr_active := (case sb_token sb of None \<Rightarrow> pr_active p | Some old \<Rightarrow> old)\<rparr>)"

definition check_open :: "nat \<Rightarrow> process \<Rightarrow> err + unit" where
  "check_open i p = (if sb_closed (sub_at p i) then Inl RuntimeError else Inr ())"

definition sdk_enter :: "nat \<Rightarrow> process \<Rightarrow> err + nat" where
  "sdk_enter i p = ebind (check_open i p) (\<lambda>_. Inr i)"

definition runtime_of :: "sdk_env \<Rightarrow> substrate \<Rightarrow> world handler list" where
  "runtime_of se sb = (if sb_audited sb then canonical_audit_stack (se_digests se) (se_show se) else [])"

text \<open>A perform through a substrate's runtime: what the audit handler appends to its own list
  is mirrored into the public one. (The code mirrors at each append; the handler's list only
  grows, so what was mirrored by the end of the perform is its new suffix.)\<close>

definition run_in :: "sdk_env \<Rightarrow> nat \<Rightarrow> string \<Rightarrow> val dict \<Rightarrow> string option \<Rightarrow> process \<Rightarrow> (err + val) \<times> process" where
  "run_in se i op args tc p =
     (let sb = sub_at p i; (r, w) = rt_perform (se_fuel se) (runtime_of se sb) [] op args tc (sb_world sb)
      in (r, put_sub i (sb\<lparr>sb_world := w,
            sb_rows := sb_rows sb @ map EntryRow (drop (length (w_entries (sb_world sb))) (w_entries w))\<rparr>) p))"

text \<open>The module-level \<open>perform\<close>, through whatever runtime is active.\<close>

definition ambient_perform :: "sdk_env \<Rightarrow> bool \<Rightarrow> string \<Rightarrow> val dict \<Rightarrow> process \<Rightarrow> (err + val) \<times> process" where
  "ambient_perform se in_dosync op args p =
     (if in_dosync then (Inl EffectInIoBlock, p)
      else case pr_active p of None \<Rightarrow> (Inl Unhandled, p) | Some i \<Rightarrow> run_in se i op args None p)"

section \<open>Namespaces\<close>

definition sdk_perform :: "sdk_env \<Rightarrow> nat \<Rightarrow> string \<Rightarrow> val dict \<Rightarrow> string option \<Rightarrow> process \<Rightarrow> (err + val) \<times> process" where
  "sdk_perform se i op args tc p = (case check_open i p of Inl e \<Rightarrow> (Inl e, p) | Inr _ \<Rightarrow> run_in se i op args tc p)"

definition sdk_is_well_formed :: "sdk_env \<Rightarrow> nat \<Rightarrow> string list \<Rightarrow> process \<Rightarrow> err + bool" where
  "sdk_is_well_formed se i catalog p = ebind (check_open i p) (\<lambda>_. Inr (is_well_formed (runtime_of se (sub_at p i)) catalog))"

text \<open>Writing and reading the fact store.\<close>

definition fact_write :: "(log \<Rightarrow> err + log) \<Rightarrow> nat \<Rightarrow> process \<Rightarrow> (err + unit) \<times> process" where
  "fact_write f i p = (case ebind (check_open i p) (\<lambda>_. f (sb_log (sub_at p i))) of
     Inl e \<Rightarrow> (Inl e, p) | Inr l \<Rightarrow> (Inr (), put_sub i ((sub_at p i)\<lparr>sb_log := l\<rparr>) p))"

definition sdk_transact :: "env \<Rightarrow> fact list \<Rightarrow> prov \<Rightarrow> bool \<Rightarrow> nat \<Rightarrow> process \<Rightarrow> (err + unit) \<times> process" where
  "sdk_transact env facts pv force = fact_write (\<lambda>l. transact env l facts pv force)"

definition sdk_transact_batch :: "env \<Rightarrow> fact list \<Rightarrow> prov \<Rightarrow> bool \<Rightarrow> nat \<Rightarrow> process \<Rightarrow> (err + unit) \<times> process" where
  "sdk_transact_batch env facts pv force = fact_write (\<lambda>l. transact_batch env l facts pv force)"

definition fact_read :: "(log \<Rightarrow> 'a) \<Rightarrow> nat \<Rightarrow> process \<Rightarrow> err + 'a" where
  "fact_read f i p = ebind (check_open i p) (\<lambda>_. Inr (f (sb_log (sub_at p i))))"

definition sdk_as_of :: "int \<Rightarrow> nat \<Rightarrow> process \<Rightarrow> err + datom list" where
  "sdk_as_of t = fact_read (\<lambda>l. as_of l t)"

definition sdk_as_of_valid :: "int \<Rightarrow> nat \<Rightarrow> process \<Rightarrow> err + datom list" where
  "sdk_as_of_valid t = fact_read (\<lambda>l. as_of_valid l t)"

definition sdk_since :: "int \<Rightarrow> nat \<Rightarrow> process \<Rightarrow> err + datom list" where
  "sdk_since t = fact_read (\<lambda>l. since l t)"

text \<open>\<open>fact.history(e, a)\<close> hands both arguments to \<open>DB.history\<close>, which takes the entity alone.\<close>

definition sdk_history :: "string \<Rightarrow> string \<Rightarrow> nat \<Rightarrow> process \<Rightarrow> err + datom list" where
  "sdk_history e a i p = ebind (check_open i p) (\<lambda>_. Inl TypeError)"

text \<open>\<open>audit.verify_chain\<close> and \<open>audit.entries\<close>.\<close>

definition entry_rows :: "audit_row list \<Rightarrow> audit_entry list" where
  "entry_rows rows = List.map_filter (\<lambda>r. case r of EntryRow e \<Rightarrow> Some e | _ \<Rightarrow> None) rows"

definition sdk_verify_chain :: "sdk_env \<Rightarrow> nat \<Rightarrow> audit_entry list option \<Rightarrow> process \<Rightarrow> err + bool" where
  "sdk_verify_chain se i entries p = ebind (check_open i p) (\<lambda>_. Inr (verify_chain (se_digests se) (case entries of
       Some es \<Rightarrow> es
     | None \<Rightarrow> (let sb = sub_at p i in if sb_audited sb then w_entries (sb_world sb) else entry_rows (sb_rows sb)))))"

definition sdk_entries :: "nat \<Rightarrow> process \<Rightarrow> err + audit_row list" where
  "sdk_entries i p = ebind (check_open i p) (\<lambda>_. Inr (sb_rows (sub_at p i)))"

text \<open>\<open>escape.<name>\<close>, from source file \<open>caller\<close>: the first access of a name leaves a row.\<close>

definition record_first_access :: "string \<Rightarrow> string \<Rightarrow> substrate \<Rightarrow> err + substrate" where
  "record_first_access name caller sb =
     (if name \<in> set (sb_emitted sb) then Inr sb
      else ebind (build_escape_hatch_payload name (sb_session sb) 3 [''_facade.py'', ''_facade.py'', caller]) (\<lambda>pl.
        Inr (sb\<lparr>sb_emitted := sb_emitted sb @ [name], sb_rows := sb_rows sb @ [EscapeRow pl]\<rparr>)))"

definition sdk_escape :: "nat \<Rightarrow> string \<Rightarrow> string \<Rightarrow> process \<Rightarrow> (err + unit) \<times> process" where
  "sdk_escape i name caller p = (case check_open i p of
     Inl e \<Rightarrow> (Inl e, p)
   | Inr _ \<Rightarrow>
       if name \<notin> set ESCAPE_HATCH_MODULES then (Inl AttributeError, p)
       else (case record_first_access name caller (sub_at p i) of
           Inl e \<Rightarrow> (Inl e, put_sub i ((sub_at p i)\<lparr>sb_emitted := sb_emitted (sub_at p i) @ [name]\<rparr>) p)
         | Inr sb \<Rightarrow> (Inr (), put_sub i sb p)))"

section \<open>Steps\<close>

text \<open>What programs over the SDK do, calls that raise included.\<close>

inductive sdk_step :: "sdk_env \<Rightarrow> process \<Rightarrow> process \<Rightarrow> bool" for se where
  opened: "sdk_step se p (snd (sdk_open se uri audit session w p))"
| closed: "i < length (pr_subs p) \<Longrightarrow> sdk_step se p (sdk_close i p)"
| performed: "i < length (pr_subs p) \<Longrightarrow> sdk_step se p (snd (sdk_perform se i op args tc p))"
| ambient: "sdk_step se p (snd (ambient_perform se in_dosync op args p))"
| wrote: "i < length (pr_subs p) \<Longrightarrow> sdk_step se p (snd (sdk_transact env facts pv force i p))"
| wrote_batch: "i < length (pr_subs p) \<Longrightarrow> sdk_step se p (snd (sdk_transact_batch env facts pv force i p))"
| escaped: "i < length (pr_subs p) \<Longrightarrow> sdk_step se p (snd (sdk_escape i name caller p))"

definition no_substrates :: process where
  "no_substrates = \<lparr>pr_active = None, pr_subs = []\<rparr>"

inductive sdk_reachable :: "sdk_env \<Rightarrow> process \<Rightarrow> bool" for se where
  start: "sdk_reachable se no_substrates"
| step: "sdk_reachable se p \<Longrightarrow> sdk_step se p q \<Longrightarrow> sdk_reachable se q"

end
