(* ===== verification/SubstrateProps.thy ===== *)
theory SubstrateProps
  imports Substrate "HOL-Library.Sublist"
begin

text \<open>
  The audit surface of a substrate: its two lists agree and its chain verifies in every state a
  process reaches; what closing does to the active runtime.
\<close>

section \<open>The canonical stack appends\<close>

lemma record_entry_grows: "io_keeps (\<lambda>w. prefix es (w_entries w)) (record_entry cd content)"
  by (auto simp: io_keeps_def record_entry_def split: sum.split)

lemma raw_handlers_grow:
  "stack_keeps (\<lambda>w. prefix es (w_entries w)) [make_canonical_raw_terminator, make_system_clock_handler]"
  by (auto simp: stack_keeps_def make_canonical_raw_terminator_def make_system_clock_handler_def
      clause_keeps_def io_keeps_def)

lemma canonical_stack_split:
  "canonical_audit_stack cd sh = [make_canonical_raw_terminator, make_system_clock_handler]
     @ [make_audit_handler cd (default_cfg sh) CANONICAL_AUDIT_OPS]"
  by (simp add: canonical_audit_stack_def)

lemma canonical_stack_grows: "stack_keeps (\<lambda>w. prefix es (w_entries w)) (canonical_audit_stack cd sh)"
proof -
  have "clause_keeps (\<lambda>w. prefix es (w_entries w)) (audit_clause cd cfg op)" for cfg op
    by (rule audit_clause_keeps_if) (rule record_entry_grows)
  then have "stack_keeps (\<lambda>w. prefix es (w_entries w)) [make_audit_handler cd (default_cfg sh) CANONICAL_AUDIT_OPS]"
    by (auto simp: stack_keeps_def make_audit_handler_def)
  then show ?thesis unfolding canonical_stack_split stack_keeps_append using raw_handlers_grow by blast
qed

lemma canonical_stack_verifies: "stack_keeps (chain_ok cd) (canonical_audit_stack cd sh)"
  unfolding canonical_stack_split stack_keeps_append using raw_handlers_keep audit_handler_keeps by blast

lemma stack_keeps_Nil [simp]: "stack_keeps I []"
  by (simp add: stack_keeps_def)

lemma runtime_grows: "prefix (w_entries w) (w_entries (snd (rt_perform n (runtime_of se sb) [] op args tc w)))"
proof -
  have "stack_keeps (\<lambda>v. prefix (w_entries w) (w_entries v)) (runtime_of se sb)"
    by (simp add: runtime_of_def canonical_stack_grows)
  from rt_perform_keeps [OF this] show ?thesis by (simp add: io_keeps_def)
qed

lemma runtime_verifies:
  "verify_chain (se_digests se) (w_entries w) \<Longrightarrow>
     verify_chain (se_digests se) (w_entries (snd (rt_perform n (runtime_of se sb) [] op args tc w)))"
proof -
  have "stack_keeps (chain_ok (se_digests se)) (runtime_of se sb)"
    by (simp add: runtime_of_def canonical_stack_verifies)
  from rt_perform_keeps [OF this] show
    "verify_chain (se_digests se) (w_entries w) \<Longrightarrow>
     verify_chain (se_digests se) (w_entries (snd (rt_perform n (runtime_of se sb) [] op args tc w)))"
    by (simp add: io_keeps_def chain_ok_def)
qed

section \<open>Substrates in order\<close>

definition escape_rows :: "audit_row list \<Rightarrow> payload list" where
  "escape_rows rows = List.map_filter (\<lambda>r. case r of EscapeRow p \<Rightarrow> Some p | _ \<Rightarrow> None) rows"

lemma rows_append [simp]:
  "entry_rows (a @ b) = entry_rows a @ entry_rows b" "escape_rows (a @ b) = escape_rows a @ escape_rows b"
  "entry_rows [] = []" "escape_rows [] = []"
  "entry_rows [EscapeRow p] = []" "escape_rows [EscapeRow p] = [p]"
  "entry_rows (map EntryRow es) = es" "escape_rows (map EntryRow es) = []"
  by (simp_all add: entry_rows_def escape_rows_def List.map_filter_def comp_def)

text \<open>The public list holds the entries of the chain in order; the chain verifies; the escape
  rows name distinct modules; a closed substrate has given its token back.\<close>

definition substrate_ok :: "digests \<Rightarrow> substrate \<Rightarrow> bool" where
  "substrate_ok cd sb \<longleftrightarrow> entry_rows (sb_rows sb) = w_entries (sb_world sb) \<and> verify_chain cd (w_entries (sb_world sb))
     \<and> distinct (sb_emitted sb) \<and> set (sb_emitted sb) \<subseteq> set ESCAPE_HATCH_MODULES
     \<and> subseq (map pl_module (escape_rows (sb_rows sb))) (sb_emitted sb)
     \<and> list_all (\<lambda>pl. pl_caller pl = ''_facade.py'') (escape_rows (sb_rows sb))
     \<and> \<not> (sb_closed sb \<and> sb_token sb \<noteq> None)"

definition process_ok :: "digests \<Rightarrow> process \<Rightarrow> bool" where
  "process_ok cd p \<longleftrightarrow> list_all (substrate_ok cd) (pr_subs p)"

lemma put_sub_ok: "process_ok cd p \<Longrightarrow> substrate_ok cd sb \<Longrightarrow> process_ok cd (put_sub i sb p)"
  by (auto simp: process_ok_def put_sub_def list_all_iff dest!: set_update_subset_insert [THEN subsetD])

lemma sub_at_ok: "process_ok cd p \<Longrightarrow> i < length (pr_subs p) \<Longrightarrow> substrate_ok cd (sub_at p i)"
  by (auto simp: process_ok_def sub_at_def list_all_iff)

lemma run_in_ok:
  assumes "process_ok (se_digests se) p"
  shows "process_ok (se_digests se) (snd (run_in se i op args tc p))"
proof (cases "i < length (pr_subs p)")
  case True
  define sb where "sb = sub_at p i"
  obtain r w where w: "rt_perform (se_fuel se) (runtime_of se sb) [] op args tc (sb_world sb) = (r, w)" by fastforce
  have ok: "substrate_ok (se_digests se) sb" using sub_at_ok [OF assms True] by (simp add: sb_def)
  have "prefix (w_entries (sb_world sb)) (w_entries w)"
    using runtime_grows [of "sb_world sb" "se_fuel se" se sb op args tc] w by simp
  then have "w_entries (sb_world sb) @ drop (length (w_entries (sb_world sb))) (w_entries w) = w_entries w"
    by (auto simp: prefix_def)
  moreover have "verify_chain (se_digests se) (w_entries w)"
    using runtime_verifies [of se "sb_world sb" "se_fuel se" sb op args tc] w ok by (simp add: substrate_ok_def)
  ultimately show ?thesis
    using ok w unfolding run_in_def Let_def sb_def [symmetric]
    by (auto intro!: put_sub_ok [OF assms] simp: substrate_ok_def)
next
  case False
  then have "put_sub i sb p = p" for sb by (cases p) (simp add: put_sub_def list_update_beyond not_less)
  then show ?thesis using assms by (simp add: run_in_def Let_def split: prod.split)
qed

lemma fact_write_ok:
  assumes "process_ok cd p" "i < length (pr_subs p)"
  shows "process_ok cd (snd (fact_write f i p))"
  using sub_at_ok [OF assms] assms(1) by (auto simp: fact_write_def substrate_ok_def intro!: put_sub_ok [OF assms(1)] split: sum.split)

lemma subseq_snoc: "subseq xs ys \<Longrightarrow> subseq (xs @ [x]) (ys @ [x])"
  by simp

lemma first_access_ok:
  assumes "substrate_ok cd sb" "record_first_access name caller sb = Inr sb'"
  shows "substrate_ok cd sb'"
  using assms
  by (auto simp: record_first_access_def build_escape_hatch_payload_def caller_filename_def substrate_ok_def ebind_def
      split: if_splits intro: subseq_order.trans)

lemma escape_ok:
  assumes p: "process_ok cd p" and i: "i < length (pr_subs p)"
  shows "process_ok cd (snd (sdk_escape i name caller p))"
proof -
  have ok: "substrate_ok cd (sub_at p i)" by (rule sub_at_ok [OF p i])
  have "substrate_ok cd ((sub_at p i)\<lparr>sb_emitted := sb_emitted (sub_at p i) @ [name]\<rparr>)"
    if "record_first_access name caller (sub_at p i) = Inl e" "name \<in> set ESCAPE_HATCH_MODULES" for e
    using ok that by (auto simp: substrate_ok_def record_first_access_def split: if_splits intro: subseq_rev_drop_many)
  then show ?thesis using ok p by (auto simp: sdk_escape_def intro!: put_sub_ok intro: first_access_ok split: sum.split)
qed

lemma open_ok: "process_ok (se_digests se) p \<Longrightarrow> process_ok (se_digests se) (snd (sdk_open se uri audit session w p))"
  by (auto simp: sdk_open_def process_ok_def substrate_ok_def Let_def split: sum.split)

lemma close_ok:
  assumes "process_ok cd p" "i < length (pr_subs p)"
  shows "process_ok cd (sdk_close i p)"
proof -
  have "substrate_ok cd ((sub_at p i)\<lparr>sb_closed := True, sb_token := None\<rparr>)"
    using sub_at_ok [OF assms] by (simp add: substrate_ok_def)
  from put_sub_ok [OF assms(1) this, of i] show ?thesis using assms(1) by (simp add: sdk_close_def Let_def process_ok_def)
qed

lemma step_ok: "sdk_step se p q \<Longrightarrow> process_ok (se_digests se) p \<Longrightarrow> process_ok (se_digests se) q"
  by (induction rule: sdk_step.induct)
    (auto simp: sdk_perform_def ambient_perform_def sdk_transact_def sdk_transact_batch_def
      intro: open_ok close_ok run_in_ok fact_write_ok escape_ok split: sum.split option.split)

lemma reachable_ok: "sdk_reachable se p \<Longrightarrow> process_ok (se_digests se) p"
proof (induction rule: sdk_reachable.induct)
  case start
  then show ?case by (simp add: no_substrates_def process_ok_def)
next
  case (step p q)
  then show ?case by (blast intro: step_ok)
qed

lemma subseq_distinct: "subseq xs ys \<Longrightarrow> distinct ys \<Longrightarrow> distinct xs"
  by (induction rule: list_emb.induct) (auto dest: list_emb_set)

text \<open>C40. In every state a process reaches by opening and closing substrates, performing through
  them or through the active runtime, writing facts and using the escape hatch, with whatever
  raises along the way: the public audit list of a substrate holds exactly its chain, in order,
  among the escape rows; \<open>verify_chain\<close> answers true while it is open; each escape module
  appears at most once; and every escape row names \<open>_facade.py\<close> as its caller, whoever called.\<close>

theorem sdk_audit_surface:
  assumes "sdk_reachable se p" and "i < length (pr_subs p)"
  shows "entry_rows (sb_rows (sub_at p i)) = w_entries (sb_world (sub_at p i))
    \<and> sdk_verify_chain se i None p = (if sb_closed (sub_at p i) then Inl RuntimeError else Inr True)
    \<and> distinct (map pl_module (escape_rows (sb_rows (sub_at p i))))
    \<and> list_all (\<lambda>pl. pl_caller pl = ''_facade.py'') (escape_rows (sb_rows (sub_at p i)))"
proof -
  have ok: "substrate_ok (se_digests se) (sub_at p i)" by (rule sub_at_ok [OF reachable_ok [OF assms(1)] assms(2)])
  then have "sdk_verify_chain se i None p = (if sb_closed (sub_at p i) then Inl RuntimeError else Inr True)"
    by (simp add: sdk_verify_chain_def check_open_def substrate_ok_def Let_def)
  moreover have "distinct (map pl_module (escape_rows (sb_rows (sub_at p i))))"
    using ok subseq_distinct by (auto simp: substrate_ok_def)
  ultimately show ?thesis using ok by (simp add: substrate_ok_def)
qed

definition demo_sdk :: sdk_env where
  "demo_sdk = \<lparr>se_digests = demo_digests, se_show = (\<lambda>_. ''E''), se_fuel = 5,
     se_uri = \<lparr>ue_path = (\<lambda>_. []), ue_query = (\<lambda>_. []), ue_params = (\<lambda>_. []), ue_with_query = (\<lambda>u _. u),
       ue_int = (\<lambda>_. None), ue_float = (\<lambda>_. None), ue_driver = False\<rparr>,
     se_load = (\<lambda>_. [])\<rparr>"

definition opened_once :: process where
  "opened_once = snd (sdk_open demo_sdk ''memory'' True ''a'' world0 no_substrates)"

lemma open_memory_uri: "open_store ue (default_backends ue) ''memory'' = Inr MemoryStore"
  by (simp add: open_store_def scheme_of_def default_backends_def open_memory_def py_lower_def lower_char_def)

lemma opened_once_subs: "length (pr_subs opened_once) = 1" "pr_active opened_once = Some 0" "sb_closed (sub_at opened_once 0) = False"
  "sb_token (sub_at opened_once 0) = Some None"
  by (simp_all add: opened_once_def sdk_open_def open_memory_uri no_substrates_def Let_def sub_at_def)

lemma opened_once_nonempty: "pr_subs opened_once \<noteq> []"
  using opened_once_subs(1) by auto

definition used_once :: process where
  "used_once = snd (sdk_escape 0 ''plan'' ''app.py'' (snd (sdk_perform demo_sdk 0 '':plan/edit'' [] None opened_once)))"

lemma used_once_length: "length (pr_subs used_once) = 1"
  by (simp add: used_once_def sdk_escape_def sdk_perform_def run_in_def put_sub_def opened_once_subs Let_def
      split: sum.split prod.split)

theorem sdk_audit_surface_witness:
  "entry_rows (sb_rows (sub_at used_once 0)) = w_entries (sb_world (sub_at used_once 0))
    \<and> distinct (map pl_module (escape_rows (sb_rows (sub_at used_once 0))))"
proof -
  have "sdk_reachable demo_sdk opened_once"
    unfolding opened_once_def by (rule sdk_reachable.step [OF sdk_reachable.start sdk_step.opened])
  then have "sdk_reachable demo_sdk (snd (sdk_perform demo_sdk 0 '':plan/edit'' [] None opened_once))"
    by (rule sdk_reachable.step) (rule sdk_step.performed, simp add: opened_once_subs)
  then have r: "sdk_reachable demo_sdk used_once" unfolding used_once_def
    by (rule sdk_reachable.step) (rule sdk_step.escaped,
      simp add: sdk_perform_def run_in_def put_sub_def opened_once_subs opened_once_nonempty Let_def split: sum.split prod.split)
  have "0 < length (pr_subs used_once)" by (simp add: used_once_length)
  from sdk_audit_surface [OF r this] show ?thesis by blast
qed

section \<open>The active runtime\<close>

text \<open>Substrates closed in the reverse order of their opening put back what was active before.\<close>

lemma close_restores:
  assumes "sdk_open se uri audit session w p = (Inr i, q)"
  shows "pr_active (sdk_close i q) = pr_active p"
  using assms by (auto simp: sdk_open_def sdk_close_def Let_def put_sub_def sub_at_def split: sum.splits)

text \<open>Closed in the order they were opened, two substrates leave the runtime of the first one
  active although both are closed.\<close>

definition both_closed :: process where
  "both_closed = sdk_close 1 (sdk_close 0 (snd (sdk_open demo_sdk ''memory'' True ''b'' world0 opened_once)))"

lemma interleaved_close_leaks:
  "pr_active both_closed = Some 0" "sb_closed (sub_at both_closed 0)" "sb_closed (sub_at both_closed 1)"
  by (simp_all add: both_closed_def opened_once_def sdk_open_def open_memory_uri no_substrates_def Let_def sub_at_def sdk_close_def put_sub_def)

end
