(* ===== verification/Spec2Isabelle.thy ===== *)
theory Spec2Isabelle
  imports ProjectionProps FoldForkProps Atom Policy Handlers PlanExecProps PlanEditProps PlanParseProps MctsLive MctsStop
    MctsStore PromotionProps ReplAuditProps ReplayProps McpProps McpHttp McpMemory SpecProps FoldIntoProps SubstrateProps
begin

text \<open>
  A model of persistence-os, a bitemporal fact store with transactions and an algebraic-effect
  runtime (Python package \<open>src/src/persistence\<close>; file names below are relative to it).

  \<^bold>\<open>The program.\<close> Facts are datoms in an append-only log (\<open>fact/datom.py\<close>,
  \<open>fact/store.py\<close>); \<open>DB.transact\<close> and \<open>DB.transact_batch\<close> (\<open>fact/db.py\<close>) append them
  with cardinality-one auto-retraction, \<open>DBView.entity\<close> reads them back, and
  \<open>fact/projection.py\<close>, \<open>DB.fold\<close> and \<open>DB.fork\<close> (\<open>fact/_fork.py\<close>) build on these.
  \<open>txn\<close> adds refs, commutes, atoms and \<open>dosync\<close>: a body runs against a snapshot, its
  writes are committed by one \<open>transact_batch\<close> under the store's lock after a conflict
  check, and its queued effect intents are replayed through the active effect runtime.
  \<open>effect\<close> is that runtime: stacks of handlers (audit, policy, cache, retry, rate limit,
  redaction, dry run, clocks), each a set of clauses with a continuation.
  \<open>plan\<close> represents what an agent intends to do as a tree, runs it against the effect runtime,
  lets a running plan be edited between nodes, searches over plans and promotes the winners
  to skills through four gates. \<open>repl\<close> is a JSON server over a database and a ring of audit
  entries: capability tokens, sessions with a cursor, inspection, rewinding, branching and
  confirmed edits. \<open>replay\<close> records what a run drew from the outside and runs it again.
  \<open>spec\<close> checks and refines the values that cross module boundaries against registered
  specs. \<open>sdk\<close> is the surface for users of the package: the \<open>Substrate\<close> facade over a store
  opened from a URI (\<open>sdk/_facade.py\<close>, \<open>sdk/uri.py\<close>), \<open>fold_into\<close> over branches of a
  transaction (\<open>sdk/_fold_into.py\<close>), and an MCP server with six tools over a substrate
  (\<open>sdk/mcp\<close>). The layers call downwards: \<open>txn\<close> writes through \<open>fact\<close> and replays
  intents through \<open>effect\<close>; \<open>plan\<close> runs through \<open>effect\<close> and writes through \<open>txn\<close> and
  \<open>fact\<close>; \<open>repl\<close> and \<open>sdk/mcp\<close> read and write \<open>fact\<close> and keep audit chains of their own.

  \<^bold>\<open>Theories.\<close>
  \<^item> \<open>Prelude\<close>: exceptions as a sum type, loops that stop at the first error, dictionaries,
    strings. \<open>Values\<close>: the values facts and effects carry, with Python's equality,
    truth, hashability, and canonical JSON.
  \<^item> \<open>Datoms\<close>, \<open>Store\<close>, \<open>Db\<close>: \<open>fact/datom.py\<close>, the in-memory store of
    \<open>fact/store.py\<close>, and \<open>fact/db.py\<close>. A \<open>DB\<close> is the list of datoms of its store.
    Every store method runs under the store's lock and is one step.
  \<^item> \<open>LogLaws\<close>: the contract of an append-only log (locale \<open>append_only_log\<close>) with its
    consequences for whole histories; \<open>DbLaws\<close> interprets it on \<open>transact\<close> and on
    \<open>transact_batch\<close>. \<open>BatchEquiv\<close>: the index of \<open>transact_batch\<close> answers as the scan
    of \<open>transact\<close>. \<open>EntityLaws\<close>: which assert \<open>entity\<close> returns. \<open>TransactEffects\<close>,
    \<open>BatchReads\<close>: one write in closed form, frames, and what a fact of a batch reads back
    as. \<open>FactProps\<close>: the properties of the fact module.
  \<^item> \<open>Projection\<close>, \<open>ProjectionProps\<close>: \<open>DictProjection\<close> against \<open>entity\<close>. \<open>Fold\<close>,
    \<open>Fork\<close>, \<open>FoldForkProps\<close>: \<open>DB.fold\<close> and \<open>DB.fork\<close>.
  \<^item> \<open>Txn\<close>: \<open>txn/ref.py\<close>, \<open>txn/_commute.py\<close>, \<open>txn/conflict.py\<close>,
    \<open>txn/transaction.py\<close> and the context-manager form of \<open>txn/_db_extension.py\<close>.
    \<open>TxnLaws\<close>, \<open>TxnProps\<close>: isolation, atomicity, visibility, commutes, the retry loop.
    \<open>Atom\<close>: \<open>txn/atom.py\<close> as an instance of the locale \<open>cell\<close>.
  \<^item> \<open>Runtime\<close>: \<open>effect/runtime.py\<close>. \<open>AuditLog\<close>, \<open>AuditProps\<close>:
    \<open>effect/handlers/audit.py\<close>, \<open>effect/verdicts.py\<close>, \<open>effect/_audit_stack.py\<close>.
    \<open>Policy\<close>: \<open>effect/policy_eval.py\<close> and its handler. \<open>Handlers\<close>: the other
    handlers.

  \<^item> \<open>Json\<close>: JSON text of values. \<open>PlanAst\<close>: the plan tree of \<open>plan/_ast.py\<close> and its
    ids. \<open>PlanParse\<close>, \<open>PlanParseProps\<close>: the plan text form (\<open>plan/_parse.py\<close>).
    \<open>PlanExec\<close>, \<open>PlanExecProps\<close>: \<open>plan/_execute.py\<close>.
    \<open>PlanEdit\<close>, \<open>PlanEditProps\<close>: the edits of a running plan.
  \<^item> \<open>MctsActions\<close>, \<open>Mcts\<close>: the search of \<open>plan/_mcts.py\<close> (nodes by plan id, selection
    by PUCT, expansion, backup, stop reasons). \<open>MctsTable\<close>: its table under expansion and
    backup. \<open>MctsProps\<close>: visits, attempts and failures; \<open>MctsStop\<close>: why a search stops;
    \<open>MctsLive\<close>: which searches return; \<open>MctsStore\<close>: what a search writes to the store.
  \<^item> \<open>Skills\<close>: \<open>plan/_skill_library.py\<close>. \<open>Promotion\<close>, \<open>PromotionProps\<close>:
    \<open>plan/_promotion.py\<close>, the four gates and the record of what they answered.
  \<^item> \<open>ReplCaps\<close>, \<open>ReplCapsProps\<close>: the capability tokens of \<open>repl/_caps.py\<close>.
    \<open>ReplAudit\<close>: how the server emits, bounds, persists and reloads its audit entries.
    \<open>ReplOps\<close>: sessions, the protocol and the operations, as computations over the server
    (\<open>('s, 'a) io\<close>). \<open>ReplServer\<close>: one message from text to reply, the dispatch and the
    states a server reaches.
  \<^item> \<open>ReplLaws\<close>: the locales \<open>world_preorder\<close> and \<open>server_preorder\<close>, what a
    relation kept by every primitive step says of whole computations, interpreted on the
    log, the registry, the ring and the clock. \<open>ReplOpLaws\<close>, \<open>ReplMsgLaws\<close>: the
    same for each operation and each message. \<open>ReplDemo\<close>: a small server for the examples.
    \<open>ReplServerProps\<close>, \<open>ReplAuditProps\<close>: its properties. \<open>ReplMonitor\<close>: an abstract
    monitor that knows of a connection its capabilities, whether it looks at the head, and its
    branch depth, and the simulation of the server by it.
  \<^item> \<open>Replay\<close>: the effect cache, the replay handler, trajectories and their dictionary form,
    the record and replay engine, comparison and preference pairs. \<open>ReplayProps\<close>: identity
    replay.

  \<^item> \<open>PyText\<close>: Python's text functions of the wire formats. \<open>Spec\<close>: values at a boundary,
    the spec classes, conformance, the registry and the explanations (\<open>spec/_types.py\<close>,
    \<open>_primitives.py\<close>, \<open>_combinators.py\<close>, \<open>_registry.py\<close>). \<open>SpecCanonical\<close>: the specs
    of \<open>spec/_canonical.py\<close> and \<open>txn/_specs.py\<close>. \<open>SpecLaws\<close>: what refining keeps, as the
    locale \<open>refining\<close>, which \<open>SpecProps\<close> interprets on the conformance of the canonical
    registry; the properties of conformance.
  \<^item> \<open>McpSchema\<close>: names, budgets and argument schemas of the tools. \<open>McpTools\<close>: the tools
    of \<open>sdk/mcp/_tools.py\<close> and the audit entry of a call. \<open>McpServer\<close>: the rate limiter,
    lifecycle and dispatch, the subscriptions and the HTTP wrapper. \<open>McpLaws\<close>: what a request
    can change, by \<open>world_preorder\<close> on the body of a tool. \<open>McpDemo\<close>: a server for the
    examples. \<open>McpProps\<close>, \<open>McpHttp\<close>, \<open>McpMemory\<close>: guards and audit chain, the HTTP
    wrapper, remember, recall and forget.
  \<^item> \<open>FoldInto\<close>, \<open>FoldIntoProps\<close>: \<open>sdk/_fold_into.py\<close>. \<open>Substrate\<close>,
    \<open>SubstrateProps\<close>: store URIs, the facade and its audit surface.

  \<^bold>\<open>How state and effects are modelled.\<close> Exceptions are the left side of a sum. The clock,
  digests (SHA-256), \<open>datetime.fromisoformat\<close>, regular-expression search, registered
  specs, fresh commit ids and user callbacks are parameters: fields of environment records
  (\<open>env\<close>, \<open>commit_env\<close>, \<open>run_world\<close>, \<open>digests\<close>, \<open>policy_env\<close>) or arguments. What
  other writers do between a transaction's start and its commit is the difference between the
  log the body read and the log the attempt meets. Instants are integers; floats are left out
  of the values of facts and effects, the scores of a search are of an abstract arithmetic, the
  values and scores of \<open>spec\<close> and \<open>fold_into\<close> hold finite doubles as rationals with the
  infinities and NaN apart, and amounts of the rate limiters are rationals.

  A server handles one message as one step. The ids of its sessions are digests of the token id
  and a clock reading; that no two open connections hold the same id is a guard of the runs the
  monitor is compared with, checked in each state, and not an assumption on the digest.

  \<^bold>\<open>Bounds and fuel.\<close> The retry loop of \<open>dosync\<close> terminates by its retry budget (a
  measure). The dispatch of the effect runtime has Python's recursion limit as fuel; the
  properties hold for every fuel, and two levels are enough for an operation of the canonical
  stack and its clock reading. Conformance has the nested calls Python's stack still allows as
  fuel; a call beyond it raises, as in Python, and the properties hold for every fuel. The
  search's descent \<open>select_path\<close> may meet a cycle of node ids and never return, so it is a
  partial function whose value is then \<open>None\<close>; the outer loop of the search is bounded by
  \<open>max_iter\<close>. The plan parser recurses on its input.

  \<^bold>\<open>Not modelled.\<close> The SQLite and PostgreSQL stores with their row codec and migrations; the
  wire form of datoms; the interceptor of a third-party memory client; set and map commutes (they work on a third-party library); the conformance of audit
  datoms to registered specs inside the audit handler (a parameter there); the code-execution
  and random handlers; the effect catalog (a table of schemas); the random samplers of \<open>spec\<close>
  and the EDN form of specs; the stability decorators of \<open>sdk\<close> and the namespaces of its
  facade that only forward to functions modelled here; the bridge to a third-party plan
  optimiser; the command line of \<open>repl\<close>; the demonstration tools of \<open>replay\<close> and the EDN form
  of trajectories. URL parsing, the regular-expression engine, \<open>repr\<close> of foreign objects and
  the ISO reader are parameters.

  \<^bold>\<open>What is left.\<close> The row codec of the stores, the EDN forms and the code-execution handler
  are the parts of the package's own logic a continuation would model first.
\<close>

end
